(* ===== verification/Go_Prelude.thy ===== *)
theory Go_Prelude
  imports Main "HOL-Library.AList" "HOL-Library.State_Monad"
begin

text \<open>
  What every component of the development shares.

  \<^item> Go values: byte strings as \<^typ>\<open>string\<close> (one \<^typ>\<open>char\<close> per byte, so \<open>length\<close> is Go's
    \<open>len\<close>), \<open>map[string]string\<close> as an association list whose order is the order one
    \<open>range\<close> loop visits the keys in, \<open>time.Duration\<close> and \<open>time.Time\<close> as nanoseconds in
    \<^typ>\<open>int\<close>.
  \<^item> Errors as values: \<open>goerr\<close> keeps the chain that \<open>fmt.Errorf\<close> with \<open>%w\<close> builds, so
    that \<open>errors.As\<close> is a walk over it. Formatted text is kept as its format string
    and its arguments (\<open>text\<close>); no property depends on how a message is rendered.
  \<^item> The parts of Go's \<open>strings\<close> and \<open>strconv\<close> the sources use.
  \<^item> The pass monad: a controller pass or a driver call is a program over a state that
    holds the outside world (API server, backends, clock, random source; a type
    parameter), the component's own memory and the trace of the calls made so far. The
    outside world answers every call as it likes and may change at every call, so a fact
    about all runs covers every interleaving with other actors. \<open>pass\<close> is the calculus
    in which properties of all runs are proved.
\<close>

named_theorems pass_rules \<open>introduction rules of the pass calculus\<close>
named_theorems keeps_rules \<open>introduction rules of the history calculus\<close>
named_theorems pass_defs \<open>definitions unfolded before the pass calculus is applied\<close>


section \<open>Durations\<close>

type_synonym time = int
type_synonym duration = int

definition Second :: duration where
  "Second = 1000000000"

definition Minute :: duration where
  "Minute = 60 * Second"

lemma Second_pos [simp]: "0 < Second" and Minute_pos [simp]: "0 < Minute"
  by (simp_all add: Second_def Minute_def)


section \<open>Errors and formatted text\<close>

text \<open>
  The API machinery's classification of an error (\<open>apierrors.IsNotFound\<close> and its kin) and
  a backend's (HTTP status, error code) arrive as data with the error.
\<close>

datatype api_reason = NotFound | AlreadyExists | Conflict | NamespaceTerminating | OtherReason

datatype arg = AStr string | AInt int | ABool bool | AErr goerr | AText "text"
  and "text" = Lit string | Sprintf string "arg list" | ErrText goerr
  and goerr =
    Errorf "text"
  | Wrapf string "arg list" goerr
  | ApiError api_reason string
  | BackendError string int string
  | ErrParameterDrift "text"
  | ErrProvisioningInProgress "text"
  | ErrDeletionInProgress "text" bool

text \<open>The chain \<open>errors.As\<close> walks: \<open>Wrapf\<close> is an \<open>fmt.Errorf\<close> whose \<open>%w\<close> is its last component.\<close>

fun root_cause :: "goerr \<Rightarrow> goerr" where
  "root_cause (Wrapf _ _ e) = root_cause e"
| "root_cause e = e"

definition IsNotFound :: "goerr \<Rightarrow> bool" where
  "IsNotFound e = (case root_cause e of ApiError NotFound _ \<Rightarrow> True | _ \<Rightarrow> False)"

definition IsAlreadyExists :: "goerr \<Rightarrow> bool" where
  "IsAlreadyExists e = (case root_cause e of ApiError AlreadyExists _ \<Rightarrow> True | _ \<Rightarrow> False)"

definition IsNamespaceTerminating :: "goerr \<Rightarrow> bool" where
  "IsNamespaceTerminating e = (case root_cause e of ApiError NamespaceTerminating _ \<Rightarrow> True | _ \<Rightarrow> False)"

lemma root_cause_not_Wrapf [simp]: "root_cause e \<noteq> Wrapf f a e'"
  by (induction e rule: root_cause.induct) auto


section \<open>Go maps with string keys\<close>

type_synonym smap = "(string \<times> string) list"

definition wf_map :: "('k \<times> 'v) list \<Rightarrow> bool" where
  "wf_map m \<longleftrightarrow> distinct (map fst m)"

text \<open>\<open>m[k]\<close> of a missing key is the zero value, here the empty string.\<close>

definition get0 :: "smap \<Rightarrow> string \<Rightarrow> string" where
  "get0 m k = (case map_of m k of Some v \<Rightarrow> v | None \<Rightarrow> [])"

lemma get0_cong: "map_of m = map_of m' \<Longrightarrow> get0 m k = get0 m' k"
  by (simp add: get0_def)

text \<open>\<open>for k, v := range src { dst[k] = v }\<close>\<close>

fun copy_into :: "('k \<times> 'v) list \<Rightarrow> ('k \<times> 'v) list \<Rightarrow> ('k \<times> 'v) list" where
  "copy_into dst [] = dst"
| "copy_into dst ((k, v) # src) = copy_into (AList.update k v dst) src"

lemma wf_map_Nil [simp]: "wf_map []"
  by (simp add: wf_map_def)

lemma wf_map_Cons [simp]: "wf_map ((k, v) # m) \<longleftrightarrow> k \<notin> fst ` set m \<and> wf_map m"
  by (simp add: wf_map_def)

lemma wf_map_update [simp]: "wf_map m \<Longrightarrow> wf_map (AList.update k v m)"
  by (simp add: wf_map_def distinct_update)

lemma wf_map_copy_into [simp]: "wf_map dst \<Longrightarrow> wf_map (copy_into dst src)"
  by (induction dst src rule: copy_into.induct) auto

lemma map_of_copy_into:
  "wf_map src \<Longrightarrow> map_of (copy_into dst src) = map_of dst ++ map_of src"
proof (induction dst src rule: copy_into.induct)
  case (2 dst k v src)
  then have "map_of src k = None"
    by (simp add: map_of_eq_None_iff)
  with 2 show ?case
    by (auto simp: update_conv' map_add_def fun_eq_iff split: option.splits)
qed simp

lemma map_of_copy_into_Nil [simp]: "wf_map src \<Longrightarrow> map_of (copy_into [] src) = map_of src"
  by (simp add: map_of_copy_into)

lemma map_of_wf_in: "wf_map m \<Longrightarrow> map_of m k = Some v \<longleftrightarrow> (k, v) \<in> set m"
  by (simp add: wf_map_def)

text \<open>
  A \<open>range\<close> loop that validates every entry and returns the first error. Which error is
  reported depends on the visiting order; whether there is one does not.
\<close>

fun range_check :: "('k \<Rightarrow> 'v \<Rightarrow> goerr option) \<Rightarrow> ('k \<times> 'v) list \<Rightarrow> goerr option" where
  "range_check chk [] = None"
| "range_check chk ((k, v) # m) = (case chk k v of Some e \<Rightarrow> Some e | None \<Rightarrow> range_check chk m)"

lemma range_check_None:
  "range_check chk m = None \<longleftrightarrow> (\<forall>(k, v) \<in> set m. chk k v = None)"
  by (induction chk m rule: range_check.induct) (auto split: option.splits)

lemma range_check_order:
  "set m = set m' \<Longrightarrow> range_check chk m = None \<longleftrightarrow> range_check chk m' = None"
  by (simp add: range_check_None)


section \<open>Byte strings\<close>

definition HasPrefix :: "string \<Rightarrow> string \<Rightarrow> bool" where
  "HasPrefix s p \<longleftrightarrow> take (length p) s = p"

definition TrimPrefix :: "string \<Rightarrow> string \<Rightarrow> string" where
  "TrimPrefix s p = (if HasPrefix s p then drop (length p) s else s)"

fun Contains :: "string \<Rightarrow> string \<Rightarrow> bool" where
  "Contains [] t = (t = [])"
| "Contains (c # s) t = (HasPrefix (c # s) t \<or> Contains s t)"

fun IndexByte :: "string \<Rightarrow> char \<Rightarrow> nat option" where
  "IndexByte [] c = None"
| "IndexByte (x # s) c = (if x = c then Some 0 else map_option Suc (IndexByte s c))"

fun Join :: "string list \<Rightarrow> string \<Rightarrow> string" where
  "Join [] sep = []"
| "Join [s] sep = s"
| "Join (s # ss) sep = s @ sep @ Join ss sep"

lemma split_at_first:
  "\<lbrakk>a @ x # b = a' @ x # b'; x \<notin> set a; x \<notin> set a'\<rbrakk> \<Longrightarrow> a = a' \<and> b = b'"
proof (induction a arbitrary: a')
  case Nil
  then show ?case by (cases a') auto
next
  case (Cons y a)
  then show ?case by (cases a') auto
qed

lemma HasPrefix_iff: "HasPrefix s p \<longleftrightarrow> (\<exists>r. s = p @ r)"
  by (metis HasPrefix_def append_eq_conv_conj append_take_drop_id)

lemma HasPrefix_append [simp]: "HasPrefix (p @ s) p"
  by (auto simp: HasPrefix_iff)

lemma HasPrefix_length: "HasPrefix s p \<Longrightarrow> length p \<le> length s"
  by (auto simp: HasPrefix_iff)

lemma IndexByte_Some:
  "IndexByte s c = Some i \<Longrightarrow> i < length s \<and> s ! i = c \<and> c \<notin> set (take i s)"
  by (induction s c arbitrary: i rule: IndexByte.induct) (auto split: if_splits)

lemma IndexByte_None: "IndexByte s c = None \<longleftrightarrow> c \<notin> set s"
  by (induction s c rule: IndexByte.induct) auto

lemma IndexByte_append:
  "c \<notin> set s \<Longrightarrow> IndexByte (s @ c # r) c = Some (length s)"
  by (induction s) auto

text \<open>Character classes of the sources' regular expressions, over byte values.\<close>

definition in_range :: "char \<Rightarrow> char \<Rightarrow> char \<Rightarrow> bool" where
  "in_range lo hi c \<longleftrightarrow> (of_char lo :: nat) \<le> of_char c \<and> (of_char c :: nat) \<le> of_char hi"

definition is_lower :: "char \<Rightarrow> bool" where
  "is_lower = in_range (CHR ''a'') (CHR ''z'')"

definition is_upper :: "char \<Rightarrow> bool" where
  "is_upper = in_range (CHR ''A'') (CHR ''Z'')"

definition is_digit :: "char \<Rightarrow> bool" where
  "is_digit = in_range (CHR ''0'') (CHR ''9'')"

lemmas char_class_defs = in_range_def is_lower_def is_upper_def is_digit_def


section \<open>strconv\<close>

text \<open>
  \<open>strconv.ParseInt(s, 10, bits)\<close>: an optional sign and decimal digits. A range error
  still carries the clamped value, which \<open>Atoi\<close>'s caller may use after ignoring the error.
\<close>

datatype num_result = NumOk int | NumSyntax | NumRange int

fun scan_uint :: "nat \<Rightarrow> string \<Rightarrow> int \<Rightarrow> num_result" where
  "scan_uint bits [] n = NumOk n"
| "scan_uint bits (c # s) n =
     (if \<not> is_digit c then NumSyntax
      else let n' = n * 10 + (of_char c - 48) in
        if n' > 2 ^ bits - 1 then NumRange (2 ^ bits - 1) else scan_uint bits s n')"

definition ParseUint :: "nat \<Rightarrow> string \<Rightarrow> num_result" where
  "ParseUint bits s = (if s = [] then NumSyntax else scan_uint bits s 0)"

definition clamp_int :: "nat \<Rightarrow> bool \<Rightarrow> num_result \<Rightarrow> num_result" where
  "clamp_int bits neg r =
     (let lim = 2 ^ (bits - 1) :: int;
          clamp = (\<lambda>un. if \<not> neg \<and> un \<ge> lim then NumRange (lim - 1)
                        else if neg \<and> un > lim then NumRange (- lim)
                        else NumOk (if neg then - un else un))
      in case r of NumSyntax \<Rightarrow> NumSyntax | NumOk un \<Rightarrow> clamp un | NumRange un \<Rightarrow> clamp un)"

definition ParseInt :: "string \<Rightarrow> nat \<Rightarrow> num_result" where
  "ParseInt s bits =
     (case s of
        [] \<Rightarrow> NumSyntax
      | c # r \<Rightarrow>
          if c = CHR ''+'' then clamp_int bits False (ParseUint bits r)
          else if c = CHR ''-'' then clamp_int bits True (ParseUint bits r)
          else clamp_int bits False (ParseUint bits s))"

definition num_ok :: "num_result \<Rightarrow> bool" where
  "num_ok r = (case r of NumOk _ \<Rightarrow> True | _ \<Rightarrow> False)"

text \<open>The value the two-result call returns, the error ignored.\<close>

definition num_value :: "num_result \<Rightarrow> int" where
  "num_value r = (case r of NumOk n \<Rightarrow> n | NumSyntax \<Rightarrow> 0 | NumRange n \<Rightarrow> n)"

definition Atoi :: "string \<Rightarrow> num_result" where
  "Atoi s = ParseInt s 64"

text \<open>\<open>strconv.Itoa\<close>\<close>

definition digit :: "nat \<Rightarrow> char" where
  "digit n = char_of (48 + n)"

fun show_nat :: "nat \<Rightarrow> string" where
  "show_nat n = (if n < 10 then [digit n] else show_nat (n div 10) @ [digit (n mod 10)])"

declare show_nat.simps [simp del]

definition Itoa :: "int \<Rightarrow> string" where
  "Itoa n = (if n < 0 then CHR ''-'' # show_nat (nat (- n)) else show_nat (nat n))"

text \<open>The conversions \<open>int32(n)\<close> and \<open>int16(n)\<close> keep the low bits.\<close>

definition to_int :: "nat \<Rightarrow> int \<Rightarrow> int" where
  "to_int bits n = (n + 2 ^ (bits - 1)) mod 2 ^ bits - 2 ^ (bits - 1)"

text \<open>\<open>strconv.ParseBool\<close>\<close>

definition ParseBool :: "string \<Rightarrow> bool option" where
  "ParseBool s =
     (if s \<in> {''1'', ''t'', ''T'', ''TRUE'', ''true'', ''True''} then Some True
      else if s \<in> {''0'', ''f'', ''F'', ''FALSE'', ''false'', ''False''} then Some False
      else None)"

lemma is_digit_value: "is_digit c \<Longrightarrow> 48 \<le> (of_char c :: int) \<and> (of_char c :: int) \<le> 57"
proof -
  assume "is_digit c"
  then have "48 \<le> (of_char c :: nat)" "(of_char c :: nat) \<le> 57"
    by (simp_all add: is_digit_def in_range_def)
  then have "48 \<le> int (of_char c :: nat)" "int (of_char c :: nat) \<le> 57"
    by linarith+
  moreover have "int (of_char c :: nat) = of_char c"
    by (rule of_nat_of_char)
  ultimately show ?thesis by (simp only: simp_thms)
qed

lemma scan_uint_nonneg:
  "\<lbrakk>0 \<le> n; scan_uint bits s n = NumOk m \<or> scan_uint bits s n = NumRange m\<rbrakk> \<Longrightarrow> 0 \<le> m"
  by (induction bits s n rule: scan_uint.induct) (auto simp: Let_def dest: is_digit_value split: if_splits)

lemma clamp_int_bounds:
  assumes "clamp_int bits neg r = NumOk n"
    and "\<And>un. r = NumOk un \<or> r = NumRange un \<Longrightarrow> 0 \<le> un"
  shows "- (2 ^ (bits - 1)) \<le> n \<and> n < 2 ^ (bits - 1)"
proof -
  from assms(1) obtain un where un: "r = NumOk un \<or> r = NumRange un"
    and n: "n = (if neg then - un else un)" "neg \<Longrightarrow> un \<le> 2 ^ (bits - 1)" "\<not> neg \<Longrightarrow> un < 2 ^ (bits - 1)"
    by (fastforce simp: clamp_int_def Let_def split: num_result.splits if_splits)
  moreover have "0 \<le> un" using assms(2) un by blast
  moreover have "- un < 2 ^ (bits - 1)"
    using \<open>0 \<le> un\<close> zero_less_power [of "2::int" "bits - 1"] by linarith
  moreover have "- (2 ^ (bits - 1)) \<le> un"
    using \<open>0 \<le> un\<close> zero_less_power [of "2::int" "bits - 1"] by linarith
  ultimately show ?thesis by (cases neg) auto
qed

lemma ParseInt_bounds:
  assumes "ParseInt s bits = NumOk n"
  shows "- (2 ^ (bits - 1)) \<le> n \<and> n < 2 ^ (bits - 1)"
proof -
  have "0 \<le> un" if "ParseUint bits s' = NumOk un \<or> ParseUint bits s' = NumRange un" for s' un
    using that scan_uint_nonneg by (auto simp: ParseUint_def split: if_splits)
  with assms show ?thesis
    by (auto simp: ParseInt_def split: list.splits if_splits dest!: clamp_int_bounds)
qed


section \<open>The pass monad\<close>

record ('w, 'e, 'm) sys =
  world :: 'w
  trace :: "'e list"
  memory :: 'm

type_synonym ('w, 'e, 'm, 'a) prog = "(('w, 'e, 'm) sys, 'a) state"

abbreviation ret :: "'a \<Rightarrow> ('s, 'a) state" where
  "ret \<equiv> State_Monad.return"

text \<open>A call to the outside world; \<open>emit\<close> records it, with its answer, in the trace.\<close>

definition ext :: "('w \<Rightarrow> 'a \<times> 'w) \<Rightarrow> ('w, 'e, 'm, 'a) prog" where
  "ext f = State (\<lambda>s. case f (world s) of (a, w) \<Rightarrow> (a, s\<lparr>world := w\<rparr>))"

definition emit :: "'e \<Rightarrow> ('w, 'e, 'm, unit) prog" where
  "emit e = State (\<lambda>s. ((), s\<lparr>trace := trace s @ [e]\<rparr>))"

definition get_memory :: "('w, 'e, 'm, 'm) prog" where
  "get_memory = State (\<lambda>s. (memory s, s))"

definition put_memory :: "'m \<Rightarrow> ('w, 'e, 'm, unit) prog" where
  "put_memory m = State (\<lambda>s. ((), s\<lparr>memory := m\<rparr>))"

definition call :: "('w \<Rightarrow> 'a \<times> 'w) \<Rightarrow> ('a \<Rightarrow> 'e) \<Rightarrow> ('w, 'e, 'm, 'a) prog" where
  "call f ev = do { a \<leftarrow> ext f; emit (ev a); ret a }"

fun each :: "('a \<Rightarrow> ('w, 'e, 'm, unit) prog) \<Rightarrow> 'a list \<Rightarrow> ('w, 'e, 'm, unit) prog" where
  "each f [] = ret ()"
| "each f (x # xs) = do { f x; each f xs }"

text \<open>What one run of a program from state \<open>s\<close> returns, the events it adds and the memory it leaves.\<close>

definition pass_out :: "('w, 'e, 'm, 'a) prog \<Rightarrow> ('w, 'e, 'm) sys \<Rightarrow> 'a" where
  "pass_out p s = fst (run_state p s)"

definition pass_log :: "('w, 'e, 'm, 'a) prog \<Rightarrow> ('w, 'e, 'm) sys \<Rightarrow> 'e list" where
  "pass_log p s = drop (length (trace s)) (trace (snd (run_state p s)))"

definition pass_mem :: "('w, 'e, 'm, 'a) prog \<Rightarrow> ('w, 'e, 'm) sys \<Rightarrow> 'm" where
  "pass_mem p s = memory (snd (run_state p s))"

text \<open>
  \<open>pass m p Q\<close>: every run of \<open>p\<close> from a state with memory \<open>m\<close>, whatever the outside world
  answers, returns an \<open>a\<close>, adds a trace \<open>l\<close> and leaves a memory \<open>m'\<close> with \<open>Q a l m'\<close>.
\<close>

definition pass :: "'m \<Rightarrow> ('w, 'e, 'm, 'a) prog \<Rightarrow> ('a \<Rightarrow> 'e list \<Rightarrow> 'm \<Rightarrow> bool) \<Rightarrow> bool" where
  "pass m p Q \<longleftrightarrow> (\<forall>s. memory s = m \<longrightarrow>
     (case run_state p s of (a, s') \<Rightarrow> \<exists>l. trace s' = trace s @ l \<and> Q a l (memory s')))"

lemma passD:
  assumes "pass (memory s) p Q"
  shows "Q (pass_out p s) (pass_log p s) (pass_mem p s)"
proof -
  obtain a s' where r: "run_state p s = (a, s')" by fastforce
  with assms obtain l where "trace s' = trace s @ l" "Q a l (memory s')"
    unfolding pass_def by fastforce
  with r show ?thesis by (simp add: pass_out_def pass_log_def pass_mem_def)
qed

lemma pass_mono:
  assumes "pass m p P" and "\<And>a l m'. P a l m' \<Longrightarrow> Q a l m'"
  shows "pass m p Q"
  using assms unfolding pass_def by (fastforce split: prod.splits)

lemma pass_ret [pass_rules]: "Q a [] m \<Longrightarrow> pass m (ret a) Q"
  by (simp add: pass_def)

lemma pass_bind [pass_rules]:
  fixes p :: "('w, 'e, 'm, 'a) prog"
  assumes "pass m p (\<lambda>a l m'. pass m' (f a) (\<lambda>b l'. Q b (l @ l')))"
  shows "pass m (State_Monad.bind p f) Q"
  unfolding pass_def
proof (intro allI impI)
  fix s :: "('w, 'e, 'm) sys" assume m: "memory s = m"
  obtain a s1 where r: "run_state p s = (a, s1)" by fastforce
  with assms m obtain l where l: "trace s1 = trace s @ l"
    and p: "pass (memory s1) (f a) (\<lambda>b l'. Q b (l @ l'))"
    unfolding pass_def by fastforce
  obtain b s2 where r2: "run_state (f a) s1 = (b, s2)" by fastforce
  with p obtain l' where "trace s2 = trace s1 @ l'" "Q b (l @ l') (memory s2)"
    unfolding pass_def by fastforce
  with l r r2 show "case run_state (State_Monad.bind p f) s of
      (a, s') \<Rightarrow> \<exists>l. trace s' = trace s @ l \<and> Q a l (memory s')" by simp
qed

text \<open>The answer of a call is one the outside world can give in some state.\<close>

lemma pass_ext [pass_rules]: "(\<And>a. \<exists>w. fst (f w) = a \<Longrightarrow> Q a [] m) \<Longrightarrow> pass m (ext f) Q"
  by (auto simp: pass_def ext_def split: prod.splits) (metis fst_conv)

lemma pass_emit [pass_rules]: "Q () [e] m \<Longrightarrow> pass m (emit e) Q"
  by (simp add: pass_def emit_def)

lemma pass_get_memory [pass_rules]: "Q m [] m \<Longrightarrow> pass m get_memory Q"
  by (simp add: pass_def get_memory_def)

lemma pass_put_memory [pass_rules]: "Q () [] m' \<Longrightarrow> pass m (put_memory m') Q"
  by (simp add: pass_def put_memory_def)

lemma pass_call [pass_rules]:
  "(\<And>a. \<exists>w. fst (f w) = a \<Longrightarrow> Q a [ev a] m) \<Longrightarrow> pass m (call f ev) Q"
  unfolding call_def by (intro pass_rules) simp

lemma pass_if [pass_rules]:
  "\<lbrakk>b \<Longrightarrow> pass m p Q; \<not> b \<Longrightarrow> pass m q Q\<rbrakk> \<Longrightarrow> pass m (if b then p else q) Q"
  by simp

lemma pass_case_option [pass_rules]:
  "\<lbrakk>x = None \<Longrightarrow> pass m p Q; \<And>y. x = Some y \<Longrightarrow> pass m (q y) Q\<rbrakk>
   \<Longrightarrow> pass m (case x of None \<Rightarrow> p | Some y \<Rightarrow> q y) Q"
  by (cases x) auto

lemma pass_case_sum [pass_rules]:
  "\<lbrakk>\<And>e. x = Inl e \<Longrightarrow> pass m (p e) Q; \<And>y. x = Inr y \<Longrightarrow> pass m (q y) Q\<rbrakk>
   \<Longrightarrow> pass m (case x of Inl e \<Rightarrow> p e | Inr y \<Rightarrow> q y) Q"
  by (cases x) auto

lemma pass_case_prod [pass_rules]:
  "(\<And>a b. x = (a, b) \<Longrightarrow> pass m (p a b) Q) \<Longrightarrow> pass m (case x of (a, b) \<Rightarrow> p a b) Q"
  by (cases x) auto

lemma pass_let [pass_rules]: "(\<And>y. y = x \<Longrightarrow> pass m (p y) Q) \<Longrightarrow> pass m (let y = x in p y) Q"
  by simp

lemma pass_each:
  assumes "\<And>x m. x \<in> set xs \<Longrightarrow> I m \<Longrightarrow> pass m (f x) (\<lambda>_ l m'. list_all C l \<and> I m')" and "I m"
  shows "pass m (each f xs) (\<lambda>_ l m'. list_all C l \<and> I m')"
  using assms
proof (induction xs arbitrary: m)
  case Nil
  then show ?case by (auto intro: pass_rules)
next
  case (Cons x xs)
  have "pass m (f x) (\<lambda>_ l m'. list_all C l \<and> I m')"
    using Cons.prems by simp
  then show ?case
    unfolding each.simps
    by (intro pass_bind, elim pass_mono) (auto intro!: Cons.IH Cons.prems(1))
qed

text \<open>The run whose first step is a call that answers \<open>a\<close>.\<close>

lemma passD_ext:
  assumes "fst (f (world s)) = a" and "pass (memory s) (g a) Q"
  shows "Q (pass_out (State_Monad.bind (ext f) g) s) (pass_log (State_Monad.bind (ext f) g) s)
    (pass_mem (State_Monad.bind (ext f) g) s)"
proof -
  obtain w where w: "f (world s) = (a, w)" using assms(1) by (metis prod.collapse)
  have "Q (pass_out (g a) (s\<lparr>world := w\<rparr>)) (pass_log (g a) (s\<lparr>world := w\<rparr>)) (pass_mem (g a) (s\<lparr>world := w\<rparr>))"
    by (rule passD) (simp add: assms(2))
  then show ?thesis
    by (simp add: pass_out_def pass_log_def pass_mem_def ext_def w)
qed


section \<open>Traces\<close>

text \<open>
  \<open>guarded C h l\<close>: after the history \<open>h\<close>, every event \<open>e\<close> of \<open>l\<close> satisfies \<open>C h' e\<close> for the
  history \<open>h'\<close> it occurs at. A contract \<open>C\<close> says which calls may follow which answers.
\<close>

fun guarded :: "('e list \<Rightarrow> 'e \<Rightarrow> bool) \<Rightarrow> 'e list \<Rightarrow> 'e list \<Rightarrow> bool" where
  "guarded C h [] = True"
| "guarded C h (e # l) = (C h e \<and> guarded C (h @ [e]) l)"

lemma guarded_append [simp]: "guarded C h (l @ l') \<longleftrightarrow> guarded C h l \<and> guarded C (h @ l) l'"
  by (induction C h l rule: guarded.induct) auto

lemma guarded_at: "\<lbrakk>guarded C [] l; l = pre @ e # post\<rbrakk> \<Longrightarrow> C pre e"
  by simp

lemma log_split: "\<lbrakk>i < length l; l ! i = e\<rbrakk> \<Longrightarrow> l = take i l @ e # drop (Suc i) l"
  by (auto simp: id_take_nth_drop)

lemma guarded_all: "(\<And>h e. e \<in> set l \<Longrightarrow> C h e) \<Longrightarrow> guarded C h l"
  by (induction C h l rule: guarded.induct) auto

lemma guarded_in: "\<lbrakk>guarded C [] l; e \<in> set l\<rbrakk> \<Longrightarrow> \<exists>pre post. l = pre @ e # post \<and> C pre e"
  by (metis guarded_at split_list)

text \<open>
  \<open>keeps C h p R\<close>: started at the history \<open>h\<close>, every run of \<open>p\<close> makes only calls the contract
  \<open>C\<close> allows, and ends with an answer \<open>a\<close> and a history \<open>h'\<close> such that \<open>R a h'\<close>.
\<close>

definition keeps ::
  "('e list \<Rightarrow> 'e \<Rightarrow> bool) \<Rightarrow> 'e list \<Rightarrow> ('w, 'e, 'm, 'a) prog \<Rightarrow> ('a \<Rightarrow> 'e list \<Rightarrow> bool) \<Rightarrow> bool" where
  "keeps C h p R \<longleftrightarrow> (\<forall>m. pass m p (\<lambda>a l _. guarded C h l \<and> R a (h @ l)))"

lemma keeps_pass: "keeps C h p R \<Longrightarrow> pass m p (\<lambda>a l _. guarded C h l \<and> R a (h @ l))"
  by (simp add: keeps_def)

lemma keepsD: "keeps C [] p R \<Longrightarrow> guarded C [] (pass_log p s) \<and> R (pass_out p s) (pass_log p s)"
  using passD [OF keeps_pass, of C "[]" p R s] by simp

lemma keeps_mono: "\<lbrakk>keeps C h p R; \<And>a h'. R a h' \<Longrightarrow> S a h'\<rbrakk> \<Longrightarrow> keeps C h p S"
  unfolding keeps_def by (blast intro: pass_mono)

lemma keeps_weaken: "\<lbrakk>keeps C h p R; \<And>h e. C h e \<Longrightarrow> D h e\<rbrakk> \<Longrightarrow> keeps D h p R"
proof -
  assume k: "keeps C h p R" and CD: "\<And>h e. C h e \<Longrightarrow> D h e"
  have "guarded C h l \<Longrightarrow> guarded D h l" for h l
    by (induction l arbitrary: h) (use CD in auto)
  with k show ?thesis unfolding keeps_def by (blast intro: pass_mono)
qed

lemma keeps_extends: "keeps C h p R \<Longrightarrow> keeps C h p (\<lambda>a h'. R a h' \<and> (\<exists>l. h' = h @ l))"
  unfolding keeps_def by simp

lemma keeps_tail: "keeps C h p R \<Longrightarrow> keeps C h p (\<lambda>_ _. True)"
  by (erule keeps_mono) simp

lemma keeps_ret [keeps_rules]: "R a h \<Longrightarrow> keeps C h (ret a) R"
  by (auto simp: keeps_def intro: pass_rules)

lemma keeps_bind [keeps_rules]:
  assumes "keeps C h p (\<lambda>a h'. keeps C h' (f a) R)"
  shows "keeps C h (State_Monad.bind p f) R"
  unfolding keeps_def
proof (intro allI pass_bind)
  fix m
  have "pass m' (f a) (\<lambda>b l'. \<lambda>_. guarded C h (l @ l') \<and> R b (h @ l @ l'))"
    if "guarded C h l \<and> keeps C (h @ l) (f a) R" for a l m'
    by (rule pass_mono [OF keeps_pass]) (use that in auto)
  then show "pass m p (\<lambda>a l m'. pass m' (f a) (\<lambda>b l' _. guarded C h (l @ l') \<and> R b (h @ l @ l')))"
    by (intro pass_mono [OF keeps_pass [OF assms]])
qed

lemma keeps_ext [keeps_rules]: "(\<And>a. R a h) \<Longrightarrow> keeps C h (ext f) R"
  by (auto simp: keeps_def intro: pass_rules)

text \<open>The same, with the answer one the outside world can give.\<close>

lemma keeps_ext_answer: "(\<And>a. \<exists>w. fst (f w) = a \<Longrightarrow> R a h) \<Longrightarrow> keeps C h (ext f) R"
  unfolding keeps_def by (intro allI pass_ext) simp

lemma keeps_emit [keeps_rules]: "\<lbrakk>C h e; R () (h @ [e])\<rbrakk> \<Longrightarrow> keeps C h (emit e) R"
  by (auto simp: keeps_def intro: pass_rules)

lemma keeps_call [keeps_rules]:
  "\<lbrakk>\<And>a. C h (ev a); \<And>a. R a (h @ [ev a])\<rbrakk> \<Longrightarrow> keeps C h (call f ev) R"
  by (auto simp: keeps_def intro: pass_rules)

lemma keeps_get_memory [keeps_rules]: "(\<And>m. R m h) \<Longrightarrow> keeps C h get_memory R"
  by (auto simp: keeps_def intro: pass_rules)

lemma keeps_put_memory [keeps_rules]: "R () h \<Longrightarrow> keeps C h (put_memory m) R"
  by (auto simp: keeps_def intro: pass_rules)

lemma keeps_if [keeps_rules]:
  "\<lbrakk>b \<Longrightarrow> keeps C h p R; \<not> b \<Longrightarrow> keeps C h q R\<rbrakk> \<Longrightarrow> keeps C h (if b then p else q) R"
  by simp

lemma keeps_case_option [keeps_rules]:
  "\<lbrakk>x = None \<Longrightarrow> keeps C h p R; \<And>y. x = Some y \<Longrightarrow> keeps C h (q y) R\<rbrakk>
   \<Longrightarrow> keeps C h (case x of None \<Rightarrow> p | Some y \<Rightarrow> q y) R"
  by (cases x) auto

lemma keeps_case_sum [keeps_rules]:
  "\<lbrakk>\<And>e. x = Inl e \<Longrightarrow> keeps C h (p e) R; \<And>y. x = Inr y \<Longrightarrow> keeps C h (q y) R\<rbrakk>
   \<Longrightarrow> keeps C h (case x of Inl e \<Rightarrow> p e | Inr y \<Rightarrow> q y) R"
  by (cases x) auto

lemma keeps_case_prod [keeps_rules]:
  "(\<And>a b. x = (a, b) \<Longrightarrow> keeps C h (p a b) R) \<Longrightarrow> keeps C h (case x of (a, b) \<Rightarrow> p a b) R"
  by (cases x) auto

lemma keeps_case_bool [keeps_rules]:
  "\<lbrakk>b \<Longrightarrow> keeps C h p R; \<not> b \<Longrightarrow> keeps C h q R\<rbrakk> \<Longrightarrow> keeps C h (case b of True \<Rightarrow> p | False \<Rightarrow> q) R"
  by (cases b) auto

lemma keeps_case_list [keeps_rules]:
  "\<lbrakk>x = [] \<Longrightarrow> keeps C h p R; \<And>y ys. x = y # ys \<Longrightarrow> keeps C h (q y ys) R\<rbrakk>
   \<Longrightarrow> keeps C h (case x of [] \<Rightarrow> p | y # ys \<Rightarrow> q y ys) R"
  by (cases x) auto

lemma keeps_let [keeps_rules]: "(\<And>y. y = x \<Longrightarrow> keeps C h (p y) R) \<Longrightarrow> keeps C h (let y = x in p y) R"
  by simp

lemma keeps_each:
  assumes "\<And>x h. x \<in> set xs \<Longrightarrow> I h \<Longrightarrow> keeps C h (f x) (\<lambda>_ h'. I h')" and "I h"
    and "\<And>h'. I h' \<Longrightarrow> R () h'"
  shows "keeps C h (each f xs) R"
proof -
  have "keeps C h (each f xs) (\<lambda>_ h'. I h')"
    using assms(1,2)
  proof (induction xs arbitrary: h)
    case Nil
    then show ?case by (simp add: keeps_ret)
  next
    case (Cons x xs)
    have "keeps C h (f x) (\<lambda>_ h'. I h')" using Cons.prems by simp
    then show ?case
      unfolding each.simps by (intro keeps_bind, elim keeps_mono) (auto intro!: Cons.IH Cons.prems(1))
  qed
  then show ?thesis by (rule keeps_mono) (use assms(3) in auto)
qed

text \<open>The contract kept by a run whose first call answers \<open>a\<close>.\<close>

lemma keepsD_ext:
  assumes "fst (f (world s)) = a" and "keeps C [] (g a) R"
  shows "guarded C [] (pass_log (State_Monad.bind (ext f) g) s) \<and>
    R (pass_out (State_Monad.bind (ext f) g) s) (pass_log (State_Monad.bind (ext f) g) s)"
  by (rule passD_ext [where f = f and a = a and Q = "\<lambda>a l _. guarded C [] l \<and> R a l"])
     (use assms(1) keeps_pass [OF assms(2), of "memory s"] in auto)

lemmas pass_run_defs = ext_def emit_def get_memory_def put_memory_def call_def
  State_Monad.bind_def State_Monad.return_def pass_out_def pass_log_def pass_mem_def


section \<open>Passes one after the other\<close>

definition after_passes :: "('s, 'a) state \<Rightarrow> nat \<Rightarrow> 's \<Rightarrow> 's" where
  "after_passes p k s = ((\<lambda>s. snd (run_state p s)) ^^ k) s"

lemma after_passes_simps: "after_passes p 0 s = s" "after_passes p (Suc k) s = after_passes p k (snd (run_state p s))"
  by (simp_all add: after_passes_def funpow_Suc_right del: funpow.simps(2))

text \<open>Passes that each either finish or go on and shrink a measure.\<close>

lemma passes_end:
  assumes "I s" and step: "\<And>s. I s \<Longrightarrow> D s \<or> G s \<and> I (snd (run_state p s)) \<and> m (snd (run_state p s)) < (m s :: nat)"
  shows "\<exists>k \<le> m s. D (after_passes p k s) \<and> (\<forall>i < k. G (after_passes p i s))"
  using assms(1)
proof (induction "m s" arbitrary: s rule: less_induct)
  case less
  consider "D s" | "G s" "I (snd (run_state p s))" "m (snd (run_state p s)) < m s" using step [OF less.prems] by blast
  then show ?case
  proof cases
    case 1
    then show ?thesis by (intro exI [of _ 0]) (simp add: after_passes_simps)
  next
    case 2
    from less.hyps [OF 2(3,2)] obtain k where k: "k \<le> m (snd (run_state p s))" "D (after_passes p k (snd (run_state p s)))"
      "\<forall>i < k. G (after_passes p i (snd (run_state p s)))" by blast
    have "G (after_passes p i s)" if "i < Suc k" for i
      using that k(3) 2(1) by (cases i) (simp_all add: after_passes_simps)
    with k 2(3) show ?thesis by (intro exI [of _ "Suc k"]) (simp add: after_passes_simps)
  qed
qed

text \<open>Deletion passes: the ones before the one that succeeds report progress.\<close>

lemma deletion_passes_end:
  assumes "I s"
    and step: "\<And>s. I s \<Longrightarrow> (case run_state p s of (r, s') \<Rightarrow>
      r = None \<or> (\<exists>q. r = Some (ErrDeletionInProgress q False)) \<and> I s' \<and> m s' < (m s :: nat))"
  shows "\<exists>k \<le> m s. fst (run_state p (after_passes p k s)) = None \<and>
    (\<forall>i < k. \<exists>q. fst (run_state p (after_passes p i s)) = Some (ErrDeletionInProgress q False))"
proof (rule passes_end [where I = I and s = s, OF assms(1)])
  fix s assume "I s"
  from step [OF this] show "fst (run_state p s) = None \<or> (\<exists>q. fst (run_state p s) = Some (ErrDeletionInProgress q False)) \<and>
      I (snd (run_state p s)) \<and> m (snd (run_state p s)) < m s" by (auto split: prod.splits)
qed

end
