(* ===== verification/Api_Types.thy ===== *)
theory Api_Types
  imports Go_Prelude
begin

text \<open>
  The custom resources of \<open>pkg/api/v1alpha1/types.go\<close> and the Kubernetes machinery both
  reconcilers talk to.

  The API machinery (\<open>apimachinery\<close>, \<open>controller-runtime\<close>, the API server) is not part of
  this repository. Its pure helpers are the fields of the record \<open>kube\<close>, and the locale
  \<open>kube_api\<close> states what their documentation promises; \<open>documented_kube\<close> shows that the
  promises can be kept together. The client calls are the fields of \<open>reader\<close> and
  \<open>client\<close>: functions of the outside world that answer with a value or an error and may
  change the world in any way.
\<close>

section \<open>Object metadata, conditions and Secrets\<close>

record owner_ref =
  orName :: string
  orUID :: string
  orController :: bool

record objmeta =
  Name :: string
  Namespace :: string
  UID :: string
  Labels :: smap
  Generation :: int
  DeletionTimestamp :: "time option"
  Finalizers :: "string list"
  OwnerReferences :: "owner_ref list"

record condition =
  cType :: string
  cStatus :: string
  cReason :: string
  cMessage :: "text"
  cObservedGeneration :: int
  cLastTransitionTime :: time

abbreviation ConditionTrue :: string where "ConditionTrue \<equiv> ''True''"
abbreviation ConditionFalse :: string where "ConditionFalse \<equiv> ''False''"

record secret =
  sMeta :: objmeta
  sType :: string
  sData :: smap

record nsname =
  nsNamespace :: string
  nsName :: string


section \<open>Constants and string enumerations of types.go\<close>

definition FinalizerCleanup :: string where
  "FinalizerCleanup = ''buckety.yolean.se/cleanup''"

definition LabelImplicit :: string where
  "LabelImplicit = ''buckety.yolean.se/implicit''"

definition LabelOwnedSecret :: string where
  "LabelOwnedSecret = ''buckety.yolean.se/owned''"

type_synonym RetentionPolicy = string

definition RetentionRetain :: RetentionPolicy where
  "RetentionRetain = ''Retain''"

definition RetentionDelete :: RetentionPolicy where
  "RetentionDelete = ''Delete''"

type_synonym AdoptionPolicy = string

definition AdoptionAdoptEmpty :: AdoptionPolicy where
  "AdoptionAdoptEmpty = ''AdoptEmpty''"

definition AdoptionAdopt :: AdoptionPolicy where
  "AdoptionAdopt = ''Adopt''"

type_synonym Provenance = string

definition ProvenanceCreated :: Provenance where
  "ProvenanceCreated = ''Created''"

definition ProvenanceAdopted :: Provenance where
  "ProvenanceAdopted = ''Adopted''"

type_synonym Role = string

definition RoleReader :: Role where "RoleReader = ''Reader''"
definition RoleWriter :: Role where "RoleWriter = ''Writer''"
definition RoleReadWrite :: Role where "RoleReadWrite = ''ReadWrite''"

lemmas enum_defs = FinalizerCleanup_def LabelImplicit_def LabelOwnedSecret_def
  RetentionRetain_def RetentionDelete_def AdoptionAdoptEmpty_def AdoptionAdopt_def
  ProvenanceCreated_def ProvenanceAdopted_def RoleReader_def RoleWriter_def RoleReadWrite_def


section \<open>Buckety and BucketyAccess\<close>

record DefaultAccess =
  daRole :: Role
  daCredentialsSecretName :: string

record BucketySpec =
  bsBackend :: string
  bsName :: string
  bsParameters :: smap
  bsRetentionPolicy :: RetentionPolicy
  bsAdoption :: AdoptionPolicy
  bsDefaultAccess :: "DefaultAccess option"

record BucketyStatus =
  stObservedGeneration :: int
  stBackend :: string
  stDriver :: string
  stDriverMajor :: int
  stDriverBuildVersion :: string
  stBackendResourceName :: string
  stProvenance :: Provenance
  stConditions :: "condition list"

record Buckety =
  bMeta :: objmeta
  bSpec :: BucketySpec
  bStatus :: BucketyStatus

record BucketyAccessSpec =
  asBucketyRef :: string
  asCredentialsSecretName :: string
  asRole :: Role
  asParameters :: smap

record BucketyAccessStatus =
  atObservedGeneration :: int
  atPrincipal :: string
  atPrincipalRevocable :: bool
  atConditions :: "condition list"

record BucketyAccess =
  aMeta :: objmeta
  aSpec :: BucketyAccessSpec
  aStatus :: BucketyAccessStatus

text \<open>The sticky fields: stamped together at first reconcile (\<open>SPEC\<close>, Buckety shape).\<close>

definition sticky :: "Buckety \<Rightarrow> string \<times> string \<times> int \<times> string \<times> Provenance" where
  "sticky b = (stBackend (bStatus b), stDriver (bStatus b), stDriverMajor (bStatus b),
     stBackendResourceName (bStatus b), stProvenance (bStatus b))"

definition being_deleted :: "objmeta \<Rightarrow> bool" where
  "being_deleted m \<longleftrightarrow> DeletionTimestamp m \<noteq> None"


section \<open>The API machinery's helpers\<close>

record kube =
  FindStatusCondition :: "condition list \<Rightarrow> string \<Rightarrow> condition option"
  IsStatusConditionTrue :: "condition list \<Rightarrow> string \<Rightarrow> bool"
  SetStatusCondition :: "time \<Rightarrow> condition list \<Rightarrow> condition \<Rightarrow> condition list"
  RemoveStatusCondition :: "condition list \<Rightarrow> string \<Rightarrow> condition list"
  ContainsFinalizer :: "objmeta \<Rightarrow> string \<Rightarrow> bool"
  AddFinalizer :: "objmeta \<Rightarrow> string \<Rightarrow> objmeta"
  RemoveFinalizer :: "objmeta \<Rightarrow> string \<Rightarrow> objmeta"
  SetControllerReference :: "objmeta \<Rightarrow> objmeta \<Rightarrow> goerr + objmeta"
  IsControlledBy :: "objmeta \<Rightarrow> objmeta \<Rightarrow> bool"
  DeepEqual_bstatus :: "BucketyStatus \<Rightarrow> BucketyStatus \<Rightarrow> bool"
  DeepEqual_astatus :: "BucketyAccessStatus \<Rightarrow> BucketyAccessStatus \<Rightarrow> bool"
  DeepEqual_secret :: "secret \<Rightarrow> secret \<Rightarrow> bool"

text \<open>
  \<open>update_condition now c old\<close> is what \<open>SetStatusCondition\<close> is documented to leave for an
  existing condition: every field of \<open>c\<close>, but the transition time moves only when the
  status does.
\<close>

definition update_condition :: "time \<Rightarrow> condition \<Rightarrow> condition \<Rightarrow> condition" where
  "update_condition now c old =
     c\<lparr>cLastTransitionTime :=
         (if cStatus old = cStatus c then cLastTransitionTime old
          else if cLastTransitionTime c = 0 then now else cLastTransitionTime c)\<rparr>"

abbreviation distinct_types :: "condition list \<Rightarrow> bool" where
  "distinct_types cs \<equiv> distinct (map cType cs)"

locale kube_api =
  fixes K :: kube
  assumes find_condition: "FindStatusCondition K cs t = find (\<lambda>c. cType c = t) cs"
    and condition_true: "IsStatusConditionTrue K cs t \<longleftrightarrow>
      (\<exists>c. FindStatusCondition K cs t = Some c \<and> cStatus c = ConditionTrue)"
    and set_present: "\<lbrakk>cType old = cType c; cType c \<notin> cType ` set pre\<rbrakk>
      \<Longrightarrow> SetStatusCondition K now (pre @ old # post) c = pre @ update_condition now c old # post"
    and set_absent: "FindStatusCondition K cs (cType c) = None \<Longrightarrow> SetStatusCondition K now cs c =
      cs @ [if cLastTransitionTime c = 0 then c\<lparr>cLastTransitionTime := now\<rparr> else c]"
    and remove_condition: "RemoveStatusCondition K cs t = filter (\<lambda>c. cType c \<noteq> t) cs"
    and contains_finalizer: "ContainsFinalizer K m f \<longleftrightarrow> f \<in> set (Finalizers m)"
    and add_finalizer: "AddFinalizer K m f =
      (if f \<in> set (Finalizers m) then m else m\<lparr>Finalizers := Finalizers m @ [f]\<rparr>)"
    and remove_finalizer: "RemoveFinalizer K m f = m\<lparr>Finalizers := filter (\<lambda>x. x \<noteq> f) (Finalizers m)\<rparr>"
    and controlled_by: "IsControlledBy K obj owner \<longleftrightarrow>
      (\<exists>r. find orController (OwnerReferences obj) = Some r \<and> orUID r = UID owner)"
    and set_controller: "SetControllerReference K owner obj = Inr obj' \<Longrightarrow>
      IsControlledBy K obj' owner \<and> (\<exists>rs. obj' = obj\<lparr>OwnerReferences := rs\<rparr>)"
    and deep_equal_bstatus: "DeepEqual_bstatus K x y \<longleftrightarrow> x = y"
    and deep_equal_astatus: "DeepEqual_astatus K u v \<longleftrightarrow> u = v"
    and deep_equal_secret: "DeepEqual_secret K a b \<Longrightarrow>
      Name (sMeta a) = Name (sMeta b) \<and> Namespace (sMeta a) = Namespace (sMeta b) \<and>
      map_of (Labels (sMeta a)) = map_of (Labels (sMeta b)) \<and> sType a = sType b \<and> map_of (sData a) = map_of (sData b)"
begin

lemma find_first:
  assumes "FindStatusCondition K cs t = Some old"
  obtains pre post where "cs = pre @ old # post" "cType old = t" "t \<notin> cType ` set pre"
proof -
  from assms obtain i where i: "i < length cs" "cType (cs ! i) = t" "old = cs ! i"
      "\<forall>j<i. cType (cs ! j) \<noteq> t"
    by (auto simp: find_condition find_Some_iff)
  have "t \<notin> cType ` set (take i cs)"
    using i(1,4) by (fastforce simp: in_set_conv_nth)
  with i that [of "take i cs" "drop (Suc i) cs"] show thesis
    by (simp add: id_take_nth_drop)
qed

lemma set_present_distinct:
  assumes "distinct_types cs" and "FindStatusCondition K cs (cType c) = Some old"
  shows "SetStatusCondition K now cs c =
    map (\<lambda>x. if cType x = cType c then update_condition now c x else x) cs"
proof -
  from assms(2) obtain pre post where cs: "cs = pre @ old # post" "cType old = cType c"
    "cType c \<notin> cType ` set pre" by (rule find_first)
  moreover from cs assms(1) have "cType c \<notin> cType ` set post" by auto
  moreover have "map (\<lambda>x. if cType x = cType c then update_condition now c x else x) xs = xs"
    if "cType c \<notin> cType ` set xs" for xs
    using that by (intro map_idI) (auto simp: image_iff)
  ultimately show ?thesis by (simp add: set_present)
qed

lemma set_distinct:
  assumes "distinct_types cs"
  shows "distinct_types (SetStatusCondition K now cs c)"
proof (cases "FindStatusCondition K cs (cType c)")
  case None
  then have "cType c \<notin> cType ` set cs"
    by (auto simp: find_condition find_None_iff)
  with None assms show ?thesis by (simp add: set_absent)
next
  case (Some old)
  have "map cType (map (\<lambda>x. if cType x = cType c then update_condition now c x else x) cs) = map cType cs"
    by (simp add: update_condition_def)
  with assms show ?thesis by (simp only: set_present_distinct [OF assms Some])
qed

lemma remove_distinct: "distinct_types cs \<Longrightarrow> distinct_types (RemoveStatusCondition K cs t)"
  by (simp add: remove_condition distinct_map_filter)

lemma find_append_miss: "t \<notin> cType ` set pre \<Longrightarrow>
  find (\<lambda>x. cType x = t) (pre @ xs) = find (\<lambda>x. cType x = t) xs"
  by (induction pre) auto

lemma find_swap_other: "\<lbrakk>cType d \<noteq> t; cType old \<noteq> t\<rbrakk> \<Longrightarrow>
  find (\<lambda>x. cType x = t) (pre @ d # post) = find (\<lambda>x. cType x = t) (pre @ old # post)"
  by (induction pre) auto

lemma find_set_same:
  "\<exists>c'. FindStatusCondition K (SetStatusCondition K now cs c) (cType c) = Some c' \<and>
     cType c' = cType c \<and> cStatus c' = cStatus c \<and> cReason c' = cReason c \<and>
     cMessage c' = cMessage c \<and> cObservedGeneration c' = cObservedGeneration c"
proof (cases "FindStatusCondition K cs (cType c)")
  case None
  then have "cType c \<notin> cType ` set cs"
    by (auto simp: find_condition find_None_iff)
  with None show ?thesis by (simp add: set_absent find_condition find_append_miss)
next
  case (Some old)
  then obtain pre post where "cs = pre @ old # post" "cType old = cType c" "cType c \<notin> cType ` set pre"
    by (rule find_first)
  then show ?thesis by (simp add: set_present find_condition find_append_miss update_condition_def)
qed

lemma find_set_other:
  assumes "t \<noteq> cType c"
  shows "FindStatusCondition K (SetStatusCondition K now cs c) t = FindStatusCondition K cs t"
proof (cases "FindStatusCondition K cs (cType c)")
  case None
  have "find (\<lambda>x. cType x = t) (cs @ [d]) = find (\<lambda>x. cType x = t) cs" if "cType d \<noteq> t" for d
    using that by (induction cs) auto
  with None assms show ?thesis by (simp add: set_absent find_condition)
next
  case (Some old)
  then obtain pre post where "cs = pre @ old # post" "cType old = cType c" "cType c \<notin> cType ` set pre"
    by (rule find_first)
  moreover from this assms have "find (\<lambda>x. cType x = t) (pre @ update_condition now c old # post) =
      find (\<lambda>x. cType x = t) (pre @ old # post)"
    by (intro find_swap_other) (auto simp: update_condition_def)
  ultimately show ?thesis by (simp add: set_present find_condition)
qed

lemma remove_add_finalizer: "\<not> ContainsFinalizer K (RemoveFinalizer K m f) f"
  by (simp add: contains_finalizer remove_finalizer)

end

text \<open>A helper set that does exactly what the documentation says; it shows the laws consistent.\<close>

fun set_first :: "time \<Rightarrow> condition \<Rightarrow> condition list \<Rightarrow> condition list" where
  "set_first now c [] = [if cLastTransitionTime c = 0 then c\<lparr>cLastTransitionTime := now\<rparr> else c]"
| "set_first now c (x # xs) =
     (if cType x = cType c then update_condition now c x # xs else x # set_first now c xs)"

lemma set_first_present:
  "\<lbrakk>cType old = cType c; cType c \<notin> cType ` set pre\<rbrakk> \<Longrightarrow>
   set_first now c (pre @ old # post) = pre @ update_condition now c old # post"
  by (induction pre) auto

lemma set_first_absent:
  "find (\<lambda>x. cType x = cType c) cs = None \<Longrightarrow> set_first now c cs =
   cs @ [if cLastTransitionTime c = 0 then c\<lparr>cLastTransitionTime := now\<rparr> else c]"
  by (induction cs) (auto split: if_splits)

definition documented_kube :: kube where
  "documented_kube = \<lparr>
     FindStatusCondition = (\<lambda>cs t. find (\<lambda>c. cType c = t) cs),
     IsStatusConditionTrue = (\<lambda>cs t. case find (\<lambda>c. cType c = t) cs of
        Some c \<Rightarrow> cStatus c = ConditionTrue | None \<Rightarrow> False),
     SetStatusCondition = (\<lambda>now cs c. set_first now c cs),
     RemoveStatusCondition = (\<lambda>cs t. filter (\<lambda>c. cType c \<noteq> t) cs),
     ContainsFinalizer = (\<lambda>m f. f \<in> set (Finalizers m)),
     AddFinalizer = (\<lambda>m f. if f \<in> set (Finalizers m) then m
        else m\<lparr>Finalizers := Finalizers m @ [f]\<rparr>),
     RemoveFinalizer = (\<lambda>m f. m\<lparr>Finalizers := filter (\<lambda>x. x \<noteq> f) (Finalizers m)\<rparr>),
     SetControllerReference = (\<lambda>owner obj.
        if list_ex (\<lambda>r. orController r \<and> orUID r \<noteq> UID owner) (OwnerReferences obj)
        then Inl (Errorf (Lit ''already owned by another controller''))
        else Inr (obj\<lparr>OwnerReferences :=
          filter (\<lambda>r. orUID r \<noteq> UID owner) (OwnerReferences obj) @
          [\<lparr>orName = Name owner, orUID = UID owner, orController = True\<rparr>]\<rparr>)),
     IsControlledBy = (\<lambda>obj owner.
        case find orController (OwnerReferences obj) of Some r \<Rightarrow> orUID r = UID owner | None \<Rightarrow> False),
     DeepEqual_bstatus = (\<lambda>x y. x = y),
     DeepEqual_astatus = (\<lambda>x y. x = y),
     DeepEqual_secret = (\<lambda>x y. x = y)\<rparr>"

lemma find_no_controller:
  "\<not> list_ex (\<lambda>r. orController r \<and> orUID r \<noteq> u) rs \<Longrightarrow>
   find orController (filter (\<lambda>r. orUID r \<noteq> u) rs @ [r]) = (if orController r then Some r else None)"
  by (induction rs) auto

interpretation documented: kube_api documented_kube
  by unfold_locales
     (auto simp: documented_kube_def find_no_controller set_first_present set_first_absent
       split: option.splits if_splits)


section \<open>The client\<close>

record 'w reader =
  rdGetBuckety :: "nsname \<Rightarrow> 'w \<Rightarrow> (goerr + Buckety) \<times> 'w"
  rdGetAccess :: "nsname \<Rightarrow> 'w \<Rightarrow> (goerr + BucketyAccess) \<times> 'w"
  rdListAccesses :: "string \<Rightarrow> 'w \<Rightarrow> (goerr + BucketyAccess list) \<times> 'w"
  rdGetSecret :: "nsname \<Rightarrow> 'w \<Rightarrow> (goerr + secret) \<times> 'w"

text \<open>A successful write answers with the object as the server stored it.\<close>

record 'w client = "'w reader" +
  clPatchBuckety :: "Buckety \<Rightarrow> Buckety \<Rightarrow> 'w \<Rightarrow> (goerr + Buckety) \<times> 'w"
  clUpdateBuckety :: "Buckety \<Rightarrow> 'w \<Rightarrow> (goerr + Buckety) \<times> 'w"
  clStatusUpdateBuckety :: "Buckety \<Rightarrow> 'w \<Rightarrow> (goerr + Buckety) \<times> 'w"
  clStatusPatchBuckety :: "Buckety \<Rightarrow> Buckety \<Rightarrow> 'w \<Rightarrow> (goerr + Buckety) \<times> 'w"
  clCreateAccess :: "BucketyAccess \<Rightarrow> 'w \<Rightarrow> (goerr + BucketyAccess) \<times> 'w"
  clDeleteAccess :: "BucketyAccess \<Rightarrow> 'w \<Rightarrow> goerr option \<times> 'w"
  clUpdateAccess :: "BucketyAccess \<Rightarrow> 'w \<Rightarrow> (goerr + BucketyAccess) \<times> 'w"
  clPatchAccess :: "BucketyAccess \<Rightarrow> BucketyAccess \<Rightarrow> 'w \<Rightarrow> (goerr + BucketyAccess) \<times> 'w"
  clStatusPatchAccess :: "BucketyAccess \<Rightarrow> BucketyAccess \<Rightarrow> 'w \<Rightarrow> (goerr + BucketyAccess) \<times> 'w"
  clCreateSecret :: "secret \<Rightarrow> 'w \<Rightarrow> (goerr + secret) \<times> 'w"
  clUpdateSecret :: "secret \<Rightarrow> 'w \<Rightarrow> (goerr + secret) \<times> 'w"

definition err_of :: "goerr + 'a \<Rightarrow> goerr option" where
  "err_of r = (case r of Inl e \<Rightarrow> Some e | Inr _ \<Rightarrow> None)"

lemma err_of_simps [simp]: "err_of (Inl e) = Some e" "err_of (Inr a) = None"
  by (simp_all add: err_of_def)

text \<open>\<open>client.IgnoreNotFound\<close> and \<open>client.IgnoreAlreadyExists\<close>.\<close>

definition IgnoreNotFound :: "goerr option \<Rightarrow> goerr option" where
  "IgnoreNotFound r = (case r of Some e \<Rightarrow> if IsNotFound e then None else Some e | None \<Rightarrow> None)"

definition IgnoreAlreadyExists :: "goerr option \<Rightarrow> goerr option" where
  "IgnoreAlreadyExists r = (case r of Some e \<Rightarrow> if IsAlreadyExists e then None else Some e | None \<Rightarrow> None)"

end
