(* ===== verification/Cadence.thy ===== *)
theory Cadence
  imports Complex_Main Api_Types
begin

text \<open>
  The delays the reconcilers return: the jittered periodic re-check
  (\<open>pkg/controller/cadence/cadence.go\<close>), the deferral of the first pass after a controller
  start (\<open>cadence/startup.go\<close>) and the backoff of stalled teardowns
  (\<open>pkg/controller/buckety/deletebackoff.go\<close>). Random draws are arguments; \<open>float64\<close>
  arithmetic in \<open>Recheck\<close> is exact rational arithmetic here, with Go's conversion to an
  integer (truncation towards zero) written out. The mutex-guarded map of the backoff and
  the \<open>sync.Map\<close> of the start-up record are state passed and returned.
\<close>

section \<open>Periodic re-check\<close>

definition Spread :: rat where
  "Spread = 1 / 10"

definition trunc :: "rat \<Rightarrow> int" where
  "trunc x = (if 0 \<le> x then \<lfloor>x\<rfloor> else \<lceil>x\<rceil>)"

definition Recheck :: "rat \<Rightarrow> duration \<Rightarrow> duration" where
  "Recheck u d = (if d \<le> 0 then d else d + trunc ((u * 2 - 1) * Spread * of_int d))"

lemma trunc_abs: "\<bar>of_int (trunc x)\<bar> \<le> \<bar>x\<bar>"
proof (cases "0 \<le> x")
  case True
  then show ?thesis by (simp add: trunc_def)
next
  case False
  then have "\<lceil>x\<rceil> \<le> 0" by linarith
  then have "of_int \<lceil>x\<rceil> \<le> (0::rat)" by simp
  moreover have "x \<le> of_int \<lceil>x\<rceil>" by simp
  ultimately show ?thesis using False by (simp add: trunc_def)
qed

lemma Recheck_within:
  assumes "0 \<le> u" "u < 1" "0 < d"
  shows "10 * \<bar>Recheck u d - d\<bar> \<le> d"
proof -
  let ?x = "(u * 2 - 1) * Spread * of_int d :: rat"
  have "\<bar>u * 2 - 1\<bar> \<le> 1" using assms(1,2) by auto
  then have "\<bar>u * 2 - 1\<bar> * (Spread * of_int d) \<le> 1 * (Spread * of_int d)"
    by (rule mult_right_mono) (use assms(3) in \<open>simp add: Spread_def\<close>)
  then have "\<bar>?x\<bar> \<le> Spread * of_int d"
    using assms(3) by (simp add: abs_mult Spread_def)
  with trunc_abs [of ?x] have "10 * \<bar>of_int (trunc ?x)\<bar> \<le> (of_int d :: rat)"
    by (simp add: Spread_def)
  then have "(of_int (10 * \<bar>trunc ?x\<bar>) :: rat) \<le> of_int d" by simp
  then have "10 * \<bar>trunc ?x\<bar> \<le> d" by linarith
  with assms(3) show ?thesis by (simp add: Recheck_def)
qed


section \<open>Start-up deferral\<close>

type_synonym Startup = "nsname set"

text \<open>\<open>r\<close> is the draw \<open>rand.Int64N(window)\<close> makes, used only when the pass is deferred.\<close>

definition Defer :: "Startup \<Rightarrow> nsname \<Rightarrow> bool \<Rightarrow> duration \<Rightarrow> int \<Rightarrow> duration \<times> Startup" where
  "Defer seen key settled window r =
     (if key \<in> seen \<or> \<not> settled \<or> window \<le> 0 then 0 else Second + r, insert key seen)"

definition Forget :: "Startup \<Rightarrow> nsname \<Rightarrow> Startup" where
  "Forget seen key = seen - {key}"

lemma Defer_marks: "key \<in> snd (Defer seen key settled window r)"
  by (simp add: Defer_def)

lemma Defer_pos_iff:
  assumes "0 \<le> r"
  shows "0 < fst (Defer seen key settled window r) \<longleftrightarrow> key \<notin> seen \<and> settled \<and> 0 < window"
  using assms by (auto simp: Defer_def Second_def)


section \<open>Teardown backoff\<close>

definition deletionRequeue :: duration where
  "deletionRequeue = 2 * Second"

definition deletionRequeueCap :: duration where
  "deletionRequeueCap = 2 * Minute"

type_synonym deletionBackoff = "string \<rightharpoonup> duration"

definition backoff_next :: "deletionBackoff \<Rightarrow> string \<Rightarrow> bool \<Rightarrow> duration \<times> deletionBackoff" where
  "backoff_next delay uid stalled =
     (if \<not> stalled then (deletionRequeue, delay(uid := None))
      else let d = (case delay uid of None \<Rightarrow> deletionRequeue | Some d \<Rightarrow> min (2 * d) deletionRequeueCap)
           in (d, delay(uid \<mapsto> d)))"

definition backoff_forget :: "deletionBackoff \<Rightarrow> string \<Rightarrow> deletionBackoff" where
  "backoff_forget delay uid = delay(uid := None)"

text \<open>A teardown's passes over one Buckety: the delays returned, and the state left.\<close>

fun backoff_run :: "deletionBackoff \<Rightarrow> string \<Rightarrow> bool list \<Rightarrow> duration list \<times> deletionBackoff" where
  "backoff_run delay uid [] = ([], delay)"
| "backoff_run delay uid (stalled # ps) =
     (let (d, delay') = backoff_next delay uid stalled;
          (ds, delay'') = backoff_run delay' uid ps
      in (d # ds, delay''))"

definition backoff_ok :: "deletionBackoff \<Rightarrow> bool" where
  "backoff_ok delay \<longleftrightarrow> (\<forall>uid d. delay uid = Some d \<longrightarrow> deletionRequeue \<le> d \<and> d \<le> deletionRequeueCap)"

lemmas backoff_consts = deletionRequeue_def deletionRequeueCap_def Second_def Minute_def

lemma backoff_next_ok:
  assumes "backoff_ok delay" and "backoff_next delay uid stalled = (d, delay')"
  shows "backoff_ok delay' \<and> deletionRequeue \<le> d \<and> d \<le> deletionRequeueCap"
  using assms
  by (fastforce simp: backoff_ok_def backoff_next_def Let_def backoff_consts split: if_splits option.splits)

lemma backoff_forget_ok: "backoff_ok delay \<Longrightarrow> backoff_ok (backoff_forget delay uid)"
  by (simp add: backoff_ok_def backoff_forget_def)

lemma backoff_next_other: "uid' \<noteq> uid \<Longrightarrow> snd (backoff_next delay uid stalled) uid' = delay uid'"
  by (auto simp: backoff_next_def Let_def)

lemma fst_backoff_run_Cons:
  "fst (backoff_run delay uid (p # ps)) =
     fst (backoff_next delay uid p) # fst (backoff_run (snd (backoff_next delay uid p)) uid ps)"
  by (simp split: prod.splits)

lemma backoff_run_stalled:
  assumes "delay uid = Some (min (2 ^ k * deletionRequeue) deletionRequeueCap)"
  shows "fst (backoff_run delay uid (replicate n True)) =
    map (\<lambda>i. min (2 ^ i * deletionRequeue) deletionRequeueCap) [Suc k ..< Suc k + n]"
  using assms
proof (induction n arbitrary: delay k)
  case (Suc n)
  let ?d = "min (2 ^ Suc k * deletionRequeue) deletionRequeueCap"
  have next_: "backoff_next delay uid True = (?d, delay(uid \<mapsto> ?d))"
    using Suc.prems by (simp add: backoff_next_def Let_def min_def backoff_consts)
  have "fst (backoff_run (delay(uid \<mapsto> ?d)) uid (replicate n True)) =
      map (\<lambda>i. min (2 ^ i * deletionRequeue) deletionRequeueCap) [Suc (Suc k) ..< Suc (Suc k) + n]"
    by (rule Suc.IH) simp
  then have "fst (backoff_run delay uid (True # replicate n True)) =
      ?d # map (\<lambda>i. min (2 ^ i * deletionRequeue) deletionRequeueCap) [Suc (Suc k) ..< Suc (Suc k) + n]"
    by (simp only: fst_backoff_run_Cons next_ fst_conv snd_conv)
  then show ?case
    by (simp add: upt_conv_Cons del: upt_Suc backoff_run.simps)
qed simp


section \<open>Properties\<close>

text \<open>
  The delays of a teardown. Consecutive passes that remove nothing wait 2 s, 4 s, 8 s
  and so on, doubling up to two minutes; a pass that makes progress waits 2 s and starts
  the schedule over; no other Buckety's schedule is touched.
\<close>

theorem deletion_backoff_schedule:
  assumes "delay uid = None"
  shows "fst (backoff_run delay uid (replicate n True)) =
      map (\<lambda>i. min (2 ^ i * deletionRequeue) deletionRequeueCap) [0 ..< n] \<and>
    fst (backoff_run delay' uid (False # replicate n True)) =
      deletionRequeue # map (\<lambda>i. min (2 ^ i * deletionRequeue) deletionRequeueCap) [0 ..< n] \<and>
    (uid' \<noteq> uid \<longrightarrow> snd (backoff_next delay uid stalled) uid' = delay uid')"
proof -
  have fresh: "fst (backoff_run dl uid (replicate n True)) =
      map (\<lambda>i. min (2 ^ i * deletionRequeue) deletionRequeueCap) [0 ..< n]" if "dl uid = None" for dl
  proof (cases n)
    case (Suc k)
    have "min deletionRequeue deletionRequeueCap = deletionRequeue"
      by (simp add: backoff_consts)
    with Suc that backoff_run_stalled [of "dl(uid \<mapsto> deletionRequeue)" uid 0 k]
    show ?thesis
      by (simp add: fst_backoff_run_Cons backoff_next_def Let_def upt_conv_Cons
            del: upt_Suc backoff_run.simps)
  qed simp
  have "fst (backoff_run delay' uid (False # replicate n True)) =
      deletionRequeue # fst (backoff_run (delay'(uid := None)) uid (replicate n True))"
    by (simp add: fst_backoff_run_Cons backoff_next_def del: backoff_run.simps)
  with fresh assms backoff_next_other show ?thesis by simp
qed

theorem deletion_backoff_schedule_witness:
  "fst (backoff_run Map.empty ''u'' (replicate 8 True)) =
     map (\<lambda>i. min (2 ^ i * deletionRequeue) deletionRequeueCap) [0 ..< 8] \<and>
   fst (backoff_run Map.empty ''u'' (replicate 8 True)) =
     map (\<lambda>n. n * Second) [2, 4, 8, 16, 32, 64, 120, 120]"
proof -
  have "fst (backoff_run Map.empty ''u'' (replicate 8 True)) =
     map (\<lambda>i. min (2 ^ i * deletionRequeue) deletionRequeueCap) [0 ..< 8]"
    using deletion_backoff_schedule [of Map.empty "''u''" 8 Map.empty "''u''" True] by simp
  moreover have "map (\<lambda>i. min (2 ^ i * deletionRequeue) deletionRequeueCap) [0 ..< 8] =
     map (\<lambda>n. n * Second) [2, 4, 8, 16, 32, 64, 120, 120]"
    by (simp add: upt_conv_Cons backoff_consts)
  ultimately show ?thesis by simp
qed

text \<open>
  The delays stay sane: a re-check lands within a tenth of the configured period and
  never in the past; a settled object's first pass after a controller start waits at
  least a second and at most a second more than the window, every later pass of the same
  object runs at once, and an object that is not settled never waits.
\<close>

theorem requeue_delays:
  assumes "0 \<le> u" "u < 1" "0 < d" and "0 \<le> r" "r < window"
  shows "9 * d \<le> 10 * Recheck u d \<and> 10 * Recheck u d \<le> 11 * d \<and> 0 < Recheck u d \<and>
    (key \<notin> seen \<longrightarrow> Second \<le> fst (Defer seen key True window r) \<and>
        fst (Defer seen key True window r) < Second + window) \<and>
    fst (Defer (snd (Defer seen key settled window r)) key settled' window r) = 0 \<and>
    fst (Defer seen key False window r) = 0"
proof -
  have "10 * \<bar>Recheck u d - d\<bar> \<le> d" by (rule Recheck_within [OF assms(1-3)])
  then have "9 * d \<le> 10 * Recheck u d" "10 * Recheck u d \<le> 11 * d"
    by (simp_all add: abs_le_iff abs_if split: if_splits)
  with assms show ?thesis by (auto simp: Defer_def)
qed

theorem requeue_delays_witness:
  "let d = 5 * Minute; key = \<lparr>nsNamespace = ''ns'', nsName = ''n''\<rparr>
   in 9 * d \<le> 10 * Recheck (1/4) d \<and> 10 * Recheck (1/4) d \<le> 11 * d \<and> 0 < Recheck (1/4) d \<and>
    (key \<notin> {} \<longrightarrow> Second \<le> fst (Defer {} key True d 7) \<and>
        fst (Defer {} key True d 7) < Second + d) \<and>
    fst (Defer (snd (Defer {} key True d 7)) key True d 7) = 0 \<and>
    fst (Defer {} key False d 7) = 0"
  unfolding Let_def
  by (rule requeue_delays) (simp_all add: Minute_def Second_def)

end
