(* ===== verification/Condition_Status.thy ===== *)
theory Condition_Status
  imports Api_Types
begin

text \<open>
  \<open>pkg/controller/status/status.go\<close>: the condition helpers both reconcilers share. The
  interesting claims are about what is not written: a pass that changes only condition
  messages, or flips a condition in memory and back, leaves a status that
  \<open>ChangedBeyondMessages\<close> reports unchanged, so the controller's own watch is not fed.
\<close>

definition status_Set ::
  "kube \<Rightarrow> time \<Rightarrow> condition list \<Rightarrow> string \<Rightarrow> string \<Rightarrow> string \<Rightarrow> text \<Rightarrow> int \<Rightarrow> condition list" where
  "status_Set K now conds typ st reason msg gen =
     SetStatusCondition K now conds
       \<lparr>cType = typ, cStatus = st, cReason = reason, cMessage = msg,
        cObservedGeneration = gen, cLastTransitionTime = 0\<rparr>"

text \<open>The gate of \<open>Event\<close>: emit unless base already carried this (status, reason) pair.\<close>

definition event_due :: "kube \<Rightarrow> bool \<Rightarrow> condition list \<Rightarrow> string \<Rightarrow> string \<Rightarrow> string \<Rightarrow> bool" where
  "event_due K recorder base typ st reason \<longleftrightarrow>
     recorder \<and>
     (case FindStatusCondition K base typ of
        Some c \<Rightarrow> \<not> (cStatus c = st \<and> cReason c = reason)
      | None \<Rightarrow> True)"

definition keep_transition_time :: "kube \<Rightarrow> condition list \<Rightarrow> condition \<Rightarrow> condition" where
  "keep_transition_time K base c =
     (case FindStatusCondition K base (cType c) of
        Some b \<Rightarrow> if cStatus b = cStatus c then c\<lparr>cLastTransitionTime := cLastTransitionTime b\<rparr> else c
      | None \<Rightarrow> c)"

definition KeepTransitionTimes :: "kube \<Rightarrow> condition list \<Rightarrow> condition list \<Rightarrow> condition list" where
  "KeepTransitionTimes K base cur = map (keep_transition_time K base) cur"

definition withoutMessages :: "condition list \<Rightarrow> condition list" where
  "withoutMessages conds = map (\<lambda>c. c\<lparr>cMessage := Lit []\<rparr>) conds"

definition ChangedBeyondMessages ::
  "('s \<Rightarrow> 's \<Rightarrow> bool) \<Rightarrow> ('s \<Rightarrow> condition list) \<Rightarrow> (condition list \<Rightarrow> 's \<Rightarrow> 's) \<Rightarrow> 's \<Rightarrow> 's \<Rightarrow> bool" where
  "ChangedBeyondMessages deepEqual conds set_conds base cur \<longleftrightarrow>
     \<not> deepEqual (set_conds (withoutMessages (conds base)) base)
                 (set_conds (withoutMessages (conds cur)) cur)"

definition WriteTimeout :: duration where
  "WriteTimeout = 10 * Second"

lemma KeepTransitionTimes_types [simp]: "map cType (KeepTransitionTimes K base cur) = map cType cur"
  by (simp add: KeepTransitionTimes_def keep_transition_time_def split: option.splits)

lemma KeepTransitionTimes_status [simp]: "map cStatus (KeepTransitionTimes K base cur) = map cStatus cur"
  by (simp add: KeepTransitionTimes_def keep_transition_time_def split: option.splits)

lemma KeepTransitionTimes_idem:
  "KeepTransitionTimes K base (KeepTransitionTimes K base cur) = KeepTransitionTimes K base cur"
  by (auto simp: KeepTransitionTimes_def keep_transition_time_def split: option.splits)

lemma KeepTransitionTimes_append:
  "KeepTransitionTimes K base (xs @ ys) = KeepTransitionTimes K base xs @ KeepTransitionTimes K base ys"
  by (simp add: KeepTransitionTimes_def)

lemma withoutMessages_idem [simp]: "withoutMessages (withoutMessages cs) = withoutMessages cs"
  by (simp add: withoutMessages_def comp_def)

lemma withoutMessages_eq_types: "withoutMessages xs = withoutMessages ys \<Longrightarrow> map cType xs = map cType ys"
proof -
  have "map cType (withoutMessages cs) = map cType cs" for cs
    by (simp add: withoutMessages_def)
  then show "withoutMessages xs = withoutMessages ys \<Longrightarrow> map cType xs = map cType ys"
    by metis
qed

text \<open>Conditions with the same type, status, reason and generation are the same but for message and time.\<close>

definition same_verdict :: "condition \<Rightarrow> condition \<Rightarrow> bool" where
  "same_verdict b c \<longleftrightarrow> cType b = cType c \<and> cStatus b = cStatus c \<and> cReason b = cReason c \<and>
     cObservedGeneration b = cObservedGeneration c"

context kube_api
begin

lemma find_distinct:
  "distinct_types cs \<Longrightarrow> c \<in> set cs \<Longrightarrow> FindStatusCondition K cs (cType c) = Some c"
  unfolding find_condition by (induction cs) (auto simp: rev_image_eqI)

lemma keep_after_same_verdicts:
  assumes "distinct_types base" and "list_all2 same_verdict base cur"
  shows "withoutMessages (KeepTransitionTimes K base cur) = withoutMessages base"
proof -
  have "(keep_transition_time K base c)\<lparr>cMessage := Lit []\<rparr> = b\<lparr>cMessage := Lit []\<rparr>"
    if "b \<in> set base" and "same_verdict b c" for b c
    using that find_distinct [OF assms(1) that(1)]
    by (auto simp: same_verdict_def keep_transition_time_def)
  with assms(2) show ?thesis
    unfolding withoutMessages_def KeepTransitionTimes_def
    by (intro nth_equalityI) (auto simp: list_all2_conv_all_nth)
qed

lemma status_Set_same_verdict:
  assumes "distinct_types cs" and "FindStatusCondition K cs typ = Some b"
  shows "list_all2 (\<lambda>x y. if cType x = typ then cType y = typ \<and> cStatus y = st \<and> cReason y = reason \<and>
           cObservedGeneration y = gen else y = x) cs (status_Set K now cs typ st reason msg gen)"
proof -
  let ?c = "\<lparr>cType = typ, cStatus = st, cReason = reason, cMessage = msg,
        cObservedGeneration = gen, cLastTransitionTime = 0\<rparr>"
  have "status_Set K now cs typ st reason msg gen =
      map (\<lambda>x. if cType x = typ then update_condition now ?c x else x) cs"
    using set_present_distinct [OF assms(1), of ?c b now] assms(2) by (simp add: status_Set_def)
  then show ?thesis
    by (simp add: list.rel_map list.rel_refl update_condition_def)
qed

lemma status_Set_types_present:
  assumes "distinct_types cs" and "FindStatusCondition K cs typ = Some b"
  shows "map cType (status_Set K now cs typ st reason msg gen) = map cType cs"
  using status_Set_same_verdict [OF assms]
  by (induction rule: list_all2_induct) (auto split: if_splits)

lemma status_Set_distinct: "distinct_types cs \<Longrightarrow> distinct_types (status_Set K now cs typ st reason msg gen)"
  unfolding status_Set_def by (rule set_distinct)

lemma find_status_Set_other:
  "t \<noteq> typ \<Longrightarrow>
   FindStatusCondition K (status_Set K now cs typ st reason msg gen) t = FindStatusCondition K cs t"
  unfolding status_Set_def by (rule find_set_other) auto

lemma find_status_Set_same:
  "\<exists>c. FindStatusCondition K (status_Set K now cs typ st reason msg gen) typ = Some c \<and>
    cStatus c = st \<and> cReason c = reason \<and> cMessage c = msg \<and> cObservedGeneration c = gen"
  using find_set_same [of now cs "\<lparr>cType = typ, cStatus = st, cReason = reason, cMessage = msg,
        cObservedGeneration = gen, cLastTransitionTime = 0\<rparr>"]
  by (auto simp: status_Set_def)

lemma is_true_status_Set:
  "IsStatusConditionTrue K (status_Set K now cs typ st reason msg gen) t \<longleftrightarrow>
    (if t = typ then st = ConditionTrue else IsStatusConditionTrue K cs t)"
  using find_status_Set_same [of now cs "typ" st reason msg gen]
    find_status_Set_other [of t "typ" now cs st reason msg gen]
  by (auto simp: condition_true)

text \<open>A flip and a flip back: only the transition time and the message can differ afterwards.\<close>

lemma flip_back:
  assumes base: "distinct_types base" and b: "FindStatusCondition K base typ = Some b"
  shows "withoutMessages (KeepTransitionTimes K base
      (status_Set K t2 (status_Set K t1 base typ st' reason' msg' gen') typ
         (cStatus b) (cReason b) msg (cObservedGeneration b))) = withoutMessages base"
proof (rule keep_after_same_verdicts [OF base])
  let ?mid = "status_Set K t1 base typ st' reason' msg' gen'"
  have mid: "distinct_types ?mid" by (rule status_Set_distinct [OF base])
  obtain b' where b': "FindStatusCondition K ?mid typ = Some b'"
    using find_status_Set_same by blast
  have "cType x = typ \<Longrightarrow> x \<in> set base \<Longrightarrow> x = b" for x
    using find_distinct [OF base] b by fastforce
  then have "list_all2 (\<lambda>x y. x \<in> set base \<and> (cType x = typ \<longrightarrow> x = b)) base base"
    by (simp add: list.rel_refl_strong)
  then show "list_all2 same_verdict base (status_Set K t2 ?mid typ (cStatus b) (cReason b) msg (cObservedGeneration b))"
    using status_Set_same_verdict [OF base b, of st' reason' gen' t1 msg']
      status_Set_same_verdict [OF mid b', of "cStatus b" "cReason b" "cObservedGeneration b" t2 msg]
    unfolding list_all2_conv_all_nth same_verdict_def by metis
qed

end


lemma is_true_keep:
  assumes "kube_api K"
  shows "IsStatusConditionTrue K (KeepTransitionTimes K base cs) t = IsStatusConditionTrue K cs t"
proof -
  have "find (\<lambda>c. cType c = t) (KeepTransitionTimes K base cs) =
      map_option (keep_transition_time K base) (find (\<lambda>c. cType c = t) cs)"
    unfolding KeepTransitionTimes_def
    by (induction cs) (auto simp: keep_transition_time_def split: option.splits)
  moreover have "cStatus (keep_transition_time K base c) = cStatus c" for c
    by (simp add: keep_transition_time_def split: option.splits)
  ultimately show ?thesis
    using assms by (auto simp: kube_api.condition_true kube_api.find_condition)
qed


section \<open>Properties\<close>

text \<open>
  A pass that flips a persisted condition in memory and sets it back (Reconciling True
  while the driver is called, False when done) and that otherwise leaves the conditions
  alone has changed nothing beyond messages: with \<open>KeepTransitionTimes\<close> applied against the
  persisted conditions, \<open>ChangedBeyondMessages\<close> answers no, whatever the two clock readings
  and the messages were.
\<close>

theorem flip_back_is_no_change:
  assumes "kube_api K" and "distinct_types base" and "FindStatusCondition K base typ = Some b"
  shows "\<not> ChangedBeyondMessages (\<lambda>x y. x = y) (\<lambda>cs. cs) (\<lambda>cs _. cs) base
    (KeepTransitionTimes K base
       (status_Set K t2 (status_Set K t1 base typ st' reason' msg' gen') typ
         (cStatus b) (cReason b) msg (cObservedGeneration b)))"
  using kube_api.flip_back [OF assms] by (simp add: ChangedBeyondMessages_def)

theorem flip_back_is_no_change_witness:
  "let b = \<lparr>cType = ''Reconciling'', cStatus = ''False'', cReason = ''Idle'', cMessage = Lit [],
            cObservedGeneration = 3, cLastTransitionTime = 100\<rparr>
   in \<not> ChangedBeyondMessages (\<lambda>x y. x = y) (\<lambda>cs. cs) (\<lambda>cs _. cs) [b]
    (KeepTransitionTimes documented_kube [b]
       (status_Set documented_kube 300 (status_Set documented_kube 200 [b] ''Reconciling'' ''True''
          ''Ensuring'' (Lit ''calling'') 3) ''Reconciling'' (cStatus b) (cReason b) (Lit ''x'')
          (cObservedGeneration b)))"
  unfolding Let_def
  by (rule flip_back_is_no_change [OF documented.kube_api_axioms])
     (simp_all add: documented_kube_def)

end
