(* ===== verification/Driver_Registry.thy ===== *)
theory Driver_Registry
  imports Go_Prelude
begin

text \<open>
  \<open>pkg/drivers/registry/registry.go\<close>: the \<open>Driver\<close> interface, the requests and results that
  cross it, the typed errors and the registry of factories. A driver is a record of its
  methods; the ones that reach a backend are functions of the outside world. The two
  optional capabilities (\<open>TemplatedParameters\<close>, \<open>ForgetBuckety\<close>) are \<open>option\<close>-valued fields,
  as the Go code finds them by a type assertion.

  The locale \<open>driver_validation\<close> is the contract between the controller and a driver's
  validation methods; every driver theory interprets it on its own definitions.
\<close>

record Inspection =
  Exists :: bool
  Empty :: bool

record EnsureRequest =
  erName :: string
  erParameters :: smap
  erNamespace :: string
  erBucketyName :: string

text \<open>
  \<open>EnsureRequest.OnChange\<close> is a callback without a result: a driver's answer carries the list
  of changes it reported, in order, and the caller handles them after the call.
\<close>

record Change =
  chReason :: string
  chParameter :: string
  chOld :: string
  chNew :: string

record DeleteRequest =
  drName :: string
  drParameters :: smap

record GrantRequest =
  grBucketyName :: string
  grAccessNamespace :: string
  grAccessName :: string
  grRole :: string
  grParameters :: smap
  grBucketyParameters :: smap
  grExistingSecretData :: "smap option"

record GrantResult =
  gtSecretData :: smap
  gtPrincipal :: string
  gtScoped :: bool
  gtRevocable :: bool
  gtMinted :: bool

record 'w Driver =
  dName :: string
  dVersion :: string
  dInspectBuckety :: "string \<Rightarrow> 'w \<Rightarrow> (goerr + Inspection) \<times> 'w"
  dEnsureBuckety :: "EnsureRequest \<Rightarrow> 'w \<Rightarrow> (Change list \<times> goerr option) \<times> 'w"
  dDeleteBuckety :: "DeleteRequest \<Rightarrow> 'w \<Rightarrow> goerr option \<times> 'w"
  dGrantAccess :: "GrantRequest \<Rightarrow> 'w \<Rightarrow> (goerr + GrantResult) \<times> 'w"
  dRevokeAccess :: "string \<Rightarrow> 'w \<Rightarrow> goerr option \<times> 'w"
  dValidateParameters :: "smap \<Rightarrow> goerr option"
  dValidateUpdateParameters :: "smap \<Rightarrow> smap \<Rightarrow> goerr option"
  dValidateAccessParameters :: "smap \<Rightarrow> goerr option"
  dValidateResourceName :: "string \<Rightarrow> goerr option"
  dTemplatedParameters :: "string list option"
  dForgetBuckety :: "(string \<Rightarrow> string \<Rightarrow> 'w \<Rightarrow> unit \<times> 'w) option"

definition TemplatedParameters :: "'w Driver \<Rightarrow> string list" where
  "TemplatedParameters d = (case dTemplatedParameters d of Some ks \<Rightarrow> ks | None \<Rightarrow> [])"

definition ForgetBuckety :: "'w Driver \<Rightarrow> string \<Rightarrow> string \<Rightarrow> 'w \<Rightarrow> unit \<times> 'w" where
  "ForgetBuckety d namespace name w =
     (case dForgetBuckety d of Some f \<Rightarrow> f namespace name w | None \<Rightarrow> ((), w))"


section \<open>Typed errors\<close>

definition IsParameterDrift :: "goerr \<Rightarrow> bool" where
  "IsParameterDrift e = (case root_cause e of ErrParameterDrift _ \<Rightarrow> True | _ \<Rightarrow> False)"

definition IsProvisioningInProgress :: "goerr \<Rightarrow> bool" where
  "IsProvisioningInProgress e = (case root_cause e of ErrProvisioningInProgress _ \<Rightarrow> True | _ \<Rightarrow> False)"

definition IsDeletionInProgress :: "goerr \<Rightarrow> bool" where
  "IsDeletionInProgress e = (case root_cause e of ErrDeletionInProgress _ _ \<Rightarrow> True | _ \<Rightarrow> False)"

definition IsDeletionStalled :: "goerr \<Rightarrow> bool" where
  "IsDeletionStalled e = (case root_cause e of ErrDeletionInProgress _ stalled \<Rightarrow> stalled | _ \<Rightarrow> False)"

lemma error_kinds_exclusive:
  "\<not> (IsParameterDrift e \<and> IsProvisioningInProgress e)"
  "\<not> (IsParameterDrift e \<and> IsDeletionInProgress e)"
  "\<not> (IsProvisioningInProgress e \<and> IsDeletionInProgress e)"
  "IsDeletionStalled e \<Longrightarrow> IsDeletionInProgress e"
  by (simp_all add: IsParameterDrift_def IsProvisioningInProgress_def IsDeletionInProgress_def
        IsDeletionStalled_def split: goerr.splits)


section \<open>The registry\<close>

type_synonym 'w Factory = "string \<Rightarrow> goerr + 'w Driver"

record 'w registry =
  factories :: "(string \<times> 'w Factory) list"
  versions :: "(string \<times> string) list"

definition empty_registry :: "'w registry" where
  "empty_registry = \<lparr>factories = [], versions = []\<rparr>"

text \<open>\<open>Register\<close> panics on a duplicate name: the panic is the \<open>Inl\<close> branch.\<close>

definition Register :: "string \<Rightarrow> string \<Rightarrow> 'w Factory \<Rightarrow> 'w registry \<Rightarrow> goerr + 'w registry" where
  "Register name version f reg =
     (case map_of (factories reg) name of
        Some _ \<Rightarrow> Inl (Errorf (Sprintf ''driver %q already registered'' [AStr name]))
      | None \<Rightarrow> Inr (reg\<lparr>factories := AList.update name f (factories reg),
                       versions := AList.update name version (versions reg)\<rparr>))"

definition Lookup_factory :: "'w registry \<Rightarrow> string \<Rightarrow> 'w Factory option" where
  "Lookup_factory reg name = map_of (factories reg) name"

definition Names :: "'w registry \<Rightarrow> string list" where
  "Names reg = map fst (factories reg)"

definition Versions :: "'w registry \<Rightarrow> (string \<times> string) list" where
  "Versions reg = copy_into [] (versions reg)"

definition registry_ok :: "'w registry \<Rightarrow> bool" where
  "registry_ok reg \<longleftrightarrow> wf_map (factories reg) \<and> wf_map (versions reg) \<and>
     fst ` set (factories reg) = fst ` set (versions reg)"

lemma empty_registry_ok: "registry_ok empty_registry"
  by (simp add: registry_ok_def empty_registry_def)

lemma Register_ok:
  "registry_ok reg \<Longrightarrow> Register name v f reg = Inr reg' \<Longrightarrow> registry_ok reg'"
proof -
  assume "registry_ok reg" and "Register name v f reg = Inr reg'"
  then have "reg' = reg\<lparr>factories := AList.update name f (factories reg),
      versions := AList.update name v (versions reg)\<rparr>"
    by (simp add: Register_def split: option.splits)
  with \<open>registry_ok reg\<close> show "registry_ok reg'"
    by (simp add: registry_ok_def AList.dom_update)
qed

lemma Register_lookup:
  "Register name v f reg = Inr reg' \<Longrightarrow>
   Lookup_factory reg' n = (if n = name then Some f else Lookup_factory reg n)"
  by (auto simp: Register_def Lookup_factory_def update_conv' split: option.splits)


section \<open>The validation contract\<close>

locale driver_validation =
  fixes validate :: "smap \<Rightarrow> goerr option"
    and validateUpdate :: "smap \<Rightarrow> smap \<Rightarrow> goerr option"
    and validateAccess :: "smap \<Rightarrow> goerr option"
    and validateName :: "string \<Rightarrow> goerr option"
  assumes validate_order: "set p = set q \<Longrightarrow> validate p = None \<longleftrightarrow> validate q = None"
    and update_validates: "validateUpdate old new = None \<Longrightarrow> validate new = None"
    and update_same: "validate p = None \<Longrightarrow> map_of old = map_of p \<Longrightarrow> validateUpdate old p = None"
    and access_none: "validateAccess p = None \<longleftrightarrow> p = []"
    and name_nonempty: "validateName n = None \<Longrightarrow> n \<noteq> []"
begin

lemma update_reflexive: "validateUpdate p p = None \<longleftrightarrow> validate p = None"
  using update_validates update_same by blast

text \<open>A run of admitted updates ends with parameters the driver accepts.\<close>

lemma admitted_valid:
  "\<lbrakk>validate p = None; successively (\<lambda>old new. validateUpdate old new = None) (p # qs); q \<in> set (p # qs)\<rbrakk>
   \<Longrightarrow> validate q = None"
  by (induction qs arbitrary: p) (auto dest: update_validates)

end

abbreviation driver_ok :: "'w Driver \<Rightarrow> bool" where
  "driver_ok d \<equiv> driver_validation (dValidateParameters d) (dValidateUpdateParameters d)
     (dValidateAccessParameters d) (dValidateResourceName d)"

end
