(* ===== verification/Naming_Template.thy ===== *)
theory Naming_Template
  imports Go_Prelude
begin

text \<open>
  \<open>pkg/template/template.go\<close>: the resolver of \<open>Buckety.spec.name\<close> and of the parameter
  values a driver declares templated. The two regular expressions are written out as the
  predicates they denote. The abstract view is a list of segments (\<open>seg\<close>) with a
  denotation; \<open>template_denotation\<close> shows that the byte walk computes it in a single pass,
  so a substituted value is never scanned again.
\<close>

record Inputs =
  inName :: string
  inNamespace :: string
  inLabels :: smap
  inBackendDefaults :: smap
  inNoLabels :: bool

definition quote_char :: char where
  "quote_char = CHR 0x27"

text \<open>\<open>^label\['([^']+)'\]$\<close>: the captured key.\<close>

definition match_label :: "string \<Rightarrow> string option" where
  "match_label expr =
     (let pre = ''label['' @ [quote_char]; post = [quote_char] @ '']'';
          key = take (length expr - length pre - length post) (drop (length pre) expr)
      in if expr = pre @ key @ post \<and> key \<noteq> [] \<and> quote_char \<notin> set key then Some key else None)"

text \<open>\<open>^backend\.([A-Za-z][A-Za-z0-9_-]*)$\<close>: the captured word.\<close>

definition match_backend :: "string \<Rightarrow> string option" where
  "match_backend expr =
     (if HasPrefix expr ''backend.'' then
        (case drop 8 expr of
           [] \<Rightarrow> None
         | c # r \<Rightarrow>
             if (is_lower c \<or> is_upper c) \<and>
                list_all (\<lambda>x. is_lower x \<or> is_upper x \<or> is_digit x \<or> x = CHR ''_'' \<or> x = CHR ''-'') r
             then Some (c # r) else None)
      else None)"

definition resolveOne :: "string \<Rightarrow> Inputs \<Rightarrow> goerr + string" where
  "resolveOne expr inp =
     (if expr = ''name'' then
        (if inName inp = [] then Inl (Errorf (Lit ''${name}: empty metadata.name'')) else Inr (inName inp))
      else if expr = ''namespace'' then
        (if inNamespace inp = [] then Inl (Errorf (Lit ''${namespace}: empty metadata.namespace''))
         else Inr (inNamespace inp))
      else case match_label expr of
        Some key \<Rightarrow>
          if inNoLabels inp then Inl (Errorf (Sprintf ''${%s}: parameter templates support ${name}, ${namespace} and ${backend.X} only; labels are mutable and would drift the re-resolved value'' [AStr expr]))
          else (case map_of (inLabels inp) key of
                  None \<Rightarrow> Inl (Errorf (Sprintf ''${label[%s]}: no such label on the resource'' [AStr key]))
                | Some v \<Rightarrow> Inr v)
      | None \<Rightarrow>
          (case match_backend expr of
             Some key \<Rightarrow>
               (case map_of (inBackendDefaults inp) key of
                  None \<Rightarrow> Inl (Errorf (Sprintf ''${backend.%s}: no such key in the backend's defaults map'' [AStr key]))
                | Some v \<Rightarrow> Inr v)
           | None \<Rightarrow> Inl (Errorf (Sprintf ''unsupported reference ${%s}'' [AStr expr]))))"

definition prepend :: "string \<Rightarrow> goerr + string \<Rightarrow> goerr + string" where
  "prepend v r = (case r of Inl e \<Rightarrow> Inl e | Inr s \<Rightarrow> Inr (v @ s))"

text \<open>The loop of \<open>Resolve\<close>: \<open>i\<close> is the offset, \<open>s\<close> is \<open>tmpl[i:]\<close>.\<close>

function resolve_walk :: "Inputs \<Rightarrow> nat \<Rightarrow> string \<Rightarrow> goerr + string" where
  "resolve_walk inp i s =
     (case s of
        [] \<Rightarrow> Inr []
      | c # r \<Rightarrow>
          if HasPrefix s ''$$'' then prepend ''$'' (resolve_walk inp (i + 2) (drop 2 s))
          else if HasPrefix s ''${'' then
            (case IndexByte s (CHR ''}'') of
               None \<Rightarrow> Inl (Errorf (Sprintf ''unterminated reference at offset %d'' [AInt (int i)]))
             | Some end \<Rightarrow>
                 (case resolveOne (take (end - 2) (drop 2 s)) inp of
                    Inl e \<Rightarrow> Inl e
                  | Inr val \<Rightarrow> prepend val (resolve_walk inp (i + end + 1) (drop (end + 1) s))))
          else prepend [c] (resolve_walk inp (i + 1) r))"
  by pat_completeness auto
termination
  by (relation "measure (\<lambda>(inp, i, s). length s)") auto

declare resolve_walk.simps [simp del]

definition Resolve :: "string \<Rightarrow> Inputs \<Rightarrow> goerr + string" where
  "Resolve tmpl inp = (if tmpl = [] then Inr [] else resolve_walk inp 0 tmpl)"

definition without_labels :: "Inputs \<Rightarrow> Inputs" where
  "without_labels inp = inp\<lparr>inLabels := [], inNoLabels := True\<rparr>"

fun resolve_keys :: "smap \<Rightarrow> Inputs \<Rightarrow> smap option \<Rightarrow> string list \<Rightarrow> goerr + smap" where
  "resolve_keys params inp out [] = Inr (case out of None \<Rightarrow> params | Some o' \<Rightarrow> o')"
| "resolve_keys params inp out (k # ks) =
     (case map_of params k of
        None \<Rightarrow> resolve_keys params inp out ks
      | Some tmpl \<Rightarrow>
          (case Resolve tmpl inp of
             Inl e \<Rightarrow> Inl (Wrapf ''parameters.%s: %w'' [AStr k] e)
           | Inr resolved \<Rightarrow>
               if resolved = tmpl then resolve_keys params inp out ks
               else resolve_keys params inp
                 (Some (AList.update k resolved (case out of None \<Rightarrow> copy_into [] params | Some o' \<Rightarrow> o'))) ks))"

definition ResolveParameters :: "smap \<Rightarrow> string list \<Rightarrow> Inputs \<Rightarrow> goerr + smap" where
  "ResolveParameters params keys inp =
     (if params = [] \<or> keys = [] then Inr params
      else resolve_keys params (without_labels inp) None keys)"


section \<open>Segments\<close>

datatype seg = Chr char | Dollar | Ref string

fun show_seg :: "seg \<Rightarrow> string" where
  "show_seg (Chr c) = [c]"
| "show_seg Dollar = ''$$''"
| "show_seg (Ref e) = ''${'' @ e @ ''}''"

fun seg_value :: "Inputs \<Rightarrow> seg \<Rightarrow> goerr + string" where
  "seg_value inp (Chr c) = Inr [c]"
| "seg_value inp Dollar = Inr ''$''"
| "seg_value inp (Ref e) = resolveOne e inp"

fun seg_ok :: "seg \<Rightarrow> bool" where
  "seg_ok (Chr c) = (c \<noteq> CHR ''$'')"
| "seg_ok Dollar = True"
| "seg_ok (Ref e) = (CHR ''}'' \<notin> set e)"

fun denote :: "Inputs \<Rightarrow> seg list \<Rightarrow> goerr + string" where
  "denote inp [] = Inr []"
| "denote inp (g # gs) = (case seg_value inp g of Inl e \<Rightarrow> Inl e | Inr v \<Rightarrow> prepend v (denote inp gs))"

definition escape :: "string \<Rightarrow> string" where
  "escape v = concat (map (\<lambda>c. if c = CHR ''$'' then ''$$'' else [c]) v)"

lemma prepend_Nil [simp]: "prepend [] r = r"
  by (simp add: prepend_def split: sum.splits)

lemma prepend_prepend [simp]: "prepend v (prepend w r) = prepend (v @ w) r"
  by (simp add: prepend_def split: sum.splits)

lemma prepend_Inr [simp]: "prepend v (Inr s) = Inr (v @ s)" and prepend_Inl [simp]: "prepend v (Inl e) = Inl e"
  by (simp_all add: prepend_def)

lemma resolve_walk_Nil [simp]: "resolve_walk inp i [] = Inr []"
  by (simp add: resolve_walk.simps)

lemma resolve_walk_Chr:
  "c \<noteq> CHR ''$'' \<Longrightarrow> resolve_walk inp i (c # s) = prepend [c] (resolve_walk inp (i + 1) s)"
  by (subst resolve_walk.simps) (simp add: HasPrefix_def)

lemma resolve_walk_Dollar:
  "resolve_walk inp i (CHR ''$'' # CHR ''$'' # s) = prepend ''$'' (resolve_walk inp (i + 2) s)"
  by (subst resolve_walk.simps) (simp add: HasPrefix_def)

lemma resolve_walk_Ref:
  assumes "CHR ''}'' \<notin> set e"
  shows "resolve_walk inp i (''${'' @ e @ ''}'' @ s) =
    (case resolveOne e inp of Inl x \<Rightarrow> Inl x
     | Inr v \<Rightarrow> prepend v (resolve_walk inp (i + length e + 3) s))"
proof -
  have "IndexByte (''${'' @ e @ ''}'' @ s) (CHR ''}'') = Some (Suc (Suc (length e)))"
    using assms IndexByte_append [of "CHR ''}''" "''${'' @ e" s] by simp
  then show ?thesis
    by (subst resolve_walk.simps) (simp add: HasPrefix_def eval_nat_numeral split: sum.splits)
qed

lemma resolve_walk_append:
  "list_all seg_ok gs \<Longrightarrow> resolve_walk inp i (concat (map show_seg gs) @ t) =
    (case denote inp gs of Inl e \<Rightarrow> Inl e
     | Inr v \<Rightarrow> prepend v (resolve_walk inp (i + length (concat (map show_seg gs))) t))"
proof (induction gs arbitrary: i)
  case (Cons g gs)
  then show ?case
  proof (cases g)
    case (Ref e)
    with Cons show ?thesis
      using resolve_walk_Ref [of e inp i "concat (map show_seg gs) @ t"]
      by (simp add: algebra_simps numeral_3_eq_3 split: sum.splits)
  qed (simp_all add: resolve_walk_Chr resolve_walk_Dollar algebra_simps split: sum.splits)
qed simp

lemma resolve_walk_unterminated:
  "CHR ''}'' \<notin> set r \<Longrightarrow> resolve_walk inp i (''${'' @ r) =
    Inl (Errorf (Sprintf ''unterminated reference at offset %d'' [AInt (int i)]))"
  by (subst resolve_walk.simps) (simp add: HasPrefix_def IndexByte_None [THEN iffD2])

lemma Resolve_walk: "Resolve t inp = resolve_walk inp 0 t"
  by (simp add: Resolve_def)

lemma escape_walk: "resolve_walk inp i (escape v) = Inr v"
  by (induction v arbitrary: i) (auto simp: escape_def resolve_walk_Chr resolve_walk_Dollar)


section \<open>Parameter resolution against its specification\<close>

text \<open>The value parameter \<open>k\<close> should have: resolved when declared templated, else as it was.\<close>

definition resolved_value :: "smap \<Rightarrow> string list \<Rightarrow> Inputs \<Rightarrow> string \<Rightarrow> string option" where
  "resolved_value params keys inp k =
     (case map_of params k of
        None \<Rightarrow> None
      | Some t \<Rightarrow> if k \<in> set keys then (case Resolve t inp of Inl _ \<Rightarrow> None | Inr v \<Rightarrow> Some v) else Some t)"

definition resolvable :: "smap \<Rightarrow> string list \<Rightarrow> Inputs \<Rightarrow> bool" where
  "resolvable params keys inp \<longleftrightarrow>
     (\<forall>k \<in> set keys. \<forall>t. map_of params k = Some t \<longrightarrow> (\<exists>v. Resolve t inp = Inr v))"

lemma resolve_keys_error:
  "(\<exists>e. resolve_keys params inp out keys = Inl e) \<longleftrightarrow> \<not> resolvable params keys inp"
proof (induction keys arbitrary: out)
  case (Cons k ks)
  have "resolvable params (k # ks) inp \<longleftrightarrow>
      (\<forall>t. map_of params k = Some t \<longrightarrow> (\<exists>v. Resolve t inp = Inr v)) \<and> resolvable params ks inp"
    by (auto simp: resolvable_def)
  with Cons.IH show ?case
    by (cases "map_of params k"; cases "Resolve (the (map_of params k)) inp") auto
qed (simp add: resolvable_def)

lemma resolve_keys_value:
  assumes "wf_map params" and "resolve_keys params inp out keys = Inr q"
  shows "map_of q = (\<lambda>k. if k \<in> set keys \<and> map_of params k \<noteq> None \<and> map_of params k \<noteq> resolved_value params keys inp k
            then resolved_value params keys inp k
            else map_of (case out of None \<Rightarrow> params | Some o' \<Rightarrow> o') k)"
  using assms
proof (induction params inp out keys rule: resolve_keys.induct)
  case (2 params inp out k ks)
  have same: "j \<in> set ks \<Longrightarrow> resolved_value params (k # ks) inp j = resolved_value params ks inp j" for j
    by (simp add: resolved_value_def split: option.splits)
  show ?case
  proof (cases "map_of params k")
    case None
    with 2 same show ?thesis by (auto simp: fun_eq_iff)
  next
    case (Some t)
    with 2 obtain v where v: "Resolve t inp = Inr v" by (auto split: sum.splits)
    have rv: "resolved_value params (k # ks) inp k = Some v"
      using Some v by (simp add: resolved_value_def)
    have rv': "k \<in> set ks \<Longrightarrow> resolved_value params ks inp k = Some v"
      using Some v by (simp add: resolved_value_def)
    let ?base = "case out of None \<Rightarrow> copy_into [] params | Some o' \<Rightarrow> o'"
    have base: "map_of ?base = map_of (case out of None \<Rightarrow> params | Some o' \<Rightarrow> o')"
      using "2.prems"(1) by (cases out) simp_all
    show ?thesis
    proof (cases "v = t")
      case True
      with 2 Some v rv rv' same show ?thesis by (auto simp: fun_eq_iff)
    next
      case False
      with "2.prems"(2) Some v have "resolve_keys params inp (Some (AList.update k v ?base)) ks = Inr q"
        by simp
      from "2.IH"(3) [OF Some v False "2.prems"(1) this]
      have "map_of q = (\<lambda>j. if j \<in> set ks \<and> map_of params j \<noteq> None \<and>
            map_of params j \<noteq> resolved_value params ks inp j then resolved_value params ks inp j
          else map_of (AList.update k v ?base) j)" unfolding option.case .
      with False Some rv rv' same base show ?thesis
        by (auto simp: fun_eq_iff update_conv')
    qed
  qed
qed simp


section \<open>Properties\<close>

text \<open>
  C38. \<open>Resolve\<close> computes the denotation of a template in one pass: literal bytes stand for
  themselves, \<open>$$\<close> for a dollar sign and \<open>${e}\<close> for the value of \<open>e\<close>, the first reference
  that fails gives its error, and nothing a reference expands to is scanned again. A
  reference that is never closed is an error naming its offset, unless an earlier one failed.
\<close>

theorem template_denotation:
  assumes "list_all seg_ok gs"
  shows "Resolve (concat (map show_seg gs)) inp = denote inp gs \<and>
    (CHR ''}'' \<notin> set r \<longrightarrow> Resolve (concat (map show_seg gs) @ ''${'' @ r) inp =
      (case denote inp gs of
         Inl e \<Rightarrow> Inl e
       | Inr _ \<Rightarrow> Inl (Errorf (Sprintf ''unterminated reference at offset %d''
                        [AInt (int (length (concat (map show_seg gs))))]))))"
  using assms resolve_walk_append [OF assms, of inp 0 "[]"] resolve_walk_append [OF assms, of inp 0 "''${'' @ r"]
    resolve_walk_unterminated [of r]
  by (auto simp: Resolve_walk split: sum.splits)

theorem template_denotation_witness:
  "let gs = [Ref ''namespace'', Chr (CHR ''-''), Dollar, Ref ''name''];
       inp = \<lparr>inName = ''${name}'', inNamespace = ''ns'', inLabels = [], inBackendDefaults = [], inNoLabels = False\<rparr>
   in Resolve (concat (map show_seg gs)) inp = denote inp gs \<and> denote inp gs = Inr ''ns-$${name}''"
  unfolding Let_def
  by (rule conjI, rule template_denotation [THEN conjunct1]) (simp_all add: resolveOne_def)

text \<open>
  Escaping round trip: any byte string can be written as a template (double its
  dollar signs) and resolves to itself, whatever the inputs.
\<close>

theorem escape_roundtrip: "Resolve (escape v) inp = Inr v"
  by (simp add: Resolve_walk escape_walk)

text \<open>
  \<open>ResolveParameters\<close> against its specification: it fails exactly when a declared key
  that is present does not resolve; otherwise every declared key carries its resolved
  value and every other key its own, none is added and none dropped. Labels never enter.
\<close>

theorem resolve_parameters_spec:
  assumes "wf_map params"
  shows "(case ResolveParameters params keys inp of
       Inl e \<Rightarrow> \<not> resolvable params keys (without_labels inp)
     | Inr q \<Rightarrow> resolvable params keys (without_labels inp) \<and>
         map_of q = resolved_value params keys (without_labels inp)) \<and>
    ResolveParameters params keys (inp\<lparr>inLabels := ls\<rparr>) = ResolveParameters params keys inp"
proof (cases "params = [] \<or> keys = []")
  case True
  then show ?thesis
    by (auto simp: ResolveParameters_def resolvable_def resolved_value_def fun_eq_iff without_labels_def
        split: option.splits)
next
  case False
  let ?inp = "without_labels inp"
  show ?thesis
  proof (cases "resolve_keys params ?inp None keys")
    case (Inl e)
    with False resolve_keys_error [of params ?inp None keys] show ?thesis
      by (auto simp: ResolveParameters_def without_labels_def)
  next
    case (Inr q)
    then have ok: "resolvable params keys ?inp"
      using resolve_keys_error [of params ?inp None keys] by auto
    have "map_of q = resolved_value params keys ?inp"
      unfolding resolve_keys_value [OF assms Inr]
      by (auto simp: fun_eq_iff resolved_value_def split: option.splits)
    with False Inr ok show ?thesis by (simp add: ResolveParameters_def without_labels_def)
  qed
qed

theorem resolve_parameters_spec_witness:
  "let p = [(''serviceAccount'', ''${name}-${namespace}''), (''location'', ''EU'')];
       inp = \<lparr>inName = ''orders'', inNamespace = ''t1'', inLabels = [], inBackendDefaults = [], inNoLabels = False\<rparr>
   in (case ResolveParameters p [''serviceAccount''] inp of
       Inl e \<Rightarrow> \<not> resolvable p [''serviceAccount''] (without_labels inp)
     | Inr q \<Rightarrow> resolvable p [''serviceAccount''] (without_labels inp) \<and>
         map_of q = resolved_value p [''serviceAccount''] (without_labels inp)) \<and>
    ResolveParameters p [''serviceAccount''] (inp\<lparr>inLabels := []\<rparr>) = ResolveParameters p [''serviceAccount''] inp"
  unfolding Let_def by (rule resolve_parameters_spec) simp

end
