(* ===== verification/Backend_Config.thy ===== *)
theory Backend_Config
  imports Driver_Registry Naming_Template
begin

text \<open>
  \<open>pkg/config/config.go\<close>: the loaded backends, the merged and resolved parameter view every
  driver call and validation works on, and \<open>Load\<close> with its start-up checks. Reading the
  file (\<open>yclconfig.Load\<close>) and strict YAML decoding (\<open>yaml.UnmarshalStrict\<close>) are third-party
  code: their results are arguments of \<open>Load\<close>.
\<close>

record 'w Backend =
  beName :: string
  beDriver :: "'w Driver"
  beDefaults :: smap
  beParameters :: smap

definition EffectiveParameters :: "'w Backend \<Rightarrow> smap \<Rightarrow> smap" where
  "EffectiveParameters b crParams =
     (if beParameters b = [] then crParams
      else copy_into (copy_into [] (beParameters b)) crParams)"

definition ResolveName :: "'w Backend \<Rightarrow> string \<Rightarrow> string \<Rightarrow> string \<Rightarrow> smap \<Rightarrow> goerr + string" where
  "ResolveName b specName name namespace labels =
     (if specName = [] then Inr name
      else Resolve specName \<lparr>inName = name, inNamespace = namespace, inLabels = labels,
             inBackendDefaults = beDefaults b, inNoLabels = False\<rparr>)"

definition ResolvedParameters :: "'w Backend \<Rightarrow> string \<Rightarrow> string \<Rightarrow> smap \<Rightarrow> goerr + smap" where
  "ResolvedParameters b bkyName bkyNamespace crParams =
     (let effective = EffectiveParameters b crParams; keys = TemplatedParameters (beDriver b)
      in if keys = [] then Inr effective
         else ResolveParameters effective keys
           \<lparr>inName = bkyName, inNamespace = bkyNamespace, inLabels = [],
            inBackendDefaults = beDefaults b, inNoLabels = False\<rparr>)"

type_synonym 'w Loaded = "(string \<times> 'w Backend) list"

definition Lookup :: "'w Loaded \<Rightarrow> string \<Rightarrow> 'w Backend option" where
  "Lookup l name = map_of l name"

record rawBackend =
  rbName :: string
  rbDriver :: string
  rbConfig :: string
  rbDefaults :: smap
  rbParameters :: string

fun validate_backends :: "nat \<Rightarrow> string list \<Rightarrow> rawBackend list \<Rightarrow> goerr option" where
  "validate_backends i seen [] = None"
| "validate_backends i seen (b # bs) =
     (if rbName b = [] then Some (Errorf (Sprintf ''backends[%d]: missing required field %q'' [AInt (int i), AStr ''name'']))
      else if rbDriver b = [] then Some (Errorf (Sprintf ''backends[%d] %q: missing required field %q'' [AInt (int i), AStr (rbName b), AStr ''driver'']))
      else if rbName b \<in> set seen then Some (Errorf (Sprintf ''duplicate backend name %q'' [AStr (rbName b)]))
      else validate_backends (Suc i) (rbName b # seen) bs)"

definition validateOuter :: "rawBackend list \<Rightarrow> goerr option" where
  "validateOuter bs =
     (if bs = [] then Some (Errorf (Lit ''no backends configured'')) else validate_backends 0 [] bs)"

definition withoutKeys :: "smap \<Rightarrow> string list \<Rightarrow> smap" where
  "withoutKeys params keys =
     (if \<not> list_ex (\<lambda>k. map_of params k \<noteq> None) keys then params
      else fold AList.delete keys (copy_into [] params))"

text \<open>One round of the loop in \<open>Load\<close>; \<open>unmarshal\<close> is the strict YAML decoder.\<close>

definition load_backend ::
  "'w registry \<Rightarrow> (string \<Rightarrow> goerr + smap) \<Rightarrow> nat \<Rightarrow> rawBackend \<Rightarrow> goerr + 'w Backend" where
  "load_backend reg unmarshal i b =
     (case Lookup_factory reg (rbDriver b) of
        None \<Rightarrow> Inl (Errorf (Sprintf ''backends[%d]: unknown driver %q'' [AInt (int i), AStr (rbDriver b)]))
      | Some factory \<Rightarrow>
     (case factory (rbConfig b) of
        Inl e \<Rightarrow> Inl (Wrapf ''backends[%d] %q: %w'' [AInt (int i), AStr (rbName b)] e)
      | Inr drv \<Rightarrow>
     (case (if rbParameters b = [] then Inr [] else unmarshal (rbParameters b)) of
        Inl e \<Rightarrow> Inl (Wrapf ''backends[%d] %q: parameters: %w'' [AInt (int i), AStr (rbName b)] e)
      | Inr parameters \<Rightarrow>
     (let tkeys = TemplatedParameters drv;
          checked =
            (if parameters = [] then Inr parameters
             else case range_check (\<lambda>k v. if k \<notin> set tkeys \<and> Contains v ''${''
                     then Some (Errorf (Sprintf ''backends[%d] %q: parameters.%s: ${...} references are not supported here (driver %q does not declare %q as a templated parameter)''
                            [AInt (int i), AStr (rbName b), AStr k, AStr (rbDriver b), AStr k])) else None) parameters of
                 Some e \<Rightarrow> Inl e
               | None \<Rightarrow>
                   if tkeys = [] then Inr parameters
                   else (case ResolveParameters parameters tkeys
                           \<lparr>inName = ''startup-check'', inNamespace = ''startup-check'', inLabels = [],
                            inBackendDefaults = rbDefaults b, inNoLabels = False\<rparr> of
                           Inl e \<Rightarrow> Inl (Wrapf ''backends[%d] %q: parameters: %w'' [AInt (int i), AStr (rbName b)] e)
                         | Inr _ \<Rightarrow> Inr (withoutKeys parameters tkeys)))
      in case checked of
           Inl e \<Rightarrow> Inl e
         | Inr params \<Rightarrow>
             (case dValidateParameters drv params of
                Some e \<Rightarrow> Inl (Wrapf ''backends[%d] %q: parameters: %w'' [AInt (int i), AStr (rbName b)] e)
              | None \<Rightarrow> Inr \<lparr>beName = rbName b, beDriver = drv, beDefaults = rbDefaults b,
                            beParameters = parameters\<rparr>)))))"

fun load_backends ::
  "'w registry \<Rightarrow> (string \<Rightarrow> goerr + smap) \<Rightarrow> nat \<Rightarrow> rawBackend list \<Rightarrow> 'w Loaded \<Rightarrow> goerr + 'w Loaded" where
  "load_backends reg unmarshal i [] out = Inr out"
| "load_backends reg unmarshal i (b # bs) out =
     (case load_backend reg unmarshal i b of
        Inl e \<Rightarrow> Inl e
      | Inr be \<Rightarrow> load_backends reg unmarshal (Suc i) bs (AList.update (rbName b) be out))"

text \<open>\<open>raw\<close> is the answer of \<open>yclconfig.Load(dir, Filename, &raw)\<close>.\<close>

definition Load ::
  "'w registry \<Rightarrow> (string \<Rightarrow> goerr + smap) \<Rightarrow> goerr + rawBackend list \<Rightarrow> goerr + 'w Loaded" where
  "Load reg unmarshal raw =
     (case raw of
        Inl e \<Rightarrow> Inl e
      | Inr bs \<Rightarrow>
          (case validateOuter bs of
             Some e \<Rightarrow> Inl (Wrapf ''%s: %w'' [AStr ''buckety-controller.yaml''] e)
           | None \<Rightarrow> load_backends reg unmarshal 0 bs []))"


section \<open>Lemmas\<close>

lemma EffectiveParameters_map:
  assumes "wf_map (beParameters b)" and "wf_map cr"
  shows "map_of (EffectiveParameters b cr) = map_of (beParameters b) ++ map_of cr"
  using assms by (auto simp: EffectiveParameters_def map_of_copy_into)

lemma EffectiveParameters_wf: "wf_map cr \<Longrightarrow> wf_map (EffectiveParameters b cr)"
  by (simp add: EffectiveParameters_def)

lemma map_of_fold_delete: "map_of (fold AList.delete keys m) k = (if k \<in> set keys then None else map_of m k)"
  by (induction keys arbitrary: m) (auto simp: delete_conv')

lemma withoutKeys_map:
  assumes "wf_map params"
  shows "map_of (withoutKeys params keys) k = (if k \<in> set keys then None else map_of params k)"
  using assms by (auto simp: withoutKeys_def list_ex_iff map_of_fold_delete)

lemma validate_backends_None:
  "validate_backends i seen bs = None \<longleftrightarrow>
     list_all (\<lambda>b. rbName b \<noteq> [] \<and> rbDriver b \<noteq> []) bs \<and> distinct (map rbName bs) \<and>
     set (map rbName bs) \<inter> set seen = {}"
  by (induction i seen bs rule: validate_backends.induct) auto

lemma load_backends_Inr:
  assumes "load_backends reg unmarshal i bs out = Inr l" and "distinct (map rbName bs)"
  shows "(\<forall>b \<in> set bs. \<exists>be j. load_backend reg unmarshal j b = Inr be \<and> Lookup l (rbName b) = Some be) \<and>
    (\<forall>n. n \<notin> set (map rbName bs) \<longrightarrow> Lookup l n = Lookup out n)"
  using assms
proof (induction reg unmarshal i bs out rule: load_backends.induct)
  case (2 reg unmarshal i b bs out)
  then obtain be where be: "load_backend reg unmarshal i b = Inr be"
    and rest: "load_backends reg unmarshal (Suc i) bs (AList.update (rbName b) be out) = Inr l"
    by (auto split: sum.splits)
  from "2.IH" [OF be rest] "2.prems"(2) be show ?case
    by (auto simp: Lookup_def update_conv')
qed simp

lemma load_backend_Inr:
  assumes "load_backend reg unmarshal i b = Inr be"
  obtains f drv parameters where "Lookup_factory reg (rbDriver b) = Some f" "f (rbConfig b) = Inr drv"
    "be = \<lparr>beName = rbName b, beDriver = drv, beDefaults = rbDefaults b, beParameters = parameters\<rparr>"
    "if rbParameters b = [] then parameters = [] else unmarshal (rbParameters b) = Inr parameters"
    "\<forall>(k, v) \<in> set parameters. k \<in> set (TemplatedParameters drv) \<or> \<not> Contains v ''${''"
    "dValidateParameters drv
       (if parameters = [] \<or> TemplatedParameters drv = [] then parameters
        else withoutKeys parameters (TemplatedParameters drv)) = None"
  using assms unfolding load_backend_def Let_def
  by (fastforce split: option.splits sum.splits if_splits simp: range_check_None)


section \<open>Properties\<close>

text \<open>
  The parameter view: the merged view holds the resource's own value where it has one
  and the backend's default elsewhere, for every key; and the resolved view, which is what
  admission, the reconcilers and every driver call use, agrees with it on every key the
  driver does not declare templated.
\<close>

theorem parameter_view:
  assumes "wf_map (beParameters b)" and "wf_map cr"
  shows "map_of (EffectiveParameters b cr) = map_of (beParameters b) ++ map_of cr \<and>
    (\<forall>q k. ResolvedParameters b name ns cr = Inr q \<and> k \<notin> set (TemplatedParameters (beDriver b)) \<longrightarrow>
       map_of q k = (map_of (beParameters b) ++ map_of cr) k)"
proof -
  note eff = EffectiveParameters_map [OF assms]
  have "map_of q k = map_of (EffectiveParameters b cr) k"
    if q: "ResolvedParameters b name ns cr = Inr q" and k: "k \<notin> set (TemplatedParameters (beDriver b))" for q k
  proof (cases "TemplatedParameters (beDriver b) = []")
    case True
    with q show ?thesis by (simp add: ResolvedParameters_def)
  next
    case False
    let ?eff = "EffectiveParameters b cr" and ?keys = "TemplatedParameters (beDriver b)"
    let ?inp = "\<lparr>inName = name, inNamespace = ns, inLabels = [], inBackendDefaults = beDefaults b, inNoLabels = False\<rparr>"
    have "ResolveParameters ?eff ?keys ?inp = Inr q"
      using q False by (simp add: ResolvedParameters_def Let_def)
    then show ?thesis
      using k resolve_keys_value [OF EffectiveParameters_wf [OF assms(2)], of b _ None ?keys q]
      by (auto simp: ResolveParameters_def split: if_splits)
  qed
  with eff show ?thesis by simp
qed

text \<open>A driver with no backend behind it, for the witnesses.\<close>

definition inert_driver :: "unit Driver" where
  "inert_driver = \<lparr>dName = ''inert'', dVersion = ''1.2.3'',
     dInspectBuckety = (\<lambda>_ w. (Inr \<lparr>Exists = False, Empty = False\<rparr>, w)),
     dEnsureBuckety = (\<lambda>_ w. (([], None), w)), dDeleteBuckety = (\<lambda>_ w. (None, w)),
     dGrantAccess = (\<lambda>_ w. (Inl (Errorf (Lit ''no'')), w)), dRevokeAccess = (\<lambda>_ w. (None, w)),
     dValidateParameters = (\<lambda>_. None), dValidateUpdateParameters = (\<lambda>_ _. None),
     dValidateAccessParameters = (\<lambda>_. None), dValidateResourceName = (\<lambda>_. None),
     dTemplatedParameters = None, dForgetBuckety = None\<rparr>"

theorem parameter_view_witness:
  "let b = \<lparr>beName = ''objs'', beDriver = inert_driver, beDefaults = [],
            beParameters = [(''location'', ''EU''), (''versioning'', ''true'')]\<rparr>;
       cr = [(''versioning'', ''false'')]
   in map_of (EffectiveParameters b cr) = map_of (beParameters b) ++ map_of cr \<and>
      (\<forall>q k. ResolvedParameters b ''n'' ''ns'' cr = Inr q \<and> k \<notin> set (TemplatedParameters (beDriver b)) \<longrightarrow>
         map_of q k = (map_of (beParameters b) ++ map_of cr) k) \<and>
      map_of (EffectiveParameters b cr) ''location'' = Some ''EU''"
  unfolding Let_def
  by (rule conjI [OF parameter_view [THEN conjunct1] conjI [OF parameter_view [THEN conjunct2]]])
     (simp_all add: EffectiveParameters_def)

text \<open>
  What a successful start guarantees. Every configured backend has a name of its own
  and is found under it, with the driver its factory built from its \<open>config:\<close> block and the
  defaults as decoded; no default outside the driver's templated keys carries a \<open>${\<close>
  reference; the driver accepted the defaults it can judge at start-up; and a name that is
  not configured is not found.
\<close>

theorem load_guarantees:
  assumes "Load reg unmarshal (Inr bs) = Inr l"
  shows "bs \<noteq> [] \<and> distinct (map rbName bs) \<and>
    (\<forall>b \<in> set bs. \<exists>be f. Lookup l (rbName b) = Some be \<and> beName be = rbName b \<and>
       Lookup_factory reg (rbDriver b) = Some f \<and> f (rbConfig b) = Inr (beDriver be) \<and>
       beDefaults be = rbDefaults b \<and>
       (\<forall>(k, v) \<in> set (beParameters be). k \<in> set (TemplatedParameters (beDriver be)) \<or> \<not> Contains v ''${'') \<and>
       (TemplatedParameters (beDriver be) = [] \<longrightarrow> dValidateParameters (beDriver be) (beParameters be) = None)) \<and>
    (\<forall>n. n \<notin> set (map rbName bs) \<longrightarrow> Lookup l n = None)"
proof -
  have bs: "bs \<noteq> []" and v: "validate_backends 0 [] bs = None" and l: "load_backends reg unmarshal 0 bs [] = Inr l"
    using assms by (auto simp: Load_def validateOuter_def split: option.splits if_splits)
  have d: "distinct (map rbName bs)"
    using v by (simp add: validate_backends_None)
  note loaded = load_backends_Inr [OF l d]
  have "\<exists>be f. Lookup l (rbName b) = Some be \<and> beName be = rbName b \<and>
       Lookup_factory reg (rbDriver b) = Some f \<and> f (rbConfig b) = Inr (beDriver be) \<and>
       beDefaults be = rbDefaults b \<and>
       (\<forall>(k, v) \<in> set (beParameters be). k \<in> set (TemplatedParameters (beDriver be)) \<or> \<not> Contains v ''${'') \<and>
       (TemplatedParameters (beDriver be) = [] \<longrightarrow> dValidateParameters (beDriver be) (beParameters be) = None)"
    if "b \<in> set bs" for b
  proof -
    from loaded that obtain be j where be: "load_backend reg unmarshal j b = Inr be" "Lookup l (rbName b) = Some be"
      by blast
    show ?thesis
      by (rule load_backend_Inr [OF be(1)]) (use be(2) in auto)
  qed
  with bs d loaded show ?thesis by (simp add: Lookup_def)
qed

theorem load_guarantees_witness:
  "let reg = \<lparr>factories = [(''inert'', \<lambda>_. Inr inert_driver)], versions = [(''inert'', ''1.2.3'')]\<rparr>;
       bs = [\<lparr>rbName = ''a'', rbDriver = ''inert'', rbConfig = ''{}'', rbDefaults = [], rbParameters = []\<rparr>]
   in \<exists>l. Load reg (\<lambda>_. Inr []) (Inr bs) = Inr l \<and>
     (\<forall>b \<in> set bs. \<exists>be. Lookup l (rbName b) = Some be \<and> beName be = rbName b)"
proof -
  let ?reg = "\<lparr>factories = [(''inert'', \<lambda>_. Inr inert_driver)], versions = [(''inert'', ''1.2.3'')]\<rparr>"
  let ?bs = "[\<lparr>rbName = ''a'', rbDriver = ''inert'', rbConfig = ''{}'', rbDefaults = [], rbParameters = []\<rparr>]"
  obtain l where l: "Load ?reg (\<lambda>_. Inr []) (Inr ?bs) = Inr l"
    by (simp add: Load_def validateOuter_def load_backend_def Lookup_factory_def
        TemplatedParameters_def inert_driver_def)
  from load_guarantees [OF l] l show ?thesis by (auto simp: Let_def)
qed

end
