(* ===== verification/Controller_Env.thy ===== *)
theory Controller_Env
  imports Cadence Condition_Status Backend_Config
begin

text \<open>
  What the two reconcilers share: their fields (client, live reader, loaded config,
  recorder, re-check cadence), the trace of calls a pass makes, and the programs for a
  single API call, an Event, a condition, a re-check delay and the start-up deferral.

  Every call that matters to a property leaves one event with its answer. Log lines are
  not modelled.
\<close>

section \<open>Calls\<close>

datatype event =
    ListedAccesses bool string "goerr + BucketyAccess list"
  | BucketyRead nsname "goerr + Buckety"
  | BucketyPatched Buckety Buckety "goerr option"
  | BucketyUpdated Buckety "goerr option"
  | BucketyStatusUpdated Buckety "goerr + Buckety"
  | BucketyStatusPatched Buckety Buckety "goerr option"
  | AccessCreated BucketyAccess "goerr option"
  | AccessDeleted BucketyAccess "goerr option"
  | AccessUpdated BucketyAccess "goerr option"
  | AccessPatched BucketyAccess BucketyAccess "goerr option"
  | AccessStatusPatched BucketyAccess BucketyAccess "goerr option"
  | SecretRead bool nsname "goerr + secret"
  | SecretCreated secret "goerr option"
  | SecretUpdated secret "goerr option"
  | Inspected string string "goerr + Inspection"
  | Ensured string EnsureRequest "goerr option"
  | Deleted string DeleteRequest "goerr option"
  | Granted string GrantRequest "goerr + GrantResult"
  | Revoked string string "goerr option"
  | Forgotten string string string
  | is_KubeEvent: KubeEvent nsname string string "text"
  | DriftGauge string string string int
  | DriftForgotten string string

record 'w env =
  eKube :: kube
  eClient :: "'w client"
  eLive :: "'w reader option"
  eConfig :: "'w Loaded"
  eRecheck :: duration
  eRecorder :: bool
  eNow :: "'w \<Rightarrow> time \<times> 'w"
  eRandFloat :: "'w \<Rightarrow> rat \<times> 'w"
  eRandInt :: "int \<Rightarrow> 'w \<Rightarrow> int \<times> 'w"

record ctrl_memory =
  mStartup :: Startup
  mDeletions :: deletionBackoff

type_synonym ('w, 'a) ctrl = "('w, event, ctrl_memory, 'a) prog"

text \<open>\<open>(ctrl.Result, error)\<close>: the delay of \<open>RequeueAfter\<close> and the error.\<close>

type_synonym outcome = "duration \<times> goerr option"

abbreviation EventTypeNormal :: string where "EventTypeNormal \<equiv> ''Normal''"
abbreviation EventTypeWarning :: string where "EventTypeWarning \<equiv> ''Warning''"

definition key_of :: "objmeta \<Rightarrow> nsname" where
  "key_of m = \<lparr>nsNamespace = Namespace m, nsName = Name m\<rparr>"

definition liveReader :: "'w env \<Rightarrow> 'w reader" where
  "liveReader E = (case eLive E of Some r \<Rightarrow> r | None \<Rightarrow> reader.truncate (eClient E))"

definition status_Event ::
  "'w env \<Rightarrow> objmeta \<Rightarrow> condition list \<Rightarrow> string \<Rightarrow> string \<Rightarrow> string \<Rightarrow> string \<Rightarrow> string \<Rightarrow> text \<Rightarrow> ('w, unit) ctrl" where
  "status_Event E obj base typ st reason eventType eventReason msg =
     (if event_due (eKube E) (eRecorder E) base typ st reason
      then emit (KubeEvent (key_of obj) eventType eventReason msg) else ret ())"

text \<open>\<open>if r.Recorder != nil { r.Recorder.Event(...) }\<close>\<close>

definition record_Event :: "'w env \<Rightarrow> objmeta \<Rightarrow> string \<Rightarrow> string \<Rightarrow> text \<Rightarrow> ('w, unit) ctrl" where
  "record_Event E obj eventType reason msg =
     (if eRecorder E then emit (KubeEvent (key_of obj) eventType reason msg) else ret ())"

definition now :: "'w env \<Rightarrow> ('w, time) ctrl" where
  "now E = ext (eNow E)"

definition cadence_Recheck :: "'w env \<Rightarrow> ('w, duration) ctrl" where
  "cadence_Recheck E =
     (if eRecheck E \<le> 0 then ret (eRecheck E)
      else do { u \<leftarrow> ext (eRandFloat E); ret (Recheck u (eRecheck E)) })"

definition startup_Defer :: "'w env \<Rightarrow> nsname \<Rightarrow> bool \<Rightarrow> ('w, duration) ctrl" where
  "startup_Defer E key settled = do {
     m \<leftarrow> get_memory;
     r \<leftarrow> (if key \<in> mStartup m \<or> \<not> settled \<or> eRecheck E \<le> 0 then ret 0
          else ext (eRandInt E (eRecheck E)));
     let (d, seen) = Defer (mStartup m) key settled (eRecheck E) r;
     put_memory (m\<lparr>mStartup := seen\<rparr>);
     ret d }"

definition startup_Forget :: "nsname \<Rightarrow> ('w, unit) ctrl" where
  "startup_Forget key = do {
     m \<leftarrow> get_memory;
     put_memory (m\<lparr>mStartup := Forget (mStartup m) key\<rparr>) }"

lemmas ctrl_defs [pass_defs] = status_Event_def record_Event_def now_def cadence_Recheck_def
  startup_Defer_def startup_Forget_def


section \<open>Rules for the shared programs\<close>

definition only_events :: "event list \<Rightarrow> bool" where
  "only_events l \<longleftrightarrow> list_all is_KubeEvent l"

lemma only_events_simps [simp]: "only_events []" "only_events [KubeEvent a b c d]"
  "only_events (l @ l') \<longleftrightarrow> only_events l \<and> only_events l'"
  by (simp_all add: only_events_def)

lemma only_eventsD: "only_events l \<Longrightarrow> e \<in> set l \<Longrightarrow> \<exists>a b c d. e = KubeEvent a b c d"
  by (auto simp: only_events_def list_all_iff is_KubeEvent_def)

text \<open>A contract that lets every Kubernetes Event through; \<open>h\<close> and \<open>h'\<close> differ only in such events.\<close>

definition lax :: "(event list \<Rightarrow> event \<Rightarrow> bool) \<Rightarrow> bool" where
  "lax C \<longleftrightarrow> (\<forall>h e. is_KubeEvent e \<longrightarrow> C h e)"

lemma lax_guarded: "\<lbrakk>lax C; only_events l\<rbrakk> \<Longrightarrow> guarded C h l"
  by (rule guarded_all) (auto simp: lax_def only_events_def list_all_iff)

lemma keeps_status_Event [keeps_rules]:
  assumes "lax C" and "\<And>l. only_events l \<Longrightarrow> R () (h @ l)"
  shows "keeps C h (status_Event E obj base typ st reason evType evReason msg) R"
  unfolding status_Event_def
  by (intro keeps_rules) (use assms(2) [of "[]"] assms in \<open>auto simp: lax_def\<close>)

lemma keeps_record_Event [keeps_rules]:
  assumes "lax C" and "\<And>l. only_events l \<Longrightarrow> R () (h @ l)"
  shows "keeps C h (record_Event E obj evType reason msg) R"
  unfolding record_Event_def
  by (intro keeps_rules) (use assms(2) [of "[]"] assms in \<open>auto simp: lax_def\<close>)

lemma keeps_now [keeps_rules]: "(\<And>t. R t h) \<Longrightarrow> keeps C h (now E) R"
  unfolding now_def by (intro keeps_rules)

lemma keeps_cadence_Recheck [keeps_rules]: "(\<And>d. R d h) \<Longrightarrow> keeps C h (cadence_Recheck E) R"
  unfolding cadence_Recheck_def by (intro keeps_rules) auto

lemma keeps_startup_Defer [keeps_rules]:
  "(\<And>d. R d h) \<Longrightarrow> keeps C h (startup_Defer E key settled) R"
  unfolding startup_Defer_def by (intro keeps_rules) auto

lemma keeps_startup_Forget [keeps_rules]: "R () h \<Longrightarrow> keeps C h (startup_Forget key) R"
  unfolding startup_Forget_def by (intro keeps_rules) auto



section \<open>Rules for functional runs\<close>

text \<open>These say what the shared programs answer, for passes whose outcome is determined.\<close>

lemma pass_status_Event [pass_rules]:
  "(\<And>l. only_events l \<Longrightarrow> Q () l m) \<Longrightarrow>
   pass m (status_Event E obj base typ st reason evType evReason msg) Q"
  unfolding status_Event_def by (intro pass_rules) auto

lemma pass_record_Event [pass_rules]:
  "(\<And>l. only_events l \<Longrightarrow> Q () l m) \<Longrightarrow> pass m (record_Event E obj evType reason msg) Q"
  unfolding record_Event_def by (intro pass_rules) auto

lemma pass_now [pass_rules]: "(\<And>t. Q t [] m) \<Longrightarrow> pass m (now E) Q"
  unfolding now_def by (intro pass_rules)

lemma pass_cadence_Recheck [pass_rules]: "(\<And>d. Q d [] m) \<Longrightarrow> pass m (cadence_Recheck E) Q"
  unfolding cadence_Recheck_def by (intro pass_rules) auto

text \<open>An object that is not settled is never deferred.\<close>

lemma pass_startup_Defer_unsettled:
  "(\<And>m'. mDeletions m' = mDeletions m \<Longrightarrow> Q 0 [] m') \<Longrightarrow> pass m (startup_Defer E key False) Q"
  unfolding startup_Defer_def by (intro pass_rules) (auto simp: Defer_def)

end
