(* ===== verification/Buckety_Controller.thy ===== *)
theory Buckety_Controller
  imports Controller_Env
begin

text \<open>
  \<open>pkg/controller/buckety/reconciler.go\<close> and \<open>metrics.go\<close>: one pass over a Buckety. The
  Go method \<open>Reconcile\<close> is one long body with early returns; here it is a chain of
  definitions in source order (\<open>Reconcile\<close>, \<open>reconcile_body\<close>, \<open>stamp_sticky\<close>,
  \<open>reconcile_stamped\<close>, \<open>ensure_backend\<close>, \<open>finish_pass\<close>), each the continuation of the one
  before. Every stage returns the outcome and the in-memory Buckety, because the deferred
  \<open>recordDrift\<close> reads it after whichever branch returned. A successful write replaces the
  in-memory object by the server's answer, as the client does.
\<close>

section \<open>Helpers\<close>

definition set_conditions :: "condition list \<Rightarrow> Buckety \<Rightarrow> Buckety" where
  "set_conditions cs bky = bky\<lparr>bStatus := (bStatus bky)\<lparr>stConditions := cs\<rparr>\<rparr>"

abbreviation conds :: "Buckety \<Rightarrow> condition list" where
  "conds bky \<equiv> stConditions (bStatus bky)"

definition set_cond :: "'w env \<Rightarrow> Buckety \<Rightarrow> string \<Rightarrow> string \<Rightarrow> string \<Rightarrow> text \<Rightarrow> ('w, Buckety) ctrl" where
  "set_cond E bky typ st reason msg = do {
     t \<leftarrow> now E;
     ret (set_conditions (status_Set (eKube E) t (conds bky) typ st reason msg (Generation (bMeta bky))) bky) }"

definition remove_cond :: "'w env \<Rightarrow> Buckety \<Rightarrow> string \<Rightarrow> Buckety" where
  "remove_cond E bky typ = set_conditions (RemoveStatusCondition (eKube E) (conds bky) typ) bky"

definition surface ::
  "'w env \<Rightarrow> Buckety \<Rightarrow> Buckety \<Rightarrow> string \<Rightarrow> string \<Rightarrow> string \<Rightarrow> text \<Rightarrow> string \<Rightarrow> ('w, Buckety) ctrl" where
  "surface E bky base typ st reason msg eventType = do {
     status_Event E (bMeta bky) (conds base) typ st reason eventType reason msg;
     set_cond E bky typ st reason msg }"

definition patchStatus :: "'w env \<Rightarrow> Buckety \<Rightarrow> Buckety \<Rightarrow> ('w, goerr option \<times> Buckety) ctrl" where
  "patchStatus E bky base = (
     let cur = set_conditions (KeepTransitionTimes (eKube E) (conds base) (conds bky)) bky in
     if \<not> ChangedBeyondMessages (DeepEqual_bstatus (eKube E)) stConditions (\<lambda>cs s. s\<lparr>stConditions := cs\<rparr>)
           (bStatus base) (bStatus cur)
     then ret (None, cur)
     else do {
       r \<leftarrow> call (clStatusPatchBuckety (eClient E) base cur) (\<lambda>r. BucketyStatusPatched base cur (err_of r));
       ret (case r of Inl e \<Rightarrow> (Some e, cur) | Inr b \<Rightarrow> (None, b)) })"

definition surfaceCondition ::
  "'w env \<Rightarrow> Buckety \<Rightarrow> Buckety \<Rightarrow> string \<Rightarrow> string \<Rightarrow> string \<Rightarrow> text \<Rightarrow> ('w, outcome \<times> Buckety) ctrl" where
  "surfaceCondition E bky base typ st reason msg = do {
     bky \<leftarrow> surface E bky base typ st reason msg EventTypeWarning;
     (err, bky) \<leftarrow> patchStatus E bky base;
     ret ((0, err), bky) }"

definition surfaceBackendUnavailable ::
  "'w env \<Rightarrow> Buckety \<Rightarrow> Buckety \<Rightarrow> string \<Rightarrow> text \<Rightarrow> ('w, outcome \<times> Buckety) ctrl" where
  "surfaceBackendUnavailable E bky base reason msg = do {
     status_Event E (bMeta bky) (conds base) ''BackendUnavailable'' ConditionTrue reason
       EventTypeWarning ''BackendUnavailable'' msg;
     bky \<leftarrow> set_cond E bky ''BackendUnavailable'' ConditionTrue reason msg;
     bky \<leftarrow> set_cond E bky ''Ready'' ConditionFalse ''BackendUnavailable'' (Lit ''reconcile paused'');
     (err, bky) \<leftarrow> patchStatus E bky base;
     ret ((0, err), bky) }"

definition provisioningPatience :: duration where
  "provisioningPatience = 2 * Minute"

definition provisioningOverdue :: "kube \<Rightarrow> time \<Rightarrow> condition list \<Rightarrow> bool" where
  "provisioningOverdue K t cs =
     (case FindStatusCondition K cs ''Ready'' of
        Some c \<Rightarrow> cStatus c = ConditionFalse \<and> cReason c = ''Provisioning'' \<and>
                  t - cLastTransitionTime c > provisioningPatience
      | None \<Rightarrow> False)"

definition decideProvenance :: "Inspection \<Rightarrow> AdoptionPolicy \<Rightarrow> Provenance" where
  "decideProvenance insp policy =
     (if \<not> Exists insp then ProvenanceCreated
      else if Empty insp \<or> policy = AdoptionAdopt then ProvenanceAdopted
      else [])"

definition majorOf :: "string \<Rightarrow> num_result" where
  "majorOf v = (case IndexByte v (CHR ''.'') of None \<Rightarrow> Atoi v | Some dot \<Rightarrow> Atoi (take dot v))"

definition reportChange :: "'w env \<Rightarrow> Buckety \<Rightarrow> Change \<Rightarrow> ('w, unit) ctrl" where
  "reportChange E bky c =
     record_Event E (bMeta bky) EventTypeNormal (chReason c)
       (Sprintf ''%s: %s -> %s on %q''
          [AStr (chParameter c), AStr (if chOld c = [] then ''(unset)'' else chOld c), AStr (chNew c),
           AStr (stBackendResourceName (bStatus bky))])"

definition accessToBuckety :: "BucketyAccess option \<Rightarrow> nsname list" where
  "accessToBuckety obj =
     (case obj of
        Some a \<Rightarrow> if asBucketyRef (aSpec a) = [] then []
                  else [\<lparr>nsNamespace = Namespace (aMeta a), nsName = asBucketyRef (aSpec a)\<rparr>]
      | None \<Rightarrow> [])"


section \<open>The drift gauge\<close>

definition forgetDrift :: "string \<Rightarrow> string \<Rightarrow> ('w, unit) ctrl" where
  "forgetDrift namespace name = emit (DriftForgotten namespace name)"

definition recordDrift :: "'w env \<Rightarrow> Buckety \<Rightarrow> ('w, unit) ctrl" where
  "recordDrift E bky =
     (if being_deleted (bMeta bky) \<and> \<not> ContainsFinalizer (eKube E) (bMeta bky) FinalizerCleanup
      then forgetDrift (Namespace (bMeta bky)) (Name (bMeta bky))
      else emit (DriftGauge (Namespace (bMeta bky)) (Name (bMeta bky)) (bsBackend (bSpec bky))
             (if IsStatusConditionTrue (eKube E) (conds bky) ''ParameterDrift'' then 1 else 0)))"


section \<open>Deletion\<close>

definition is_implicit :: "BucketyAccess \<Rightarrow> bool" where
  "is_implicit a \<longleftrightarrow> get0 (Labels (aMeta a)) LabelImplicit = ''true''"

definition blocking_names :: "string \<Rightarrow> BucketyAccess list \<Rightarrow> string list" where
  "blocking_names name items =
     map (\<lambda>a. Name (aMeta a)) (filter (\<lambda>a. asBucketyRef (aSpec a) = name \<and> \<not> is_implicit a) items)"

definition remove_finalizer_and_update :: "'w env \<Rightarrow> Buckety \<Rightarrow> ('w, outcome \<times> Buckety) ctrl" where
  "remove_finalizer_and_update E bky = (
     let bky = bky\<lparr>bMeta := RemoveFinalizer (eKube E) (bMeta bky) FinalizerCleanup\<rparr> in do {
       r \<leftarrow> call (clUpdateBuckety (eClient E) bky) (\<lambda>r. BucketyUpdated bky (err_of r));
       ret (case r of Inl e \<Rightarrow> ((0, Some e), bky) | Inr b \<Rightarrow> ((0, None), b)) })"

text \<open>
  The backend a Buckety resolves to, or the reason it is unavailable: missing from the
  config, or behind another driver than the one that stamped the resource.
\<close>

definition resolve_backend :: "'w env \<Rightarrow> Buckety \<Rightarrow> (string \<times> text) + 'w Backend" where
  "resolve_backend E bky =
     (case Lookup (eConfig E) (bsBackend (bSpec bky)) of
        None \<Rightarrow> Inl (''NotInConfig'', Sprintf ''backend %q is not registered in buckety-controller.yaml'' [AStr (bsBackend (bSpec bky))])
      | Some backend \<Rightarrow>
          if stDriver (bStatus bky) \<noteq> [] \<and> stDriver (bStatus bky) \<noteq> dName (beDriver backend)
          then Inl (''DriverChanged'', Sprintf ''backend %q now runs driver %q but this resource was provisioned by driver %q; restore the backend's driver or migrate the resource''
                 [AStr (bsBackend (bSpec bky)), AStr (dName (beDriver backend)), AStr (stDriver (bStatus bky))])
          else Inr backend)"

text \<open>\<open>DeleteBuckety\<close> and what follows it, for a resource the policy says to delete.\<close>

definition delete_backend_resource ::
  "'w env \<Rightarrow> Buckety \<Rightarrow> Buckety \<Rightarrow> 'w Backend \<Rightarrow> ('w, outcome \<times> Buckety) ctrl" where
  "delete_backend_resource E bky base backend =
     (case ResolvedParameters backend (Name (bMeta bky)) (Namespace (bMeta bky)) (bsParameters (bSpec bky)) of
        Inl perr \<Rightarrow> do {
          status_Event E (bMeta bky) (conds base) ''Ready'' ConditionFalse ''ParameterTemplate''
            EventTypeWarning ''DeleteFailed'' (ErrText perr);
          bky \<leftarrow> set_cond E bky ''Ready'' ConditionFalse ''ParameterTemplate'' (ErrText perr);
          (_, bky) \<leftarrow> patchStatus E bky base;
          ret ((0, Some perr), bky) }
      | Inr effective \<Rightarrow> (
          let req = \<lparr>drName = stBackendResourceName (bStatus bky), drParameters = effective\<rparr> in do {
          r \<leftarrow> call (dDeleteBuckety (beDriver backend) req) (Deleted (beName backend) req);
          case r of
            None \<Rightarrow> do {
              m \<leftarrow> get_memory;
              put_memory (m\<lparr>mDeletions := backoff_forget (mDeletions m) (UID (bMeta bky))\<rparr>);
              remove_finalizer_and_update E bky }
          | Some e \<Rightarrow>
              if IsDeletionInProgress e then do {
                bky \<leftarrow> surface E bky base ''Ready'' ConditionFalse ''DeletingContents'' (ErrText e) EventTypeNormal;
                (perr, bky) \<leftarrow> patchStatus E bky base;
                case perr of
                  Some pe \<Rightarrow> ret ((0, Some pe), bky)
                | None \<Rightarrow> do {
                    m \<leftarrow> get_memory;
                    let (d, dl) = backoff_next (mDeletions m) (UID (bMeta bky)) (IsDeletionStalled e);
                    put_memory (m\<lparr>mDeletions := dl\<rparr>);
                    ret ((d, None), bky) } }
              else do {
                bky \<leftarrow> surface E bky base ''Ready'' ConditionFalse ''DeleteFailed'' (ErrText e) EventTypeWarning;
                (_, bky) \<leftarrow> patchStatus E bky base;
                ret ((0, Some e), bky) } }))"

definition reconcile_teardown ::
  "'w env \<Rightarrow> Buckety \<Rightarrow> Buckety \<Rightarrow> (string \<times> text) + 'w Backend \<Rightarrow> ('w, outcome \<times> Buckety) ctrl" where
  "reconcile_teardown E bky base avail =
     (if bsRetentionPolicy (bSpec bky) = RetentionDelete \<and> stProvenance (bStatus bky) = ProvenanceAdopted then do {
        record_Event E (bMeta bky) EventTypeNormal ''RetainedOnDelete''
          (Sprintf ''backend resource %q was adopted, not created; retained despite retentionPolicy=Delete'' [AStr (stBackendResourceName (bStatus bky))]);
        remove_finalizer_and_update E bky }
      else if bsRetentionPolicy (bSpec bky) = RetentionDelete \<and> stBackendResourceName (bStatus bky) \<noteq> [] then
        (case avail of
           Inl (reason, why) \<Rightarrow> (
             let msg = Sprintf ''retentionPolicy=Delete needs backend %q to remove %q, but %s; restore it or set retentionPolicy=Retain''
                   [AStr (bsBackend (bSpec bky)), AStr (stBackendResourceName (bStatus bky)), AText why] in do {
             status_Event E (bMeta bky) (conds base) ''BackendUnavailable'' ConditionTrue reason
               EventTypeWarning ''DeletionBlocked'' msg;
             bky \<leftarrow> set_cond E bky ''BackendUnavailable'' ConditionTrue reason msg;
             bky \<leftarrow> set_cond E bky ''Ready'' ConditionFalse ''BackendUnavailable'' (Lit ''deletion blocked'');
             (err, bky) \<leftarrow> patchStatus E bky base;
             case err of
               Some e \<Rightarrow> ret ((0, Some e), bky)
             | None \<Rightarrow> do { d \<leftarrow> cadence_Recheck E; ret ((d, None), bky) } })
         | Inr backend \<Rightarrow> delete_backend_resource E bky base backend)
      else do {
        m \<leftarrow> get_memory;
        put_memory (m\<lparr>mDeletions := backoff_forget (mDeletions m) (UID (bMeta bky))\<rparr>);
        remove_finalizer_and_update E bky })"

text \<open>The wait for the implicit access: its deletion is driven from here.\<close>

definition revoke_implicit ::
  "'w env \<Rightarrow> Buckety \<Rightarrow> Buckety \<Rightarrow> BucketyAccess \<Rightarrow> ('w, outcome \<times> Buckety) ctrl" where
  "revoke_implicit E bky base a = do {
     derr \<leftarrow> (if being_deleted (aMeta a) then ret None
             else do { r \<leftarrow> call (clDeleteAccess (eClient E) a) (AccessDeleted a); ret (IgnoreNotFound r) });
     case derr of
       Some e \<Rightarrow> ret ((0, Some e), bky)
     | None \<Rightarrow> do {
         bky \<leftarrow> set_cond E bky ''Ready'' ConditionFalse ''RevokingAccesses''
           (Sprintf ''waiting for implicit BucketyAccess %q to revoke before teardown'' [AStr (Name (aMeta a))]);
         (err, bky) \<leftarrow> patchStatus E bky base;
         ret (case err of Some e \<Rightarrow> ((0, Some e), bky) | None \<Rightarrow> ((2 * Second, None), bky)) } }"

definition reconcileDelete ::
  "'w env \<Rightarrow> Buckety \<Rightarrow> (string \<times> text) + 'w Backend \<Rightarrow> ('w, outcome \<times> Buckety) ctrl" where
  "reconcileDelete E bky avail = (
     let base = bky; name = Name (bMeta bky); ns = Namespace (bMeta bky) in do {
     l \<leftarrow> call (rdListAccesses (liveReader E) ns) (ListedAccesses (eLive E \<noteq> None) ns);
     case l of
       Inl e \<Rightarrow> ret ((0, Some e), bky)
     | Inr items \<Rightarrow>
         let blocking = blocking_names name items in
         if blocking \<noteq> [] then do {
           status_Event E (bMeta bky) (conds base) ''BlockedByAccesses'' ConditionTrue ''Pending''
             EventTypeWarning ''BlockedByAccesses''
             (Sprintf ''deletion waits on BucketyAccess: %s'' [AStr (Join blocking '', '')]);
           bky \<leftarrow> set_cond E bky ''BlockedByAccesses'' ConditionTrue ''Pending''
             (Sprintf ''waiting on BucketyAccess: %s'' [AStr (Join blocking '', '')]);
           (err, bky) \<leftarrow> patchStatus E bky base;
           case err of
             Some e \<Rightarrow> ret ((0, Some e), bky)
           | None \<Rightarrow> do { d \<leftarrow> cadence_Recheck E; ret ((d, None), bky) } }
         else (case filter (\<lambda>a. asBucketyRef (aSpec a) = name \<and> is_implicit a) items of
                 a # _ \<Rightarrow> revoke_implicit E bky base a
               | [] \<Rightarrow> reconcile_teardown E bky base avail) })"


section \<open>The implicit access\<close>

text \<open>The scan keeps the last implicit access it sees and whether an explicit one exists.\<close>

definition scan_accesses :: "string \<Rightarrow> BucketyAccess list \<Rightarrow> BucketyAccess option \<times> bool" where
  "scan_accesses name items =
     foldl (\<lambda>(implicit, explicitExists) a.
        if asBucketyRef (aSpec a) \<noteq> name then (implicit, explicitExists)
        else if is_implicit a then (Some a, explicitExists)
        else (implicit, True)) (None, False) items"

definition new_implicit_access :: "Buckety \<Rightarrow> DefaultAccess \<Rightarrow> BucketyAccess" where
  "new_implicit_access bky da =
     \<lparr>aMeta = \<lparr>Name = Name (bMeta bky), Namespace = Namespace (bMeta bky), UID = [],
               Labels = [(LabelImplicit, ''true'')], Generation = 0, DeletionTimestamp = None,
               Finalizers = [], OwnerReferences = []\<rparr>,
      aSpec = \<lparr>asBucketyRef = Name (bMeta bky), asCredentialsSecretName = daCredentialsSecretName da,
               asRole = (if daRole da = [] then RoleReadWrite else daRole da), asParameters = []\<rparr>,
      aStatus = \<lparr>atObservedGeneration = 0, atPrincipal = [], atPrincipalRevocable = False, atConditions = []\<rparr>\<rparr>"

definition reconcileImplicitAccess :: "'w env \<Rightarrow> Buckety \<Rightarrow> ('w, goerr option) ctrl" where
  "reconcileImplicitAccess E bky = do {
     l \<leftarrow> call (rdListAccesses (reader.truncate (eClient E)) (Namespace (bMeta bky)))
           (ListedAccesses False (Namespace (bMeta bky)));
     case l of
       Inl e \<Rightarrow> ret (Some e)
     | Inr items \<Rightarrow> (
         let (implicit, explicitExists) = scan_accesses (Name (bMeta bky)) items in
         case (implicit, bsDefaultAccess (bSpec bky)) of
           (None, Some da) \<Rightarrow>
             if explicitExists then ret None
             else (let a = new_implicit_access bky da in
               case SetControllerReference (eKube E) (bMeta bky) (aMeta a) of
                 Inl e \<Rightarrow> ret (Some e)
               | Inr m \<Rightarrow> do {
                   r \<leftarrow> call (clCreateAccess (eClient E) (a\<lparr>aMeta := m\<rparr>)) (\<lambda>r. AccessCreated (a\<lparr>aMeta := m\<rparr>) (err_of r));
                   ret (IgnoreAlreadyExists (err_of r)) })
         | (Some i, Some da) \<Rightarrow>
             if explicitExists \<or> asCredentialsSecretName (aSpec i) \<noteq> daCredentialsSecretName da then do {
               r \<leftarrow> call (clDeleteAccess (eClient E) i) (AccessDeleted i);
               ret (IgnoreNotFound r) }
             else (let desiredRole = (if daRole da = [] then RoleReadWrite else daRole da) in
               if asRole (aSpec i) \<noteq> desiredRole then (
                 let i' = i\<lparr>aSpec := (aSpec i)\<lparr>asRole := desiredRole\<rparr>\<rparr> in do {
                 r \<leftarrow> call (clUpdateAccess (eClient E) i') (\<lambda>r. AccessUpdated i' (err_of r));
                 ret (err_of r) })
               else ret None)
         | (Some i, None) \<Rightarrow> do {
             r \<leftarrow> call (clDeleteAccess (eClient E) i) (AccessDeleted i);
             ret (IgnoreNotFound r) }
         | (None, None) \<Rightarrow> ret None) }"


section \<open>The pass\<close>

definition finish_pass :: "'w env \<Rightarrow> Buckety \<Rightarrow> Buckety \<Rightarrow> ('w, outcome \<times> Buckety) ctrl" where
  "finish_pass E bky base = do {
     ierr \<leftarrow> reconcileImplicitAccess E bky;
     case ierr of
       Some e \<Rightarrow> ret ((0, Some e), bky)
     | None \<Rightarrow> do {
         status_Event E (bMeta bky) (conds base) ''Ready'' ConditionTrue ''EnsuredOnBackend''
           EventTypeNormal ''Provisioned''
           (Sprintf ''backend resource %q ensured on backend %q'' [AStr (stBackendResourceName (bStatus bky)), AStr (stBackend (bStatus bky))]);
         bky \<leftarrow> set_cond E bky ''Reconciling'' ConditionFalse ''Idle'' (Lit []);
         bky \<leftarrow> set_cond E bky ''Ready'' ConditionTrue ''EnsuredOnBackend'' (Lit []);
         let bky = bky\<lparr>bStatus := (bStatus bky)\<lparr>stObservedGeneration := Generation (bMeta bky)\<rparr>\<rparr>;
         (err, bky) \<leftarrow> patchStatus E bky base;
         case err of
           Some e \<Rightarrow> ret ((0, Some e), bky)
         | None \<Rightarrow> do { d \<leftarrow> cadence_Recheck E; ret ((d, None), bky) } } }"

definition ensure_backend :: "'w env \<Rightarrow> Buckety \<Rightarrow> Buckety \<Rightarrow> 'w Backend \<Rightarrow> smap \<Rightarrow> ('w, outcome \<times> Buckety) ctrl" where
  "ensure_backend E bky base backend effective = do {
     bky \<leftarrow> set_cond E bky ''Reconciling'' ConditionTrue ''Ensuring'' (Lit ''calling driver.EnsureBuckety'');
     let req = \<lparr>erName = stBackendResourceName (bStatus bky), erParameters = effective,
                erNamespace = Namespace (bMeta bky), erBucketyName = Name (bMeta bky)\<rparr>;
     (changes, err) \<leftarrow> call (dEnsureBuckety (beDriver backend) req) (\<lambda>(cs, e). Ensured (beName backend) req e);
     each (reportChange E bky) changes;
     t \<leftarrow> now E;
     case err of
       None \<Rightarrow> finish_pass E (remove_cond E bky ''ParameterDrift'') base
     | Some e \<Rightarrow>
         if IsParameterDrift e then do {
           status_Event E (bMeta bky) (conds base) ''ParameterDrift'' ConditionTrue ''Unreconcilable''
             EventTypeWarning ''ParameterDrift'' (ErrText e);
           bky \<leftarrow> set_cond E bky ''ParameterDrift'' ConditionTrue ''Unreconcilable'' (ErrText e);
           bky \<leftarrow> set_cond E bky ''Ready'' ConditionFalse ''ParameterDrift'' (ErrText e);
           bky \<leftarrow> set_cond E bky ''Reconciling'' ConditionFalse ''Paused'' (Lit ''drift requires human resolution'');
           (perr, bky) \<leftarrow> patchStatus E bky base;
           ret ((0, perr), bky) }
         else if IsProvisioningInProgress e \<and> \<not> provisioningOverdue (eKube E) t (conds base) then do {
           bky \<leftarrow> surface E bky base ''Ready'' ConditionFalse ''Provisioning'' (ErrText e) EventTypeNormal;
           (perr, bky) \<leftarrow> patchStatus E bky base;
           ret (case perr of Some pe \<Rightarrow> ((0, Some pe), bky) | None \<Rightarrow> ((2 * Second, None), bky)) }
         else do {
           bky \<leftarrow> surface E bky base ''Ready'' ConditionFalse ''EnsureFailed'' (ErrText e) EventTypeWarning;
           (_, bky) \<leftarrow> patchStatus E bky base;
           ret ((0, Some e), bky) } }"

text \<open>A parameter problem only a spec change can fix.\<close>

definition surface_bad_parameters ::
  "'w env \<Rightarrow> Buckety \<Rightarrow> Buckety \<Rightarrow> string \<Rightarrow> goerr \<Rightarrow> ('w, outcome \<times> Buckety) ctrl" where
  "surface_bad_parameters E bky base reason e = do {
     bky \<leftarrow> surface E bky base ''Ready'' ConditionFalse reason (ErrText e) EventTypeWarning;
     bky \<leftarrow> set_cond E bky ''Reconciling'' ConditionFalse reason (Lit ''spec change required'');
     (err, bky) \<leftarrow> patchStatus E bky base;
     ret ((0, err), bky) }"

definition reconcile_stamped :: "'w env \<Rightarrow> Buckety \<Rightarrow> Buckety \<Rightarrow> 'w Backend \<Rightarrow> ('w, outcome \<times> Buckety) ctrl" where
  "reconcile_stamped E bky base backend = (
     let running = num_value (majorOf (dVersion (beDriver backend))) in
     if stBackend (bStatus bky) \<noteq> [] \<and> running \<noteq> stDriverMajor (bStatus bky) then do {
       status_Event E (bMeta bky) (conds base) ''DriverVersionIncompatible'' ConditionTrue ''DriverMajorBump''
         EventTypeWarning ''DriverVersionIncompatible''
         (Sprintf ''stamped major=%d, running=%d; reconcile paused'' [AInt (stDriverMajor (bStatus bky)), AInt running]);
       bky \<leftarrow> set_cond E bky ''DriverVersionIncompatible'' ConditionTrue ''DriverMajorBump''
         (Sprintf ''stamped major=%d, running=%d; pin a compatible binary or migrate the resource'' [AInt (stDriverMajor (bStatus bky)), AInt running]);
       bky \<leftarrow> set_cond E bky ''Ready'' ConditionFalse ''DriverVersionIncompatible'' (Lit ''reconcile paused'');
       (_, bky) \<leftarrow> patchStatus E bky base;
       ret ((0, None), bky) }
     else (
       let bky = bky\<lparr>bStatus := (bStatus bky)\<lparr>stDriverBuildVersion := dVersion (beDriver backend)\<rparr>\<rparr>;
           bky = remove_cond E bky ''DriverVersionIncompatible'';
           bky = remove_cond E bky ''BackendUnavailable'' in
       case ResolvedParameters backend (Name (bMeta bky)) (Namespace (bMeta bky)) (bsParameters (bSpec bky)) of
         Inl perr \<Rightarrow> surface_bad_parameters E bky base ''ParameterTemplate'' perr
       | Inr effective \<Rightarrow>
           (case dValidateParameters (beDriver backend) effective of
              Some e \<Rightarrow> surface_bad_parameters E bky base ''InvalidParameters'' e
            | None \<Rightarrow> ensure_backend E bky base backend effective)))"

definition refuse_adoption ::
  "'w env \<Rightarrow> Buckety \<Rightarrow> Buckety \<Rightarrow> 'w Backend \<Rightarrow> string \<Rightarrow> ('w, outcome \<times> Buckety) ctrl" where
  "refuse_adoption E bky base backend resolved = do {
     bky \<leftarrow> surface E bky base ''Ready'' ConditionFalse ''BackendResourceExists''
       (Sprintf ''backend resource %q already exists on backend %q and holds content; refusing to adopt it. Set spec.adoption=Adopt to claim it (adopted resources are never deleted from the backend), or change spec.name.'' [AStr resolved, AStr (beName backend)]) EventTypeWarning;
     bky \<leftarrow> set_cond E bky ''Reconciling'' ConditionFalse ''BackendResourceExists'' (Lit ''adoption refused'');
     (err, bky) \<leftarrow> patchStatus E bky base;
     case err of
       Some e \<Rightarrow> ret ((0, Some e), bky)
     | None \<Rightarrow> do { d \<leftarrow> cadence_Recheck E; ret ((d, None), bky) } }"

definition stamped :: "Buckety \<Rightarrow> 'w Backend \<Rightarrow> string \<Rightarrow> Provenance \<Rightarrow> Buckety" where
  "stamped bky backend resolved provenance =
     bky\<lparr>bStatus := (bStatus bky)\<lparr>
       stBackend := beName backend,
       stDriver := dName (beDriver backend),
       stDriverMajor := num_value (majorOf (dVersion (beDriver backend))),
       stDriverBuildVersion := dVersion (beDriver backend),
       stBackendResourceName := resolved,
       stProvenance := provenance\<rparr>\<rparr>"

text \<open>First reconcile: the adoption gate, then the sticky fields, then the rest of the pass.\<close>

definition stamp_sticky :: "'w env \<Rightarrow> Buckety \<Rightarrow> Buckety \<Rightarrow> 'w Backend \<Rightarrow> ('w, outcome \<times> Buckety) ctrl" where
  "stamp_sticky E bky base backend =
     (case ResolveName backend (bsName (bSpec bky)) (Name (bMeta bky)) (Namespace (bMeta bky)) (Labels (bMeta bky)) of
        Inl e \<Rightarrow> surfaceCondition E bky base ''Ready'' ConditionFalse ''NameTemplate'' (ErrText e)
      | Inr resolved \<Rightarrow>
     (case dValidateResourceName (beDriver backend) resolved of
        Some e \<Rightarrow> surfaceCondition E bky base ''Ready'' ConditionFalse ''NameInvalid'' (ErrText e)
      | None \<Rightarrow> do {
     i \<leftarrow> call (dInspectBuckety (beDriver backend) resolved) (Inspected (beName backend) resolved);
     case i of
       Inl e \<Rightarrow> do {
         bky \<leftarrow> surface E bky base ''Ready'' ConditionFalse ''InspectFailed'' (ErrText e) EventTypeWarning;
         (_, bky) \<leftarrow> patchStatus E bky base;
         ret ((0, Some e), bky) }
     | Inr inspection \<Rightarrow> (
         let provenance = decideProvenance inspection (bsAdoption (bSpec bky)) in
         if provenance = [] then refuse_adoption E bky base backend resolved
         else do {
           (if provenance = ProvenanceAdopted then
              record_Event E (bMeta bky) EventTypeNormal ''Adopted''
                (Sprintf ''adopted pre-existing backend resource %q (empty=%v); it will be retained when this Buckety is deleted'' [AStr resolved, ABool (Empty inspection)])
            else ret ());
           let bky = stamped bky backend resolved provenance;
           r \<leftarrow> call (clStatusUpdateBuckety (eClient E) bky) (BucketyStatusUpdated bky);
           case r of
             Inl e \<Rightarrow> ret ((0, Some e), bky)
           | Inr bky \<Rightarrow> reconcile_stamped E bky base backend }) }))"

definition settled :: "'w env \<Rightarrow> Buckety \<Rightarrow> (string \<times> text) + 'w Backend \<Rightarrow> bool" where
  "settled E bky avail =
     (case avail of
        Inl _ \<Rightarrow> False
      | Inr backend \<Rightarrow>
          stObservedGeneration (bStatus bky) = Generation (bMeta bky) \<and>
          stDriverBuildVersion (bStatus bky) = dVersion (beDriver backend) \<and>
          IsStatusConditionTrue (eKube E) (conds bky) ''Ready'')"

definition reconcile_body :: "'w env \<Rightarrow> nsname \<Rightarrow> Buckety \<Rightarrow> ('w, outcome \<times> Buckety) ctrl" where
  "reconcile_body E req bky = (
     let avail = resolve_backend E bky in
     if being_deleted (bMeta bky) then reconcileDelete E bky avail
     else if \<not> ContainsFinalizer (eKube E) (bMeta bky) FinalizerCleanup then (
       let bky' = bky\<lparr>bMeta := AddFinalizer (eKube E) (bMeta bky) FinalizerCleanup\<rparr> in do {
       r \<leftarrow> call (clPatchBuckety (eClient E) bky bky') (\<lambda>r. BucketyPatched bky bky' (err_of r));
       ret (case r of Inl e \<Rightarrow> ((0, Some e), bky') | Inr b \<Rightarrow> ((0, None), b)) })
     else do {
       d \<leftarrow> startup_Defer E req (settled E bky avail);
       if d > 0 then ret ((d, None), bky)
       else (case avail of
          Inl (reason, msg) \<Rightarrow> surfaceBackendUnavailable E bky bky reason msg
        | Inr backend \<Rightarrow>
            if stBackend (bStatus bky) = [] then stamp_sticky E bky bky backend
            else reconcile_stamped E bky bky backend) })"

definition forget_backends :: "'w env \<Rightarrow> nsname \<Rightarrow> ('w, unit) ctrl" where
  "forget_backends E req = each (\<lambda>(_, b). do {
     ext (ForgetBuckety (beDriver b) (nsNamespace req) (nsName req));
     emit (Forgotten (beName b) (nsNamespace req) (nsName req)) }) (eConfig E)"

definition Reconcile :: "'w env \<Rightarrow> nsname \<Rightarrow> ('w, outcome) ctrl" where
  "Reconcile E req = do {
     g \<leftarrow> ext (rdGetBuckety (reader.truncate (eClient E)) req);
     case g of
       Inl e \<Rightarrow>
         if IsNotFound e then do {
           forgetDrift (nsNamespace req) (nsName req);
           startup_Forget req;
           forget_backends E req;
           ret (0, None) }
         else ret (0, Some e)
     | Inr bky \<Rightarrow> do {
         (out, bky) \<leftarrow> reconcile_body E req bky;
         recordDrift E bky;
         ret out } }"

end
