(* ===== verification/Demo_World.thy ===== *)
theory Demo_World
  imports Controller_Env
begin

text \<open>
  A small closed world on which the properties' hypotheses are shown to hold together: one
  backend behind \<open>inert_driver\<close>, an API server that serves one Buckety, one access, a list of
  accesses and a Secret (or NotFound), and accepts every write unchanged, a clock that
  stands still. Nothing of the program is modelled here.
\<close>

definition not_found :: goerr where
  "not_found = ApiError NotFound []"

definition demo_client :: "Buckety option \<Rightarrow> BucketyAccess option \<Rightarrow> BucketyAccess list \<Rightarrow> secret option \<Rightarrow> unit client" where
  "demo_client b a as s =
     \<lparr>rdGetBuckety = (\<lambda>_ w. (case b of Some x \<Rightarrow> Inr x | None \<Rightarrow> Inl not_found, w)),
      rdGetAccess = (\<lambda>_ w. (case a of Some x \<Rightarrow> Inr x | None \<Rightarrow> Inl not_found, w)),
      rdListAccesses = (\<lambda>_ w. (Inr as, w)),
      rdGetSecret = (\<lambda>_ w. (case s of Some x \<Rightarrow> Inr x | None \<Rightarrow> Inl not_found, w)),
      clPatchBuckety = (\<lambda>_ x w. (Inr x, w)), clUpdateBuckety = (\<lambda>x w. (Inr x, w)),
      clStatusUpdateBuckety = (\<lambda>x w. (Inr x, w)), clStatusPatchBuckety = (\<lambda>_ x w. (Inr x, w)),
      clCreateAccess = (\<lambda>x w. (Inr x, w)), clDeleteAccess = (\<lambda>_ w. (None, w)),
      clUpdateAccess = (\<lambda>x w. (Inr x, w)), clPatchAccess = (\<lambda>_ x w. (Inr x, w)),
      clStatusPatchAccess = (\<lambda>_ x w. (Inr x, w)),
      clCreateSecret = (\<lambda>x w. (Inr x, w)), clUpdateSecret = (\<lambda>x w. (Inr x, w))\<rparr>"

definition demo_backend :: "unit Driver \<Rightarrow> unit Backend" where
  "demo_backend d = \<lparr>beName = ''objs'', beDriver = d, beDefaults = [], beParameters = []\<rparr>"

definition demo_env :: "unit client \<Rightarrow> unit Driver \<Rightarrow> unit env" where
  "demo_env c d =
     \<lparr>eKube = documented_kube, eClient = c, eLive = None, eConfig = [(''objs'', demo_backend d)],
      eRecheck = 0, eRecorder = False, eNow = (\<lambda>w. (100, w)), eRandFloat = (\<lambda>w. (0, w)),
      eRandInt = (\<lambda>_ w. (0, w))\<rparr>"

definition demo_meta :: "string \<Rightarrow> string list \<Rightarrow> time option \<Rightarrow> objmeta" where
  "demo_meta name finalizers deleted =
     \<lparr>Name = name, Namespace = ''ns'', UID = ''u-'' @ name, Labels = [], Generation = 1,
      DeletionTimestamp = deleted, Finalizers = finalizers, OwnerReferences = []\<rparr>"

text \<open>A Buckety of backend \<open>objs\<close>, unstamped or stamped as \<open>name\<close> with a provenance.\<close>

definition demo_buckety :: "time option \<Rightarrow> RetentionPolicy \<Rightarrow> string \<Rightarrow> Provenance \<Rightarrow> Buckety" where
  "demo_buckety deleted policy res prov =
     \<lparr>bMeta = demo_meta ''b'' [FinalizerCleanup] deleted,
      bSpec = \<lparr>bsBackend = ''objs'', bsName = [], bsParameters = [], bsRetentionPolicy = policy,
               bsAdoption = [], bsDefaultAccess = None\<rparr>,
      bStatus = (if res = [] then
          \<lparr>stObservedGeneration = 0, stBackend = [], stDriver = [], stDriverMajor = 0,
           stDriverBuildVersion = [], stBackendResourceName = [], stProvenance = [], stConditions = []\<rparr>
        else
          \<lparr>stObservedGeneration = 1, stBackend = ''objs'', stDriver = ''inert'', stDriverMajor = 1,
           stDriverBuildVersion = ''1.2.3'', stBackendResourceName = res, stProvenance = prov,
           stConditions = []\<rparr>)\<rparr>"

definition demo_ready :: Buckety where
  "demo_ready = (let b = demo_buckety None RetentionRetain ''r'' ProvenanceCreated in
     b\<lparr>bStatus := (bStatus b)\<lparr>stConditions := [\<lparr>cType = ''Ready'', cStatus = ConditionTrue, cReason = ''EnsuredOnBackend'',
       cMessage = Lit [], cObservedGeneration = 1, cLastTransitionTime = 50\<rparr>]\<rparr>\<rparr>)"

text \<open>An access to that Buckety with a recorded revocable principal.\<close>

definition demo_access :: "time option \<Rightarrow> string \<Rightarrow> BucketyAccess" where
  "demo_access deleted prin =
     \<lparr>aMeta = demo_meta ''a'' [FinalizerCleanup] deleted,
      aSpec = \<lparr>asBucketyRef = ''b'', asCredentialsSecretName = ''creds'', asRole = [], asParameters = []\<rparr>,
      aStatus = \<lparr>atObservedGeneration = 0, atPrincipal = prin, atPrincipalRevocable = prin \<noteq> [],
                 atConditions = []\<rparr>\<rparr>"

definition demo_grant :: GrantResult where
  "demo_grant = \<lparr>gtSecretData = [(''key'', ''v'')], gtPrincipal = ''p2'', gtScoped = True, gtRevocable = True, gtMinted = True\<rparr>"

definition minting_driver :: "unit Driver" where
  "minting_driver = inert_driver\<lparr>dGrantAccess := (\<lambda>_ w. (Inr demo_grant, w))\<rparr>"

definition demo_sys :: "(unit, event, ctrl_memory) sys" where
  "demo_sys = \<lparr>world = (), trace = [], memory = \<lparr>mStartup = {}, mDeletions = Map.empty\<rparr>\<rparr>"

definition demo_key :: nsname where
  "demo_key = \<lparr>nsNamespace = ''ns'', nsName = ''b''\<rparr>"

lemmas demo_defs = demo_ready_def demo_access_def demo_grant_def minting_driver_def not_found_def demo_client_def demo_backend_def demo_env_def demo_meta_def
  demo_buckety_def demo_sys_def demo_key_def inert_driver_def

lemma demo_env_simps [simp]:
  "eKube (demo_env c d) = documented_kube" "eClient (demo_env c d) = c" "eLive (demo_env c d) = None"
  "eConfig (demo_env c d) = [(''objs'', demo_backend d)]"
  by (simp_all add: demo_env_def)

lemma demo_reads [simp]:
  "fst (rdGetBuckety (reader.truncate (demo_client (Some b) a as s)) key w) = Inr b"
  "fst (rdGetAccess (reader.truncate (demo_client ob (Some x) as s)) key w) = Inr x"
  by (simp_all add: demo_client_def reader.defs)

end
