(* ===== verification/Buckety_Safety.thy ===== *)
theory Buckety_Safety
  imports Buckety_Controller Demo_World
begin

text \<open>
  What a pass over a Buckety may do and when: the contract \<open>bky_rule\<close> lists, for every call
  the pass can make, what must hold of the object it read and of the answers it had so far.
  The stage lemmas show that every stage keeps the contract whatever the API server, the
  backend and the clock answer; the properties read single clauses off it.
\<close>

section \<open>The contract\<close>

text \<open>The object in memory: the one read, or the server's answer to the stamping update.\<close>

definition in_memory :: "Buckety \<Rightarrow> event list \<Rightarrow> Buckety \<Rightarrow> bool" where
  "in_memory bky h b \<longleftrightarrow> b = bky \<or> (\<exists>b0. BucketyStatusUpdated b0 (Inr b) \<in> set h)"

text \<open>\<open>b\<close> and \<open>b'\<close> differ at most in the bookkeeping part of the status.\<close>

definition same_object :: "Buckety \<Rightarrow> Buckety \<Rightarrow> bool" where
  "same_object b b' \<longleftrightarrow> bMeta b = bMeta b' \<and> bSpec b = bSpec b' \<and> sticky b = sticky b'"

definition refers_to :: "Buckety \<Rightarrow> BucketyAccess \<Rightarrow> bool" where
  "refers_to bky a \<longleftrightarrow> asBucketyRef (aSpec a) = Name (bMeta bky)"

definition deletes_backend :: "Buckety \<Rightarrow> bool" where
  "deletes_backend bky \<longleftrightarrow> bsRetentionPolicy (bSpec bky) = RetentionDelete \<and>
     stProvenance (bStatus bky) \<noteq> ProvenanceAdopted \<and> stBackendResourceName (bStatus bky) \<noteq> []"

text \<open>The teardown's live view of the namespace shows no access to this Buckety.\<close>

definition no_access_seen :: "'w env \<Rightarrow> Buckety \<Rightarrow> event list \<Rightarrow> bool" where
  "no_access_seen E bky h \<longleftrightarrow>
     (\<exists>items. ListedAccesses (eLive E \<noteq> None) (Namespace (bMeta bky)) (Inr items) \<in> set h \<and>
        list_all (\<lambda>a. \<not> refers_to bky a) items)"

definition may_stamp :: "'w env \<Rightarrow> Buckety \<Rightarrow> event list \<Rightarrow> Buckety \<Rightarrow> bool" where
  "may_stamp E bky h b \<longleftrightarrow> stBackend (bStatus bky) = [] \<and>
     (\<exists>backend resolved insp.
        resolve_backend E bky = Inr backend \<and>
        ResolveName backend (bsName (bSpec bky)) (Name (bMeta bky)) (Namespace (bMeta bky)) (Labels (bMeta bky)) = Inr resolved \<and>
        dValidateResourceName (beDriver backend) resolved = None \<and>
        Inspected (beName backend) resolved (Inr insp) \<in> set h \<and>
        decideProvenance insp (bsAdoption (bSpec bky)) \<noteq> [] \<and>
        b = stamped bky backend resolved (decideProvenance insp (bsAdoption (bSpec bky))))"

definition may_ensure :: "'w env \<Rightarrow> Buckety \<Rightarrow> event list \<Rightarrow> string \<Rightarrow> EnsureRequest \<Rightarrow> bool" where
  "may_ensure E bky h bn req \<longleftrightarrow>
     (\<exists>backend b.
        resolve_backend E bky = Inr backend \<and> bn = beName backend \<and> in_memory bky h b \<and>
        (stBackend (bStatus bky) = [] \<longrightarrow> (\<exists>b0. BucketyStatusUpdated b0 (Inr b) \<in> set h)) \<and>
        (stBackend (bStatus b) \<noteq> [] \<longrightarrow>
           num_value (majorOf (dVersion (beDriver backend))) = stDriverMajor (bStatus b)) \<and>
        erName req = stBackendResourceName (bStatus b) \<and>
        ResolvedParameters backend (Name (bMeta b)) (Namespace (bMeta b)) (bsParameters (bSpec b)) = Inr (erParameters req) \<and>
        dValidateParameters (beDriver backend) (erParameters req) = None)"

definition ready_earned :: "'w env \<Rightarrow> event list \<Rightarrow> Buckety \<Rightarrow> bool" where
  "ready_earned E h b \<longleftrightarrow>
     (kube_api (eKube E) \<and> IsStatusConditionTrue (eKube E) (conds b) ''Ready'' \<longrightarrow>
        (\<exists>bn req. Ensured bn req None \<in> set h) \<and>
        stObservedGeneration (bStatus b) = Generation (bMeta b))"

definition implicit_in_list :: "Buckety \<Rightarrow> event list \<Rightarrow> BucketyAccess \<Rightarrow> bool" where
  "implicit_in_list bky h a \<longleftrightarrow> is_implicit a \<and>
     (\<exists>b live items. in_memory bky h b \<and> refers_to b a \<and>
        ListedAccesses live (Namespace (bMeta b)) (Inr items) \<in> set h \<and> a \<in> set items)"

definition may_create :: "'w env \<Rightarrow> Buckety \<Rightarrow> event list \<Rightarrow> BucketyAccess \<Rightarrow> bool" where
  "may_create E bky h a \<longleftrightarrow>
     (\<exists>b items da m. in_memory bky h b \<and> ListedAccesses False (Namespace (bMeta b)) (Inr items) \<in> set h \<and>
        list_all (\<lambda>x. \<not> refers_to b x) items \<and> bsDefaultAccess (bSpec b) = Some da \<and>
        SetControllerReference (eKube E) (bMeta b) (aMeta (new_implicit_access b da)) = Inr m \<and>
        a = (new_implicit_access b da)\<lparr>aMeta := m\<rparr>)"

fun live_rule :: "'w env \<Rightarrow> Buckety \<Rightarrow> event list \<Rightarrow> event \<Rightarrow> bool" where
  "live_rule E bky h (ListedAccesses live ns r) =
     (\<not> live \<and> (\<exists>b. in_memory bky h b \<and> ns = Namespace (bMeta b)))"
| "live_rule E bky h (BucketyPatched b b' r) =
     (b = bky \<and> b' = bky\<lparr>bMeta := AddFinalizer (eKube E) (bMeta bky) FinalizerCleanup\<rparr>)"
| "live_rule E bky h (BucketyStatusUpdated b r) = may_stamp E bky h b"
| "live_rule E bky h (BucketyStatusPatched base b r) =
     (base = bky \<and> (\<exists>mem. in_memory bky h mem \<and> same_object b mem) \<and> ready_earned E h b)"
| "live_rule E bky h (AccessCreated a r) = may_create E bky h a"
| "live_rule E bky h (AccessDeleted a r) = implicit_in_list bky h a"
| "live_rule E bky h (AccessUpdated a r) =
     (\<exists>a0. implicit_in_list bky h a0 \<and> (\<exists>role. a = a0\<lparr>aSpec := (aSpec a0)\<lparr>asRole := role\<rparr>\<rparr>))"
| "live_rule E bky h (Inspected bn n r) =
     (stBackend (bStatus bky) = [] \<and> (\<exists>backend. resolve_backend E bky = Inr backend \<and> bn = beName backend))"
| "live_rule E bky h (Ensured bn req r) = may_ensure E bky h bn req"
| "live_rule E bky h (KubeEvent _ _ _ _) = True"
| "live_rule E bky h _ = False"

fun teardown_rule :: "'w env \<Rightarrow> Buckety \<Rightarrow> event list \<Rightarrow> event \<Rightarrow> bool" where
  "teardown_rule E bky h (ListedAccesses live ns r) =
     ((live \<longleftrightarrow> eLive E \<noteq> None) \<and> ns = Namespace (bMeta bky))"
| "teardown_rule E bky h (BucketyUpdated b r) =
     (b = bky\<lparr>bMeta := RemoveFinalizer (eKube E) (bMeta bky) FinalizerCleanup\<rparr> \<and>
      no_access_seen E bky h \<and>
      (deletes_backend bky \<longrightarrow> (\<exists>bn req. Deleted bn req None \<in> set h)))"
| "teardown_rule E bky h (BucketyStatusPatched base b r) =
     (base = bky \<and> same_object b bky \<and> stObservedGeneration (bStatus b) = stObservedGeneration (bStatus bky))"
| "teardown_rule E bky h (AccessDeleted a r) = implicit_in_list bky h a"
| "teardown_rule E bky h (Deleted bn req r) =
     (deletes_backend bky \<and> no_access_seen E bky h \<and> drName req = stBackendResourceName (bStatus bky) \<and>
      (\<exists>backend. resolve_backend E bky = Inr backend \<and> bn = beName backend \<and>
         ResolvedParameters backend (Name (bMeta bky)) (Namespace (bMeta bky)) (bsParameters (bSpec bky)) = Inr (drParameters req)))"
| "teardown_rule E bky h (KubeEvent _ _ _ _) = True"
| "teardown_rule E bky h _ = False"


section \<open>Rules for the helpers\<close>

lemma set_conditions_simps [simp]:
  "bMeta (set_conditions cs b) = bMeta b" "bSpec (set_conditions cs b) = bSpec b"
  "conds (set_conditions cs b) = cs" "sticky (set_conditions cs b) = sticky b"
  "stObservedGeneration (bStatus (set_conditions cs b)) = stObservedGeneration (bStatus b)"
  "stBackend (bStatus (set_conditions cs b)) = stBackend (bStatus b)"
  "stDriver (bStatus (set_conditions cs b)) = stDriver (bStatus b)"
  "stDriverMajor (bStatus (set_conditions cs b)) = stDriverMajor (bStatus b)"
  "stProvenance (bStatus (set_conditions cs b)) = stProvenance (bStatus b)"
  "stBackendResourceName (bStatus (set_conditions cs b)) = stBackendResourceName (bStatus b)"
  by (simp_all add: set_conditions_def sticky_def)

lemma sticky_bMeta [simp]: "sticky (b\<lparr>bMeta := m\<rparr>) = sticky b"
  by (simp add: sticky_def)

lemma same_object_refl [simp]: "same_object b b"
  by (simp add: same_object_def)

lemma same_object_set_conditions [simp]: "same_object (set_conditions cs b) b' \<longleftrightarrow> same_object b b'"
  by (simp add: same_object_def)

lemma in_memory_self [simp]: "in_memory bky h bky"
  by (simp add: in_memory_def)

definition with_kept_times :: "'w env \<Rightarrow> Buckety \<Rightarrow> Buckety \<Rightarrow> Buckety" where
  "with_kept_times E bky base = set_conditions (KeepTransitionTimes (eKube E) (conds base) (conds bky)) bky"

definition status_write :: "'w env \<Rightarrow> Buckety \<Rightarrow> Buckety \<Rightarrow> event list \<Rightarrow> bool" where
  "status_write E bky base l \<longleftrightarrow> l = [] \<or> (\<exists>r. l = [BucketyStatusPatched base (with_kept_times E bky base) r])"

lemma with_kept_times_simps [simp]:
  "bMeta (with_kept_times E b base) = bMeta b" "same_object (with_kept_times E b base) b' \<longleftrightarrow> same_object b b'"
  "stObservedGeneration (bStatus (with_kept_times E b base)) = stObservedGeneration (bStatus b)"
  by (simp_all add: with_kept_times_def)

lemma guarded_status_write:
  "\<lbrakk>status_write E bky base l; \<And>r. C h (BucketyStatusPatched base (with_kept_times E bky base) r)\<rbrakk>
   \<Longrightarrow> guarded C h l"
  by (auto simp: status_write_def)

lemma keeps_set_cond [keeps_rules]:
  "(\<And>t. R (set_conditions (status_Set (eKube E) t (conds b) typ st reason msg (Generation (bMeta b))) b) h)
   \<Longrightarrow> keeps C h (set_cond E b typ st reason msg) R"
  unfolding set_cond_def by (intro keeps_rules) auto

lemma keeps_surface [keeps_rules]:
  "\<lbrakk>lax C; \<And>t l. only_events l \<Longrightarrow>
      R (set_conditions (status_Set (eKube E) t (conds b) typ st reason msg (Generation (bMeta b))) b) (h @ l)\<rbrakk>
   \<Longrightarrow> keeps C h (surface E b base typ st reason msg evType) R"
  unfolding surface_def by (intro keeps_rules) auto

lemma keeps_patchStatus [keeps_rules]:
  assumes "\<And>r. C h (BucketyStatusPatched base (with_kept_times E bky base) r)"
    and "\<And>err b' l. status_write E bky base l \<Longrightarrow> R (err, b') (h @ l)"
  shows "keeps C h (patchStatus E bky base) R"
  unfolding patchStatus_def Let_def with_kept_times_def [symmetric]
  by (intro keeps_rules) (use assms(2) [of "[]"] assms in \<open>auto simp: status_write_def split: sum.splits\<close>)

lemma lax_live_rule [simp]: "lax (live_rule E bky)"
  by (auto simp: lax_def is_KubeEvent_def)

lemma lax_teardown_rule [simp]: "lax (teardown_rule E bky)"
  by (auto simp: lax_def is_KubeEvent_def)


section \<open>The stages of a teardown\<close>

lemma filter_head: "filter P xs = y # ys \<Longrightarrow> y \<in> set xs \<and> P y"
  by (metis filter_is_subset filter_set list.set_intros(1) mem_Collect_eq set_filter subsetD)

lemma keeps_remove_finalizer:
  assumes "no_access_seen E bky h"
    and "deletes_backend bky \<Longrightarrow> \<exists>bn req. Deleted bn req None \<in> set h"
  shows "keeps (teardown_rule E bky) h (remove_finalizer_and_update E bky) (\<lambda>_ _. True)"
  unfolding remove_finalizer_and_update_def Let_def
  by (intro keeps_rules) (use assms in auto)

lemma no_access_seen_later [simp]: "no_access_seen E bky h \<Longrightarrow> no_access_seen E bky (h @ l)"
  by (auto simp: no_access_seen_def)

lemma keeps_delete_backend_resource:
  assumes "no_access_seen E bky h" and "deletes_backend bky" and "resolve_backend E bky = Inr backend"
  shows "keeps (teardown_rule E bky) h (delete_backend_resource E bky bky backend) (\<lambda>_ _. True)"
  unfolding delete_backend_resource_def Let_def
  by (intro keeps_rules keeps_remove_finalizer) (use assms in auto)

lemma keeps_teardown:
  assumes "no_access_seen E bky h"
  shows "keeps (teardown_rule E bky) h (reconcile_teardown E bky bky (resolve_backend E bky)) (\<lambda>_ _. True)"
  unfolding reconcile_teardown_def
  by (intro keeps_rules keeps_remove_finalizer keeps_delete_backend_resource)
     (use assms in \<open>auto simp: deletes_backend_def\<close>)

lemma keeps_revoke_implicit:
  assumes "implicit_in_list bky h a"
  shows "keeps (teardown_rule E bky) h (revoke_implicit E bky bky a) (\<lambda>_ _. True)"
  unfolding revoke_implicit_def
  by (intro keeps_rules) (use assms in auto)

lemma implicit_in_listI:
  "\<lbrakk>in_memory bky h b; is_implicit a; refers_to b a; a \<in> set items;
    ListedAccesses live (Namespace (bMeta b)) (Inr items) \<in> set h\<rbrakk> \<Longrightarrow> implicit_in_list bky h a"
  by (auto simp: implicit_in_list_def)

lemma keeps_reconcileDelete:
  "keeps (teardown_rule E bky) h (reconcileDelete E bky (resolve_backend E bky)) (\<lambda>_ _. True)"
  unfolding reconcileDelete_def Let_def
  by (intro keeps_rules keeps_teardown keeps_revoke_implicit implicit_in_listI [where b = bky])
     (auto simp: no_access_seen_def refers_to_def blocking_names_def list_all_iff
        filter_empty_conv dest!: filter_head)


section \<open>The stages of a pass over a live object\<close>

lemma in_memory_later [simp]: "in_memory bky h b \<Longrightarrow> in_memory bky (h @ l) b"
  by (auto simp: in_memory_def)

lemma scan_accesses_snoc:
  "scan_accesses name (items @ [a]) =
     (let (i, x) = scan_accesses name items in
      if asBucketyRef (aSpec a) \<noteq> name then (i, x) else if is_implicit a then (Some a, x) else (i, True))"
  by (simp add: scan_accesses_def split: prod.splits)

lemma scan_accesses_implicit:
  "fst (scan_accesses name items) = Some a \<Longrightarrow>
   a \<in> set items \<and> is_implicit a \<and> asBucketyRef (aSpec a) = name"
  by (induction items rule: rev_induct)
     (auto simp: scan_accesses_snoc scan_accesses_def [of _ "[]"] split: prod.splits if_splits)

lemma scan_accesses_none:
  "fst (scan_accesses name items) = None \<longleftrightarrow>
   (\<forall>a \<in> set items. asBucketyRef (aSpec a) = name \<longrightarrow> \<not> is_implicit a)"
  by (induction items rule: rev_induct)
     (auto simp: scan_accesses_snoc scan_accesses_def [of _ "[]"] split: prod.splits)

lemma scan_accesses_explicit:
  "snd (scan_accesses name items) \<longleftrightarrow>
   (\<exists>a \<in> set items. asBucketyRef (aSpec a) = name \<and> \<not> is_implicit a)"
  by (induction items rule: rev_induct)
     (auto simp: scan_accesses_snoc scan_accesses_def [of _ "[]"] split: prod.splits)

lemma scan_accesses_spec:
  assumes "scan_accesses name items = (i, x)"
  shows "i = Some a \<Longrightarrow> a \<in> set items \<and> is_implicit a \<and> asBucketyRef (aSpec a) = name"
    and "i = None \<Longrightarrow> \<not> x \<Longrightarrow> \<forall>a \<in> set items. asBucketyRef (aSpec a) \<noteq> name"
  using assms scan_accesses_implicit [of name items] scan_accesses_none [of name items]
    scan_accesses_explicit [of name items] by auto

text \<open>
  From here on \<open>b\<close> is the object the stage works on: up to conditions, build version and
  observed generation it is an object \<open>mem\<close> in memory.
\<close>

lemma same_objectD:
  "same_object b mem \<Longrightarrow> bMeta b = bMeta mem \<and> bSpec b = bSpec mem \<and>
     stBackend (bStatus b) = stBackend (bStatus mem) \<and> stDriverMajor (bStatus b) = stDriverMajor (bStatus mem) \<and>
     stBackendResourceName (bStatus b) = stBackendResourceName (bStatus mem)"
  by (simp add: same_object_def sticky_def)

lemma same_object_bookkeeping [simp]:
  "same_object (b\<lparr>bStatus := (bStatus b)\<lparr>stObservedGeneration := g\<rparr>\<rparr>) b' \<longleftrightarrow> same_object b b'"
  "same_object (b\<lparr>bStatus := (bStatus b)\<lparr>stDriverBuildVersion := v\<rparr>\<rparr>) b' \<longleftrightarrow> same_object b b'"
  "same_object (remove_cond E b typ) b' \<longleftrightarrow> same_object b b'"
  by (simp_all add: same_object_def sticky_def remove_cond_def)

lemma scanned_implicit:
  assumes "scan_accesses (Name (bMeta b)) items = (Some i, x)" and "in_memory bky h mem" and "same_object b mem"
  shows "implicit_in_list bky (h @ [ListedAccesses live (Namespace (bMeta b)) (Inr items)]) i"
  using assms scan_accesses_spec(1) [OF assms(1)]
  by (intro implicit_in_listI [where b = mem]) (auto simp: refers_to_def dest: same_objectD)

lemma scanned_free:
  assumes "scan_accesses (Name (bMeta b)) items = (None, False)" and "in_memory bky h mem" and "same_object b mem"
    and "bsDefaultAccess (bSpec b) = Some da"
    and "SetControllerReference (eKube E) (bMeta b) (aMeta (new_implicit_access b da)) = Inr m"
  shows "may_create E bky (h @ [ListedAccesses False (Namespace (bMeta b)) (Inr items)])
    ((new_implicit_access b da)\<lparr>aMeta := m\<rparr>)"
proof -
  have "new_implicit_access b da = new_implicit_access mem da" "bMeta b = bMeta mem" "bSpec b = bSpec mem"
    using same_objectD [OF assms(3)] by (simp_all add: new_implicit_access_def)
  then show ?thesis
    unfolding may_create_def using assms scan_accesses_spec(2) [OF assms(1)]
    by (intro exI [of _ mem] exI [of _ items] exI [of _ da] exI [of _ m])
       (auto simp: list_all_iff refers_to_def)
qed

lemma live_role_update:
  "implicit_in_list bky h i \<Longrightarrow> live_rule E bky h (AccessUpdated (i\<lparr>aSpec := (aSpec i)\<lparr>asRole := role\<rparr>\<rparr>) r)"
  by auto

lemma live_list:
  "\<lbrakk>in_memory bky h mem; same_object b mem\<rbrakk> \<Longrightarrow>
   live_rule E bky h (ListedAccesses False (Namespace (bMeta b)) r)"
  using same_objectD by fastforce

lemma keeps_reconcileImplicitAccess:
  assumes "in_memory bky h mem" and "same_object b mem"
  shows "keeps (live_rule E bky) h (reconcileImplicitAccess E b) (\<lambda>_ h'. \<exists>l. h' = h @ l)"
  unfolding reconcileImplicitAccess_def Let_def
  by (intro keeps_rules live_role_update live_list)
     (use assms in \<open>auto intro: scanned_implicit scanned_free\<close>)

lemma live_write_ready:
  "\<lbrakk>in_memory bky h mem; same_object b mem; Ensured bn req None \<in> set h;
    stObservedGeneration (bStatus b) = Generation (bMeta b)\<rbrakk> \<Longrightarrow>
   live_rule E bky h (BucketyStatusPatched bky (with_kept_times E b bky) r)"
  by (auto simp: ready_earned_def)

lemma keeps_finish_pass:
  assumes "in_memory bky h mem" and "same_object b mem" and "Ensured bn req None \<in> set h"
  shows "keeps (live_rule E bky) h (finish_pass E b bky) (\<lambda>_ _. True)"
  unfolding finish_pass_def Let_def
  by (intro keeps_rules keeps_mono [OF keeps_reconcileImplicitAccess [OF assms(1,2)]] live_write_ready)
     (use assms in auto)

lemma keeps_reportChange [keeps_rules]:
  "\<lbrakk>lax C; \<And>l. only_events l \<Longrightarrow> R () (h @ l)\<rbrakk> \<Longrightarrow> keeps C h (reportChange E b c) R"
  unfolding reportChange_def by (rule keeps_record_Event)

lemma keeps_report_changes:
  assumes "lax C" and "\<And>l. only_events l \<Longrightarrow> R () (h @ l)"
  shows "keeps C h (each (reportChange E b) cs) R"
proof (rule keeps_each [where I = "\<lambda>h'. \<exists>l. only_events l \<and> h' = h @ l"])
  show "keeps C h' (reportChange E b c) (\<lambda>_ h''. \<exists>l. only_events l \<and> h'' = h @ l)"
    if "\<exists>l. only_events l \<and> h' = h @ l" for h' c
    by (rule keeps_reportChange) (use assms(1) that in auto)
qed (use assms(2) in \<open>auto intro: exI [of _ "[]"]\<close>)

lemma live_write:
  assumes "in_memory bky h mem" and "same_object b mem"
    and "kube_api (eKube E) \<Longrightarrow> \<not> IsStatusConditionTrue (eKube E) (conds b) ''Ready''"
  shows "live_rule E bky h (BucketyStatusPatched bky (with_kept_times E b bky) r)"
  using assms by (auto simp: ready_earned_def with_kept_times_def is_true_keep)

lemma keeps_ensure_backend:
  assumes "in_memory bky h mem" and "same_object b mem" and "resolve_backend E bky = Inr backend"
    and "stBackend (bStatus bky) = [] \<Longrightarrow> \<exists>b0. BucketyStatusUpdated b0 (Inr mem) \<in> set h"
    and "stBackend (bStatus b) \<noteq> [] \<Longrightarrow> num_value (majorOf (dVersion (beDriver backend))) = stDriverMajor (bStatus b)"
    and "ResolvedParameters backend (Name (bMeta b)) (Namespace (bMeta b)) (bsParameters (bSpec b)) = Inr effective"
    and "dValidateParameters (beDriver backend) effective = None"
  shows "keeps (live_rule E bky) h (ensure_backend E b bky backend effective) (\<lambda>_ _. True)"
proof -
  have "may_ensure E bky h (beName backend) \<lparr>erName = stBackendResourceName (bStatus b), erParameters = effective,
      erNamespace = Namespace (bMeta b), erBucketyName = Name (bMeta b)\<rparr>"
    unfolding may_ensure_def using assms same_objectD [OF assms(2)]
    by (intro exI [of _ backend] exI [of _ mem]) auto
  then show ?thesis
    unfolding ensure_backend_def Let_def
    by (intro keeps_rules keeps_report_changes keeps_finish_pass live_write)
       (use assms in \<open>auto simp: kube_api.is_true_status_Set\<close>)
qed

lemma keeps_surface_bad_parameters:
  assumes "in_memory bky h mem" and "same_object b mem"
  shows "keeps (live_rule E bky) h (surface_bad_parameters E b bky reason e) (\<lambda>_ _. True)"
  unfolding surface_bad_parameters_def
  by (intro keeps_rules live_write) (use assms in \<open>auto simp: kube_api.is_true_status_Set\<close>)

lemma keeps_reconcile_stamped:
  assumes "in_memory bky h b" and "resolve_backend E bky = Inr backend"
    and "stBackend (bStatus bky) = [] \<Longrightarrow> \<exists>b0. BucketyStatusUpdated b0 (Inr b) \<in> set h"
  shows "keeps (live_rule E bky) h (reconcile_stamped E b bky backend) (\<lambda>_ _. True)"
  unfolding reconcile_stamped_def Let_def
  by (intro keeps_rules live_write [where mem = b] keeps_surface_bad_parameters [where mem = b]
        keeps_ensure_backend [where mem = b])
     (use assms in \<open>auto simp: kube_api.is_true_status_Set remove_cond_def\<close>)

lemma keeps_refuse_adoption:
  "keeps (live_rule E bky) h (refuse_adoption E bky bky backend resolved) (\<lambda>_ _. True)"
  unfolding refuse_adoption_def
  by (intro keeps_rules live_write [where mem = bky]) (auto simp: kube_api.is_true_status_Set)

lemma keeps_surfaceCondition:
  "keeps (live_rule E bky) h (surfaceCondition E bky bky ''Ready'' ConditionFalse reason msg) (\<lambda>_ _. True)"
  unfolding surfaceCondition_def
  by (intro keeps_rules live_write [where mem = bky]) (auto simp: kube_api.is_true_status_Set)

lemma keeps_surfaceBackendUnavailable:
  "keeps (live_rule E bky) h (surfaceBackendUnavailable E bky bky reason msg) (\<lambda>_ _. True)"
  unfolding surfaceBackendUnavailable_def
  by (intro keeps_rules live_write [where mem = bky]) (auto simp: kube_api.is_true_status_Set)

lemma keeps_stamp_sticky:
  assumes "resolve_backend E bky = Inr backend" and "stBackend (bStatus bky) = []"
  shows "keeps (live_rule E bky) h (stamp_sticky E bky bky backend) (\<lambda>_ _. True)"
  unfolding stamp_sticky_def Let_def
  by (intro keeps_rules live_write [where mem = bky] keeps_surfaceCondition keeps_refuse_adoption
        keeps_reconcile_stamped)
     (use assms in \<open>auto simp: kube_api.is_true_status_Set in_memory_def may_stamp_def\<close>)


section \<open>The whole pass\<close>

fun bky_rule :: "'w env \<Rightarrow> Buckety \<Rightarrow> event list \<Rightarrow> event \<Rightarrow> bool" where
  "bky_rule E bky h (DriftGauge _ _ _ _) = True"
| "bky_rule E bky h (DriftForgotten _ _) = True"
| "bky_rule E bky h e =
     (if being_deleted (bMeta bky) then teardown_rule E bky h e else live_rule E bky h e)"

lemma live_bky_rule: "\<lbrakk>live_rule E bky h e; \<not> being_deleted (bMeta bky)\<rbrakk> \<Longrightarrow> bky_rule E bky h e"
  by (cases e) simp_all

lemma teardown_bky_rule: "\<lbrakk>teardown_rule E bky h e; being_deleted (bMeta bky)\<rbrakk> \<Longrightarrow> bky_rule E bky h e"
  by (cases e) simp_all

lemma keeps_live_body:
  assumes "\<not> being_deleted (bMeta bky)"
  shows "keeps (live_rule E bky) h (reconcile_body E req bky) (\<lambda>_ _. True)"
  unfolding reconcile_body_def Let_def
  by (intro keeps_rules keeps_surfaceBackendUnavailable keeps_stamp_sticky keeps_reconcile_stamped)
     (use assms in auto)

lemma keeps_reconcile_body:
  "keeps (bky_rule E bky) h (reconcile_body E req bky) (\<lambda>_ _. True)"
proof (cases "being_deleted (bMeta bky)")
  case True
  have "keeps (bky_rule E bky) h (reconcileDelete E bky (resolve_backend E bky)) (\<lambda>_ _. True)"
    by (rule keeps_weaken [OF keeps_reconcileDelete]) (use True teardown_bky_rule in blast)
  with True show ?thesis by (simp add: reconcile_body_def Let_def)
next
  case False
  then show ?thesis
    by (intro keeps_weaken [OF keeps_live_body]) (use live_bky_rule in blast)+
qed

lemma keeps_recordDrift: "keeps (bky_rule E bky) h (recordDrift E b) (\<lambda>_ _. True)"
  unfolding recordDrift_def forgetDrift_def by (intro keeps_rules) auto

abbreviation reads_buckety :: "'w env \<Rightarrow> nsname \<Rightarrow> ('w, event, ctrl_memory) sys \<Rightarrow> Buckety \<Rightarrow> bool" where
  "reads_buckety E req s bky \<equiv> fst (rdGetBuckety (reader.truncate (eClient E)) req (world s)) = Inr bky"

lemma Reconcile_contract:
  assumes "reads_buckety E req s bky"
  shows "guarded (bky_rule E bky) [] (pass_log (Reconcile E req) s)"
proof -
  have "keeps (bky_rule E bky) [] (do { (out, b) \<leftarrow> reconcile_body E req bky; recordDrift E b; ret out }) (\<lambda>_ _. True)"
    by (intro keeps_bind keeps_mono [OF keeps_reconcile_body])
       (auto intro!: keeps_rules keeps_mono [OF keeps_recordDrift])
  then show ?thesis
    unfolding Reconcile_def using assms
    by (intro keepsD_ext [where a = "Inr bky", THEN conjunct1]) simp_all
qed

lemma Reconcile_event:
  assumes "reads_buckety E req s bky" and "pass_log (Reconcile E req) s = pre @ e # post"
  shows "bky_rule E bky pre e"
  by (rule guarded_at [OF Reconcile_contract [OF assms(1)] assms(2)])

lemma resolve_backend_Inr:
  "resolve_backend E bky = Inr backend \<longleftrightarrow>
     Lookup (eConfig E) (bsBackend (bSpec bky)) = Some backend \<and>
     (stDriver (bStatus bky) = [] \<or> stDriver (bStatus bky) = dName (beDriver backend))"
  by (auto simp: resolve_backend_def split: option.splits)


section \<open>Properties\<close>

text \<open>
  C1. The irreversible call. Whatever the API server and the backends answer, a pass calls
  \<open>DeleteBuckety\<close> only on a Buckety that is being deleted, with retentionPolicy Delete, that
  was not adopted and that was stamped; only with the stamped resource name and the resolved
  parameters; only through the backend its spec names, and only if that backend still runs
  the driver that stamped it; and only after a list read through the live reader in the same
  pass that shows no access, explicit or implicit, referring to it.
\<close>

theorem backend_deletion_guard:
  assumes "reads_buckety E req s bky"
    and "pass_log (Reconcile E req) s = pre @ Deleted bn dr r # post"
  shows "being_deleted (bMeta bky) \<and> bsRetentionPolicy (bSpec bky) = RetentionDelete \<and>
    stProvenance (bStatus bky) \<noteq> ProvenanceAdopted \<and>
    drName dr = stBackendResourceName (bStatus bky) \<and> drName dr \<noteq> [] \<and>
    (\<exists>backend. Lookup (eConfig E) (bsBackend (bSpec bky)) = Some backend \<and> bn = beName backend \<and>
       (stDriver (bStatus bky) = [] \<or> stDriver (bStatus bky) = dName (beDriver backend)) \<and>
       ResolvedParameters backend (Name (bMeta bky)) (Namespace (bMeta bky)) (bsParameters (bSpec bky)) = Inr (drParameters dr)) \<and>
    (\<exists>items. ListedAccesses (eLive E \<noteq> None) (Namespace (bMeta bky)) (Inr items) \<in> set pre \<and>
       (\<forall>a \<in> set items. asBucketyRef (aSpec a) \<noteq> Name (bMeta bky)))"
  using Reconcile_event [OF assms]
  by (auto simp: deletes_backend_def no_access_seen_def resolve_backend_Inr list_all_iff refers_to_def
      split: if_splits)

theorem backend_deletion_guard_witness:
  "let bky = demo_buckety (Some 1) RetentionDelete ''r'' ProvenanceCreated;
       l = pass_log (Reconcile (demo_env (demo_client (Some bky) None [] None) inert_driver) demo_key) demo_sys
   in l ! 1 = Deleted ''objs'' \<lparr>drName = ''r'', drParameters = []\<rparr> None \<and> being_deleted (bMeta bky) \<and>
      (\<exists>items. ListedAccesses False (Namespace (bMeta bky)) (Inr items) \<in> set (take 1 l))"
proof -
  let ?bky = "demo_buckety (Some 1) RetentionDelete ''r'' ProvenanceCreated"
  let ?E = "demo_env (demo_client (Some ?bky) None [] None) inert_driver"
  let ?l = "pass_log (Reconcile ?E demo_key) demo_sys"
  have at: "1 < length ?l" "?l ! 1 = Deleted ''objs'' \<lparr>drName = ''r'', drParameters = []\<rparr> None"
    by code_simp+
  have "reads_buckety ?E demo_key demo_sys ?bky" by simp
  from backend_deletion_guard [OF this log_split [OF at]] at(2) show ?thesis
    by (auto simp: Let_def)
qed

text \<open>
  C4. The finalizer. A pass writes the Buckety without its finalizer only when it is being
  deleted, after a live list that shows no access referring to it, and, when retentionPolicy
  is Delete on a stamped resource that was not adopted, only after \<open>DeleteBuckety\<close> answered
  success in the same pass. The write changes nothing but the finalizer list.
\<close>

theorem finalizer_release_guard:
  assumes "reads_buckety E req s bky"
    and "pass_log (Reconcile E req) s = pre @ BucketyUpdated b r # post"
  shows "being_deleted (bMeta bky) \<and>
    b = bky\<lparr>bMeta := RemoveFinalizer (eKube E) (bMeta bky) FinalizerCleanup\<rparr> \<and>
    (\<exists>items. ListedAccesses (eLive E \<noteq> None) (Namespace (bMeta bky)) (Inr items) \<in> set pre \<and>
       (\<forall>a \<in> set items. asBucketyRef (aSpec a) \<noteq> Name (bMeta bky))) \<and>
    (bsRetentionPolicy (bSpec bky) = RetentionDelete \<and> stProvenance (bStatus bky) \<noteq> ProvenanceAdopted \<and>
     stBackendResourceName (bStatus bky) \<noteq> [] \<longrightarrow> (\<exists>bn dr. Deleted bn dr None \<in> set pre))"
  using Reconcile_event [OF assms]
  by (auto simp: deletes_backend_def no_access_seen_def list_all_iff refers_to_def split: if_splits)

theorem finalizer_release_guard_witness:
  "let bky = demo_buckety (Some 1) RetentionDelete ''r'' ProvenanceCreated;
       l = pass_log (Reconcile (demo_env (demo_client (Some bky) None [] None) inert_driver) demo_key) demo_sys
   in (\<exists>b r. l ! 2 = BucketyUpdated b r) \<and> (\<exists>bn dr. Deleted bn dr None \<in> set (take 2 l))"
proof -
  let ?bky = "demo_buckety (Some 1) RetentionDelete ''r'' ProvenanceCreated"
  let ?E = "demo_env (demo_client (Some ?bky) None [] None) inert_driver"
  let ?l = "pass_log (Reconcile ?E demo_key) demo_sys"
  have at: "2 < length ?l" "?l ! 2 = BucketyUpdated (?bky\<lparr>bMeta := demo_meta ''b'' [] (Some 1)\<rparr>) None"
    by code_simp+
  have "reads_buckety ?E demo_key demo_sys ?bky" by simp
  from finalizer_release_guard [OF this log_split [OF at]] at(2) show ?thesis
    by (auto simp: Let_def demo_buckety_def enum_defs)
qed

text \<open>
  C5. The adoption gate. The sticky fields are stamped only on a live, unstamped Buckety whose
  backend is available, after \<open>InspectBuckety\<close> answered for the resolved, valid name; the
  provenance stamped is Created exactly when the resource did not exist, and an existing
  resource is claimed, as Adopted, only when it is empty or the spec opts in. What is written
  is the object read with the six stamped fields and nothing else changed.
\<close>

theorem adoption_gate:
  assumes "reads_buckety E req s bky"
    and "pass_log (Reconcile E req) s = pre @ BucketyStatusUpdated b r # post"
  shows "\<not> being_deleted (bMeta bky) \<and> stBackend (bStatus bky) = [] \<and>
    (\<exists>backend resolved insp.
       resolve_backend E bky = Inr backend \<and>
       ResolveName backend (bsName (bSpec bky)) (Name (bMeta bky)) (Namespace (bMeta bky)) (Labels (bMeta bky)) = Inr resolved \<and>
       dValidateResourceName (beDriver backend) resolved = None \<and>
       Inspected (beName backend) resolved (Inr insp) \<in> set pre \<and>
       b = stamped bky backend resolved (stProvenance (bStatus b)) \<and>
       (stProvenance (bStatus b) = ProvenanceCreated \<longleftrightarrow> \<not> Exists insp) \<and>
       (stProvenance (bStatus b) = ProvenanceAdopted \<longleftrightarrow> Exists insp) \<and>
       (Exists insp \<longrightarrow> Empty insp \<or> bsAdoption (bSpec bky) = AdoptionAdopt))"
proof -
  from Reconcile_event [OF assms] have live: "\<not> being_deleted (bMeta bky)" and "may_stamp E bky pre b"
    by (auto split: if_splits)
  then obtain backend resolved insp where *: "stBackend (bStatus bky) = []" "resolve_backend E bky = Inr backend"
    "ResolveName backend (bsName (bSpec bky)) (Name (bMeta bky)) (Namespace (bMeta bky)) (Labels (bMeta bky)) = Inr resolved"
    "dValidateResourceName (beDriver backend) resolved = None"
    "Inspected (beName backend) resolved (Inr insp) \<in> set pre"
    "decideProvenance insp (bsAdoption (bSpec bky)) \<noteq> []"
    "b = stamped bky backend resolved (decideProvenance insp (bsAdoption (bSpec bky)))"
    by (auto simp: may_stamp_def)
  have "stProvenance (bStatus b) = decideProvenance insp (bsAdoption (bSpec bky))"
    by (simp add: *(7) stamped_def)
  with live * show ?thesis
    by (intro conjI exI [of _ backend] exI [of _ resolved] exI [of _ insp])
       (auto simp: decideProvenance_def enum_defs split: if_splits)
qed

theorem adoption_gate_witness:
  "let bky = demo_buckety None RetentionDelete [] [];
       l = pass_log (Reconcile (demo_env (demo_client (Some bky) None [] None) inert_driver) demo_key) demo_sys
   in (\<exists>b r. l ! 1 = BucketyStatusUpdated b r \<and> stProvenance (bStatus b) = ProvenanceCreated \<and>
         stBackendResourceName (bStatus b) = ''b'') \<and>
      (\<exists>bn n insp. Inspected bn n (Inr insp) \<in> set (take 1 l) \<and> \<not> Exists insp)"
proof -
  let ?bky = "demo_buckety None RetentionDelete [] []"
  let ?E = "demo_env (demo_client (Some ?bky) None [] None) inert_driver"
  let ?l = "pass_log (Reconcile ?E demo_key) demo_sys"
  let ?b = "stamped ?bky (demo_backend inert_driver) ''b'' ProvenanceCreated"
  have at: "1 < length ?l" "?l ! 1 = BucketyStatusUpdated ?b (Inr ?b)"
    by code_simp+
  have "reads_buckety ?E demo_key demo_sys ?bky" by simp
  moreover have "stProvenance (bStatus ?b) = ProvenanceCreated" "stBackendResourceName (bStatus ?b) = ''b''"
    by (simp_all add: stamped_def)
  ultimately show ?thesis
    using adoption_gate [OF _ log_split [OF at]] at(2) unfolding Let_def by (metis (no_types, lifting))
qed

text \<open>
  C6. Before the backend is touched. \<open>EnsureBuckety\<close> runs only for a live Buckety whose backend
  is configured and still runs the stamping driver, whose stamped driver major equals the
  running one, and whose merged and resolved parameters the driver validated; it is called
  with the stamped resource name and exactly those parameters. On a Buckety read unstamped,
  it runs only after the stamping update succeeded in the same pass.
\<close>

theorem ensure_guard:
  assumes "reads_buckety E req s bky"
    and "pass_log (Reconcile E req) s = pre @ Ensured bn er r # post"
  shows "\<not> being_deleted (bMeta bky) \<and>
    (\<exists>backend mem.
       Lookup (eConfig E) (bsBackend (bSpec bky)) = Some backend \<and> bn = beName backend \<and>
       (stDriver (bStatus bky) = [] \<or> stDriver (bStatus bky) = dName (beDriver backend)) \<and>
       (mem = bky \<and> stBackend (bStatus bky) \<noteq> [] \<or> (\<exists>b0. BucketyStatusUpdated b0 (Inr mem) \<in> set pre)) \<and>
       (stBackend (bStatus mem) \<noteq> [] \<longrightarrow>
          stDriverMajor (bStatus mem) = num_value (majorOf (dVersion (beDriver backend)))) \<and>
       erName er = stBackendResourceName (bStatus mem) \<and>
       ResolvedParameters backend (Name (bMeta mem)) (Namespace (bMeta mem)) (bsParameters (bSpec mem)) = Inr (erParameters er) \<and>
       dValidateParameters (beDriver backend) (erParameters er) = None)"
proof -
  from Reconcile_event [OF assms] have "\<not> being_deleted (bMeta bky)" "may_ensure E bky pre bn er"
    by (auto split: if_splits)
  then show ?thesis
    unfolding may_ensure_def in_memory_def resolve_backend_Inr by (metis (no_types, lifting))
qed

theorem ensure_guard_witness:
  "let bky = demo_buckety None RetentionRetain ''r'' ProvenanceAdopted;
       l = pass_log (Reconcile (demo_env (demo_client (Some bky) None [] None) inert_driver) demo_key) demo_sys
   in (\<exists>er. l ! 0 = Ensured ''objs'' er None \<and> erName er = ''r'') \<and> \<not> being_deleted (bMeta bky)"
proof -
  let ?bky = "demo_buckety None RetentionRetain ''r'' ProvenanceAdopted"
  let ?E = "demo_env (demo_client (Some ?bky) None [] None) inert_driver"
  let ?l = "pass_log (Reconcile ?E demo_key) demo_sys"
  let ?er = "\<lparr>erName = ''r'', erParameters = [], erNamespace = ''ns'', erBucketyName = ''b''\<rparr>"
  have at: "0 < length ?l" "?l ! 0 = Ensured ''objs'' ?er None"
    by code_simp+
  have "reads_buckety ?E demo_key demo_sys ?bky" by simp
  from ensure_guard [OF this log_split [OF at]] at(2) show ?thesis
    by (auto simp: Let_def)
qed

lemma no_stamping_of_stamped:
  assumes "guarded (bky_rule E bky) [] l" and "stBackend (bStatus bky) \<noteq> []"
  shows "BucketyStatusUpdated b r \<notin> set l"
proof
  assume "BucketyStatusUpdated b r \<in> set l"
  with guarded_in [OF assms(1)] obtain pre where "bky_rule E bky pre (BucketyStatusUpdated b r)" by blast
  with assms(2) show False by (auto simp: may_stamp_def split: if_splits)
qed

text \<open>
  C19. Sticky means sticky. A pass over a Buckety that was read stamped writes it only with the
  backend, driver, driver major, resource name and provenance it was read with, and with the
  spec it was read with: no status patch, no update, on no branch, changes them, and the
  stamping update does not run again.
\<close>

theorem sticky_fields_frozen:
  assumes "reads_buckety E req s bky" and "stBackend (bStatus bky) \<noteq> []"
    and "pass_log (Reconcile E req) s = pre @ e # post"
    and "e \<in> {BucketyStatusPatched base b r, BucketyUpdated b r, BucketyPatched base b r, BucketyStatusUpdated b u}"
  shows "sticky b = sticky bky \<and> bSpec b = bSpec bky \<and> (e = BucketyStatusPatched base b r \<longrightarrow> base = bky)"
proof -
  have g: "guarded (bky_rule E bky) [] pre"
    using Reconcile_contract [OF assms(1)] assms(3) by simp
  have mem: "in_memory bky pre mem \<longleftrightarrow> mem = bky" for mem
    using no_stamping_of_stamped [OF g assms(2)] by (auto simp: in_memory_def)
  have rule: "bky_rule E bky pre e"
    by (rule Reconcile_event [OF assms(1,3)])
  from assms(4) consider "e = BucketyStatusPatched base b r" | "e = BucketyUpdated b r"
    | "e = BucketyPatched base b r" | "e = BucketyStatusUpdated b u" by blast
  then show ?thesis
  proof cases
    case 1
    with rule show ?thesis by (simp add: mem same_object_def split: if_splits)
  next
    case 4
    with rule assms(2) show ?thesis by (simp add: may_stamp_def split: if_splits)
  qed (use rule in \<open>simp_all split: if_splits\<close>)
qed

theorem sticky_fields_frozen_witness:
  "let bky = demo_buckety None RetentionRetain ''r'' ProvenanceAdopted;
       l = pass_log (Reconcile (demo_env (demo_client (Some bky) None [] None) inert_driver) demo_key) demo_sys
   in \<exists>b. l ! 2 = BucketyStatusPatched bky b None \<and> sticky b = sticky bky"
proof -
  let ?bky = "demo_buckety None RetentionRetain ''r'' ProvenanceAdopted"
  let ?E = "demo_env (demo_client (Some ?bky) None [] None) inert_driver"
  let ?l = "pass_log (Reconcile ?E demo_key) demo_sys"
  let ?cond = "\<lambda>typ st why. \<lparr>cType = typ, cStatus = st, cReason = why, cMessage = Lit [],
      cObservedGeneration = 1, cLastTransitionTime = 100\<rparr>"
  let ?b = "set_conditions [?cond ''Reconciling'' ConditionFalse ''Idle'', ?cond ''Ready'' ConditionTrue ''EnsuredOnBackend''] ?bky"
  have at: "2 < length ?l" "?l ! 2 = BucketyStatusPatched ?bky ?b None"
    by code_simp+
  have r: "reads_buckety ?E demo_key demo_sys ?bky" by simp
  have "stBackend (bStatus ?bky) \<noteq> []" by (simp add: demo_buckety_def)
  from sticky_fields_frozen [OF r this log_split [OF at], of ?bky ?b None "Inr ?b"] at(2) show ?thesis
    by (auto simp: Let_def)
qed

text \<open>
  C20. Ready is earned. On a live Buckety, a status that says Ready=True is written only after
  \<open>EnsureBuckety\<close> answered success in the same pass, and it carries the generation of the
  object it is written on as the observed one. Every other status write of such a pass says
  Ready is not True.
\<close>

theorem ready_means_ensured:
  assumes "kube_api (eKube E)" and "reads_buckety E req s bky" and "\<not> being_deleted (bMeta bky)"
    and "pass_log (Reconcile E req) s = pre @ BucketyStatusPatched base b r # post"
    and "IsStatusConditionTrue (eKube E) (stConditions (bStatus b)) ''Ready''"
  shows "(\<exists>bn er. Ensured bn er None \<in> set pre) \<and> stObservedGeneration (bStatus b) = Generation (bMeta b)"
  using Reconcile_event [OF assms(2,4)] assms(1,3,5) by (auto simp: ready_earned_def)

theorem ready_means_ensured_witness:
  "let bky = demo_buckety None RetentionRetain ''r'' ProvenanceAdopted;
       l = pass_log (Reconcile (demo_env (demo_client (Some bky) None [] None) inert_driver) demo_key) demo_sys
   in (\<exists>b. l ! 2 = BucketyStatusPatched bky b None \<and> stObservedGeneration (bStatus b) = Generation (bMeta b)) \<and>
      (\<exists>bn er. Ensured bn er None \<in> set (take 2 l))"
proof -
  let ?bky = "demo_buckety None RetentionRetain ''r'' ProvenanceAdopted"
  let ?E = "demo_env (demo_client (Some ?bky) None [] None) inert_driver"
  let ?l = "pass_log (Reconcile ?E demo_key) demo_sys"
  let ?cond = "\<lambda>typ st why. \<lparr>cType = typ, cStatus = st, cReason = why, cMessage = Lit [],
      cObservedGeneration = 1, cLastTransitionTime = 100\<rparr>"
  let ?b = "set_conditions [?cond ''Reconciling'' ConditionFalse ''Idle'', ?cond ''Ready'' ConditionTrue ''EnsuredOnBackend''] ?bky"
  have at: "2 < length ?l" "?l ! 2 = BucketyStatusPatched ?bky ?b None"
    by code_simp+
  have r: "reads_buckety ?E demo_key demo_sys ?bky" "kube_api (eKube ?E)"
    using documented.kube_api_axioms by simp_all
  have "\<not> being_deleted (bMeta ?bky)" "IsStatusConditionTrue (eKube ?E) (stConditions (bStatus ?b)) ''Ready''"
    by (simp_all add: being_deleted_def demo_buckety_def demo_meta_def documented_kube_def)
  from ready_means_ensured [OF r(2,1) this(1) log_split [OF at] this(2)] at(2) show ?thesis
    by (auto simp: Let_def)
qed

text \<open>
  An unavailable backend is left alone. While the spec's backend is missing from the
  configuration, or runs another driver than the one that stamped the Buckety, a pass makes
  no backend call at all, and it does not release the finalizer of a Buckety whose backend
  resource would have to be deleted.
\<close>

theorem unavailable_backend_untouched:
  assumes "reads_buckety E req s bky"
    and "Lookup (eConfig E) (bsBackend (bSpec bky)) = None \<or>
         (\<exists>be. Lookup (eConfig E) (bsBackend (bSpec bky)) = Some be \<and>
            stDriver (bStatus bky) \<noteq> [] \<and> stDriver (bStatus bky) \<noteq> dName (beDriver be))"
  shows "Inspected bn n i \<notin> set (pass_log (Reconcile E req) s) \<and>
    Ensured bn er x \<notin> set (pass_log (Reconcile E req) s) \<and>
    Deleted bn dr x \<notin> set (pass_log (Reconcile E req) s) \<and>
    (deletes_backend bky \<longrightarrow> BucketyUpdated b x \<notin> set (pass_log (Reconcile E req) s))"
proof -
  let ?l = "pass_log (Reconcile E req) s"
  have un: "resolve_backend E bky \<noteq> Inr be" for be
    using assms(2) by (auto simp: resolve_backend_Inr)
  have at: "e \<in> set ?l \<Longrightarrow> \<exists>pre post. ?l = pre @ e # post \<and> bky_rule E bky pre e" for e
    by (rule guarded_in [OF Reconcile_contract [OF assms(1)]])
  have no_delete: "Deleted bn dr x \<notin> set ?l" for bn dr x
    using at un by (fastforce split: if_splits)
  have "Inspected bn n i \<notin> set ?l" "Ensured bn er x \<notin> set ?l"
    using at un by (fastforce simp: may_ensure_def split: if_splits)+
  moreover have "deletes_backend bky \<longrightarrow> BucketyUpdated b x \<notin> set ?l"
    using at no_delete by (fastforce split: if_splits)
  ultimately show ?thesis using no_delete by blast
qed

theorem unavailable_backend_untouched_witness:
  "let bky = demo_buckety (Some 1) RetentionDelete ''r'' ProvenanceCreated;
       E = demo_env (demo_client (Some bky) None [] None) (inert_driver\<lparr>dName := ''other''\<rparr>)
   in deletes_backend bky \<and> (\<forall>dr. Deleted ''objs'' dr None \<notin> set (pass_log (Reconcile E demo_key) demo_sys))"
proof -
  let ?bky = "demo_buckety (Some 1) RetentionDelete ''r'' ProvenanceCreated"
  let ?E = "demo_env (demo_client (Some ?bky) None [] None) (inert_driver\<lparr>dName := ''other''\<rparr>)"
  have r: "reads_buckety ?E demo_key demo_sys ?bky" by simp
  have "Lookup (eConfig ?E) (bsBackend (bSpec ?bky)) = Some (demo_backend (inert_driver\<lparr>dName := ''other''\<rparr>))"
    "stDriver (bStatus ?bky) = ''inert''" "deletes_backend ?bky"
    by (simp_all add: demo_buckety_def Lookup_def deletes_backend_def enum_defs)
  with unavailable_backend_untouched [OF r] show ?thesis
    by (auto simp: Let_def demo_backend_def)
qed

end
