(* ===== verification/Access_Controller.thy ===== *)
theory Access_Controller
  imports Controller_Env
begin

text \<open>
  \<open>pkg/controller/bucketyaccess/reconciler.go\<close>: one pass over a BucketyAccess. As for the
  Buckety reconciler, the long Go method is a chain of stages in source order:
  \<open>access_Reconcile\<close> reads the access and its Buckety, \<open>access_deletion\<close> is the finalizer,
  \<open>access_body\<close> the guards up to the Secret gate, \<open>access_grant\<close> the gate, the start-up deferral
  and \<open>GrantAccess\<close>, \<open>access_write\<close> the Secret write with its compensation, and
  \<open>access_finish\<close> the replaced credential and the final status. Nothing reads the in-memory
  access after the last status write, so the stages return the outcome alone.
\<close>

section \<open>Helpers\<close>

abbreviation aconds :: "BucketyAccess \<Rightarrow> condition list" where
  "aconds a \<equiv> atConditions (aStatus a)"

definition set_aconditions :: "condition list \<Rightarrow> BucketyAccess \<Rightarrow> BucketyAccess" where
  "set_aconditions cs a = a\<lparr>aStatus := (aStatus a)\<lparr>atConditions := cs\<rparr>\<rparr>"

definition set_acond :: "'w env \<Rightarrow> BucketyAccess \<Rightarrow> string \<Rightarrow> string \<Rightarrow> string \<Rightarrow> text \<Rightarrow> ('w, BucketyAccess) ctrl" where
  "set_acond E a typ st reason msg = do {
     t \<leftarrow> now E;
     ret (set_aconditions (status_Set (eKube E) t (aconds a) typ st reason msg (Generation (aMeta a))) a) }"

definition surface_access ::
  "'w env \<Rightarrow> BucketyAccess \<Rightarrow> BucketyAccess \<Rightarrow> string \<Rightarrow> string \<Rightarrow> string \<Rightarrow> text \<Rightarrow> string \<Rightarrow> ('w, BucketyAccess) ctrl" where
  "surface_access E a base typ st reason msg eventType = do {
     status_Event E (aMeta a) (aconds base) typ st reason eventType reason msg;
     set_acond E a typ st reason msg }"

definition patchStatus_access :: "'w env \<Rightarrow> BucketyAccess \<Rightarrow> BucketyAccess \<Rightarrow> ('w, goerr option) ctrl" where
  "patchStatus_access E a base = (
     let cur = set_aconditions (KeepTransitionTimes (eKube E) (aconds base) (aconds a)) a in
     if \<not> ChangedBeyondMessages (DeepEqual_astatus (eKube E)) atConditions (\<lambda>cs s. s\<lparr>atConditions := cs\<rparr>)
           (aStatus base) (aStatus cur)
     then ret None
     else do {
       r \<leftarrow> call (clStatusPatchAccess (eClient E) base cur) (\<lambda>r. AccessStatusPatched base cur (err_of r));
       ret (err_of r) })"

definition isReady :: "kube \<Rightarrow> Buckety \<Rightarrow> bool" where
  "isReady K bky = IsStatusConditionTrue K (stConditions (bStatus bky)) ''Ready''"

text \<open>\<open>obj\<close> is the Buckety of the watch event, if the event's object is one.\<close>

definition bucketyToAccesses :: "'w env \<Rightarrow> Buckety option \<Rightarrow> ('w, nsname list) ctrl" where
  "bucketyToAccesses E obj =
     (case obj of
        None \<Rightarrow> ret []
      | Some bky \<Rightarrow> do {
          l \<leftarrow> call (rdListAccesses (reader.truncate (eClient E)) (Namespace (bMeta bky)))
                (ListedAccesses False (Namespace (bMeta bky)));
          ret (case l of
                 Inl _ \<Rightarrow> []
               | Inr items \<Rightarrow> map (\<lambda>a. key_of (aMeta a))
                   (filter (\<lambda>a. asBucketyRef (aSpec a) = Name (bMeta bky)) items)) })"

definition secret_key :: "BucketyAccess \<Rightarrow> nsname" where
  "secret_key a = \<lparr>nsNamespace = Namespace (aMeta a), nsName = asCredentialsSecretName (aSpec a)\<rparr>"

definition buckety_key :: "BucketyAccess \<Rightarrow> nsname" where
  "buckety_key a = \<lparr>nsNamespace = Namespace (aMeta a), nsName = asBucketyRef (aSpec a)\<rparr>"

definition new_secret :: "BucketyAccess \<Rightarrow> secret" where
  "new_secret a =
     \<lparr>sMeta = \<lparr>Name = asCredentialsSecretName (aSpec a), Namespace = Namespace (aMeta a), UID = [], Labels = [],
               Generation = 0, DeletionTimestamp = None, Finalizers = [], OwnerReferences = []\<rparr>,
      sType = [], sData = []\<rparr>"

text \<open>\<open>existing\<close> is the live-read Secret; \<open>None\<close> is the Go code's \<open>notFound\<close>.\<close>

definition writeSecret :: "'w env \<Rightarrow> BucketyAccess \<Rightarrow> secret option \<Rightarrow> smap \<Rightarrow> ('w, goerr option) ctrl" where
  "writeSecret E a existing data = (
     let start = (case existing of None \<Rightarrow> new_secret a | Some s \<Rightarrow> s) in
     case SetControllerReference (eKube E) (aMeta a) (sMeta start) of
       Inl e \<Rightarrow> ret (Some e)
     | Inr m \<Rightarrow> (
         let sec = start\<lparr>sMeta := m\<lparr>Labels := AList.update LabelOwnedSecret ''true'' (Labels m)\<rparr>,
                        sType := ''Opaque'', sData := data\<rparr> in
         case existing of
           None \<Rightarrow> do {
             r \<leftarrow> call (clCreateSecret (eClient E) sec) (\<lambda>r. SecretCreated sec (err_of r));
             ret (err_of r) }
         | Some ex \<Rightarrow>
             if DeepEqual_secret (eKube E) ex sec then ret None
             else do {
               r \<leftarrow> call (clUpdateSecret (eClient E) sec) (\<lambda>r. SecretUpdated sec (err_of r));
               ret (err_of r) }))"


section \<open>Deletion\<close>

definition release_access :: "'w env \<Rightarrow> BucketyAccess \<Rightarrow> ('w, outcome) ctrl" where
  "release_access E a = (
     let a' = a\<lparr>aMeta := RemoveFinalizer (eKube E) (aMeta a) FinalizerCleanup\<rparr> in do {
       r \<leftarrow> call (clUpdateAccess (eClient E) a') (\<lambda>r. AccessUpdated a' (err_of r));
       ret (0, err_of r) })"

definition access_deletion :: "'w env \<Rightarrow> BucketyAccess \<Rightarrow> goerr + Buckety \<Rightarrow> ('w, outcome) ctrl" where
  "access_deletion E a b =
     (if \<not> ContainsFinalizer (eKube E) (aMeta a) FinalizerCleanup then ret (0, None)
      else (case b of
        Inl e \<Rightarrow> if \<not> IsNotFound e then ret (0, Some e) else release_access E a
      | Inr bky \<Rightarrow>
          (case Lookup (eConfig E) (bsBackend (bSpec bky)) of
             None \<Rightarrow>
               if atPrincipalRevocable (aStatus a) then (
                 let msg = Sprintf ''cannot revoke principal %q: backend %q is not registered in buckety-controller.yaml; restore it to let this BucketyAccess go''
                       [AStr (atPrincipal (aStatus a)), AStr (bsBackend (bSpec bky))] in do {
                 status_Event E (aMeta a) (aconds a) ''Ready'' ConditionFalse ''BackendUnavailable''
                   EventTypeWarning ''DeletionBlocked'' msg;
                 a' \<leftarrow> set_acond E a ''Ready'' ConditionFalse ''BackendUnavailable'' msg;
                 err \<leftarrow> patchStatus_access E a' a;
                 case err of
                   Some e \<Rightarrow> ret (0, Some e)
                 | None \<Rightarrow> do { d \<leftarrow> cadence_Recheck E; ret (d, None) } })
               else release_access E a
           | Some backend \<Rightarrow> do {
               r \<leftarrow> call (dRevokeAccess (beDriver backend) (atPrincipal (aStatus a))) (Revoked (beName backend) (atPrincipal (aStatus a)));
               case r of
                 Some e \<Rightarrow> ret (0, Some e)
               | None \<Rightarrow> release_access E a })))"


section \<open>The pass\<close>

text \<open>\<open>r.surface(...); return ctrl.Result{}, r.patchStatus(...)\<close>\<close>

definition surface_end :: "'w env \<Rightarrow> BucketyAccess \<Rightarrow> string \<Rightarrow> text \<Rightarrow> ('w, outcome) ctrl" where
  "surface_end E a reason msg = do {
     a' \<leftarrow> surface_access E a a ''Ready'' ConditionFalse reason msg EventTypeWarning;
     err \<leftarrow> patchStatus_access E a' a;
     ret (0, err) }"

text \<open>\<open>r.surface(...); _ = r.patchStatus(...); return ctrl.Result{}, err\<close>\<close>

definition surface_fail :: "'w env \<Rightarrow> BucketyAccess \<Rightarrow> string \<Rightarrow> goerr \<Rightarrow> ('w, outcome) ctrl" where
  "surface_fail E a reason e = do {
     a' \<leftarrow> surface_access E a a ''Ready'' ConditionFalse reason (ErrText e) EventTypeWarning;
     patchStatus_access E a' a;
     ret (0, Some e) }"

definition access_finish ::
  "'w env \<Rightarrow> BucketyAccess \<Rightarrow> Buckety \<Rightarrow> 'w Backend \<Rightarrow> GrantResult \<Rightarrow> ('w, outcome) ctrl" where
  "access_finish E a bky backend res = (
     let old = atPrincipal (aStatus a) in do {
     rerr \<leftarrow> (if old \<noteq> [] \<and> old \<noteq> gtPrincipal res
             then call (dRevokeAccess (beDriver backend) old) (Revoked (beName backend) old)
             else ret None);
     case rerr of
       Some e \<Rightarrow> surface_fail E a ''RevokeFailed'' e
     | None \<Rightarrow> do {
         (if old \<noteq> [] \<and> old \<noteq> gtPrincipal res then
            record_Event E (aMeta a) EventTypeNormal ''PrincipalReplaced''
              (Sprintf ''credential re-minted: %q revoked, secret %q now carries %q; restart consumers that loaded the secret once''
                 [AStr old, AStr (asCredentialsSecretName (aSpec a)), AStr (gtPrincipal res)])
          else ret ());
         let a1 = a\<lparr>aStatus := (aStatus a)\<lparr>atPrincipal := gtPrincipal res, atPrincipalRevocable := gtRevocable res\<rparr>\<rparr>;
         a2 \<leftarrow> (if \<not> gtScoped res \<and> asRole (aSpec a1) \<noteq> [] \<and> asRole (aSpec a1) \<noteq> RoleReadWrite then
                 set_acond E a1 ''ScopingNotImplemented'' ConditionTrue ''DriverIgnoresRole''
                   (Sprintf ''driver %q v1alpha1 does not scope credentials per role; got root creds despite role=%q''
                      [AStr (dName (beDriver backend)), AStr (asRole (aSpec a1))])
               else ret (set_aconditions (RemoveStatusCondition (eKube E) (aconds a1) ''ScopingNotImplemented'') a1));
         status_Event E (aMeta a2) (aconds a) ''Ready'' ConditionTrue ''SecretMinted'' EventTypeNormal ''SecretMinted''
           (Sprintf ''secret %q minted for backend resource %q'' [AStr (asCredentialsSecretName (aSpec a2)), AStr (stBackendResourceName (bStatus bky))]);
         a3 \<leftarrow> set_acond E a2 ''Ready'' ConditionTrue ''SecretMinted'' (Lit []);
         let a4 = a3\<lparr>aStatus := (aStatus a3)\<lparr>atObservedGeneration := Generation (aMeta a3)\<rparr>\<rparr>;
         err \<leftarrow> patchStatus_access E a4 a;
         case err of
           Some e \<Rightarrow> ret (0, Some e)
         | None \<Rightarrow> do { d \<leftarrow> cadence_Recheck E; ret (d, None) } } })"

definition access_write ::
  "'w env \<Rightarrow> BucketyAccess \<Rightarrow> Buckety \<Rightarrow> 'w Backend \<Rightarrow> secret option \<Rightarrow> GrantResult \<Rightarrow> ('w, outcome) ctrl" where
  "access_write E a bky backend existing res = do {
     err \<leftarrow> writeSecret E a existing (gtSecretData res);
     case err of
       None \<Rightarrow> access_finish E a bky backend res
     | Some e \<Rightarrow> do {
         (if gtMinted res \<and> gtRevocable res then do {
            _ \<leftarrow> call (dRevokeAccess (beDriver backend) (gtPrincipal res)) (Revoked (beName backend) (gtPrincipal res));
            ret () }
          else ret ());
         if IsNamespaceTerminating e then ret (0, None)
         else surface_fail E a ''SecretWriteFailed'' e } }"

definition access_settled :: "'w env \<Rightarrow> BucketyAccess \<Rightarrow> secret option \<Rightarrow> bool" where
  "access_settled E a existing \<longleftrightarrow> existing \<noteq> None \<and>
     atObservedGeneration (aStatus a) = Generation (aMeta a) \<and>
     IsStatusConditionTrue (eKube E) (aconds a) ''Ready''"

definition grant_stage ::
  "'w env \<Rightarrow> nsname \<Rightarrow> BucketyAccess \<Rightarrow> Buckety \<Rightarrow> 'w Backend \<Rightarrow> smap \<Rightarrow> secret option \<Rightarrow> ('w, outcome) ctrl" where
  "grant_stage E req a bky backend bkyParams existing = do {
     d \<leftarrow> startup_Defer E req (access_settled E a existing);
     if d > 0 then ret (d, None)
     else (
       let gr = \<lparr>grBucketyName = stBackendResourceName (bStatus bky), grAccessNamespace = Namespace (aMeta a),
                 grAccessName = Name (aMeta a), grRole = asRole (aSpec a), grParameters = asParameters (aSpec a),
                 grBucketyParameters = bkyParams, grExistingSecretData = map_option sData existing\<rparr> in do {
       res \<leftarrow> call (dGrantAccess (beDriver backend) gr) (Granted (beName backend) gr);
       case res of
         Inl e \<Rightarrow> surface_fail E a ''GrantFailed'' e
       | Inr res \<Rightarrow> access_write E a bky backend existing res }) }"

text \<open>The Secret gate: a live read that decides whether the grant may run.\<close>

definition access_grant ::
  "'w env \<Rightarrow> nsname \<Rightarrow> BucketyAccess \<Rightarrow> Buckety \<Rightarrow> 'w Backend \<Rightarrow> smap \<Rightarrow> ('w, outcome) ctrl" where
  "access_grant E req a bky backend bkyParams = do {
     g \<leftarrow> call (rdGetSecret (liveReader E) (secret_key a)) (SecretRead (eLive E \<noteq> None) (secret_key a));
     case g of
       Inl e \<Rightarrow> if IsNotFound e then grant_stage E req a bky backend bkyParams None else ret (0, Some e)
     | Inr sec \<Rightarrow>
         if \<not> IsControlledBy (eKube E) (sMeta sec) (aMeta a) then do {
           a' \<leftarrow> surface_access E a a ''Ready'' ConditionFalse ''SecretConflict''
             (Sprintf ''secret %q exists and is not managed by this BucketyAccess; delete it or pick another credentialsSecretName'' [AStr (asCredentialsSecretName (aSpec a))])
             EventTypeWarning;
           err \<leftarrow> patchStatus_access E a' a;
           case err of
             Some e \<Rightarrow> ret (0, Some e)
           | None \<Rightarrow> do { d \<leftarrow> cadence_Recheck E; ret (d, None) } }
         else grant_stage E req a bky backend bkyParams (Some sec) }"

definition access_body :: "'w env \<Rightarrow> nsname \<Rightarrow> BucketyAccess \<Rightarrow> goerr + Buckety \<Rightarrow> ('w, outcome) ctrl" where
  "access_body E req a b =
     (if being_deleted (aMeta a) then access_deletion E a b
      else if \<not> ContainsFinalizer (eKube E) (aMeta a) FinalizerCleanup then (
        let a' = a\<lparr>aMeta := AddFinalizer (eKube E) (aMeta a) FinalizerCleanup\<rparr> in do {
        r \<leftarrow> call (clPatchAccess (eClient E) a a') (\<lambda>r. AccessPatched a a' (err_of r));
        ret (0, err_of r) })
      else (case b of
        Inl e \<Rightarrow>
          if IsNotFound e then surface_end E a ''BucketyNotFound''
            (Sprintf ''Buckety %q not found in namespace %q'' [AStr (asBucketyRef (aSpec a)), AStr (Namespace (aMeta a))])
          else ret (0, Some e)
      | Inr bky \<Rightarrow>
          if stBackendResourceName (bStatus bky) = [] \<or> \<not> isReady (eKube E) bky then do {
            a' \<leftarrow> set_acond E a ''Ready'' ConditionFalse ''WaitingForBuckety'' (Lit ''Buckety is not Ready yet; will retry'');
            patchStatus_access E a' a;
            d \<leftarrow> cadence_Recheck E;
            ret (d, None) }
          else (case Lookup (eConfig E) (stBackend (bStatus bky)) of
             None \<Rightarrow> surface_end E a ''BackendUnavailable''
               (Sprintf ''backend %q is not registered in buckety-controller.yaml'' [AStr (stBackend (bStatus bky))])
           | Some backend \<Rightarrow>
               (case dValidateAccessParameters (beDriver backend) (asParameters (aSpec a)) of
                  Some e \<Rightarrow> surface_end E a ''InvalidParameters'' (ErrText e)
                | None \<Rightarrow>
                    (case ResolvedParameters backend (Name (bMeta bky)) (Namespace (bMeta bky)) (bsParameters (bSpec bky)) of
                       Inl e \<Rightarrow> surface_end E a ''ParameterTemplate'' (ErrText e)
                     | Inr bkyParams \<Rightarrow> access_grant E req a bky backend bkyParams)))))"

definition access_Reconcile :: "'w env \<Rightarrow> nsname \<Rightarrow> ('w, outcome) ctrl" where
  "access_Reconcile E req = do {
     g \<leftarrow> ext (rdGetAccess (reader.truncate (eClient E)) req);
     case g of
       Inl e \<Rightarrow> if IsNotFound e then do { startup_Forget req; ret (0, None) } else ret (0, Some e)
     | Inr a \<Rightarrow> do {
         b \<leftarrow> call (rdGetBuckety (reader.truncate (eClient E)) (buckety_key a)) (BucketyRead (buckety_key a));
         access_body E req a b } }"

end
