(* ===== verification/Access_Safety.thy ===== *)
theory Access_Safety
  imports Access_Controller Demo_World
begin

text \<open>
  What a pass over a BucketyAccess may do and when. The contract \<open>acc_rule\<close> states it for every
  call of a pass; the stage lemmas show it for every branch and every answer of the outside
  world. The credential claims are about what a crash or a failed write cannot lose: a
  credential minted in a pass is in the Secret or revoked when the pass ends, and the
  recorded principal moves on only after its predecessor was revoked.
\<close>

section \<open>The contract\<close>

text \<open>The Secret the gate saw: absent, or present and controlled by this access.\<close>

definition gate_passed :: "'w env \<Rightarrow> BucketyAccess \<Rightarrow> event list \<Rightarrow> secret option \<Rightarrow> bool" where
  "gate_passed E a h existing \<longleftrightarrow>
     (case existing of
        None \<Rightarrow> \<exists>e. IsNotFound e \<and> SecretRead (eLive E \<noteq> None) (secret_key a) (Inl e) \<in> set h
      | Some sec \<Rightarrow> SecretRead (eLive E \<noteq> None) (secret_key a) (Inr sec) \<in> set h \<and>
          IsControlledBy (eKube E) (sMeta sec) (aMeta a))"

definition may_grant :: "'w env \<Rightarrow> BucketyAccess \<Rightarrow> event list \<Rightarrow> string \<Rightarrow> GrantRequest \<Rightarrow> bool" where
  "may_grant E a h bn gr \<longleftrightarrow>
     (\<exists>bky backend existing.
        BucketyRead (buckety_key a) (Inr bky) \<in> set h \<and>
        isReady (eKube E) bky \<and> stBackendResourceName (bStatus bky) \<noteq> [] \<and>
        Lookup (eConfig E) (stBackend (bStatus bky)) = Some backend \<and> bn = beName backend \<and>
        dValidateAccessParameters (beDriver backend) (asParameters (aSpec a)) = None \<and>
        grBucketyName gr = stBackendResourceName (bStatus bky) \<and> grParameters gr = asParameters (aSpec a) \<and>
        grRole gr = asRole (aSpec a) \<and>
        gate_passed E a h existing \<and> grExistingSecretData gr = map_option sData existing)"

text \<open>The Secret carries the data of the grant \<open>res\<close>: written in this pass, or found so.\<close>

definition secret_holds :: "event list \<Rightarrow> GrantResult \<Rightarrow> bool" where
  "secret_holds h res \<longleftrightarrow>
     (\<exists>s. (SecretCreated s None \<in> set h \<or> SecretUpdated s None \<in> set h) \<and> sData s = gtSecretData res) \<or>
     (\<exists>live k s. SecretRead live k (Inr s) \<in> set h \<and> map_of (sData s) = map_of (gtSecretData res))"

definition granted :: "event list \<Rightarrow> string \<Rightarrow> GrantResult \<Rightarrow> bool" where
  "granted h bn res \<longleftrightarrow> (\<exists>gr. Granted bn gr (Inr res) \<in> set h)"

definition may_release :: "'w env \<Rightarrow> BucketyAccess \<Rightarrow> event list \<Rightarrow> bool" where
  "may_release E a h \<longleftrightarrow>
     (\<exists>b. BucketyRead (buckety_key a) b \<in> set h \<and>
        (case b of
           Inl e \<Rightarrow> IsNotFound e
         | Inr bky \<Rightarrow>
             (case Lookup (eConfig E) (bsBackend (bSpec bky)) of
                None \<Rightarrow> \<not> atPrincipalRevocable (aStatus a)
              | Some be \<Rightarrow> Revoked (beName be) (atPrincipal (aStatus a)) None \<in> set h)))"

text \<open>A principal is recorded after its grant, its Secret and the end of its predecessor.\<close>

definition principal_recorded :: "BucketyAccess \<Rightarrow> event list \<Rightarrow> BucketyAccess \<Rightarrow> bool" where
  "principal_recorded a h b \<longleftrightarrow>
     (\<exists>bn res. granted h bn res \<and> secret_holds h res \<and>
        atPrincipal (aStatus b) = gtPrincipal res \<and> atPrincipalRevocable (aStatus b) = gtRevocable res \<and>
        (atPrincipal (aStatus a) \<noteq> [] \<and> atPrincipal (aStatus a) \<noteq> gtPrincipal res \<longrightarrow>
           Revoked bn (atPrincipal (aStatus a)) None \<in> set h))"

definition same_principal :: "BucketyAccess \<Rightarrow> BucketyAccess \<Rightarrow> bool" where
  "same_principal a b \<longleftrightarrow> atPrincipal (aStatus b) = atPrincipal (aStatus a) \<and>
     atPrincipalRevocable (aStatus b) = atPrincipalRevocable (aStatus a)"

definition status_ok :: "'w env \<Rightarrow> BucketyAccess \<Rightarrow> event list \<Rightarrow> BucketyAccess \<Rightarrow> bool" where
  "status_ok E a h b \<longleftrightarrow> aMeta b = aMeta a \<and> aSpec b = aSpec a \<and>
     (same_principal a b \<and> \<not> IsStatusConditionTrue (eKube E) (aconds b) ''Ready'' \<or>
      principal_recorded a h b \<and> atObservedGeneration (aStatus b) = Generation (aMeta b))"

text \<open>Why a credential may be revoked.\<close>

definition may_revoke :: "'w env \<Rightarrow> BucketyAccess \<Rightarrow> event list \<Rightarrow> string \<Rightarrow> string \<Rightarrow> bool" where
  "may_revoke E a h bn p \<longleftrightarrow>
     being_deleted (aMeta a) \<and> p = atPrincipal (aStatus a) \<or>
     (\<exists>res. granted h bn res \<and> gtMinted res \<and> gtRevocable res \<and> p = gtPrincipal res \<and>
        (\<forall>s. SecretCreated s None \<notin> set h \<and> SecretUpdated s None \<notin> set h)) \<or>
     (\<exists>res. granted h bn res \<and> secret_holds h res \<and> p = atPrincipal (aStatus a) \<and> p \<noteq> [] \<and>
        p \<noteq> gtPrincipal res)"

fun acc_rule :: "'w env \<Rightarrow> BucketyAccess \<Rightarrow> event list \<Rightarrow> event \<Rightarrow> bool" where
  "acc_rule E a h (BucketyRead k r) = (k = buckety_key a)"
| "acc_rule E a h (AccessUpdated b r) =
     (being_deleted (aMeta a) \<and> ContainsFinalizer (eKube E) (aMeta a) FinalizerCleanup \<and>
      b = a\<lparr>aMeta := RemoveFinalizer (eKube E) (aMeta a) FinalizerCleanup\<rparr> \<and> may_release E a h)"
| "acc_rule E a h (AccessPatched b b' r) =
     (\<not> being_deleted (aMeta a) \<and> b = a \<and> b' = a\<lparr>aMeta := AddFinalizer (eKube E) (aMeta a) FinalizerCleanup\<rparr>)"
| "acc_rule E a h (AccessStatusPatched base b r) = (base = a \<and> status_ok E a h b)"
| "acc_rule E a h (SecretRead live k r) =
     (\<not> being_deleted (aMeta a) \<and> (live \<longleftrightarrow> eLive E \<noteq> None) \<and> k = secret_key a)"
| "acc_rule E a h (SecretCreated s r) =
     (gate_passed E a h None \<and> (\<exists>bn res. granted h bn res \<and> sData s = gtSecretData res) \<and>
      IsControlledBy (eKube E) (sMeta s) (aMeta a) \<and> key_of (sMeta s) = secret_key a)"
| "acc_rule E a h (SecretUpdated s r) =
     ((\<exists>old. gate_passed E a h (Some old) \<and> key_of (sMeta s) = key_of (sMeta old) \<and> UID (sMeta s) = UID (sMeta old)) \<and>
      (\<exists>bn res. granted h bn res \<and> sData s = gtSecretData res))"
| "acc_rule E a h (Granted bn gr r) = (\<not> being_deleted (aMeta a) \<and> may_grant E a h bn gr)"
| "acc_rule E a h (Revoked bn p r) = may_revoke E a h bn p"
| "acc_rule E a h (KubeEvent _ _ _ _) = True"
| "acc_rule E a h _ = False"

text \<open>What must hold when the pass ends: no minted credential is out of reach.\<close>

definition accounted :: "event list \<Rightarrow> bool" where
  "accounted h \<longleftrightarrow>
     (\<forall>bn gr res. Granted bn gr (Inr res) \<in> set h \<and> gtMinted res \<and> gtRevocable res \<longrightarrow>
        secret_holds h res \<or> (\<exists>x. Revoked bn (gtPrincipal res) x \<in> set h))"


section \<open>Rules for the helpers\<close>

lemma set_aconditions_simps [simp]:
  "aMeta (set_aconditions cs a) = aMeta a" "aSpec (set_aconditions cs a) = aSpec a"
  "aconds (set_aconditions cs a) = cs" "atPrincipal (aStatus (set_aconditions cs a)) = atPrincipal (aStatus a)"
  "atPrincipalRevocable (aStatus (set_aconditions cs a)) = atPrincipalRevocable (aStatus a)"
  "atObservedGeneration (aStatus (set_aconditions cs a)) = atObservedGeneration (aStatus a)"
  by (simp_all add: set_aconditions_def)

definition akept :: "'w env \<Rightarrow> BucketyAccess \<Rightarrow> BucketyAccess \<Rightarrow> BucketyAccess" where
  "akept E a base = set_aconditions (KeepTransitionTimes (eKube E) (aconds base) (aconds a)) a"

definition astatus_write :: "'w env \<Rightarrow> BucketyAccess \<Rightarrow> BucketyAccess \<Rightarrow> event list \<Rightarrow> bool" where
  "astatus_write E a base l \<longleftrightarrow> l = [] \<or> (\<exists>r. l = [AccessStatusPatched base (akept E a base) r])"

lemma akept_simps [simp]:
  "aMeta (akept E a b) = aMeta a" "aSpec (akept E a b) = aSpec a"
  "atPrincipal (aStatus (akept E a b)) = atPrincipal (aStatus a)"
  "atPrincipalRevocable (aStatus (akept E a b)) = atPrincipalRevocable (aStatus a)"
  "atObservedGeneration (aStatus (akept E a b)) = atObservedGeneration (aStatus a)"
  by (simp_all add: akept_def)

lemma keeps_set_acond [keeps_rules]:
  "(\<And>t. R (set_aconditions (status_Set (eKube E) t (aconds a) typ st reason msg (Generation (aMeta a))) a) h)
   \<Longrightarrow> keeps C h (set_acond E a typ st reason msg) R"
  unfolding set_acond_def by (intro keeps_rules) auto

lemma keeps_surface_access [keeps_rules]:
  "\<lbrakk>lax C; \<And>t l. only_events l \<Longrightarrow>
      R (set_aconditions (status_Set (eKube E) t (aconds a) typ st reason msg (Generation (aMeta a))) a) (h @ l)\<rbrakk>
   \<Longrightarrow> keeps C h (surface_access E a base typ st reason msg evType) R"
  unfolding surface_access_def by (intro keeps_rules) auto

lemma keeps_patchStatus_access [keeps_rules]:
  assumes "\<And>r. C h (AccessStatusPatched base (akept E a base) r)"
    and "\<And>err l. astatus_write E a base l \<Longrightarrow> R err (h @ l)"
  shows "keeps C h (patchStatus_access E a base) R"
  unfolding patchStatus_access_def Let_def akept_def [symmetric]
  by (intro keeps_rules) (use assms(2) [of "[]"] assms in \<open>auto simp: astatus_write_def\<close>)

lemma lax_acc_rule [simp]: "lax (acc_rule E a)"
  by (auto simp: lax_def is_KubeEvent_def)


lemma accs_later [simp]:
  "gate_passed E a h x \<Longrightarrow> gate_passed E a (h @ l) x"
  "granted h bn res \<Longrightarrow> granted (h @ l) bn res"
  "secret_holds h res \<Longrightarrow> secret_holds (h @ l) res"
  by (auto simp: gate_passed_def granted_def secret_holds_def split: option.splits)

text \<open>\<open>quiet\<close>: no grant; \<open>unwritten\<close>: no Secret was written so far.\<close>

definition quiet :: "event list \<Rightarrow> bool" where
  "quiet l \<longleftrightarrow> (\<forall>bn gr r. Granted bn gr r \<notin> set l)"

definition unwritten :: "event list \<Rightarrow> bool" where
  "unwritten h \<longleftrightarrow> (\<forall>s. SecretCreated s None \<notin> set h \<and> SecretUpdated s None \<notin> set h)"

lemma quiet_simps [simp]: "quiet []" "quiet (l @ l') \<longleftrightarrow> quiet l \<and> quiet l'"
  "quiet (e # l) \<longleftrightarrow> (\<forall>bn gr r. e \<noteq> Granted bn gr r) \<and> quiet l"
  by (auto simp: quiet_def)

lemma quiet_writes [simp]: "only_events l \<Longrightarrow> quiet l" "astatus_write E a b l \<Longrightarrow> quiet l"
  by (auto simp: quiet_def astatus_write_def dest: only_eventsD)

lemma unwritten_simps [simp]: "unwritten []" "unwritten (l @ l') \<longleftrightarrow> unwritten l \<and> unwritten l'"
  "unwritten (e # l) \<longleftrightarrow> (\<forall>s. e \<noteq> SecretCreated s None \<and> e \<noteq> SecretUpdated s None) \<and> unwritten l"
  by (auto simp: unwritten_def)

lemma unwritten_writes [simp]: "only_events l \<Longrightarrow> unwritten l"
  by (auto simp: unwritten_def dest: only_eventsD)

lemma quiet_accounted [simp]: "quiet h \<Longrightarrow> accounted h"
  by (simp add: quiet_def accounted_def)

lemma accounted_later [simp]: "\<lbrakk>accounted h; quiet l\<rbrakk> \<Longrightarrow> accounted (h @ l)"
  by (fastforce simp: quiet_def accounted_def)

text \<open>\<open>res\<close> is the one grant of this pass.\<close>

definition the_grant :: "event list \<Rightarrow> string \<Rightarrow> GrantResult \<Rightarrow> bool" where
  "the_grant h bn res \<longleftrightarrow> granted h bn res \<and>
     (\<forall>bn' gr res'. Granted bn' gr (Inr res') \<in> set h \<longrightarrow> bn' = bn \<and> res' = res)"

lemma the_grant_later [simp]: "\<lbrakk>the_grant h bn res; quiet l\<rbrakk> \<Longrightarrow> the_grant (h @ l) bn res"
  by (auto simp: the_grant_def quiet_def granted_def)

lemma the_grant_new [simp]: "quiet h \<Longrightarrow> the_grant (h @ [Granted bn gr (Inr res)]) bn res"
  by (auto simp: the_grant_def quiet_def granted_def)

lemma the_grant_accounted:
  "\<lbrakk>the_grant h bn res; gtMinted res \<and> gtRevocable res \<longrightarrow>
     secret_holds h res \<or> (\<exists>x. Revoked bn (gtPrincipal res) x \<in> set h)\<rbrakk> \<Longrightarrow> accounted h"
  by (auto simp: the_grant_def accounted_def)

text \<open>A status write that leaves the principal alone and says Ready is not True.\<close>

lemma plain_write:
  assumes "kube_api (eKube E)" and "aMeta b = aMeta a" "aSpec b = aSpec a" and "same_principal a b"
    and "\<not> IsStatusConditionTrue (eKube E) (aconds b) ''Ready''"
  shows "acc_rule E a h (AccessStatusPatched a (akept E b a) r)"
  using assms by (simp add: status_ok_def same_principal_def akept_def is_true_keep)

lemma same_principal_simps [simp]: "same_principal a (set_aconditions cs b) \<longleftrightarrow> same_principal a b"
  "same_principal a a"
  by (simp_all add: same_principal_def)


section \<open>The stages\<close>

lemma keeps_surface_end:
  assumes "kube_api (eKube E)" and "accounted h"
  shows "keeps (acc_rule E a) h (surface_end E a reason msg) (\<lambda>_ h'. accounted h')"
  unfolding surface_end_def
  by (intro keeps_rules plain_write) (use assms in \<open>auto simp: kube_api.is_true_status_Set\<close>)

lemma keeps_surface_fail:
  assumes "kube_api (eKube E)" and "accounted h"
  shows "keeps (acc_rule E a) h (surface_fail E a reason e) (\<lambda>_ h'. accounted h')"
  unfolding surface_fail_def
  by (intro keeps_rules plain_write) (use assms in \<open>auto simp: kube_api.is_true_status_Set\<close>)

lemma keeps_release_access:
  assumes "being_deleted (aMeta a)" "ContainsFinalizer (eKube E) (aMeta a) FinalizerCleanup"
    and "may_release E a h" and "quiet h"
  shows "keeps (acc_rule E a) h (release_access E a) (\<lambda>_ h'. accounted h')"
  unfolding release_access_def Let_def
  by (intro keeps_rules) (use assms in auto)

lemma keeps_access_deletion:
  assumes "kube_api (eKube E)" and "being_deleted (aMeta a)" and "BucketyRead (buckety_key a) b \<in> set h" and "quiet h"
  shows "keeps (acc_rule E a) h (access_deletion E a b) (\<lambda>_ h'. accounted h')"
  unfolding access_deletion_def Let_def
  by (intro keeps_rules plain_write keeps_release_access)
     (use assms in \<open>auto simp: kube_api.is_true_status_Set may_release_def may_revoke_def\<close>)

lemma owned_secret:
  assumes "kube_api K" and "SetControllerReference K (aMeta a) (sMeta start) = Inr m"
  shows "IsControlledBy K (m\<lparr>Labels := ls\<rparr>) (aMeta a) \<and> key_of (m\<lparr>Labels := ls\<rparr>) = key_of (sMeta start) \<and>
    UID (m\<lparr>Labels := ls\<rparr>) = UID (sMeta start)"
proof -
  from kube_api.set_controller [OF assms] obtain rs where
    "IsControlledBy K m (aMeta a)" "m = (sMeta start)\<lparr>OwnerReferences := rs\<rparr>" by blast
  then show ?thesis by (auto simp: kube_api.controlled_by [OF assms(1)] key_of_def)
qed

lemma keeps_writeSecret:
  assumes K: "kube_api (eKube E)" and gate: "gate_passed E a h existing" and g: "granted h bn res" and u: "unwritten h"
  shows "keeps (acc_rule E a) h (writeSecret E a existing (gtSecretData res))
    (\<lambda>err h'. \<exists>l. h' = h @ l \<and> quiet l \<and>
       (case err of None \<Rightarrow> secret_holds h' res | Some _ \<Rightarrow> unwritten h'))"
proof (cases existing)
  case None
  have "key_of (sMeta (new_secret a)) = secret_key a"
    by (simp add: new_secret_def key_of_def secret_key_def)
  with None gate g u owned_secret [OF K, of a "new_secret a"] show ?thesis
    unfolding writeSecret_def Let_def
    by (intro keeps_rules) (auto simp: secret_holds_def err_of_def split: sum.splits)
next
  case (Some ex)
  have eq: "DeepEqual_secret (eKube E) ex sec \<Longrightarrow> map_of (sData ex) = map_of (sData sec)" for sec
    using kube_api.deep_equal_secret [OF K] by blast
  have "SecretRead (eLive E \<noteq> None) (secret_key a) (Inr ex) \<in> set h"
    using gate Some by (simp add: gate_passed_def)
  with Some gate g u owned_secret [OF K, of a ex] show ?thesis
    unfolding writeSecret_def Let_def
    by (intro keeps_rules) (auto simp: secret_holds_def err_of_def split: sum.splits dest!: eq)
qed

text \<open>The final status write: principal, generation and Ready together.\<close>

lemma final_write:
  assumes "aMeta b = aMeta a" "aSpec b = aSpec a" and "granted h bn res" and "secret_holds h res"
    and "atPrincipal (aStatus b) = gtPrincipal res" "atPrincipalRevocable (aStatus b) = gtRevocable res"
    and "atObservedGeneration (aStatus b) = Generation (aMeta b)"
    and "atPrincipal (aStatus a) \<noteq> [] \<and> atPrincipal (aStatus a) \<noteq> gtPrincipal res \<Longrightarrow>
      Revoked bn (atPrincipal (aStatus a)) None \<in> set h"
  shows "acc_rule E a h (AccessStatusPatched a (akept E b a) r)"
  using assms unfolding acc_rule.simps status_ok_def principal_recorded_def
  by (intro conjI refl disjI2 exI [of _ bn] exI [of _ res]) auto

lemma keeps_access_finish:
  assumes "kube_api (eKube E)" and "the_grant h (beName backend) res" and "secret_holds h res"
  shows "keeps (acc_rule E a) h (access_finish E a bky backend res) (\<lambda>_ h'. accounted h')"
proof -
  have g: "granted h (beName backend) res"
    using assms(2) by (simp add: the_grant_def)
  have acc: "quiet l \<Longrightarrow> accounted (h @ l)" for l
    by (rule the_grant_accounted [OF the_grant_later [OF assms(2)]]) (simp_all add: assms(3))
  show ?thesis
    unfolding access_finish_def Let_def
    by (intro keeps_rules keeps_surface_fail final_write [where bn = "beName backend" and res = res])
       (use assms g acc in \<open>auto simp: may_revoke_def\<close>)
qed

lemma keeps_access_write:
  assumes "kube_api (eKube E)" and "the_grant h (beName backend) res" and "gate_passed E a h existing" and "unwritten h"
  shows "keeps (acc_rule E a) h (access_write E a bky backend existing res) (\<lambda>_ h'. accounted h')"
proof -
  have g: "granted h (beName backend) res"
    using assms(2) by (simp add: the_grant_def)
  have failed: "acc_rule E a h' (Revoked (beName backend) (gtPrincipal res) x)"
    if "h' = h @ l" "unwritten h'" "gtMinted res \<and> gtRevocable res" for h' l x
    unfolding acc_rule.simps may_revoke_def
    by (rule disjI2, rule disjI1, rule exI [of _ res])
       (use that accs_later(2) [OF g] in \<open>simp add: unwritten_def\<close>)
  have revoked: "accounted (h @ l @ [Revoked (beName backend) (gtPrincipal res) x])" if "quiet l" for l x
    by (rule the_grant_accounted [OF the_grant_later [OF assms(2)]]) (use that in auto)
  have kept: "accounted (h @ l)" if "quiet l" "\<not> (gtMinted res \<and> gtRevocable res)" for l
    by (rule the_grant_accounted [OF the_grant_later [OF assms(2)]]) (use that in auto)
  show ?thesis
    unfolding access_write_def
    by (intro keeps_bind keeps_mono [OF keeps_writeSecret [OF assms(1,3) g assms(4)]] keeps_case_option)
       (auto intro!: keeps_rules keeps_surface_fail keeps_access_finish failed simp: assms revoked kept)
qed

lemma keeps_grant_stage:
  assumes "kube_api (eKube E)" and "\<not> being_deleted (aMeta a)" and "gate_passed E a h existing"
    and "quiet h" and "unwritten h"
    and "\<And>gr. \<lbrakk>grBucketyName gr = stBackendResourceName (bStatus bky); grParameters gr = asParameters (aSpec a);
      grRole gr = asRole (aSpec a); grExistingSecretData gr = map_option sData existing\<rbrakk> \<Longrightarrow> may_grant E a h (beName backend) gr"
  shows "keeps (acc_rule E a) h (grant_stage E req a bky backend params existing) (\<lambda>_ h'. accounted h')"
  unfolding grant_stage_def Let_def
  by (intro keeps_rules keeps_surface_fail keeps_access_write)
     (use assms in \<open>auto simp: accounted_def quiet_def\<close>)

lemma keeps_access_grant:
  assumes K: "kube_api (eKube E)" and "\<not> being_deleted (aMeta a)" and "quiet h" and "unwritten h"
    and "BucketyRead (buckety_key a) (Inr bky) \<in> set h" "isReady (eKube E) bky" "stBackendResourceName (bStatus bky) \<noteq> []"
    and "Lookup (eConfig E) (stBackend (bStatus bky)) = Some backend"
    and "dValidateAccessParameters (beDriver backend) (asParameters (aSpec a)) = None"
  shows "keeps (acc_rule E a) h (access_grant E req a bky backend params) (\<lambda>_ h'. accounted h')"
proof -
  have ok: "may_grant E a (h @ l) (beName backend) gr"
    if "gate_passed E a (h @ l) existing" "grBucketyName gr = stBackendResourceName (bStatus bky)"
      "grParameters gr = asParameters (aSpec a)" "grRole gr = asRole (aSpec a)"
      "grExistingSecretData gr = map_option sData existing" for l gr existing
    unfolding may_grant_def using assms that
    by (intro exI [of _ bky] exI [of _ backend] exI [of _ existing]) auto
  have stage: "keeps (acc_rule E a) (h @ l) (grant_stage E req a bky backend params existing) (\<lambda>_ h'. accounted h')"
    if "gate_passed E a (h @ l) existing" "quiet l" "unwritten l" for l existing
    by (rule keeps_grant_stage) (use assms that ok in auto)
  show ?thesis
    unfolding access_grant_def
    by (intro keeps_rules plain_write stage)
       (use assms in \<open>auto simp: gate_passed_def kube_api.is_true_status_Set\<close>)
qed

lemma keeps_access_body:
  assumes "kube_api (eKube E)" and "BucketyRead (buckety_key a) b \<in> set h" and "quiet h" and "unwritten h"
  shows "keeps (acc_rule E a) h (access_body E req a b) (\<lambda>_ h'. accounted h')"
  unfolding access_body_def Let_def
  by (intro keeps_rules plain_write keeps_access_deletion keeps_surface_end keeps_access_grant)
     (use assms in \<open>auto simp: kube_api.is_true_status_Set\<close>)

abbreviation reads_access :: "'w env \<Rightarrow> nsname \<Rightarrow> ('w, event, ctrl_memory) sys \<Rightarrow> BucketyAccess \<Rightarrow> bool" where
  "reads_access E req s a \<equiv> fst (rdGetAccess (reader.truncate (eClient E)) req (world s)) = Inr a"

lemma access_contract:
  assumes "kube_api (eKube E)" and "reads_access E req s a"
  shows "guarded (acc_rule E a) [] (pass_log (access_Reconcile E req) s) \<and>
    accounted (pass_log (access_Reconcile E req) s)"
proof -
  have "keeps (acc_rule E a) [] (do {
      b \<leftarrow> call (rdGetBuckety (reader.truncate (eClient E)) (buckety_key a)) (BucketyRead (buckety_key a));
      access_body E req a b }) (\<lambda>_ h'. accounted h')"
    by (intro keeps_bind keeps_call keeps_access_body) (use assms(1) in auto)
  then show ?thesis
    unfolding access_Reconcile_def using assms(2)
    by (intro keepsD_ext [where a = "Inr a"]) simp_all
qed

lemma access_event:
  assumes "kube_api (eKube E)" and "reads_access E req s a"
    and "pass_log (access_Reconcile E req) s = pre @ e # post"
  shows "acc_rule E a pre e"
  by (rule guarded_at [OF conjunct1 [OF access_contract [OF assms(1,2)]] assms(3)])


section \<open>Properties\<close>

text \<open>
  C3. No live credential is lost. When a pass over a BucketyAccess ends, on whichever branch,
  every revocable credential \<open>GrantAccess\<close> minted in it is either in the access's Secret (a
  create or update the API server accepted, or a Secret found with that data) or was handed
  back to the driver's \<open>RevokeAccess\<close> in the same pass.
\<close>

theorem minted_credential_accounted:
  assumes "kube_api (eKube E)" and "reads_access E req s a"
    and "Granted bn gr (Inr res) \<in> set (pass_log (access_Reconcile E req) s)"
    and "gtMinted res" and "gtRevocable res"
  shows "let l = pass_log (access_Reconcile E req) s in
    (\<exists>sec. (SecretCreated sec None \<in> set l \<or> SecretUpdated sec None \<in> set l) \<and> sData sec = gtSecretData res) \<or>
    (\<exists>live k sec. SecretRead live k (Inr sec) \<in> set l \<and> map_of (sData sec) = map_of (gtSecretData res)) \<or>
    (\<exists>x. Revoked bn (gtPrincipal res) x \<in> set l)"
  using access_contract [OF assms(1,2)] assms(3-5)
  unfolding accounted_def secret_holds_def Let_def by blast

theorem minted_credential_accounted_witness:
  "let a = demo_access None ''p1'';
       l = pass_log (access_Reconcile (demo_env (demo_client (Some demo_ready) (Some a) [] None) minting_driver) demo_key) demo_sys
   in (\<exists>bn gr. Granted bn gr (Inr demo_grant) \<in> set l) \<and>
      ((\<exists>sec. (SecretCreated sec None \<in> set l \<or> SecretUpdated sec None \<in> set l) \<and> sData sec = gtSecretData demo_grant) \<or>
       (\<exists>live k sec. SecretRead live k (Inr sec) \<in> set l \<and> map_of (sData sec) = map_of (gtSecretData demo_grant)) \<or>
       (\<exists>bn x. Revoked bn (gtPrincipal demo_grant) x \<in> set l))"
proof -
  let ?a = "demo_access None ''p1''"
  let ?E = "demo_env (demo_client (Some demo_ready) (Some ?a) [] None) minting_driver"
  let ?l = "pass_log (access_Reconcile ?E demo_key) demo_sys"
  let ?gr = "\<lparr>grBucketyName = ''r'', grAccessNamespace = ''ns'', grAccessName = ''a'', grRole = [], grParameters = [],
      grBucketyParameters = [], grExistingSecretData = None\<rparr>"
  have at: "2 < length ?l" "?l ! 2 = Granted ''objs'' ?gr (Inr demo_grant)"
    by code_simp+
  then have "Granted ''objs'' ?gr (Inr demo_grant) \<in> set ?l"
    by (metis nth_mem)
  moreover have "gtMinted demo_grant" "gtRevocable demo_grant"
    by (simp_all add: demo_grant_def)
  moreover have r: "reads_access ?E demo_key demo_sys ?a" "kube_api (eKube ?E)"
    using documented.kube_api_axioms by simp_all
  ultimately show ?thesis
    using minted_credential_accounted [of ?E demo_key demo_sys ?a "''objs''" ?gr demo_grant] unfolding Let_def by blast
qed

text \<open>
  The gate before the grant. \<open>GrantAccess\<close> runs only for a live access whose Buckety was
  read Ready with a stamped resource, on the backend stamped into that Buckety, with
  parameters the driver accepts, and only after a live read of the Secret in the same pass
  found it absent or controlled by this access; the driver is given exactly that Secret's data.
\<close>

theorem grant_guard:
  assumes "kube_api (eKube E)" and "reads_access E req s a"
    and "pass_log (access_Reconcile E req) s = pre @ Granted bn gr r # post"
  shows "\<not> being_deleted (aMeta a) \<and>
    (\<exists>bky backend. BucketyRead (buckety_key a) (Inr bky) \<in> set pre \<and>
       IsStatusConditionTrue (eKube E) (stConditions (bStatus bky)) ''Ready'' \<and>
       grBucketyName gr = stBackendResourceName (bStatus bky) \<and> grBucketyName gr \<noteq> [] \<and>
       Lookup (eConfig E) (stBackend (bStatus bky)) = Some backend \<and> bn = beName backend \<and>
       dValidateAccessParameters (beDriver backend) (grParameters gr) = None) \<and>
    ((\<exists>e. SecretRead (eLive E \<noteq> None) (secret_key a) (Inl e) \<in> set pre \<and> IsNotFound e) \<and>
       grExistingSecretData gr = None \<or>
     (\<exists>sec. SecretRead (eLive E \<noteq> None) (secret_key a) (Inr sec) \<in> set pre \<and>
       IsControlledBy (eKube E) (sMeta sec) (aMeta a) \<and> grExistingSecretData gr = Some (sData sec)))"
proof -
  from access_event [OF assms] have live: "\<not> being_deleted (aMeta a)" and "may_grant E a pre bn gr"
    by simp_all
  then obtain bky backend existing where *: "BucketyRead (buckety_key a) (Inr bky) \<in> set pre"
    "isReady (eKube E) bky" "stBackendResourceName (bStatus bky) \<noteq> []"
    "Lookup (eConfig E) (stBackend (bStatus bky)) = Some backend" "bn = beName backend"
    "dValidateAccessParameters (beDriver backend) (asParameters (aSpec a)) = None"
    "grBucketyName gr = stBackendResourceName (bStatus bky)" "grParameters gr = asParameters (aSpec a)"
    "gate_passed E a pre existing" "grExistingSecretData gr = map_option sData existing"
    unfolding may_grant_def by blast
  then have "(\<exists>e. SecretRead (eLive E \<noteq> None) (secret_key a) (Inl e) \<in> set pre \<and> IsNotFound e) \<and>
       grExistingSecretData gr = None \<or>
     (\<exists>sec. SecretRead (eLive E \<noteq> None) (secret_key a) (Inr sec) \<in> set pre \<and>
       IsControlledBy (eKube E) (sMeta sec) (aMeta a) \<and> grExistingSecretData gr = Some (sData sec))"
    by (cases existing) (auto simp: gate_passed_def)
  with live * show ?thesis
    unfolding isReady_def by (intro conjI exI [of _ bky] exI [of _ backend]) simp_all
qed

theorem grant_guard_witness:
  "let a = demo_access None ''p1'';
       l = pass_log (access_Reconcile (demo_env (demo_client (Some demo_ready) (Some a) [] None) minting_driver) demo_key) demo_sys
   in (\<exists>gr. l ! 2 = Granted ''objs'' gr (Inr demo_grant) \<and> grBucketyName gr = ''r'') \<and>
      (\<exists>bky. BucketyRead (buckety_key a) (Inr bky) \<in> set (take 2 l))"
proof -
  let ?a = "demo_access None ''p1''"
  let ?E = "demo_env (demo_client (Some demo_ready) (Some ?a) [] None) minting_driver"
  let ?l = "pass_log (access_Reconcile ?E demo_key) demo_sys"
  let ?gr = "\<lparr>grBucketyName = ''r'', grAccessNamespace = ''ns'', grAccessName = ''a'', grRole = [], grParameters = [],
      grBucketyParameters = [], grExistingSecretData = None\<rparr>"
  have at: "2 < length ?l" "?l ! 2 = Granted ''objs'' ?gr (Inr demo_grant)"
    by code_simp+
  have r: "reads_access ?E demo_key demo_sys ?a" "kube_api (eKube ?E)"
    using documented.kube_api_axioms by simp_all
  from grant_guard [OF r(2,1) log_split [OF at]] at(2) show ?thesis
    by (auto simp: Let_def)
qed

text \<open>
  C8. Secrets of others. A pass creates a Secret only under the access's own name, after a
  live read found none there, and as its controller; it updates only a Secret that read
  showed controlled by this access, keeping its name and UID. In both cases the data written
  is the data of a grant made in the same pass.
\<close>

theorem secret_write_guard:
  assumes "kube_api (eKube E)" and "reads_access E req s a"
    and "pass_log (access_Reconcile E req) s = pre @ e # post"
    and "e = SecretCreated sec r \<or> e = SecretUpdated sec r"
  shows "(\<exists>bn gr res. Granted bn gr (Inr res) \<in> set pre \<and> sData sec = gtSecretData res) \<and>
    (e = SecretCreated sec r \<longrightarrow>
       (\<exists>x. SecretRead (eLive E \<noteq> None) (secret_key a) (Inl x) \<in> set pre \<and> IsNotFound x) \<and>
       key_of (sMeta sec) = secret_key a \<and> IsControlledBy (eKube E) (sMeta sec) (aMeta a)) \<and>
    (e = SecretUpdated sec r \<longrightarrow>
       (\<exists>old. SecretRead (eLive E \<noteq> None) (secret_key a) (Inr old) \<in> set pre \<and>
          IsControlledBy (eKube E) (sMeta old) (aMeta a) \<and>
          key_of (sMeta sec) = key_of (sMeta old) \<and> UID (sMeta sec) = UID (sMeta old)))"
  using access_event [OF assms(1-3)] assms(4)
  by (auto simp: gate_passed_def granted_def) metis+

theorem secret_write_guard_witness:
  "let a = demo_access None ''p1'';
       l = pass_log (access_Reconcile (demo_env (demo_client (Some demo_ready) (Some a) [] None) minting_driver) demo_key) demo_sys
   in (\<exists>sec. l ! 3 = SecretCreated sec None \<and> key_of (sMeta sec) = secret_key a \<and>
       IsControlledBy documented_kube (sMeta sec) (aMeta a))"
proof -
  let ?a = "demo_access None ''p1''"
  let ?E = "demo_env (demo_client (Some demo_ready) (Some ?a) [] None) minting_driver"
  let ?l = "pass_log (access_Reconcile ?E demo_key) demo_sys"
  let ?sec = "\<lparr>sMeta = (demo_meta ''creds'' [] None)\<lparr>UID := [], Labels := [(LabelOwnedSecret, ''true'')], Generation := 0,
      OwnerReferences := [\<lparr>orName = ''a'', orUID = ''u-a'', orController = True\<rparr>]\<rparr>,
      sType = ''Opaque'', sData = [(''key'', ''v'')]\<rparr>"
  have at: "3 < length ?l" "?l ! 3 = SecretCreated ?sec None"
    by code_simp+
  have r: "reads_access ?E demo_key demo_sys ?a" "kube_api (eKube ?E)"
    using documented.kube_api_axioms by simp_all
  from secret_write_guard [OF r(2,1) log_split [OF at], of ?sec None] at(2) show ?thesis
    by (auto simp: Let_def)
qed

text \<open>
  C7. The access finalizer. It is released only on an access that is being deleted, and only
  after the pass read its Buckety: the Buckety is gone; or its backend is not configured and
  the recorded principal is not revocable; or the backend's \<open>RevokeAccess\<close> answered success
  for the recorded principal in the same pass. A failed read other than NotFound never
  releases it.
\<close>

theorem access_release_guard:
  assumes "kube_api (eKube E)" and "reads_access E req s a"
    and "pass_log (access_Reconcile E req) s = pre @ AccessUpdated b r # post"
  shows "being_deleted (aMeta a) \<and>
    b = a\<lparr>aMeta := RemoveFinalizer (eKube E) (aMeta a) FinalizerCleanup\<rparr> \<and>
    ((\<exists>e. BucketyRead (buckety_key a) (Inl e) \<in> set pre \<and> IsNotFound e) \<or>
     (\<exists>bky. BucketyRead (buckety_key a) (Inr bky) \<in> set pre \<and>
        (Lookup (eConfig E) (bsBackend (bSpec bky)) = None \<and> \<not> atPrincipalRevocable (aStatus a) \<or>
         (\<exists>be. Lookup (eConfig E) (bsBackend (bSpec bky)) = Some be \<and>
            Revoked (beName be) (atPrincipal (aStatus a)) None \<in> set pre))))"
proof -
  from access_event [OF assms] obtain x where "being_deleted (aMeta a)"
    "b = a\<lparr>aMeta := RemoveFinalizer (eKube E) (aMeta a) FinalizerCleanup\<rparr>"
    "BucketyRead (buckety_key a) x \<in> set pre"
    "case x of Inl e \<Rightarrow> IsNotFound e
     | Inr bky \<Rightarrow> (case Lookup (eConfig E) (bsBackend (bSpec bky)) of
         None \<Rightarrow> \<not> atPrincipalRevocable (aStatus a)
       | Some be \<Rightarrow> Revoked (beName be) (atPrincipal (aStatus a)) None \<in> set pre)"
    by (auto simp: may_release_def)
  then show ?thesis
    by (cases x) (auto split: option.splits)
qed

theorem access_release_guard_witness:
  "let a = demo_access (Some 1) ''p1'';
       l = pass_log (access_Reconcile (demo_env (demo_client (Some demo_ready) (Some a) [] None) minting_driver) demo_key) demo_sys
   in (\<exists>b. l ! 2 = AccessUpdated b None) \<and> Revoked ''objs'' ''p1'' None \<in> set (take 2 l)"
proof -
  let ?a = "demo_access (Some 1) ''p1''"
  let ?E = "demo_env (demo_client (Some demo_ready) (Some ?a) [] None) minting_driver"
  let ?l = "pass_log (access_Reconcile ?E demo_key) demo_sys"
  have at: "2 < length ?l" "?l ! 2 = AccessUpdated (?a\<lparr>aMeta := demo_meta ''a'' [] (Some 1)\<rparr>) None"
    by code_simp+
  have only: "set (take 2 ?l) = {BucketyRead \<lparr>nsNamespace = ''ns'', nsName = ''b''\<rparr> (Inr demo_ready), Revoked ''objs'' ''p1'' None}"
    by code_simp
  have r: "reads_access ?E demo_key demo_sys ?a" "kube_api (eKube ?E)"
    using documented.kube_api_axioms by simp_all
  from access_release_guard [OF r(2,1) log_split [OF at]] only at(2) show ?thesis
    by (auto simp: Let_def demo_access_def)
qed

text \<open>
  C9. The recorded principal. A status write of a pass either keeps the recorded principal
  and says Ready is not True, or records the principal of a grant made in the same pass
  whose data the Secret holds, with the current generation observed; and then a different
  principal recorded before was revoked first, successfully, in the same pass. So Ready=True
  is never written without the credential in the Secret, and a replaced credential is never
  forgotten while it is live.
\<close>

theorem principal_handover:
  assumes "kube_api (eKube E)" and "reads_access E req s a"
    and "pass_log (access_Reconcile E req) s = pre @ AccessStatusPatched base b r # post"
  shows "base = a \<and> aMeta b = aMeta a \<and> aSpec b = aSpec a \<and>
    (atPrincipal (aStatus b) = atPrincipal (aStatus a) \<and>
     atPrincipalRevocable (aStatus b) = atPrincipalRevocable (aStatus a) \<and>
     \<not> IsStatusConditionTrue (eKube E) (atConditions (aStatus b)) ''Ready'' \<or>
     (\<exists>bn gr res. Granted bn gr (Inr res) \<in> set pre \<and>
        atPrincipal (aStatus b) = gtPrincipal res \<and> atPrincipalRevocable (aStatus b) = gtRevocable res \<and>
        atObservedGeneration (aStatus b) = Generation (aMeta b) \<and>
        ((\<exists>sec. (SecretCreated sec None \<in> set pre \<or> SecretUpdated sec None \<in> set pre) \<and> sData sec = gtSecretData res) \<or>
         (\<exists>live k sec. SecretRead live k (Inr sec) \<in> set pre \<and> map_of (sData sec) = map_of (gtSecretData res))) \<and>
        (atPrincipal (aStatus a) \<noteq> [] \<and> atPrincipal (aStatus a) \<noteq> gtPrincipal res \<longrightarrow>
           Revoked bn (atPrincipal (aStatus a)) None \<in> set pre)))"
proof -
  from access_event [OF assms] have "base = a" "status_ok E a pre b" by simp_all
  then show ?thesis
    unfolding status_ok_def principal_recorded_def same_principal_def granted_def secret_holds_def by blast
qed

theorem principal_handover_witness:
  "let a = demo_access None ''p1'';
       l = pass_log (access_Reconcile (demo_env (demo_client (Some demo_ready) (Some a) [] None) minting_driver) demo_key) demo_sys
   in (\<exists>b. l ! 5 = AccessStatusPatched a b None \<and> atPrincipal (aStatus b) = ''p2'') \<and>
      Revoked ''objs'' ''p1'' None \<in> set (take 5 l)"
proof -
  let ?a = "demo_access None ''p1''"
  let ?E = "demo_env (demo_client (Some demo_ready) (Some ?a) [] None) minting_driver"
  let ?l = "pass_log (access_Reconcile ?E demo_key) demo_sys"
  let ?b = "?a\<lparr>aStatus := \<lparr>atObservedGeneration = 1, atPrincipal = ''p2'', atPrincipalRevocable = True,
      atConditions = [\<lparr>cType = ''Ready'', cStatus = ''True'', cReason = ''SecretMinted'', cMessage = Lit [],
        cObservedGeneration = 1, cLastTransitionTime = 100\<rparr>]\<rparr>\<rparr>"
  have at: "5 < length ?l" "?l ! 5 = AccessStatusPatched ?a ?b None"
    by code_simp+
  have only: "list_all (\<lambda>e. case e of Granted bn gr (Inr res) \<Rightarrow> bn = ''objs'' \<and> res = demo_grant | _ \<Rightarrow> True) ?l"
    by code_simp
  have r: "reads_access ?E demo_key demo_sys ?a" "kube_api (eKube ?E)"
    using documented.kube_api_axioms by simp_all
  from only have "list_all (\<lambda>e. case e of Granted bn gr (Inr res) \<Rightarrow> bn = ''objs'' \<and> res = demo_grant | _ \<Rightarrow> True) (take 5 ?l)"
    by (auto simp: list_all_iff dest: in_set_takeD)
  then have grants: "Granted bn gr (Inr res) \<in> set (take 5 ?l) \<Longrightarrow> bn = ''objs'' \<and> res = demo_grant" for bn gr res
    by (auto simp: list_all_iff)
  have p: "atPrincipal (aStatus ?a) = ''p1''" "gtPrincipal demo_grant = ''p2''"
    by (simp_all add: demo_access_def demo_grant_def)
  have "IsStatusConditionTrue (eKube ?E) (atConditions (aStatus ?b)) ''Ready''"
    by (simp add: documented_kube_def)
  with principal_handover [OF r(2,1) log_split [OF at]] obtain bn gr res where
    "Granted bn gr (Inr res) \<in> set (take 5 ?l)" and
    "atPrincipal (aStatus ?a) \<noteq> [] \<and> atPrincipal (aStatus ?a) \<noteq> gtPrincipal res \<longrightarrow>
       Revoked bn (atPrincipal (aStatus ?a)) None \<in> set (take 5 ?l)" by blast
  with grants p have "Revoked ''objs'' ''p1'' None \<in> set (take 5 ?l)" by fastforce
  moreover have "\<exists>b. ?l ! 5 = AccessStatusPatched ?a b None \<and> atPrincipal (aStatus b) = ''p2''"
    by (rule exI [of _ ?b]) (simp add: at(2))
  ultimately show ?thesis unfolding Let_def by blast
qed

end
