(* ===== verification/Backend_Watch.thy ===== *)
theory Backend_Watch
  imports Buckety_Safety Access_Safety
begin

text \<open>
  What a pass of a reconciler does to its backends, seen from the backend's side. The
  reconcilers' traces say which driver calls were made; a driver keeps a journal of its own, of the
  calls it makes of the service. The locale \<open>watched_journal\<close> relates the two: \<open>journal\<close> reads a driver's
  journal off the world, \<open>destroyed\<close> names the resources an entry destroys, and the laws are what a
  driver promises (only \<open>DeleteBuckety\<close> destroys anything, and only the resource it was asked for)
  and that the API server keeps away from it. Proved once inside it: whatever is destroyed during
  a pass was destroyed for a \<open>DeleteBuckety\<close> call of that pass.
\<close>

section \<open>Runs that keep a relation between trace and world\<close>

named_theorems tracks_rules \<open>rules of \<open>tracks\<close>\<close>

definition tracks :: "('e list \<Rightarrow> 'w \<Rightarrow> bool) \<Rightarrow> ('w, 'e, 'm, 'a) prog \<Rightarrow> bool" where
  "tracks J p \<longleftrightarrow> (\<forall>s. J (trace s) (world s) \<longrightarrow> J (trace (snd (run_state p s))) (world (snd (run_state p s))))"

lemma tracksD: "\<lbrakk>tracks J p; J (trace s) (world s)\<rbrakk> \<Longrightarrow> J (trace (snd (run_state p s))) (world (snd (run_state p s)))"
  by (simp add: tracks_def)

lemma tracks_ret [tracks_rules]: "tracks J (ret a)"
  by (simp add: tracks_def)

lemma tracks_bind [tracks_rules]: "\<lbrakk>tracks J p; \<And>a. tracks J (f a)\<rbrakk> \<Longrightarrow> tracks J (State_Monad.bind p f)"
  by (auto simp: tracks_def split: prod.splits)

lemma tracks_memory [tracks_rules]: "tracks J get_memory" "tracks J (put_memory m)"
  by (simp_all add: tracks_def get_memory_def put_memory_def)

lemma tracks_if [tracks_rules]: "\<lbrakk>b \<Longrightarrow> tracks J p; \<not> b \<Longrightarrow> tracks J q\<rbrakk> \<Longrightarrow> tracks J (if b then p else q)"
  by simp

lemma tracks_option [tracks_rules]:
  "\<lbrakk>x = None \<Longrightarrow> tracks J p; \<And>y. x = Some y \<Longrightarrow> tracks J (q y)\<rbrakk> \<Longrightarrow> tracks J (case x of None \<Rightarrow> p | Some y \<Rightarrow> q y)"
  by (cases x) auto

lemma tracks_sum [tracks_rules]:
  "\<lbrakk>\<And>e. x = Inl e \<Longrightarrow> tracks J (p e); \<And>y. x = Inr y \<Longrightarrow> tracks J (q y)\<rbrakk> \<Longrightarrow> tracks J (case x of Inl e \<Rightarrow> p e | Inr y \<Rightarrow> q y)"
  by (cases x) auto

lemma tracks_prod [tracks_rules]: "(\<And>a b. x = (a, b) \<Longrightarrow> tracks J (p a b)) \<Longrightarrow> tracks J (case x of (a, b) \<Rightarrow> p a b)"
  by (cases x) auto

lemma tracks_list [tracks_rules]:
  "\<lbrakk>x = [] \<Longrightarrow> tracks J p; \<And>y ys. x = y # ys \<Longrightarrow> tracks J (q y ys)\<rbrakk> \<Longrightarrow> tracks J (case x of [] \<Rightarrow> p | y # ys \<Rightarrow> q y ys)"
  by (cases x) auto

lemma tracks_let [tracks_rules]: "(\<And>y. y = x \<Longrightarrow> tracks J (p y)) \<Longrightarrow> tracks J (let y = x in p y)"
  by simp

lemma tracks_each: "(\<And>x. x \<in> set xs \<Longrightarrow> tracks J (f x)) \<Longrightarrow> tracks J (each f xs)"
proof (induction xs)
  case (Cons x xs)
  then show ?case unfolding each.simps by (intro tracks_rules) auto
qed (simp add: tracks_ret)

lemma tracks_ext: "(\<And>h w. J h w \<Longrightarrow> J h (snd (f w))) \<Longrightarrow> tracks J (ext f)"
  by (auto simp: tracks_def ext_def split: prod.splits) (metis snd_conv)

lemma tracks_emit: "(\<And>h w. J h w \<Longrightarrow> J (h @ [e]) w) \<Longrightarrow> tracks J (emit e)"
  by (simp add: tracks_def emit_def)

lemma tracks_call: "(\<And>h w. J h w \<Longrightarrow> J (h @ [ev (fst (f w))]) (snd (f w))) \<Longrightarrow> tracks J (call f ev)"
  by (auto simp: tracks_def call_def ext_def emit_def split: prod.splits) (metis fst_conv snd_conv)


section \<open>Calls that keep away from a journal\<close>

text \<open>A call that adds to the journal, and of the resources only destroys those of \<open>N\<close>.\<close>

definition destroys_at_most :: "string set \<Rightarrow> ('w \<Rightarrow> 'v list) \<Rightarrow> ('v \<Rightarrow> string set) \<Rightarrow> ('w \<Rightarrow> 'a \<times> 'w) \<Rightarrow> bool" where
  "destroys_at_most N journal destroyed f \<longleftrightarrow> (\<forall>w. \<exists>l. journal (snd (f w)) = journal w @ l \<and> (\<forall>e \<in> set l. destroyed e \<subseteq> N))"

definition apart :: "('w \<Rightarrow> 'v) \<Rightarrow> ('w \<Rightarrow> 'a \<times> 'w) \<Rightarrow> bool" where
  "apart journal f \<longleftrightarrow> (\<forall>w. journal (snd (f w)) = journal w)"

lemma apart_destroys: "apart journal f \<Longrightarrow> destroys_at_most N journal destroyed f"
  by (simp add: apart_def destroys_at_most_def)

definition reads_apart :: "('w \<Rightarrow> 'v) \<Rightarrow> 'w reader \<Rightarrow> bool" where
  "reads_apart journal r \<longleftrightarrow> (\<forall>k. apart journal (rdGetBuckety r k) \<and> apart journal (rdGetAccess r k) \<and> apart journal (rdGetSecret r k)) \<and>
     (\<forall>ns. apart journal (rdListAccesses r ns))"

definition writes_apart :: "('w \<Rightarrow> 'v) \<Rightarrow> 'w client \<Rightarrow> bool" where
  "writes_apart journal c \<longleftrightarrow>
     (\<forall>x y. apart journal (clPatchBuckety c x y) \<and> apart journal (clUpdateBuckety c x) \<and> apart journal (clStatusUpdateBuckety c x) \<and>
        apart journal (clStatusPatchBuckety c x y)) \<and>
     (\<forall>x y. apart journal (clCreateAccess c x) \<and> apart journal (clDeleteAccess c x) \<and> apart journal (clUpdateAccess c x) \<and>
        apart journal (clPatchAccess c x y) \<and> apart journal (clStatusPatchAccess c x y)) \<and>
     (\<forall>x. apart journal (clCreateSecret c x) \<and> apart journal (clUpdateSecret c x))"

definition outside_apart :: "('w \<Rightarrow> 'v) \<Rightarrow> 'w env \<Rightarrow> bool" where
  "outside_apart journal E \<longleftrightarrow> reads_apart journal (reader.truncate (eClient E)) \<and> reads_apart journal (liveReader E) \<and>
     writes_apart journal (eClient E) \<and> apart journal (eNow E) \<and> apart journal (eRandFloat E) \<and> (\<forall>n. apart journal (eRandInt E n))"

section \<open>The outside world\<close>

text \<open>
  A view of the world that the API server, the clock and the random source leave alone, and a
  relation between trace and world that depends on the world through the view only.
\<close>

locale tracked_outside =
  fixes E :: "'w env" and view :: "'w \<Rightarrow> 'v" and J :: "event list \<Rightarrow> 'w \<Rightarrow> bool"
  assumes outside: "outside_apart view E"
    and same_view: "\<lbrakk>J h w; view w' = view w\<rbrakk> \<Longrightarrow> J h w'"
    and longer: "J h w \<Longrightarrow> J (h @ [e]) w"
begin

lemma event_kept [tracks_rules]: "tracks J (emit e)"
  by (rule tracks_emit) (rule longer)

lemma outside_ext: "apart view f \<Longrightarrow> tracks J (ext f)"
  by (rule tracks_ext) (auto simp: apart_def elim: same_view)

lemma outside_call: "apart view f \<Longrightarrow> tracks J (call f ev)"
  unfolding call_def by (intro tracks_rules outside_ext)

lemma outsideD:
  shows reads: "reads_apart view (reader.truncate (eClient E))" and live: "reads_apart view (liveReader E)"
    and client: "writes_apart view (eClient E)"
  using outside by (simp_all add: outside_apart_def)

lemmas api_apart = reads [unfolded reads_apart_def] live [unfolded reads_apart_def] client [unfolded writes_apart_def]

lemma api_calls [tracks_rules]:
  "tracks J (call (rdGetBuckety (reader.truncate (eClient E)) key) evb)"
  "tracks J (call (rdListAccesses (reader.truncate (eClient E)) ns) evl)"
  "tracks J (call (rdListAccesses (liveReader E) ns) evl)"
  "tracks J (call (rdGetSecret (liveReader E) key) evs)"
  "tracks J (call (clPatchBuckety (eClient E) b b') ev1)"
  "tracks J (call (clUpdateBuckety (eClient E) b) ev1)"
  "tracks J (call (clStatusUpdateBuckety (eClient E) b) ev1)"
  "tracks J (call (clStatusPatchBuckety (eClient E) b b') ev1)"
  "tracks J (call (clCreateAccess (eClient E) a) ev2)"
  "tracks J (call (clDeleteAccess (eClient E) a) ev3)"
  "tracks J (call (clUpdateAccess (eClient E) a) ev2)"
  "tracks J (call (clPatchAccess (eClient E) a a') ev2)"
  "tracks J (call (clStatusPatchAccess (eClient E) a a') ev2)"
  "tracks J (call (clCreateSecret (eClient E) s) ev4)"
  "tracks J (call (clUpdateSecret (eClient E) s) ev4)"
  by (rule outside_call, use api_apart in blast)+

lemma api_reads [tracks_rules]:
  "tracks J (ext (rdGetBuckety (reader.truncate (eClient E)) key))"
  "tracks J (ext (rdGetAccess (reader.truncate (eClient E)) key))"
  by (rule outside_ext, use api_apart in blast)+

lemma clock_reads [tracks_rules]:
  "tracks J (ext (eNow E))" "tracks J (ext (eRandFloat E))"
  "tracks J (ext (eRandInt E n))"
  by (rule outside_ext, use outside in \<open>simp add: outside_apart_def\<close>)+

lemma helpers_kept [tracks_rules]:
  "tracks J (status_Event E obj base typ st reason evType evReason msg)"
  "tracks J (record_Event E obj evType reason msg)"
  "tracks J (now E)" "tracks J (cadence_Recheck E)"
  "tracks J (startup_Defer E key ready)" "tracks J (startup_Forget key)"
  unfolding status_Event_def record_Event_def now_def cadence_Recheck_def startup_Defer_def startup_Forget_def
  by (intro tracks_rules)+

lemma set_cond_kept [tracks_rules]: "tracks J (set_cond E b typ st reason msg)"
  unfolding set_cond_def by (intro tracks_rules)

lemma surface_kept [tracks_rules]: "tracks J (surface E b base typ st reason msg evType)"
  unfolding surface_def by (intro tracks_rules)

lemma patchStatus_kept [tracks_rules]: "tracks J (patchStatus E b base)"
  unfolding patchStatus_def by (intro tracks_rules)

lemma report_kept [tracks_rules]:
  "tracks J (surfaceCondition E b base typ st reason msg)"
  "tracks J (surfaceBackendUnavailable E b base reason msg)"
  "tracks J (surface_bad_parameters E b base reason e)"
  "tracks J (refuse_adoption E b base be n)"
  "tracks J (recordDrift E b)"
  "tracks J (remove_finalizer_and_update E b)"
  unfolding surfaceCondition_def surfaceBackendUnavailable_def surface_bad_parameters_def refuse_adoption_def
    recordDrift_def forgetDrift_def remove_finalizer_and_update_def
  by (intro tracks_rules)+

lemma implicit_kept [tracks_rules]:
  "tracks J (revoke_implicit E b base a)" "tracks J (reconcileImplicitAccess E b)"
  unfolding revoke_implicit_def reconcileImplicitAccess_def by (intro tracks_rules)+

lemma access_helpers_kept [tracks_rules]:
  "tracks J (set_acond E a typ st reason msg)"
  "tracks J (surface_access E a base typ st reason msg evType)"
  "tracks J (patchStatus_access E a base)"
  "tracks J (writeSecret E a old data)"
  "tracks J (release_access E a)"
  unfolding set_acond_def surface_access_def patchStatus_access_def writeSecret_def release_access_def
  by (intro tracks_rules)+

lemma access_ends_kept [tracks_rules]:
  "tracks J (surface_end E a reason msg)" "tracks J (surface_fail E a reason e)"
  unfolding surface_end_def surface_fail_def by (intro tracks_rules)+

end


section \<open>A driver's journal\<close>

text \<open>
  The journal grew from \<open>L0\<close> to \<open>L\<close> while the trace grew from \<open>h0\<close> to \<open>h\<close>, and whatever was destroyed
  was destroyed for a \<open>DeleteBuckety\<close> call of a backend of \<open>B\<close> that asked for it.
\<close>

definition explained :: "'w Backend set \<Rightarrow> ('v \<Rightarrow> string set) \<Rightarrow> event list \<Rightarrow> 'v list \<Rightarrow> event list \<Rightarrow> 'v list \<Rightarrow> bool" where
  "explained B destroyed h0 L0 h L \<longleftrightarrow> (\<exists>k l. h = h0 @ k \<and> L = L0 @ l \<and>
     (\<forall>e \<in> set l. \<forall>n \<in> destroyed e. \<exists>be \<in> B. \<exists>dr r. Deleted (beName be) dr r \<in> set k \<and> drName dr = n))"

lemma explained_start: "explained B destroyed h L h L"
  by (auto simp: explained_def)

lemma explained_more:
  assumes "explained B destroyed h0 L0 h L" and "L' = L @ l"
    and "\<And>e n. \<lbrakk>e \<in> set l; n \<in> destroyed e\<rbrakk> \<Longrightarrow> \<exists>be \<in> B. \<exists>dr r. Deleted (beName be) dr r \<in> set k \<and> drName dr = n"
  shows "explained B destroyed h0 L0 (h @ k) L'"
proof -
  from assms(1) obtain k0 l0 where "h = h0 @ k0" "L = L0 @ l0"
    "\<forall>e \<in> set l0. \<forall>n \<in> destroyed e. \<exists>be \<in> B. \<exists>dr r. Deleted (beName be) dr r \<in> set k0 \<and> drName dr = n"
    by (auto simp: explained_def)
  with assms(2,3) show ?thesis
    unfolding explained_def by (intro exI [of _ "k0 @ k"] exI [of _ "l0 @ l"]) fastforce
qed

locale watched_journal =
  fixes E :: "'w env" and journal :: "'w \<Rightarrow> 'v list" and destroyed :: "'v \<Rightarrow> string set" and kind :: string
  assumes outside: "outside_apart journal E"
    and inspect: "be \<in> snd ` set (eConfig E) \<Longrightarrow> destroys_at_most {} journal destroyed (dInspectBuckety (beDriver be) n)"
    and ensure: "be \<in> snd ` set (eConfig E) \<Longrightarrow> destroys_at_most {} journal destroyed (dEnsureBuckety (beDriver be) er)"
    and delete: "be \<in> snd ` set (eConfig E) \<Longrightarrow>
      destroys_at_most (if dName (beDriver be) = kind then {drName dr} else {}) journal destroyed (dDeleteBuckety (beDriver be) dr)"
    and grant: "be \<in> snd ` set (eConfig E) \<Longrightarrow> destroys_at_most {} journal destroyed (dGrantAccess (beDriver be) gr)"
    and revoke: "be \<in> snd ` set (eConfig E) \<Longrightarrow> destroys_at_most {} journal destroyed (dRevokeAccess (beDriver be) p)"
    and forget: "be \<in> snd ` set (eConfig E) \<Longrightarrow> destroys_at_most {} journal destroyed (ForgetBuckety (beDriver be) ns n)"
begin

abbreviation traced :: "'w Backend set \<Rightarrow> event list \<Rightarrow> 'v list \<Rightarrow> event list \<Rightarrow> 'w \<Rightarrow> bool" where
  "traced B h0 L0 h w \<equiv> explained B destroyed h0 L0 h (journal w)"

text \<open>Driver calls that destroy nothing.\<close>

lemma spares_ext: "destroys_at_most {} journal destroyed f \<Longrightarrow> tracks (traced B h0 L0) (ext f)"
proof (rule tracks_ext)
  fix h w assume d: "destroys_at_most {} journal destroyed f" and x: "traced B h0 L0 h w"
  from d obtain l where l: "journal (snd (f w)) = journal w @ l" "\<forall>e \<in> set l. destroyed e = {}"
    unfolding destroys_at_most_def by blast
  show "traced B h0 L0 h (snd (f w))"
    using explained_more [OF x l(1), of "[]"] l(2) by auto
qed

lemma spares_call: "destroys_at_most {} journal destroyed f \<Longrightarrow> tracks (traced B h0 L0) (call f ev)"
  unfolding call_def by (intro tracks_bind tracks_ret tracks_emit spares_ext) (auto intro: explained_more [where l = "[]"])

lemma driver_calls [tracks_rules]:
  assumes "be \<in> snd ` set (eConfig E)"
  shows "tracks (traced B h0 L0) (call (dInspectBuckety (beDriver be) n) ev1)"
    "tracks (traced B h0 L0) (call (dEnsureBuckety (beDriver be) er) ev2)"
    "tracks (traced B h0 L0) (call (dGrantAccess (beDriver be) gr) ev3)"
    "tracks (traced B h0 L0) (call (dRevokeAccess (beDriver be) p) ev4)"
    "tracks (traced B h0 L0) (ext (ForgetBuckety (beDriver be) ns n))"
  by (intro spares_call spares_ext inspect ensure grant revoke forget assms)+

lemma delete_call:
  assumes "be \<in> snd ` set (eConfig E)" and "dName (beDriver be) = kind \<Longrightarrow> be \<in> B"
  shows "tracks (traced B h0 L0) (call (dDeleteBuckety (beDriver be) dr) (Deleted (beName be) dr))"
proof (rule tracks_call)
  fix h w assume x: "traced B h0 L0 h w"
  let ?r = "dDeleteBuckety (beDriver be) dr w"
  from delete [OF assms(1), of dr] obtain l where l: "journal (snd ?r) = journal w @ l"
    "\<forall>e \<in> set l. destroyed e \<subseteq> (if dName (beDriver be) = kind then {drName dr} else {})"
    unfolding destroys_at_most_def by blast
  show "traced B h0 L0 (h @ [Deleted (beName be) dr (fst ?r)]) (snd ?r)"
    by (rule explained_more [OF x l(1)]) (use l(2) assms(2) in \<open>force split: if_splits\<close>)
qed

end

sublocale watched_journal \<subseteq> out: tracked_outside E journal "traced B h0 L0" for B h0 L0
  by unfold_locales (auto intro: outside explained_more [where l = "[]"])


section \<open>The passes\<close>

lemma resolved_configured: "resolve_backend E bky = Inr be \<Longrightarrow> be \<in> snd ` set (eConfig E)"
  by (force simp: resolve_backend_Inr Lookup_def dest: map_of_SomeD)

context watched_journal
begin

lemma delete_traced:
  assumes "be \<in> snd ` set (eConfig E)" and "dName (beDriver be) = kind \<Longrightarrow> be \<in> B"
  shows "tracks (traced B h0 L0) (delete_backend_resource E b base be)"
  unfolding delete_backend_resource_def by (intro tracks_rules delete_call assms)

lemma reconcileDelete_traced:
  assumes "\<And>be. avail = Inr be \<Longrightarrow> be \<in> snd ` set (eConfig E) \<and> (dName (beDriver be) = kind \<longrightarrow> be \<in> B)"
  shows "tracks (traced B h0 L0) (reconcileDelete E b avail)"
  unfolding reconcileDelete_def reconcile_teardown_def
  by (intro tracks_rules delete_traced) (use assms in auto)

lemma ensure_traced:
  assumes "be \<in> snd ` set (eConfig E)"
  shows "tracks (traced B h0 L0) (ensure_backend E b base be ps)"
  unfolding ensure_backend_def finish_pass_def reportChange_def
  by (intro tracks_rules tracks_each assms)

lemma stamped_traced:
  assumes "be \<in> snd ` set (eConfig E)"
  shows "tracks (traced B h0 L0) (reconcile_stamped E b base be)"
  unfolding reconcile_stamped_def by (intro tracks_rules ensure_traced assms)

lemma body_traced: "tracks (traced {be. resolve_backend E bky = Inr be \<and> dName (beDriver be) = kind} h0 L0) (reconcile_body E req bky)"
  unfolding reconcile_body_def stamp_sticky_def
  by (intro tracks_rules reconcileDelete_traced stamped_traced) (auto dest: resolved_configured [OF sym])

text \<open>A pass over a Buckety: whatever was destroyed, the pass asked for.\<close>

lemma Reconcile_explained:
  assumes "reads_buckety E req s bky"
  shows "\<exists>l. journal (world (snd (run_state (Reconcile E req) s))) = journal (world s) @ l \<and>
    (\<forall>e \<in> set l. \<forall>n \<in> destroyed e. \<exists>be dr r. resolve_backend E bky = Inr be \<and> dName (beDriver be) = kind \<and>
       Deleted (beName be) dr r \<in> set (pass_log (Reconcile E req) s) \<and> drName dr = n)"
proof -
  let ?B = "{be. resolve_backend E bky = Inr be \<and> dName (beDriver be) = kind}"
  obtain g w where g: "rdGetBuckety (reader.truncate (eClient E)) req (world s) = (g, w)" by fastforce
  with assms have g': "g = Inr bky" by simp
  have w: "journal w = journal (world s)"
    using out.reads g unfolding reads_apart_def apart_def by (metis snd_conv)
  let ?p = "do { (out, b) \<leftarrow> reconcile_body E req bky; recordDrift E b; ret out }"
  have r: "run_state (Reconcile E req) s = run_state ?p (s\<lparr>world := w\<rparr>)"
    by (simp add: Reconcile_def ext_def g g')
  have t: "tracks (traced ?B (trace s) (journal (world s))) ?p"
    by (intro tracks_rules body_traced)
  have "traced ?B (trace s) (journal (world s)) (trace (snd (run_state ?p (s\<lparr>world := w\<rparr>)))) (world (snd (run_state ?p (s\<lparr>world := w\<rparr>))))"
    by (rule tracksD [OF t]) (simp add: w explained_start)
  then show ?thesis
    unfolding explained_def pass_log_def r by fastforce
qed

lemma access_grant_traced:
  assumes "be \<in> snd ` set (eConfig E)"
  shows "tracks (traced B h0 L0) (access_grant E req a bky be ps)"
  unfolding access_grant_def grant_stage_def access_write_def access_finish_def by (intro tracks_rules assms)

lemma access_Reconcile_traced: "tracks (traced B h0 L0) (access_Reconcile E req)"
proof -
  have c: "be \<in> snd ` set (eConfig E)" if "Lookup (eConfig E) n = Some be" for n be
    using that by (force simp: Lookup_def dest: map_of_SomeD)
  show ?thesis
    unfolding access_Reconcile_def access_body_def access_deletion_def
    by (intro tracks_rules access_grant_traced) (auto dest: c)
qed

text \<open>A pass over an access destroys nothing.\<close>

lemma access_Reconcile_explained:
  "\<exists>l. journal (world (snd (run_state (access_Reconcile E req) s))) = journal (world s) @ l \<and> (\<forall>e \<in> set l. destroyed e = {})"
  using tracksD [OF access_Reconcile_traced [of "{}" "trace s" "journal (world s)"] explained_start] unfolding explained_def by blast

text \<open>Nor does a pass over a Buckety that is gone or cannot be read.\<close>

lemma absent_explained:
  assumes "\<nexists>bky. reads_buckety E req s bky"
  shows "\<exists>l. journal (world (snd (run_state (Reconcile E req) s))) = journal (world s) @ l \<and> (\<forall>e \<in> set l. destroyed e = {})"
proof -
  obtain g w where g: "rdGetBuckety (reader.truncate (eClient E)) req (world s) = (g, w)" by fastforce
  from assms g obtain e where e: "g = Inl e" by (cases g) auto
  have w: "journal w = journal (world s)"
    using out.reads g unfolding reads_apart_def apart_def by (metis snd_conv)
  let ?p = "if IsNotFound e then do { forgetDrift (nsNamespace req) (nsName req); startup_Forget req; forget_backends E req; ret (0, None) }
     else (ret (0, Some e) :: ('w, outcome) ctrl)"
  have r: "run_state (Reconcile E req) s = run_state ?p (s\<lparr>world := w\<rparr>)"
    by (simp add: Reconcile_def ext_def g e)
  have t: "tracks (traced {} (trace s) (journal (world s))) ?p"
    unfolding forgetDrift_def forget_backends_def by (intro tracks_rules tracks_each) force+
  have "traced {} (trace s) (journal (world s)) (trace (snd (run_state ?p (s\<lparr>world := w\<rparr>)))) (world (snd (run_state ?p (s\<lparr>world := w\<rparr>))))"
    by (rule tracksD [OF t]) (simp add: w explained_start)
  then show ?thesis unfolding explained_def r by blast
qed

end

end
