(* ===== verification/Kadm_Effective.thy ===== *)
theory Kadm_Effective
  imports Driver_Registry
begin

text \<open>
  \<open>pkg/drivers/kadm/effective.go\<close> and \<open>metrics.go\<close>: the effective topic configuration the kadm
  driver exports as Prometheus series, and the record it keeps of them. A vector of series is
  a partial function from label values, in the order of the label names, to the value;
  \<open>DeletePartialMatch\<close> on the leading labels deletes by prefix. Float parsing
  (\<open>strconv.ParseFloat\<close>) is a parameter: any partial function from strings.

  The state is what one \<open>sync.Mutex\<close> guards, so operations on it do not interleave. The claim:
  the exported series are at all times exactly the recorded ones, so none is left behind when
  a value's source, a topic or a Buckety goes away, save for a policy series without a policy.
\<close>

section \<open>State\<close>

datatype ConfigSource = DynamicTopicConfig | DynamicBrokerConfig | DynamicDefaultBrokerConfig
  | StaticBrokerConfig | DefaultConfig | OtherConfigSource int

definition sourceLabel :: "ConfigSource \<Rightarrow> string" where
  "sourceLabel s =
     (case s of DynamicTopicConfig \<Rightarrow> ''topic''
      | DynamicBrokerConfig \<Rightarrow> ''broker'' | DynamicDefaultBrokerConfig \<Rightarrow> ''broker'' | StaticBrokerConfig \<Rightarrow> ''broker''
      | DefaultConfig \<Rightarrow> ''default'' | OtherConfigSource _ \<Rightarrow> ''unknown'')"

definition effectiveKeys :: "string list" where
  "effectiveKeys = [''retention.ms'', ''retention.bytes'', ''delete.retention.ms'', ''min.compaction.lag.ms'',
     ''max.compaction.lag.ms'', ''min.cleanable.dirty.ratio'', ''segment.ms'', ''segment.bytes'',
     ''max.message.bytes'', ''min.insync.replicas'']"

definition cleanupPolicyKey :: string where
  "cleanupPolicyKey = ''cleanup.policy''"

definition isEffectiveKey :: "string \<Rightarrow> bool" where
  "isEffectiveKey key = list_ex (\<lambda>k. k = key) effectiveKeys"

text \<open>What the driver reads of a topic; \<open>topicView\<close> of \<open>driver.go\<close>.\<close>

record topicView =
  tvPartitions :: int
  tvRf :: int
  tvConfigs :: smap
  tvSources :: "(string \<times> ConfigSource) list"

type_synonym bucketyID = "string \<times> string"

record exported =
  exTopic :: string
  exSource :: "string \<rightharpoonup> string"
  exPolicy :: string
  exPolicySource :: string

type_synonym labels = "string list"

record 'f export =
  byBuckety :: "bucketyID \<rightharpoonup> exported"
  topicConfig :: "labels \<rightharpoonup> 'f"
  topicCleanupPolicy :: "labels \<rightharpoonup> int"
  partitionsAdded :: "labels \<rightharpoonup> int"
  configChanges :: "labels \<rightharpoonup> int"

definition DeletePartialMatch :: "labels \<Rightarrow> (labels \<rightharpoonup> 'v) \<Rightarrow> labels \<rightharpoonup> 'v" where
  "DeletePartialMatch p g = (\<lambda>ls. if take (length p) ls = p then None else g ls)"

text \<open>\<open>WithLabelValues(ls)\<close> exports a counter at zero when it is new; \<open>Add\<close> increases it.\<close>

definition counter_touch :: "labels \<Rightarrow> (labels \<rightharpoonup> int) \<Rightarrow> labels \<rightharpoonup> int" where
  "counter_touch ls g = (case g ls of None \<Rightarrow> g(ls \<mapsto> 0) | Some _ \<Rightarrow> g)"

definition counter_add :: "labels \<Rightarrow> int \<Rightarrow> (labels \<rightharpoonup> int) \<Rightarrow> labels \<rightharpoonup> int" where
  "counter_add ls n g = (let g' = counter_touch ls g in g'(ls := map_option (\<lambda>v. v + n) (g' ls)))"


section \<open>Operations\<close>

definition new_exported :: "string \<Rightarrow> exported" where
  "new_exported topic = \<lparr>exTopic = topic, exSource = Map.empty, exPolicy = [], exPolicySource = []\<rparr>"

text \<open>
  \<open>entry\<close> hands out a pointer into the map; the callers below thread the record \<open>e\<close> and the
  vectors, and store \<open>e\<close> back at the end.
\<close>

definition export_entry :: "string \<Rightarrow> string \<Rightarrow> string \<Rightarrow> 'f export \<Rightarrow> exported \<times> 'f export" where
  "export_entry namespace buckety topic X =
     (case byBuckety X (namespace, buckety) of
        None \<Rightarrow> (new_exported topic, X\<lparr>byBuckety := (byBuckety X)((namespace, buckety) \<mapsto> new_exported topic)\<rparr>)
      | Some e \<Rightarrow>
          if exTopic e \<noteq> topic then
            (new_exported topic,
             X\<lparr>topicConfig := DeletePartialMatch [namespace, buckety, exTopic e] (topicConfig X),
               topicCleanupPolicy := DeletePartialMatch [namespace, buckety, exTopic e] (topicCleanupPolicy X),
               byBuckety := (byBuckety X)((namespace, buckety) \<mapsto> new_exported topic)\<rparr>)
          else (e, X))"

definition setConfig :: "string \<Rightarrow> string \<Rightarrow> string \<Rightarrow> 'f \<Rightarrow> string \<Rightarrow> exported \<times> 'f export \<Rightarrow> exported \<times> 'f export" where
  "setConfig namespace buckety key v source = (\<lambda>(e, X).
     let g = (case exSource e key of
                Some old \<Rightarrow> if old \<noteq> source then (topicConfig X)([namespace, buckety, exTopic e, key, old] := None) else topicConfig X
              | None \<Rightarrow> topicConfig X)
     in (e\<lparr>exSource := (exSource e)(key \<mapsto> source)\<rparr>,
         X\<lparr>topicConfig := g([namespace, buckety, exTopic e, key, source] \<mapsto> v)\<rparr>))"

definition setPolicy :: "string \<Rightarrow> string \<Rightarrow> string \<Rightarrow> string \<Rightarrow> exported \<times> 'f export \<Rightarrow> exported \<times> 'f export" where
  "setPolicy namespace buckety policy source = (\<lambda>(e, X).
     let g = (if exPolicy e \<noteq> [] \<and> (exPolicy e \<noteq> policy \<or> exPolicySource e \<noteq> source)
              then (topicCleanupPolicy X)([namespace, buckety, exTopic e, exPolicy e, exPolicySource e] := None)
              else topicCleanupPolicy X)
     in (e\<lparr>exPolicy := policy, exPolicySource := source\<rparr>,
         X\<lparr>topicCleanupPolicy := g([namespace, buckety, exTopic e, policy, source] \<mapsto> 1)\<rparr>))"

text \<open>One round of the loop over \<open>effectiveKeys\<close>: a missing or non-numeric value has no series.\<close>

definition record_key ::
  "(string \<Rightarrow> 'f option) \<Rightarrow> string \<Rightarrow> string \<Rightarrow> string \<Rightarrow> topicView \<Rightarrow> string \<Rightarrow> exported \<times> 'f export \<Rightarrow> exported \<times> 'f export" where
  "record_key parseFloat namespace buckety topic view k = (\<lambda>(e, X).
     case (case map_of (tvConfigs view) k of Some v \<Rightarrow> parseFloat v | None \<Rightarrow> None) of
       None \<Rightarrow>
         (case exSource e k of
            Some src \<Rightarrow> (e\<lparr>exSource := (exSource e)(k := None)\<rparr>,
                         X\<lparr>topicConfig := (topicConfig X)([namespace, buckety, topic, k, src] := None)\<rparr>)
          | None \<Rightarrow> (e, X))
     | Some f \<Rightarrow>
         setConfig namespace buckety k f
           (sourceLabel (case map_of (tvSources view) k of Some s \<Rightarrow> s | None \<Rightarrow> OtherConfigSource 0)) (e, X))"

definition record_policy :: "string \<Rightarrow> string \<Rightarrow> string \<Rightarrow> topicView \<Rightarrow> exported \<times> 'f export \<Rightarrow> exported \<times> 'f export" where
  "record_policy namespace buckety topic view = (\<lambda>(e, X).
     case map_of (tvConfigs view) cleanupPolicyKey of
       Some p \<Rightarrow> setPolicy namespace buckety p
         (sourceLabel (case map_of (tvSources view) cleanupPolicyKey of Some s \<Rightarrow> s | None \<Rightarrow> OtherConfigSource 0)) (e, X)
     | None \<Rightarrow>
         if exPolicy e \<noteq> [] then
           (e\<lparr>exPolicy := [], exPolicySource := []\<rparr>,
            X\<lparr>topicCleanupPolicy := (topicCleanupPolicy X)([namespace, buckety, topic, exPolicy e, exPolicySource e] := None)\<rparr>)
         else (e, X))"

definition store_entry :: "string \<Rightarrow> string \<Rightarrow> exported \<times> 'f export \<Rightarrow> 'f export" where
  "store_entry namespace buckety = (\<lambda>(e, X). X\<lparr>byBuckety := (byBuckety X)((namespace, buckety) \<mapsto> e)\<rparr>)"

definition recordEffective ::
  "(string \<Rightarrow> 'f option) \<Rightarrow> string \<Rightarrow> string \<Rightarrow> string \<Rightarrow> topicView \<Rightarrow> 'f export \<Rightarrow> 'f export" where
  "recordEffective parseFloat namespace buckety topic view X =
     store_entry namespace buckety (record_policy namespace buckety topic view
       (fold (record_key parseFloat namespace buckety topic view) effectiveKeys
          (export_entry namespace buckety topic X)))"

text \<open>An alter is a config key and its new value; \<open>kadm.SetConfig\<close> alters never carry a nil value here.\<close>

definition record_alter ::
  "(string \<Rightarrow> 'f option) \<Rightarrow> string \<Rightarrow> string \<Rightarrow> string \<times> string \<Rightarrow> exported \<times> 'f export \<Rightarrow> exported \<times> 'f export" where
  "record_alter parseFloat namespace buckety = (\<lambda>(name, v) eX.
     if name = cleanupPolicyKey then setPolicy namespace buckety v ''topic'' eX
     else (case parseFloat v of
             Some f \<Rightarrow> if isEffectiveKey name then setConfig namespace buckety name f ''topic'' eX else eX
           | None \<Rightarrow> eX))"

definition recordAltered ::
  "(string \<Rightarrow> 'f option) \<Rightarrow> string \<Rightarrow> string \<Rightarrow> string \<Rightarrow> (string \<times> string) list \<Rightarrow> 'f export \<Rightarrow> 'f export" where
  "recordAltered parseFloat namespace buckety topic alters X =
     store_entry namespace buckety
       (fold (record_alter parseFloat namespace buckety) alters (export_entry namespace buckety topic X))"

definition kadm_ForgetBuckety :: "string \<Rightarrow> string \<Rightarrow> 'f export \<Rightarrow> 'f export" where
  "kadm_ForgetBuckety namespace name X =
     X\<lparr>topicConfig := DeletePartialMatch [namespace, name] (topicConfig X),
       topicCleanupPolicy := DeletePartialMatch [namespace, name] (topicCleanupPolicy X),
       configChanges := DeletePartialMatch [namespace, name] (configChanges X),
       partitionsAdded := DeletePartialMatch [namespace, name] (partitionsAdded X),
       byBuckety := (byBuckety X)((namespace, name) := None)\<rparr>"

definition empty_export :: "'f export" where
  "empty_export = \<lparr>byBuckety = Map.empty, topicConfig = Map.empty, topicCleanupPolicy = Map.empty,
     partitionsAdded = Map.empty, configChanges = Map.empty\<rparr>"


section \<open>Series and records agree\<close>

text \<open>The config series of one Buckety are exactly those its record \<open>e\<close> names.\<close>

fun names_series :: "string \<Rightarrow> string \<Rightarrow> exported \<Rightarrow> labels \<Rightarrow> bool" where
  "names_series ns b e [n, b', t, k, src] \<longleftrightarrow> n = ns \<and> b' = b \<and> t = exTopic e \<and> exSource e k = Some src"
| "names_series ns b e _ \<longleftrightarrow> False"

definition owned :: "string \<Rightarrow> string \<Rightarrow> exported \<Rightarrow> (labels \<rightharpoonup> 'f) \<Rightarrow> bool" where
  "owned ns b e g \<longleftrightarrow> (\<forall>ls. take 2 ls = [ns, b] \<longrightarrow>
     (g ls \<noteq> None \<longleftrightarrow> names_series ns b e ls))"

text \<open>
  A series without a policy in its label: the record cannot name it, since an empty string there means
  that no policy is exported.
\<close>

definition unnamed :: "labels \<Rightarrow> bool" where
  "unnamed ls \<longleftrightarrow> (\<exists>n b t src. ls = [n, b, t, [], src])"

definition policy_owned :: "string \<Rightarrow> string \<Rightarrow> exported \<Rightarrow> (labels \<rightharpoonup> int) \<Rightarrow> bool" where
  "policy_owned ns b e g \<longleftrightarrow> (\<forall>ls. take 2 ls = [ns, b] \<and> \<not> unnamed ls \<longrightarrow>
     (g ls \<noteq> None \<longleftrightarrow> exPolicy e \<noteq> [] \<and> ls = [ns, b, exTopic e, exPolicy e, exPolicySource e]))"

definition unowned :: "string \<Rightarrow> string \<Rightarrow> (labels \<rightharpoonup> 'v) \<Rightarrow> bool" where
  "unowned ns b g \<longleftrightarrow> (\<forall>ls. take 2 ls = [ns, b] \<longrightarrow> g ls = None)"

definition policy_unowned :: "string \<Rightarrow> string \<Rightarrow> (labels \<rightharpoonup> int) \<Rightarrow> bool" where
  "policy_unowned ns b g \<longleftrightarrow> (\<forall>ls. take 2 ls = [ns, b] \<and> \<not> unnamed ls \<longrightarrow> g ls = None)"

definition tracked :: "'f export \<Rightarrow> bool" where
  "tracked X \<longleftrightarrow> (\<forall>ns b. case byBuckety X (ns, b) of
      Some e \<Rightarrow> owned ns b e (topicConfig X) \<and> policy_owned ns b e (topicCleanupPolicy X)
    | None \<Rightarrow> unowned ns b (topicConfig X) \<and> policy_unowned ns b (topicCleanupPolicy X))"

text \<open>While a record is worked on, it owns its series and every other Buckety's are untouched.\<close>

definition working :: "string \<Rightarrow> string \<Rightarrow> string \<Rightarrow> 'f export \<Rightarrow> exported \<times> 'f export \<Rightarrow> bool" where
  "working ns b topic X = (\<lambda>(e, Y). exTopic e = topic \<and> owned ns b e (topicConfig Y) \<and>
     policy_owned ns b e (topicCleanupPolicy Y) \<and>
     (\<forall>id. id \<noteq> (ns, b) \<longrightarrow> byBuckety Y id = byBuckety X id) \<and>
     (\<forall>ls. take 2 ls \<noteq> [ns, b] \<longrightarrow> topicConfig Y ls = topicConfig X ls \<and>
        topicCleanupPolicy Y ls = topicCleanupPolicy X ls))"

lemma take2_prefix: "take (Suc (Suc (Suc 0))) ls = [a, b, c] \<Longrightarrow> take 2 ls = [a, b]"
  by (cases ls; cases "tl ls"; auto)

lemma names_series_new: "\<not> names_series ns b (new_exported topic) ls"
  by (cases "(ns, b, new_exported topic, ls)" rule: names_series.cases) (auto simp: new_exported_def)

lemma new_owned:
  "unowned ns b g \<Longrightarrow> owned ns b (new_exported topic) g"
  "policy_unowned ns b g' \<Longrightarrow> policy_owned ns b (new_exported topic) g'"
  by (auto simp: owned_def policy_owned_def unowned_def policy_unowned_def names_series_new) (simp_all add: new_exported_def)

lemma names_series_prefix: "names_series ns b e ls \<Longrightarrow> take (Suc (Suc (Suc 0))) ls = [ns, b, exTopic e]"
  by (cases "(ns, b, e, ls)" rule: names_series.cases) auto

lemma unowned_after_delete:
  "owned ns b e g \<Longrightarrow> unowned ns b (DeletePartialMatch [ns, b, exTopic e] g)"
  "policy_owned ns b e g' \<Longrightarrow> policy_unowned ns b (DeletePartialMatch [ns, b, exTopic e] g')"
proof -
  show "unowned ns b (DeletePartialMatch [ns, b, exTopic e] g)" if "owned ns b e g"
    unfolding unowned_def
  proof (intro allI impI)
    fix ls assume "take 2 ls = [ns, b]"
    with that have "g ls \<noteq> None \<longleftrightarrow> names_series ns b e ls" by (simp add: owned_def)
    then show "DeletePartialMatch [ns, b, exTopic e] g ls = None"
      by (cases "names_series ns b e ls") (auto simp: DeletePartialMatch_def dest: names_series_prefix)
  qed
  show "policy_unowned ns b (DeletePartialMatch [ns, b, exTopic e] g')" if "policy_owned ns b e g'"
    using that by (auto simp: policy_owned_def policy_unowned_def DeletePartialMatch_def)
qed

lemma delete_other: "take 2 ls \<noteq> [ns, b] \<Longrightarrow> DeletePartialMatch [ns, b, t] g ls = g ls"
  by (auto simp: DeletePartialMatch_def dest: take2_prefix)

lemma trackedD:
  assumes "tracked X"
  shows "byBuckety X (ns, b) = Some e \<Longrightarrow> owned ns b e (topicConfig X) \<and> policy_owned ns b e (topicCleanupPolicy X)"
    and "byBuckety X (ns, b) = None \<Longrightarrow> unowned ns b (topicConfig X) \<and> policy_unowned ns b (topicCleanupPolicy X)"
proof -
  have "case byBuckety X (ns, b) of
      Some e \<Rightarrow> owned ns b e (topicConfig X) \<and> policy_owned ns b e (topicCleanupPolicy X)
    | None \<Rightarrow> unowned ns b (topicConfig X) \<and> policy_unowned ns b (topicCleanupPolicy X)"
    using assms [unfolded tracked_def, THEN spec, THEN spec, of ns b] .
  then show "byBuckety X (ns, b) = Some e \<Longrightarrow> owned ns b e (topicConfig X) \<and> policy_owned ns b e (topicCleanupPolicy X)"
    and "byBuckety X (ns, b) = None \<Longrightarrow> unowned ns b (topicConfig X) \<and> policy_unowned ns b (topicCleanupPolicy X)"
    by simp_all
qed

lemma working_entry:
  assumes "tracked X"
  shows "working ns b topic X (export_entry ns b topic X)"
proof (cases "byBuckety X (ns, b)")
  case None
  with assms have "unowned ns b (topicConfig X)" "policy_unowned ns b (topicCleanupPolicy X)"
    by (simp_all add: trackedD)
  with None show ?thesis
    by (simp add: export_entry_def working_def new_owned) (simp add: new_exported_def)
next
  case (Some e)
  with assms have "owned ns b e (topicConfig X)" "policy_owned ns b e (topicCleanupPolicy X)"
    by (simp_all add: trackedD)
  with Some show ?thesis
    by (simp add: export_entry_def working_def new_owned unowned_after_delete delete_other) (simp add: new_exported_def)
qed

definition drop_series :: "string \<Rightarrow> string \<Rightarrow> exported \<Rightarrow> string \<Rightarrow> (labels \<rightharpoonup> 'f) \<Rightarrow> labels \<rightharpoonup> 'f" where
  "drop_series ns b e k g =
     (case exSource e k of Some old \<Rightarrow> g([ns, b, exTopic e, k, old] := None) | None \<Rightarrow> g)"

lemma names_series_update:
  "names_series ns b (e\<lparr>exSource := (exSource e)(k := x)\<rparr>) ls \<longleftrightarrow>
     (case x of Some src \<Rightarrow> ls = [ns, b, exTopic e, k, src] | None \<Rightarrow> False) \<or>
     names_series ns b e ls \<and> (\<forall>src. ls \<noteq> [ns, b, exTopic e, k, src])"
  by (cases "(ns, b, e, ls)" rule: names_series.cases) (auto split: option.splits)

lemma owned_drop:
  "owned ns b e g \<Longrightarrow> owned ns b (e\<lparr>exSource := (exSource e)(k := None)\<rparr>) (drop_series ns b e k g)"
  unfolding owned_def names_series_update by (auto simp: drop_series_def split: option.splits)

lemma owned_insert:
  "\<lbrakk>owned ns b e g; exSource e k = None\<rbrakk> \<Longrightarrow>
   owned ns b (e\<lparr>exSource := (exSource e)(k \<mapsto> src)\<rparr>) (g([ns, b, exTopic e, k, src] \<mapsto> v))"
  unfolding owned_def names_series_update by auto

lemma setConfig_series:
  "setConfig ns b k v src (e, Y) = (e\<lparr>exSource := (exSource e)(k \<mapsto> src)\<rparr>,
     Y\<lparr>topicConfig := (drop_series ns b e k (topicConfig Y))([ns, b, exTopic e, k, src] \<mapsto> v)\<rparr>)"
  by (auto simp: setConfig_def drop_series_def Let_def split: option.splits)

lemma drop_series_other: "take 2 ls \<noteq> [ns, b] \<Longrightarrow> drop_series ns b e k g ls = g ls"
  by (auto simp: drop_series_def split: option.splits)

lemma policy_owned_exSource [simp]: "policy_owned ns b (e\<lparr>exSource := m\<rparr>) g = policy_owned ns b e g"
  by (simp add: policy_owned_def)

lemma owned_exPolicy [simp]: "owned ns b (e\<lparr>exPolicy := p, exPolicySource := q\<rparr>) g = owned ns b e g"
proof -
  have "names_series ns b (e\<lparr>exPolicy := p, exPolicySource := q\<rparr>) ls = names_series ns b e ls" for ls
    by (cases "(ns, b, e, ls)" rule: names_series.cases) auto
  then show ?thesis by (simp add: owned_def)
qed

lemma working_setConfig:
  assumes "working ns b topic X eY"
  shows "working ns b topic X (setConfig ns b k v src eY)"
proof -
  obtain e Y where eY: "eY = (e, Y)" by fastforce
  with assms have "owned ns b e (topicConfig Y)" by (simp add: working_def)
  from owned_insert [OF owned_drop [OF this], of k k src v]
  have "owned ns b (e\<lparr>exSource := (exSource e)(k \<mapsto> src)\<rparr>)
      ((drop_series ns b e k (topicConfig Y))([ns, b, exTopic e, k, src] \<mapsto> v))" by simp
  with assms show ?thesis
    unfolding eY setConfig_series by (auto simp: working_def drop_series_other)
qed

lemma working_setPolicy:
  assumes "working ns b topic X eY"
  shows "working ns b topic X (setPolicy ns b policy src eY)"
  using assms
  by (cases eY) (auto simp: working_def setPolicy_def policy_owned_def unnamed_def Let_def)

lemma working_record_key:
  assumes "working ns b topic X eY"
  shows "working ns b topic X (record_key pf ns b topic view k eY)"
proof -
  obtain e Y where eY: "eY = (e, Y)" by fastforce
  with assms have "owned ns b e (topicConfig Y)" "exTopic e = topic" by (simp_all add: working_def)
  note owned_drop [OF this(1), of k] this
  then have "working ns b topic X (e\<lparr>exSource := (exSource e)(k := None)\<rparr>,
      Y\<lparr>topicConfig := (topicConfig Y)([ns, b, topic, k, src] := None)\<rparr>)" if "exSource e k = Some src" for src
    using assms that unfolding eY by (auto simp: working_def drop_series_def)
  with assms working_setConfig [OF assms] show ?thesis
    unfolding eY record_key_def by (auto split: option.splits)
qed

lemma working_fold:
  assumes "working ns b topic X eY" and "\<And>x eY. x \<in> set xs \<Longrightarrow> working ns b topic X eY \<Longrightarrow> working ns b topic X (f x eY)"
  shows "working ns b topic X (fold f xs eY)"
  using assms by (induction xs arbitrary: eY) auto

lemma working_record_policy:
  assumes "working ns b topic X eY"
  shows "working ns b topic X (record_policy ns b topic view eY)"
proof -
  obtain e Y where eY: "eY = (e, Y)" by fastforce
  have "working ns b topic X (e\<lparr>exPolicy := [], exPolicySource := []\<rparr>,
      Y\<lparr>topicCleanupPolicy := (topicCleanupPolicy Y)([ns, b, topic, exPolicy e, exPolicySource e] := None)\<rparr>)"
    using assms unfolding eY by (auto simp: working_def policy_owned_def)
  with assms working_setPolicy [OF assms(1)] show ?thesis
    unfolding eY record_policy_def by (auto split: option.splits)
qed

lemma working_record_alter:
  assumes "working ns b topic X eY"
  shows "working ns b topic X (record_alter pf ns b a eY)"
  using assms by (cases a) (auto simp: record_alter_def intro: working_setPolicy working_setConfig split: option.splits)

lemma tracked_store:
  assumes "tracked X" and "working ns b topic X eY"
  shows "tracked (store_entry ns b eY)"
  unfolding tracked_def
proof (intro allI)
  fix ns' b'
  obtain e Y where eY: "eY = (e, Y)" by fastforce
  show "case byBuckety (store_entry ns b eY) (ns', b') of
      Some e \<Rightarrow> owned ns' b' e (topicConfig (store_entry ns b eY)) \<and> policy_owned ns' b' e (topicCleanupPolicy (store_entry ns b eY))
    | None \<Rightarrow> unowned ns' b' (topicConfig (store_entry ns b eY)) \<and> policy_unowned ns' b' (topicCleanupPolicy (store_entry ns b eY))"
  proof (cases "(ns', b') = (ns, b)")
    case True
    with assms(2) show ?thesis by (simp add: eY store_entry_def working_def)
  next
    case False
    then have "take 2 ls = [ns', b'] \<Longrightarrow> topicConfig Y ls = topicConfig X ls \<and> topicCleanupPolicy Y ls = topicCleanupPolicy X ls" for ls
      using assms(2) by (simp add: eY working_def)
    moreover have "byBuckety Y (ns', b') = byBuckety X (ns', b')"
      using assms(2) False by (simp add: eY working_def)
    ultimately show ?thesis
      using False trackedD [OF assms(1), of ns' b']
      by (cases "byBuckety X (ns', b')") (auto simp: eY store_entry_def owned_def policy_owned_def unowned_def policy_unowned_def)
  qed
qed

lemma tracked_recordEffective: "tracked X \<Longrightarrow> tracked (recordEffective pf ns b topic view X)"
  unfolding recordEffective_def
  by (rule tracked_store [OF _ working_record_policy [OF working_fold [OF working_entry working_record_key]]])

lemma tracked_recordAltered: "tracked X \<Longrightarrow> tracked (recordAltered pf ns b topic alters X)"
  unfolding recordAltered_def
  by (rule tracked_store [OF _ working_fold [OF working_entry working_record_alter]])

lemma tracked_forget:
  assumes "tracked X"
  shows "tracked (kadm_ForgetBuckety ns b X)"
  unfolding tracked_def
proof (intro allI)
  fix ns' b'
  show "case byBuckety (kadm_ForgetBuckety ns b X) (ns', b') of
      Some e \<Rightarrow> owned ns' b' e (topicConfig (kadm_ForgetBuckety ns b X)) \<and> policy_owned ns' b' e (topicCleanupPolicy (kadm_ForgetBuckety ns b X))
    | None \<Rightarrow> unowned ns' b' (topicConfig (kadm_ForgetBuckety ns b X)) \<and> policy_unowned ns' b' (topicCleanupPolicy (kadm_ForgetBuckety ns b X))"
  proof (cases "(ns', b') = (ns, b)")
    case True
    then show ?thesis
      by (auto simp: kadm_ForgetBuckety_def DeletePartialMatch_def unowned_def policy_unowned_def numeral_2_eq_2)
  next
    case False
    then have "take 2 ls = [ns', b'] \<Longrightarrow> DeletePartialMatch [ns, b] g ls = g ls" for ls and g :: "labels \<rightharpoonup> 'v"
      by (auto simp: DeletePartialMatch_def numeral_2_eq_2)
    with False trackedD [OF assms, of ns' b'] show ?thesis
      by (cases "byBuckety X (ns', b')")
         (auto simp: kadm_ForgetBuckety_def owned_def policy_owned_def unowned_def policy_unowned_def numeral_2_eq_2 DeletePartialMatch_def)
  qed
qed

lemma tracked_empty: "tracked empty_export"
  by (simp add: tracked_def empty_export_def unowned_def policy_unowned_def)

text \<open>A run of the driver: its operations on the export, in any order and for any Bucketies.\<close>

datatype export_op =
    Effective string string string topicView
  | Altered string string string "(string \<times> string) list"
  | Forgotten string string

fun apply_op :: "(string \<Rightarrow> 'f option) \<Rightarrow> export_op \<Rightarrow> 'f export \<Rightarrow> 'f export" where
  "apply_op pf (Effective ns b topic view) = recordEffective pf ns b topic view"
| "apply_op pf (Altered ns b topic alters) = recordAltered pf ns b topic alters"
| "apply_op pf (Forgotten ns b) = kadm_ForgetBuckety ns b"

definition export_after :: "(string \<Rightarrow> 'f option) \<Rightarrow> export_op list \<Rightarrow> 'f export" where
  "export_after pf ops = fold (apply_op pf) ops empty_export"

lemma tracked_after: "tracked (export_after pf ops)"
proof -
  have "tracked X \<Longrightarrow> tracked (fold (apply_op pf) ops X)" for X
  proof (induction ops arbitrary: X)
    case (Cons op ops)
    then show ?case by (cases op) (simp_all add: tracked_recordEffective tracked_recordAltered tracked_forget)
  qed simp
  then show ?thesis by (simp add: export_after_def tracked_empty)
qed

text \<open>An operation that carries an empty \<open>cleanup.policy\<close>, and the export without a series for one.\<close>

fun carries_empty :: "export_op \<Rightarrow> bool" where
  "carries_empty (Effective ns b topic view) \<longleftrightarrow> map_of (tvConfigs view) cleanupPolicyKey = Some []"
| "carries_empty (Altered ns b topic alters) \<longleftrightarrow> (cleanupPolicyKey, []) \<in> set alters"
| "carries_empty (Forgotten ns b) \<longleftrightarrow> False"

definition all_named :: "'f export \<Rightarrow> bool" where
  "all_named X \<longleftrightarrow> (\<forall>ls. unnamed ls \<longrightarrow> topicCleanupPolicy X ls = None)"

lemma named_setPolicy: "\<lbrakk>all_named (snd eX); policy \<noteq> []\<rbrakk> \<Longrightarrow> all_named (snd (setPolicy ns b policy src eX))"
  by (cases eX) (auto simp: all_named_def setPolicy_def unnamed_def Let_def)

lemma named_setConfig: "all_named (snd (setConfig ns b k v src eX)) = all_named (snd eX)"
  by (cases eX) (simp add: all_named_def setConfig_def Let_def)

lemma named_record_key: "all_named (snd (record_key pf ns b topic view k eX)) = all_named (snd eX)"
proof -
  have "all_named (X\<lparr>topicConfig := g\<rparr>) = all_named X" for X :: "'a export" and g by (simp add: all_named_def)
  then show ?thesis by (cases eX) (simp add: record_key_def named_setConfig split: option.splits)
qed

lemma named_entry: "all_named X \<Longrightarrow> all_named (snd (export_entry ns b topic X))"
  by (auto simp: all_named_def export_entry_def DeletePartialMatch_def split: option.splits)

lemma named_record_policy:
  "\<lbrakk>all_named (snd eX); map_of (tvConfigs view) cleanupPolicyKey \<noteq> Some []\<rbrakk> \<Longrightarrow> all_named (snd (record_policy ns b topic view eX))"
  using named_setPolicy [of eX] by (cases eX) (auto simp: record_policy_def all_named_def split: option.splits)

lemma named_alters:
  "\<lbrakk>all_named (snd eX); (cleanupPolicyKey, []) \<notin> set alters\<rbrakk> \<Longrightarrow> all_named (snd (fold (record_alter pf ns b) alters eX))"
proof (induction alters arbitrary: eX)
  case (Cons a alters)
  have "all_named (snd (record_alter pf ns b a eX))"
    using Cons.prems by (cases a) (auto simp: record_alter_def named_setConfig named_setPolicy split: option.splits)
  with Cons show ?case by simp
qed simp

lemma named_store: "all_named (store_entry ns b eX) = all_named (snd eX)"
  by (cases eX) (simp add: all_named_def store_entry_def)

lemma named_op: "\<lbrakk>all_named X; \<not> carries_empty op\<rbrakk> \<Longrightarrow> all_named (apply_op pf op X)"
proof (cases op)
  case (Effective ns b topic view)
  have "all_named (snd (fold (record_key pf ns b topic view) ks eX)) = all_named (snd eX)" for ks and eX :: "exported \<times> 'a export"
    by (induction ks arbitrary: eX) (simp_all add: named_record_key)
  moreover assume "all_named X" "\<not> carries_empty op"
  ultimately show ?thesis by (simp add: Effective recordEffective_def named_store named_record_policy named_entry)
next
  case (Altered ns b topic alters)
  assume "all_named X" "\<not> carries_empty op"
  then show ?thesis by (simp add: Altered recordAltered_def named_store named_alters named_entry)
qed (auto simp: all_named_def kadm_ForgetBuckety_def DeletePartialMatch_def)

lemma named_after: "list_all (\<lambda>op. \<not> carries_empty op) ops \<Longrightarrow> all_named (export_after pf ops)"
proof -
  have "\<lbrakk>list_all (\<lambda>op. \<not> carries_empty op) ops; all_named X\<rbrakk> \<Longrightarrow> all_named (fold (apply_op pf) ops X)" for X :: "'a export"
    by (induction ops arbitrary: X) (simp_all add: named_op)
  moreover have "all_named (empty_export :: 'a export)" by (simp add: all_named_def empty_export_def)
  ultimately show "list_all (\<lambda>op. \<not> carries_empty op) ops \<Longrightarrow> all_named (export_after pf ops)" by (simp add: export_after_def)
qed


section \<open>Properties\<close>

text \<open>
  C28. No stale series, and where there can be one. After any operations of the driver, in any order
  and for any number of Bucketies, a config series is exported for a Buckety exactly when the
  driver's record names it: this topic, this key, this source. The same holds of the cleanup
  policy series with a policy in their label. So a value that changed its source, a topic that
  changed and a Buckety that was forgotten leave nothing behind. A policy series with an empty
  label is the exception, as the record uses the empty string for \<open>not exported\<close>: it can only be
  there when some operation carried an empty \<open>cleanup.policy\<close>.
\<close>

theorem exported_series_exact:
  "let X = export_after pf ops in
   (topicConfig X [ns, b, topic, key, src] \<noteq> None \<longleftrightarrow>
      (\<exists>e. byBuckety X (ns, b) = Some e \<and> exTopic e = topic \<and> exSource e key = Some src)) \<and>
   (policy \<noteq> [] \<longrightarrow> (topicCleanupPolicy X [ns, b, topic, policy, src] \<noteq> None \<longleftrightarrow>
      (\<exists>e. byBuckety X (ns, b) = Some e \<and> exTopic e = topic \<and> exPolicy e = policy \<and> exPolicySource e = src))) \<and>
   (topicCleanupPolicy X [ns, b, topic, [], src] \<noteq> None \<longrightarrow> (\<exists>op \<in> set ops. carries_empty op))"
proof -
  have "topicCleanupPolicy (export_after pf ops) [ns, b, topic, [], src] \<noteq> None \<longrightarrow> (\<exists>op \<in> set ops. carries_empty op)"
  proof (rule impI, rule ccontr)
    assume "topicCleanupPolicy (export_after pf ops) [ns, b, topic, [], src] \<noteq> None" "\<not> (\<exists>op \<in> set ops. carries_empty op)"
    with named_after [of ops pf] show False by (auto simp: all_named_def unnamed_def list_all_iff)
  qed
  moreover have "(topicConfig (export_after pf ops) [ns, b, topic, key, src] \<noteq> None \<longleftrightarrow>
      (\<exists>e. byBuckety (export_after pf ops) (ns, b) = Some e \<and> exTopic e = topic \<and> exSource e key = Some src)) \<and>
    (policy \<noteq> [] \<longrightarrow> (topicCleanupPolicy (export_after pf ops) [ns, b, topic, policy, src] \<noteq> None \<longleftrightarrow>
      (\<exists>e. byBuckety (export_after pf ops) (ns, b) = Some e \<and> exTopic e = topic \<and> exPolicy e = policy \<and> exPolicySource e = src)))"
    using trackedD [OF tracked_after [of pf ops], of ns b]
    by (cases "byBuckety (export_after pf ops) (ns, b)")
       (auto simp: owned_def policy_owned_def unowned_def policy_unowned_def unnamed_def)
  ultimately show ?thesis by (simp add: Let_def)
qed

theorem exported_series_exact_witness:
  "let pf = (\<lambda>v. if v = ''600000'' then Some (600000 :: int) else None);
       view = (\<lambda>src. \<lparr>tvPartitions = 1, tvRf = 1, tvConfigs = [(''retention.ms'', ''600000'')], tvSources = [(''retention.ms'', src)]\<rparr>);
       X = export_after pf [Effective ''ns'' ''b'' ''t'' (view DefaultConfig), Effective ''ns'' ''b'' ''t'' (view DynamicTopicConfig)]
   in topicConfig X [''ns'', ''b'', ''t'', ''retention.ms'', ''topic''] = Some 600000 \<and>
      topicConfig X [''ns'', ''b'', ''t'', ''retention.ms'', ''default''] = None"
proof -
  let ?pf = "\<lambda>v. if v = ''600000'' then Some (600000 :: int) else None"
  let ?view = "\<lambda>src. \<lparr>tvPartitions = 1, tvRf = 1, tvConfigs = [(''retention.ms'', ''600000'')], tvSources = [(''retention.ms'', src)]\<rparr>"
  let ?ops = "[Effective ''ns'' ''b'' ''t'' (?view DefaultConfig), Effective ''ns'' ''b'' ''t'' (?view DynamicTopicConfig)]"
  let ?X = "export_after ?pf ?ops"
  have "exSource (the (byBuckety ?X (''ns'', ''b''))) ''retention.ms'' = Some ''topic''"
    by code_simp
  then have "\<nexists>e. byBuckety ?X (''ns'', ''b'') = Some e \<and> exTopic e = ''t'' \<and> exSource e ''retention.ms'' = Some ''default''"
    by auto
  with exported_series_exact [of ?pf ?ops, unfolded Let_def] have "topicConfig ?X [''ns'', ''b'', ''t'', ''retention.ms'', ''default''] = None"
    by blast
  moreover have "topicConfig ?X [''ns'', ''b'', ''t'', ''retention.ms'', ''topic''] = Some 600000"
    by code_simp
  ultimately show ?thesis unfolding Let_def by blast
qed

text \<open>
  A broker that reports an empty \<open>cleanup.policy\<close> breaks the replacement: the record
  uses the empty string for ``not exported'', so the series it exported with an empty policy is
  still there after the broker reports another policy.
\<close>

theorem empty_policy_leaves_series:
  "let view = (\<lambda>p. \<lparr>tvPartitions = 1, tvRf = 1, tvConfigs = [(cleanupPolicyKey, p)], tvSources = [(cleanupPolicyKey, DynamicTopicConfig)]\<rparr>);
       X = recordEffective (\<lambda>_. None :: int option) ''ns'' ''b'' ''t'' (view ''compact'')
             (recordEffective (\<lambda>_. None) ''ns'' ''b'' ''t'' (view []) empty_export)
   in topicCleanupPolicy X [''ns'', ''b'', ''t'', ''compact'', ''topic''] = Some 1 \<and>
      topicCleanupPolicy X [''ns'', ''b'', ''t'', [], ''topic''] = Some 1"
  by code_simp

end
