(* ===== verification/Kadm_Driver.thy ===== *)
theory Kadm_Driver
  imports Kadm_Effective "HOL-Library.List_Lexorder" "HOL-Library.Char_ord"
begin

text \<open>
  \<open>pkg/drivers/kadm/driver.go\<close> and \<open>config.go\<close>: Kafka-protocol topics. The broker client
  (\<open>kgo\<close>, \<open>kadm\<close>) is third-party code: the calls the driver makes are the fields of the record
  \<open>broker\<close>, functions of the outside world. The driver's own memory is \<open>kmem\<close>: the accepted
  alters and the export state. A method is a program of the pass monad whose trace lists the
  calls that change topics; \<open>kadm_driver\<close> packs the methods into the \<open>Driver\<close> interface.

  \<open>strings.TrimSpace\<close> is modelled for ASCII white space. Log lines are not modelled.
\<close>

section \<open>Configuration\<close>

record kadm_config =
  kcSeedBrokers :: "string list"
  kcClientID :: string

text \<open>\<open>unmarshal\<close> is \<open>yaml.UnmarshalStrict\<close>, \<open>envsubst\<close> is \<open>envsubst.Apply\<close> with the process environment.\<close>

definition kadm_decodeConfig ::
  "(string \<Rightarrow> goerr + kadm_config) \<Rightarrow> (kadm_config \<Rightarrow> goerr + kadm_config) \<Rightarrow> string \<Rightarrow> goerr + kadm_config" where
  "kadm_decodeConfig unmarshal envsubst raw =
     (case unmarshal raw of
        Inl e \<Rightarrow> Inl (Wrapf ''kadm config: %w'' [] e)
      | Inr c \<Rightarrow>
          (case envsubst c of
             Inl e \<Rightarrow> Inl (Wrapf ''kadm config: %w'' [] e)
           | Inr c \<Rightarrow>
               if kcSeedBrokers c = [] then Inl (Errorf (Sprintf ''kadm config: missing required field %q'' [AStr ''seedBrokers'']))
               else Inr c))"

definition kadm_DriverName :: string where
  "kadm_DriverName = ''kadm''"

definition kadm_version :: string where
  "kadm_version = ''0.1.0''"

definition Bootstrap :: "kadm_config \<Rightarrow> string" where
  "Bootstrap cfg = Join (kcSeedBrokers cfg) '',''"


section \<open>Validation\<close>

definition kadm_check_parameter :: "string \<Rightarrow> string \<Rightarrow> goerr option" where
  "kadm_check_parameter k v =
     (if k = ''partitions'' then
        if \<not> num_ok (ParseInt v 32) \<or> v = ''0'' \<or> HasPrefix v ''-''
        then Some (Errorf (Sprintf ''parameters.partitions must be a positive integer, got %q'' [AStr v])) else None
      else if k = ''replicationFactor'' then
        if \<not> num_ok (ParseInt v 16) \<or> v = ''0''
        then Some (Errorf (Sprintf ''parameters.replicationFactor must be a non-zero integer, got %q'' [AStr v])) else None
      else if HasPrefix k ''config.'' then None
      else Some (Errorf (Sprintf ''unknown parameter %q (kadm v0.1 accepts: partitions, replicationFactor, config.*)'' [AStr k])))"

definition kadm_ValidateParameters :: "smap \<Rightarrow> goerr option" where
  "kadm_ValidateParameters params = range_check kadm_check_parameter params"

definition kadm_ValidateUpdateParameters :: "smap \<Rightarrow> smap \<Rightarrow> goerr option" where
  "kadm_ValidateUpdateParameters oldParams newParams =
     (case kadm_ValidateParameters newParams of
        Some e \<Rightarrow> Some e
      | None \<Rightarrow>
          if get0 oldParams ''replicationFactor'' \<noteq> get0 newParams ''replicationFactor''
          then Some (Errorf (Sprintf ''parameters.replicationFactor is immutable post-create (current=%q, requested=%q); Kafka cannot reassign partitions without explicit kafka-reassign-partitions tooling''
                 [AStr (get0 oldParams ''replicationFactor''), AStr (get0 newParams ''replicationFactor'')]))
          else None)"

definition topic_char :: "char \<Rightarrow> bool" where
  "topic_char c \<longleftrightarrow> is_lower c \<or> is_upper c \<or> is_digit c \<or> c \<in> {CHR ''.'', CHR ''_'', CHR ''-''}"

definition kadm_ValidateResourceName :: "string \<Rightarrow> goerr option" where
  "kadm_ValidateResourceName name =
     (if name = [] then Some (Errorf (Lit ''topic name is empty''))
      else if name = ''.'' \<or> name = ''..'' then Some (Errorf (Sprintf ''topic name %q is reserved'' [AStr name]))
      else if length name > 249 then Some (Errorf (Sprintf ''topic name is %d characters; Kafka's limit is 249'' [AInt (int (length name))]))
      else if \<not> list_all topic_char name then Some (Errorf (Sprintf ''topic name %q contains characters outside [a-zA-Z0-9._-]'' [AStr name]))
      else None)"

definition kadm_ValidateAccessParameters :: "smap \<Rightarrow> goerr option" where
  "kadm_ValidateAccessParameters params =
     (if params = [] then None
      else Some (Errorf (Sprintf ''kadm v0.1 accepts no BucketyAccess parameters; got: %s'' [AStr (Join (map fst params) '', '')])))"


section \<open>Translation\<close>

definition is_space :: "char \<Rightarrow> bool" where
  "is_space c \<longleftrightarrow> of_char c \<in> {9, 10, 11, 12, 13, 32 :: nat}"

definition TrimSpace :: "string \<Rightarrow> string" where
  "TrimSpace s = rev (dropWhile is_space (rev (dropWhile is_space s)))"

text \<open>\<open>(partitions, replicationFactor, config keys)\<close>; the loop's early returns are \<open>Inl\<close>.\<close>

type_synonym translated = "int \<times> int \<times> smap"

definition parse_error :: "string \<Rightarrow> goerr" where
  "parse_error v = Errorf (Sprintf ''strconv.ParseInt: parsing %q'' [AStr v])"

fun translate_from :: "translated \<Rightarrow> smap \<Rightarrow> goerr + translated" where
  "translate_from acc [] = Inr acc"
| "translate_from (parts, rf, cfgs) ((k, v) # params) =
     (if k = ''partitions'' then
        (case ParseInt v 32 of
           NumOk n \<Rightarrow> translate_from (n, rf, cfgs) params
         | _ \<Rightarrow> Inl (Wrapf ''parameters.partitions: %w'' [] (parse_error v)))
      else if k = ''replicationFactor'' then
        (case ParseInt v 16 of
           NumOk n \<Rightarrow> translate_from (parts, n, cfgs) params
         | _ \<Rightarrow> Inl (Wrapf ''parameters.replicationFactor: %w'' [] (parse_error v)))
      else if HasPrefix k ''config.'' then
        translate_from (parts, rf, AList.update (TrimPrefix k ''config.'') (TrimSpace v) cfgs) params
      else Inl (Errorf (Sprintf ''unknown parameter %q'' [AStr k])))"

definition translateParameters :: "smap \<Rightarrow> goerr + translated" where
  "translateParameters params = translate_from (0, 0, []) params"


section \<open>The broker\<close>

record listed_offset =
  loTopic :: string
  loPartition :: int
  loOffset :: int

text \<open>
  \<open>ListTopics\<close> answers, for the topic asked, nothing, an error or the replica counts of its
  partitions; \<open>DescribeTopicConfigs\<close> a list of per-resource answers. The offset listings carry
  the answer of their \<open>Error\<close> method.
\<close>

record 'w broker =
  brMetadata :: "string \<Rightarrow> 'w \<Rightarrow> (goerr + (string option \<times> goerr option) list) \<times> 'w"
  brListTopics :: "string \<Rightarrow> 'w \<Rightarrow> (goerr + (goerr + nat list) option) \<times> 'w"
  brDescribeTopicConfigs :: "string \<Rightarrow> 'w \<Rightarrow> (goerr + (goerr + (string \<times> string option \<times> ConfigSource) list) list) \<times> 'w"
  brListStartOffsets :: "string \<Rightarrow> 'w \<Rightarrow> (goerr + (listed_offset list \<times> goerr option)) \<times> 'w"
  brListEndOffsets :: "string \<Rightarrow> 'w \<Rightarrow> (goerr + (listed_offset list \<times> goerr option)) \<times> 'w"
  brCreateTopic :: "int \<Rightarrow> int \<Rightarrow> smap \<Rightarrow> string \<Rightarrow> 'w \<Rightarrow> (goerr option \<times> goerr option) \<times> 'w"
  brDeleteTopics :: "string \<Rightarrow> 'w \<Rightarrow> (goerr + goerr option list) \<times> 'w"
  brUpdatePartitions :: "int \<Rightarrow> string \<Rightarrow> 'w \<Rightarrow> (goerr + goerr option option) \<times> 'w"
  brAlterTopicConfigs :: "smap \<Rightarrow> string \<Rightarrow> 'w \<Rightarrow> (goerr + goerr option list) \<times> 'w"

text \<open>Broker errors are \<open>BackendError\<close> values with the Kafka error name; \<open>errors.Is\<close> walks the chain.\<close>

definition is_kerr :: "string \<Rightarrow> goerr \<Rightarrow> bool" where
  "is_kerr name e = (case root_cause e of BackendError n _ _ \<Rightarrow> n = name | _ \<Rightarrow> False)"

abbreviation UnknownTopicOrPartition :: "goerr \<Rightarrow> bool" where
  "UnknownTopicOrPartition \<equiv> is_kerr ''UNKNOWN_TOPIC_OR_PARTITION''"

abbreviation TopicAlreadyExists :: "goerr \<Rightarrow> bool" where
  "TopicAlreadyExists \<equiv> is_kerr ''TOPIC_ALREADY_EXISTS''"

datatype kevent =
    TopicCreated string int int smap "goerr option \<times> goerr option"
  | TopicDeleted string "goerr + goerr option list"
  | PartitionsUpdated string int "goerr + goerr option option"
  | ConfigsAltered string smap "goerr + goerr option list"

record acceptedConfig =
  acValue :: string
  acLogged :: bool

type_synonym accepted = "string \<rightharpoonup> (string \<rightharpoonup> acceptedConfig)"

record 'f kmem =
  kmAccepted :: accepted
  kmExport :: "'f export"

type_synonym ('w, 'f, 'a) kprog = "('w, kevent, 'f kmem, 'a) prog"


section \<open>Memory of accepted alters\<close>

definition acceptedUnreported :: "string \<Rightarrow> string \<Rightarrow> string \<Rightarrow> accepted \<Rightarrow> bool \<times> accepted" where
  "acceptedUnreported topic key v acc =
     (case acc topic of
        None \<Rightarrow> (False, acc)
      | Some keys \<Rightarrow>
          (case keys key of
             None \<Rightarrow> (False, acc)
           | Some a \<Rightarrow>
               if acValue a \<noteq> v then (False, acc)
               else (True, acc(topic \<mapsto> keys(key \<mapsto> a\<lparr>acLogged := True\<rparr>)))))"

definition rememberAccepted :: "string \<Rightarrow> smap \<Rightarrow> accepted \<Rightarrow> accepted" where
  "rememberAccepted topic alters acc =
     acc(topic \<mapsto> fold (\<lambda>(name, v) keys. keys(name \<mapsto> \<lparr>acValue = v, acLogged = False\<rparr>)) alters
           (case acc topic of Some keys \<Rightarrow> keys | None \<Rightarrow> Map.empty))"

definition forgetAccepted :: "string \<Rightarrow> accepted \<Rightarrow> accepted" where
  "forgetAccepted topic acc = acc(topic := None)"

definition modify_accepted :: "(accepted \<Rightarrow> accepted) \<Rightarrow> ('w, 'f, unit) kprog" where
  "modify_accepted f = do { m \<leftarrow> get_memory; put_memory (m\<lparr>kmAccepted := f (kmAccepted m)\<rparr>) }"

definition modify_export :: "('f export \<Rightarrow> 'f export) \<Rightarrow> ('w, 'f, unit) kprog" where
  "modify_export f = do { m \<leftarrow> get_memory; put_memory (m\<lparr>kmExport := f (kmExport m)\<rparr>) }"


section \<open>Methods\<close>

fun find_topic :: "string \<Rightarrow> (string option \<times> goerr option) list \<Rightarrow> goerr + bool" where
  "find_topic name [] = Inr False"
| "find_topic name ((t, err) # ts) =
     (if t \<noteq> Some name then find_topic name ts
      else (case err of
              None \<Rightarrow> Inr True
            | Some e \<Rightarrow> if UnknownTopicOrPartition e then Inr False
                        else Inl (Wrapf ''kadm: metadata for topic %q: %w'' [AStr name] e)))"

definition topicExists :: "'w broker \<Rightarrow> string \<Rightarrow> ('w, 'f, goerr + bool) kprog" where
  "topicExists B name = do {
     r \<leftarrow> ext (brMetadata B name);
     ret (case r of
            Inl e \<Rightarrow> Inl (Wrapf ''kadm: metadata for topic %q: %w'' [AStr name] e)
          | Inr topics \<Rightarrow> find_topic name topics) }"

definition offsets_err :: "goerr + (listed_offset list \<times> goerr option) \<Rightarrow> goerr + listed_offset list" where
  "offsets_err r = (case r of Inl e \<Rightarrow> Inl e | Inr (os, None) \<Rightarrow> Inr os | Inr (os, Some e) \<Rightarrow> Inl e)"

definition all_expired :: "listed_offset list \<Rightarrow> listed_offset list \<Rightarrow> bool" where
  "all_expired starts ends =
     list_all (\<lambda>e. case find (\<lambda>s. loTopic s = loTopic e \<and> loPartition s = loPartition e) starts of
        Some s \<Rightarrow> loOffset e \<le> loOffset s | None \<Rightarrow> False) ends"

definition kadm_InspectBuckety :: "'w broker \<Rightarrow> string \<Rightarrow> ('w, 'f, goerr + Inspection) kprog" where
  "kadm_InspectBuckety B name = do {
     x \<leftarrow> topicExists B name;
     case x of
       Inl e \<Rightarrow> ret (Inl e)
     | Inr False \<Rightarrow> ret (Inr \<lparr>Exists = False, Empty = False\<rparr>)
     | Inr True \<Rightarrow> do {
         starts \<leftarrow> ext (brListStartOffsets B name);
         case offsets_err starts of
           Inl e \<Rightarrow> ret (Inl (Wrapf ''kadm: list start offsets %q: %w'' [AStr name] e))
         | Inr ss \<Rightarrow> do {
             ends \<leftarrow> ext (brListEndOffsets B name);
             case offsets_err ends of
               Inl e \<Rightarrow> ret (Inl (Wrapf ''kadm: list end offsets %q: %w'' [AStr name] e))
             | Inr es \<Rightarrow> ret (Inr \<lparr>Exists = True, Empty = all_expired ss es\<rparr>) } } }"

fun collect_configs ::
  "string \<Rightarrow> (goerr + (string \<times> string option \<times> ConfigSource) list) list \<Rightarrow> smap \<times> (string \<times> ConfigSource) list \<Rightarrow>
   goerr + smap \<times> (string \<times> ConfigSource) list" where
  "collect_configs name [] acc = Inr acc"
| "collect_configs name (Inl e # rcs) acc = Inl (Wrapf ''kadm: describe configs %q: %w'' [AStr name] e)"
| "collect_configs name (Inr cs # rcs) acc =
     collect_configs name rcs
       (fold (\<lambda>(k, v, src) (configs, sources).
          case v of Some x \<Rightarrow> (AList.update k x configs, AList.update k src sources) | None \<Rightarrow> (configs, sources)) cs acc)"

definition describeTopic :: "'w broker \<Rightarrow> string \<Rightarrow> ('w, 'f, goerr + topicView option) kprog" where
  "describeTopic B name = do {
     td \<leftarrow> ext (brListTopics B name);
     case td of
       Inl e \<Rightarrow> ret (Inl (Wrapf ''kadm: list topic %q: %w'' [AStr name] e))
     | Inr None \<Rightarrow> ret (Inr None)
     | Inr (Some (Inl e)) \<Rightarrow>
         ret (if UnknownTopicOrPartition e then Inr None else Inl (Wrapf ''kadm: list topic %q: %w'' [AStr name] e))
     | Inr (Some (Inr replicas)) \<Rightarrow> do {
         cfgs \<leftarrow> ext (brDescribeTopicConfigs B name);
         ret (case cfgs of
                Inl e \<Rightarrow> Inl (Wrapf ''kadm: describe configs %q: %w'' [AStr name] e)
              | Inr rcs \<Rightarrow>
                  (case collect_configs name rcs ([], []) of
                     Inl e \<Rightarrow> Inl e
                   | Inr (configs, sources) \<Rightarrow>
                       Inr (Some \<lparr>tvPartitions = to_int 32 (int (length replicas)),
                                  tvRf = (case replicas of [] \<Rightarrow> 0 | r # _ \<Rightarrow> to_int 16 (int r)),
                                  tvConfigs = configs, tvSources = sources\<rparr>))) } }"

definition createTopic :: "'w broker \<Rightarrow> string \<Rightarrow> int \<Rightarrow> int \<Rightarrow> smap \<Rightarrow> ('w, 'f, goerr option) kprog" where
  "createTopic B name parts rf cfgs = (
     let parts = (if parts = 0 then -1 else parts); rf = (if rf = 0 then -1 else rf) in do {
     (respErr, err) \<leftarrow> call (brCreateTopic B parts rf cfgs name) (TopicCreated name parts rf cfgs);
     ret (case err of
            Some e \<Rightarrow>
              if \<not> TopicAlreadyExists e then Some (Wrapf ''kadm: create topic %q: %w'' [AStr name] e)
              else (case respErr of
                 Some e' \<Rightarrow> if \<not> TopicAlreadyExists e' then Some (Wrapf ''kadm: create topic %q: %w'' [AStr name] e') else None
               | None \<Rightarrow> None)
          | None \<Rightarrow>
              (case respErr of
                 Some e' \<Rightarrow> if \<not> TopicAlreadyExists e' then Some (Wrapf ''kadm: create topic %q: %w'' [AStr name] e') else None
               | None \<Rightarrow> None)) })"

text \<open>The config delta: what the broker reports differently, or does not report and did not accept yet.\<close>

fun alter_loop :: "string \<Rightarrow> topicView \<Rightarrow> smap \<Rightarrow> accepted \<Rightarrow> smap \<times> accepted" where
  "alter_loop topic existing [] acc = ([], acc)"
| "alter_loop topic existing ((k, v) # cfgs) acc =
     (case map_of (tvConfigs existing) k of
        Some cur \<Rightarrow>
          if cur = v then alter_loop topic existing cfgs acc
          else (case alter_loop topic existing cfgs acc of (alters, acc') \<Rightarrow> ((k, v) # alters, acc'))
      | None \<Rightarrow>
          (case acceptedUnreported topic k v acc of
             (True, acc1) \<Rightarrow> alter_loop topic existing cfgs acc1
           | (False, acc1) \<Rightarrow>
               (case alter_loop topic existing cfgs acc1 of (alters, acc') \<Rightarrow> ((k, v) # alters, acc'))))"

definition ReasonPartitionsAdded :: string where
  "ReasonPartitionsAdded = ''PartitionsAdded''"

definition ReasonTopicConfigChanged :: string where
  "ReasonTopicConfigChanged = ''TopicConfigChanged''"

text \<open>Partitions first: a shrink is drift, an increase is asked of the broker.\<close>

definition align_partitions ::
  "'w broker \<Rightarrow> EnsureRequest \<Rightarrow> topicView \<Rightarrow> int \<Rightarrow> ('w, 'f, Change list \<times> goerr option) kprog" where
  "align_partitions B req existing wantParts =
     (if wantParts > 0 \<and> tvPartitions existing \<noteq> wantParts then
        if wantParts < tvPartitions existing then
          ret ([], Some (ErrParameterDrift (Sprintf ''partitions: current=%d requested=%d (Kafka cannot shrink partition counts in place)''
                  [AInt (tvPartitions existing), AInt wantParts])))
        else do {
          r \<leftarrow> call (brUpdatePartitions B wantParts (erName req)) (PartitionsUpdated (erName req) wantParts);
          case r of
            Inl e \<Rightarrow> ret ([], Some (Wrapf ''kadm: update partitions %q: %w'' [AStr (erName req)] e))
          | Inr (Some (Some e)) \<Rightarrow> ret ([], None)
          | Inr _ \<Rightarrow> do {
              modify_export (\<lambda>X. X\<lparr>partitionsAdded := counter_add [erNamespace req, erBucketyName req, erName req]
                 (to_int 32 (wantParts - tvPartitions existing)) (partitionsAdded X)\<rparr>);
              ret ([\<lparr>chReason = ReasonPartitionsAdded, chParameter = ''partitions'',
                     chOld = Itoa (tvPartitions existing), chNew = Itoa wantParts\<rparr>], None) } }
      else ret ([], None))"

fun first_err :: "goerr option list \<Rightarrow> goerr option" where
  "first_err [] = None"
| "first_err (None # rs) = first_err rs"
| "first_err (Some e # rs) = Some e"

definition align_configs ::
  "'w broker \<Rightarrow> (string \<Rightarrow> 'f option) \<Rightarrow> EnsureRequest \<Rightarrow> topicView \<Rightarrow> smap \<Rightarrow> ('w, 'f, Change list \<times> goerr option) kprog" where
  "align_configs B pf req existing wantCfgs = do {
     m \<leftarrow> get_memory;
     let (alters, acc) = alter_loop (erName req) existing wantCfgs (kmAccepted m);
     put_memory (m\<lparr>kmAccepted := acc\<rparr>);
     if alters = [] then ret ([], None)
     else do {
       r \<leftarrow> call (brAlterTopicConfigs B alters (erName req)) (ConfigsAltered (erName req) alters);
       case r of
         Inl e \<Rightarrow> ret ([], Some (Wrapf ''kadm: alter configs %q: %w'' [AStr (erName req)] e))
       | Inr rs \<Rightarrow>
           (case first_err rs of
              Some e \<Rightarrow> ret ([], Some (Wrapf ''kadm: alter configs %q: %w'' [AStr (erName req)] e))
            | None \<Rightarrow> (
                let sorted_alters = sort_key fst alters in do {
                modify_accepted (rememberAccepted (erName req) sorted_alters);
                modify_export (recordAltered pf (erNamespace req) (erBucketyName req) (erName req) sorted_alters);
                modify_export (\<lambda>X. X\<lparr>configChanges := fold (\<lambda>(k, _). counter_add [erNamespace req, erBucketyName req, erName req, k] 1)
                   sorted_alters (configChanges X)\<rparr>);
                ret (map (\<lambda>(k, v). \<lparr>chReason = ReasonTopicConfigChanged, chParameter = ''config.'' @ k,
                        chOld = get0 (tvConfigs existing) k, chNew = v\<rparr>) sorted_alters, None) })) } }"

definition alignTopic ::
  "'w broker \<Rightarrow> (string \<Rightarrow> 'f option) \<Rightarrow> EnsureRequest \<Rightarrow> topicView \<Rightarrow> translated \<Rightarrow> ('w, 'f, Change list \<times> goerr option) kprog" where
  "alignTopic B pf req existing want = (
     let (wantParts, wantRF, wantCfgs) = want; ls = [erNamespace req, erBucketyName req, erName req] in do {
     modify_export (\<lambda>X. X\<lparr>partitionsAdded := counter_touch ls (partitionsAdded X),
        configChanges := fold (\<lambda>(k, _). counter_touch (ls @ [k])) wantCfgs (configChanges X)\<rparr>);
     (changes, err) \<leftarrow> align_partitions B req existing wantParts;
     case err of
       Some e \<Rightarrow> ret (changes, Some e)
     | None \<Rightarrow>
         if wantRF > 0 \<and> tvRf existing \<noteq> 0 \<and> tvRf existing \<noteq> wantRF then
           ret (changes, Some (ErrParameterDrift (Sprintf ''replicationFactor: current=%d requested=%d (cannot be changed in place; needs partition reassignment)''
                  [AInt (tvRf existing), AInt wantRF])))
         else do {
           (changes', err) \<leftarrow> align_configs B pf req existing wantCfgs;
           ret (changes @ changes', err) } })"

definition kadm_EnsureBuckety ::
  "'w broker \<Rightarrow> (string \<Rightarrow> 'f option) \<Rightarrow> EnsureRequest \<Rightarrow> ('w, 'f, Change list \<times> goerr option) kprog" where
  "kadm_EnsureBuckety B pf req =
     (case translateParameters (erParameters req) of
        Inl e \<Rightarrow> ret ([], Some e)
      | Inr (wantParts, wantRF, wantCfgs) \<Rightarrow> do {
          d \<leftarrow> describeTopic B (erName req);
          case d of
            Inl e \<Rightarrow> ret ([], Some e)
          | Inr None \<Rightarrow> do {
              modify_accepted (forgetAccepted (erName req));
              err \<leftarrow> createTopic B (erName req) wantParts wantRF wantCfgs;
              ret ([], err) }
          | Inr (Some existing) \<Rightarrow> do {
              modify_export (recordEffective pf (erNamespace req) (erBucketyName req) (erName req) existing);
              alignTopic B pf req existing (wantParts, wantRF, wantCfgs) } })"

fun delete_result :: "string \<Rightarrow> goerr option list \<Rightarrow> goerr option" where
  "delete_result name [] = None"
| "delete_result name (None # rs) = delete_result name rs"
| "delete_result name (Some e # rs) =
     (if UnknownTopicOrPartition e then delete_result name rs
      else Some (Wrapf ''kadm: delete topic %q: %w'' [AStr name] e))"

definition kadm_DeleteBuckety :: "'w broker \<Rightarrow> DeleteRequest \<Rightarrow> ('w, 'f, goerr option) kprog" where
  "kadm_DeleteBuckety B req = do {
     modify_accepted (forgetAccepted (drName req));
     r \<leftarrow> call (brDeleteTopics B (drName req)) (TopicDeleted (drName req));
     ret (case r of
            Inl e \<Rightarrow> Some (Wrapf ''kadm: delete topic %q: %w'' [AStr (drName req)] e)
          | Inr rs \<Rightarrow> delete_result (drName req) rs) }"

definition kadm_GrantAccess :: "kadm_config \<Rightarrow> GrantRequest \<Rightarrow> goerr + GrantResult" where
  "kadm_GrantAccess cfg req =
     Inr \<lparr>gtSecretData = [(''bootstrap'', Bootstrap cfg), (''topic'', grBucketyName req)],
          gtPrincipal = ''kadm-root'', gtScoped = False, gtRevocable = False, gtMinted = False\<rparr>"

definition kadm_RevokeAccess :: "string \<Rightarrow> goerr option" where
  "kadm_RevokeAccess p = None"

text \<open>
  The driver as the controller sees it. Its world is the broker's together with the driver's
  memory and trace, so that one driver value keeps its memory across calls.
\<close>

type_synonym ('w, 'f) kworld = "('w, kevent, 'f kmem) sys"

definition kadm_driver :: "kadm_config \<Rightarrow> 'w broker \<Rightarrow> (string \<Rightarrow> 'f option) \<Rightarrow> ('w, 'f) kworld Driver" where
  "kadm_driver cfg B pf =
     \<lparr>dName = kadm_DriverName, dVersion = kadm_version,
      dInspectBuckety = (\<lambda>name. run_state (kadm_InspectBuckety B name)),
      dEnsureBuckety = (\<lambda>req. run_state (kadm_EnsureBuckety B pf req)),
      dDeleteBuckety = (\<lambda>req. run_state (kadm_DeleteBuckety B req)),
      dGrantAccess = (\<lambda>req w. (kadm_GrantAccess cfg req, w)),
      dRevokeAccess = (\<lambda>p w. (kadm_RevokeAccess p, w)),
      dValidateParameters = kadm_ValidateParameters,
      dValidateUpdateParameters = kadm_ValidateUpdateParameters,
      dValidateAccessParameters = kadm_ValidateAccessParameters,
      dValidateResourceName = kadm_ValidateResourceName,
      dTemplatedParameters = None,
      dForgetBuckety = Some (\<lambda>ns name. run_state (modify_export (kadm_ForgetBuckety ns name)))\<rparr>"

text \<open>\<open>newClient\<close> is \<open>kgo.NewClient\<close> with \<open>kadm.NewClient\<close> on the seed brokers and, when set, the client ID.\<close>

definition kadm_factory ::
  "(string \<Rightarrow> goerr + kadm_config) \<Rightarrow> (kadm_config \<Rightarrow> goerr + kadm_config) \<Rightarrow>
   (string list \<Rightarrow> string option \<Rightarrow> goerr + 'w broker) \<Rightarrow> (string \<Rightarrow> 'f option) \<Rightarrow> ('w, 'f) kworld Factory" where
  "kadm_factory unmarshal envsubst newClient pf raw =
     (case kadm_decodeConfig unmarshal envsubst raw of
        Inl e \<Rightarrow> Inl e
      | Inr cfg \<Rightarrow>
          (case newClient (kcSeedBrokers cfg) (if kcClientID cfg \<noteq> [] then Some (kcClientID cfg) else None) of
             Inl e \<Rightarrow> Inl (Wrapf ''kadm: build kgo client: %w'' [] e)
           | Inr B \<Rightarrow> Inr (kadm_driver cfg B pf)))"

definition kadm_init ::
  "('w, 'f) kworld Factory \<Rightarrow> ('w, 'f) kworld registry \<Rightarrow> goerr + ('w, 'f) kworld registry" where
  "kadm_init factory reg = Register kadm_DriverName kadm_version factory reg"


section \<open>The validation contract\<close>

lemma kadm_validate_order:
  "set p = set q \<Longrightarrow> kadm_ValidateParameters p = None \<longleftrightarrow> kadm_ValidateParameters q = None"
  unfolding kadm_ValidateParameters_def by (rule range_check_order)

interpretation kadm: driver_validation kadm_ValidateParameters kadm_ValidateUpdateParameters
  kadm_ValidateAccessParameters kadm_ValidateResourceName
proof
  fix p q old new :: smap and n :: string
  show "set p = set q \<Longrightarrow> kadm_ValidateParameters p = None \<longleftrightarrow> kadm_ValidateParameters q = None"
    by (rule kadm_validate_order)
  show "kadm_ValidateUpdateParameters old new = None \<Longrightarrow> kadm_ValidateParameters new = None"
    by (simp add: kadm_ValidateUpdateParameters_def split: option.splits)
  show "\<lbrakk>kadm_ValidateParameters p = None; map_of old = map_of p\<rbrakk> \<Longrightarrow> kadm_ValidateUpdateParameters old p = None"
    by (simp add: kadm_ValidateUpdateParameters_def get0_cong [of old p])
  show "kadm_ValidateAccessParameters p = None \<longleftrightarrow> p = []"
    by (simp add: kadm_ValidateAccessParameters_def)
  show "kadm_ValidateResourceName n = None \<Longrightarrow> n \<noteq> []"
    by (auto simp: kadm_ValidateResourceName_def)
qed

lemma kadm_driver_ok: "driver_ok (kadm_driver cfg B pf)"
  using kadm.driver_validation_axioms by (simp add: kadm_driver_def)

text \<open>Every driver the registered factory builds keeps the contract.\<close>

lemma kadm_factory_ok: "kadm_factory unmarshal envsubst newClient pf raw = Inr d \<Longrightarrow> driver_ok d"
  using kadm_driver_ok by (auto simp: kadm_factory_def split: sum.splits)

end
