(* ===== verification/Kadm_Safety.thy ===== *)
theory Kadm_Safety
  imports Kadm_Driver
begin

text \<open>
  What the kadm driver promises of \<open>EnsureBuckety\<close>, \<open>InspectBuckety\<close> and \<open>DeleteBuckety\<close> for
  every broker: accepted parameters translate within their machine types, an existing topic is
  only ever grown, the config delta is exactly what differs and is not applied twice, changes
  are reported if and only if the broker acknowledged them, and absence is the broker's word.
\<close>

section \<open>Parameters\<close>

lemma ParseUint_nonneg: "ParseUint bits s = NumOk n \<or> ParseUint bits s = NumRange n \<Longrightarrow> 0 \<le> n"
  using scan_uint_nonneg by (auto simp: ParseUint_def split: if_splits)

lemma clamp_int_unsigned:
  "\<lbrakk>clamp_int bits False r = NumOk n; \<And>un. r = NumOk un \<or> r = NumRange un \<Longrightarrow> 0 \<le> un\<rbrakk> \<Longrightarrow> 0 \<le> n"
  by (auto simp: clamp_int_def Let_def split: num_result.splits if_splits)

lemma ParseInt_nonneg:
  assumes "ParseInt s bits = NumOk n" and "\<not> HasPrefix s ''-''"
  shows "0 \<le> n"
proof (cases s)
  case (Cons c r)
  with assms(2) have "c \<noteq> CHR ''-''" by (simp add: HasPrefix_def)
  with assms(1) Cons obtain s' where "clamp_int bits False (ParseUint bits s') = NumOk n"
    by (auto simp: ParseInt_def split: if_splits)
  then show ?thesis by (rule clamp_int_unsigned) (rule ParseUint_nonneg)
qed (use assms(1) in \<open>simp add: ParseInt_def\<close>)

definition int_param :: "string \<Rightarrow> nat \<Rightarrow> int \<Rightarrow> smap \<Rightarrow> int" where
  "int_param k bits z params = (case map_of params k of Some v \<Rightarrow> num_value (ParseInt v bits) | None \<Rightarrow> z)"

lemma config_prefix_inj: "HasPrefix k ''config.'' \<Longrightarrow> TrimPrefix k ''config.'' = q \<longleftrightarrow> k = ''config.'' @ q"
  by (auto simp: HasPrefix_iff TrimPrefix_def)

lemma translate_from_valid:
  assumes "range_check kadm_check_parameter params = None" "wf_map params"
  shows "\<exists>cfgs'. translate_from (parts, rf, cfgs) params =
      Inr (int_param ''partitions'' 32 parts params, int_param ''replicationFactor'' 16 rf params, cfgs') \<and>
    map_of cfgs' = map_of cfgs ++ (\<lambda>k. map_option TrimSpace (map_of params (''config.'' @ k))) \<and>
    (wf_map cfgs \<longrightarrow> wf_map cfgs')"
  using assms
proof (induction params arbitrary: parts rf cfgs)
  case Nil
  then show ?case by (simp add: int_param_def map_add_def)
next
  case (Cons kv params)
  obtain k v where kv: "kv = (k, v)" by fastforce
  from Cons.prems have fresh: "map_of params k = None" and wf: "wf_map params"
    by (auto simp: kv map_of_eq_None_iff)
  from Cons.prems have chk: "kadm_check_parameter k v = None" and rest: "range_check kadm_check_parameter params = None"
    by (auto simp: kv split: option.splits)
  note IH = Cons.IH [OF rest wf]
  consider "k = ''partitions''" | "k = ''replicationFactor''" | q where "k = ''config.'' @ q"
    using chk by (auto simp: kadm_check_parameter_def HasPrefix_iff split: if_splits)
  then show ?case
  proof cases
    case 1
    with chk obtain n where "ParseInt v 32 = NumOk n"
      by (auto simp: kadm_check_parameter_def num_ok_def split: if_splits num_result.splits)
    with 1 IH [of n rf cfgs] fresh show ?thesis by (simp add: kv int_param_def num_value_def)
  next
    case 2
    with chk obtain n where "ParseInt v 16 = NumOk n"
      by (auto simp: kadm_check_parameter_def num_ok_def split: if_splits num_result.splits)
    with 2 IH [of parts n cfgs] fresh show ?thesis by (simp add: kv int_param_def num_value_def)
  next
    case 3
    let ?c = "AList.update q (TrimSpace v) cfgs"
    from IH [of parts rf ?c] obtain cfgs' where
      "translate_from (parts, rf, ?c) params =
        Inr (int_param ''partitions'' 32 parts params, int_param ''replicationFactor'' 16 rf params, cfgs')"
      and m: "map_of cfgs' = map_of ?c ++ (\<lambda>k. map_option TrimSpace (map_of params (''config.'' @ k)))"
      and "wf_map ?c \<longrightarrow> wf_map cfgs'" by blast
    moreover have "map_of cfgs' = map_of cfgs ++ (\<lambda>j. map_option TrimSpace (map_of (kv # params) (''config.'' @ j)))"
      using 3 fresh by (auto simp: m kv fun_eq_iff map_add_def update_conv' split: option.splits)
    ultimately show ?thesis
      using 3 by (simp add: kv int_param_def HasPrefix_def TrimPrefix_def)
  qed
qed

lemma valid_int_param:
  assumes "kadm_ValidateParameters params = None"
  shows "0 \<le> int_param ''partitions'' 32 0 params" "int_param ''partitions'' 32 0 params < 2 ^ 31"
    "- (2 ^ 15) \<le> int_param ''replicationFactor'' 16 0 params" "int_param ''replicationFactor'' 16 0 params < 2 ^ 15"
proof -
  have in_params: "kadm_check_parameter k v = None" if "map_of params k = Some v" for k v
    using assms map_of_SomeD [OF that] by (auto simp: kadm_ValidateParameters_def range_check_None)
  show "0 \<le> int_param ''partitions'' 32 0 params" "int_param ''partitions'' 32 0 params < 2 ^ 31"
    using in_params [of "''partitions''"] ParseInt_bounds [of _ 32] ParseInt_nonneg [of _ 32]
    by (auto simp: int_param_def kadm_check_parameter_def num_ok_def num_value_def
        split: option.splits if_splits num_result.splits)
  show "- (2 ^ 15) \<le> int_param ''replicationFactor'' 16 0 params" "int_param ''replicationFactor'' 16 0 params < 2 ^ 15"
    using in_params [of "''replicationFactor''"] ParseInt_bounds [of _ 16]
    by (auto simp: int_param_def kadm_check_parameter_def num_ok_def num_value_def
        split: option.splits if_splits num_result.splits)
qed

text \<open>
  Parameters that admission accepts never fail translation: \<open>translateParameters\<close> returns a
  partition count in the range of a non-negative \<open>int32\<close>, a replication factor in the range of
  \<open>int16\<close>, and exactly the \<open>config.*\<close> entries with the prefix removed and the value trimmed.
\<close>

theorem validated_parameters_translate:
  assumes "kadm_ValidateParameters params = None" and "wf_map params"
  shows "\<exists>parts rf cfgs. translateParameters params = Inr (parts, rf, cfgs) \<and>
    0 \<le> parts \<and> parts < 2 ^ 31 \<and> - (2 ^ 15) \<le> rf \<and> rf < 2 ^ 15 \<and>
    parts = (case map_of params ''partitions'' of Some v \<Rightarrow> num_value (ParseInt v 32) | None \<Rightarrow> 0) \<and>
    rf = (case map_of params ''replicationFactor'' of Some v \<Rightarrow> num_value (ParseInt v 16) | None \<Rightarrow> 0) \<and>
    map_of cfgs = (\<lambda>k. map_option TrimSpace (map_of params (''config.'' @ k)))"
  using translate_from_valid [of params 0 0 "[]"] valid_int_param [OF assms(1)] assms
  by (auto simp: translateParameters_def kadm_ValidateParameters_def int_param_def)

theorem validated_parameters_translate_witness:
  "\<exists>parts rf cfgs. translateParameters [(''partitions'', ''12''), (''config.retention.ms'', '' 1000 '')] = Inr (parts, rf, cfgs) \<and>
    0 \<le> parts \<and> map_of cfgs ''retention.ms'' = Some (TrimSpace '' 1000 '')"
proof -
  have "kadm_ValidateParameters [(''partitions'', ''12''), (''config.retention.ms'', '' 1000 '')] = None"
    by code_simp
  from validated_parameters_translate [OF this] show ?thesis by fastforce
qed

text \<open>
  The admission check of \<open>partitions\<close> and \<open>replicationFactor\<close> compares the text with \<open>0\<close>,
  not the number: \<open>00\<close> passes as a positive partition count and \<open>-0\<close> as a non-zero
  replication factor, and both translate to zero, the value that stands for an omitted
  parameter.
\<close>

theorem zero_spellings_admitted:
  "kadm_ValidateParameters [(''partitions'', ''00''), (''replicationFactor'', ''-0'')] = None \<and>
   translateParameters [(''partitions'', ''00''), (''replicationFactor'', ''-0'')] = translateParameters []"
  by code_simp


section \<open>The config delta\<close>

text \<open>The value the broker last acknowledged for a topic's key.\<close>

definition accepted_value :: "accepted \<Rightarrow> string \<Rightarrow> string \<Rightarrow> string option" where
  "accepted_value acc topic k = Option.bind (acc topic) (\<lambda>keys. map_option acValue (keys k))"

lemma acceptedUnreported_value:
  assumes "acceptedUnreported topic k v acc = (b, acc')"
  shows "b \<longleftrightarrow> accepted_value acc topic k = Some v" "accepted_value acc' = accepted_value acc"
proof -
  show "b \<longleftrightarrow> accepted_value acc topic k = Some v"
    using assms by (auto simp: acceptedUnreported_def accepted_value_def split: option.splits if_splits)
  have "accepted_value acc' t j = accepted_value acc t j" for t j
    using assms
    by (cases "acc topic"; cases "the (acc topic) k")
       (auto simp: acceptedUnreported_def accepted_value_def split: if_splits)
  then show "accepted_value acc' = accepted_value acc" by (simp add: fun_eq_iff)
qed

lemma rememberAccepted_value:
  assumes "wf_map alters"
  shows "accepted_value (rememberAccepted topic alters acc) topic k =
    (case map_of alters k of Some v \<Rightarrow> Some v | None \<Rightarrow> accepted_value acc topic k)"
proof -
  have "map_option acValue (fold (\<lambda>(n, v) keys. keys(n \<mapsto> \<lparr>acValue = v, acLogged = False\<rparr>)) alters m k) =
      (case map_of alters k of Some v \<Rightarrow> Some v | None \<Rightarrow> map_option acValue (m k))" for m
    using assms
  proof (induction alters arbitrary: m)
    case (Cons a alters)
    obtain n v where a: "a = (n, v)" by fastforce
    with Cons.prems have "n = k \<Longrightarrow> map_of alters k = None" "wf_map alters"
      by (auto simp: map_of_eq_None_iff)
    with Cons.IH show ?case by (cases "map_of alters k") (auto simp: a simp del: map_option_eq_Some)
  qed simp
  then show ?thesis
    by (auto simp: rememberAccepted_def accepted_value_def split: option.splits)
qed

text \<open>A wanted entry is due when the broker reports another value, or none and did not accept this one.\<close>

definition due :: "string \<Rightarrow> topicView \<Rightarrow> accepted \<Rightarrow> string \<times> string \<Rightarrow> bool" where
  "due topic view acc = (\<lambda>(k, v). case map_of (tvConfigs view) k of
     Some cur \<Rightarrow> cur \<noteq> v | None \<Rightarrow> accepted_value acc topic k \<noteq> Some v)"

lemma alter_loop_spec:
  "alter_loop topic view cfgs acc = (alters, acc') \<Longrightarrow>
   alters = filter (due topic view acc) cfgs \<and> accepted_value acc' = accepted_value acc"
proof (induction cfgs arbitrary: acc alters acc')
  case (Cons kv cfgs)
  obtain k v where kv: "kv = (k, v)" by fastforce
  show ?case
  proof (cases "map_of (tvConfigs view) k")
    case None
    obtain b acc1 where a: "acceptedUnreported topic k v acc = (b, acc1)" by fastforce
    obtain al ac where r: "alter_loop topic view cfgs acc1 = (al, ac)" by fastforce
    have "due topic view acc1 = due topic view acc"
      unfolding due_def acceptedUnreported_value(2) [OF a] ..
    with Cons.IH [OF r] acceptedUnreported_value [OF a] Cons.prems a r None show ?thesis
      by (cases b) (auto simp: kv due_def)
  next
    case (Some cur)
    obtain al ac where r: "alter_loop topic view cfgs acc = (al, ac)" by fastforce
    with Some Cons.prems Cons.IH [OF r] show ?thesis
      by (auto simp: kv due_def split: if_splits)
  qed
qed simp


section \<open>Alignment of an existing topic\<close>

text \<open>The changes a call of the trace amounts to: those its answer acknowledges.\<close>

fun changes_of :: "topicView \<Rightarrow> kevent \<Rightarrow> Change list" where
  "changes_of view (PartitionsUpdated name n (Inr (Some (Some e)))) = []"
| "changes_of view (PartitionsUpdated name n (Inr r)) =
     [\<lparr>chReason = ReasonPartitionsAdded, chParameter = ''partitions'', chOld = Itoa (tvPartitions view), chNew = Itoa n\<rparr>]"
| "changes_of view (ConfigsAltered name alters (Inr rs)) =
     (if first_err rs = None
      then map (\<lambda>(k, v). \<lparr>chReason = ReasonTopicConfigChanged, chParameter = ''config.'' @ k,
              chOld = get0 (tvConfigs view) k, chNew = v\<rparr>) (sort_key fst alters)
      else [])"
| "changes_of view _ = []"

text \<open>What alignment may ask of the broker, given the topic it found and the accepted alters.\<close>

fun align_call :: "string \<Rightarrow> topicView \<Rightarrow> translated \<Rightarrow> accepted \<Rightarrow> kevent \<Rightarrow> bool" where
  "align_call topic view (parts, rf, cfgs) acc (PartitionsUpdated name n _) \<longleftrightarrow>
     name = topic \<and> n = parts \<and> tvPartitions view < n"
| "align_call topic view (parts, rf, cfgs) acc (ConfigsAltered name alters _) \<longleftrightarrow>
     name = topic \<and> alters \<noteq> [] \<and> alters = filter (due topic view acc) cfgs \<and>
     \<not> (rf > 0 \<and> tvRf view \<noteq> 0 \<and> tvRf view \<noteq> rf) \<and> \<not> (parts > 0 \<and> parts < tvPartitions view)"
| "align_call topic view want acc _ \<longleftrightarrow> False"

text \<open>A configuration is settled when every wanted entry is reported or was acknowledged.\<close>

definition config_settled :: "string \<Rightarrow> topicView \<Rightarrow> smap \<Rightarrow> accepted \<Rightarrow> bool" where
  "config_settled topic view cfgs acc \<longleftrightarrow> (\<forall>(k, v) \<in> set cfgs.
     map_of (tvConfigs view) k = Some v \<or> accepted_value acc topic k = Some v)"

lemma pass_modify_export [pass_rules]:
  "Q () [] (m\<lparr>kmExport := f (kmExport m)\<rparr>) \<Longrightarrow> pass m (modify_export f) Q"
  unfolding modify_export_def by (intro pass_rules) simp

lemma pass_modify_accepted [pass_rules]:
  "Q () [] (m\<lparr>kmAccepted := f (kmAccepted m)\<rparr>) \<Longrightarrow> pass m (modify_accepted f) Q"
  unfolding modify_accepted_def by (intro pass_rules) simp

lemma pass_align_partitions:
  "pass m (align_partitions B req view parts) (\<lambda>a l m'.
     (\<forall>e \<in> set l. \<exists>r. e = PartitionsUpdated (erName req) parts r \<and> tvPartitions view < parts) \<and>
     fst a = concat (map (changes_of view) l) \<and> kmAccepted m' = kmAccepted m \<and>
     (parts > 0 \<and> parts < tvPartitions view \<longrightarrow> l = [] \<and> (\<exists>t. snd a = Some (ErrParameterDrift t))))"
  unfolding align_partitions_def by (intro pass_rules) auto

lemma map_of_filter_wf:
  "wf_map m \<Longrightarrow> map_of (filter P m) k = (case map_of m k of Some v \<Rightarrow> if P (k, v) then Some v else None | None \<Rightarrow> None)"
  by (induction m) (auto split: option.splits simp: map_of_eq_None_iff rev_image_eqI)

lemma wf_map_filter: "wf_map m \<Longrightarrow> wf_map (filter P m)"
  by (simp add: wf_map_def distinct_map_filter)

lemma wf_map_sort_key [simp]: "wf_map (sort_key f m) \<longleftrightarrow> wf_map m"
  unfolding wf_map_def by (metis distinct_map distinct_sort set_sort)

lemma map_of_sort_key [simp]: "wf_map m \<Longrightarrow> map_of (sort_key f m) = map_of m"
  by (rule map_of_inject_set [THEN iffD2]) (simp_all add: wf_map_def [symmetric])

lemma remembered_settled:
  assumes "wf_map cfgs" and "accepted_value acc' = accepted_value acc"
    and "alters = filter (due topic view acc) cfgs"
  shows "config_settled topic view cfgs (rememberAccepted topic (sort_key fst alters) acc')"
  unfolding config_settled_def
proof clarify
  fix k v assume kv: "(k, v) \<in> set cfgs" and "accepted_value (rememberAccepted topic (sort_key fst alters) acc') topic k \<noteq> Some v"
  moreover have "accepted_value (rememberAccepted topic (sort_key fst alters) acc') topic k =
      (if due topic view acc (k, v) then Some v else accepted_value acc topic k)"
    using assms map_of_wf_in [THEN iffD2, OF assms(1) kv]
    by (simp add: rememberAccepted_value wf_map_filter map_of_filter_wf)
  ultimately show "map_of (tvConfigs view) k = Some v"
    by (auto simp: due_def split: if_splits option.splits)
qed

lemma nothing_due_settled:
  "\<lbrakk>[] = filter (due topic view acc) cfgs; accepted_value acc' = accepted_value acc\<rbrakk> \<Longrightarrow> config_settled topic view cfgs acc'"
  by (fastforce simp: config_settled_def due_def filter_empty_conv eq_commute [of "[]"] split: option.splits)

lemma pass_align_configs:
  assumes "wf_map cfgs"
  shows "pass m (align_configs B pf req view cfgs) (\<lambda>a l m'.
     (\<forall>e \<in> set l. \<exists>alters r. e = ConfigsAltered (erName req) alters r \<and> alters \<noteq> [] \<and>
        alters = filter (due (erName req) view (kmAccepted m)) cfgs) \<and>
     fst a = concat (map (changes_of view) l) \<and>
     (snd a = None \<longrightarrow> config_settled (erName req) view cfgs (kmAccepted m')))"
proof -
  obtain alters acc where loop: "alter_loop (erName req) view cfgs (kmAccepted m) = (alters, acc)" by fastforce
  note spec = alter_loop_spec [OF this]
  note settled = remembered_settled [OF assms, of acc "kmAccepted m" alters "erName req" view]
    nothing_due_settled [of "erName req" view "kmAccepted m" cfgs acc]
  show ?thesis
    unfolding align_configs_def
    by (intro pass_rules) (use loop spec settled in \<open>auto simp: Let_def\<close>)
qed

lemma pass_alignTopic:
  assumes "wf_map cfgs"
  shows "pass m (alignTopic B pf req view (parts, rf, cfgs)) (\<lambda>a l m'.
     (\<forall>e \<in> set l. align_call (erName req) view (parts, rf, cfgs) (kmAccepted m) e) \<and>
     fst a = concat (map (changes_of view) l) \<and>
     (snd a = None \<longrightarrow> config_settled (erName req) view cfgs (kmAccepted m')) \<and>
     (parts > 0 \<and> parts < tvPartitions view \<longrightarrow> l = [] \<and> (\<exists>t. snd a = Some (ErrParameterDrift t))))"
  (is "pass m _ ?Q")
proof -
  let ?drift = "ErrParameterDrift (Sprintf ''replicationFactor: current=%d requested=%d (cannot be changed in place; needs partition reassignment)''
                  [AInt (tvRf view), AInt rf])"
  have rest: "pass m1 (case err of Some e \<Rightarrow> ret (changes, Some e)
     | None \<Rightarrow> if rf > 0 \<and> tvRf view \<noteq> 0 \<and> tvRf view \<noteq> rf then ret (changes, Some ?drift)
       else do { (changes', err) \<leftarrow> align_configs B pf req view cfgs; ret (changes @ changes', err) })
     (\<lambda>b l'. ?Q b (l @ l'))"
    if "\<forall>e \<in> set l. \<exists>r. e = PartitionsUpdated (erName req) parts r \<and> tvPartitions view < parts"
      "changes = concat (map (changes_of view) l)" "kmAccepted m1 = kmAccepted m"
      "parts > 0 \<and> parts < tvPartitions view \<longrightarrow> l = [] \<and> (\<exists>t. err = Some (ErrParameterDrift t))"
    for changes err l m1
  proof -
    have l: "\<forall>e \<in> set l. align_call (erName req) view (parts, rf, cfgs) (kmAccepted m) e"
      using that(1) by auto
    show ?thesis
    proof (cases err)
      case (Some e)
      with l that show ?thesis by (auto intro!: pass_rules)
    next
      case None
      with that have fine: "\<not> (parts > 0 \<and> parts < tvPartitions view)" by auto
      show ?thesis
        unfolding None option.case
        by (intro pass_rules pass_mono [OF pass_align_configs [OF assms]])
           (use l that(2,3) fine in \<open>auto split: prod.splits intro!: pass_rules\<close>)
    qed
  qed
  show ?thesis
    unfolding alignTopic_def Let_def prod.case
    by (intro pass_bind pass_modify_export pass_mono [OF pass_align_partitions] pass_case_prod, simp only: append.simps, rule rest) auto
qed


section \<open>EnsureBuckety\<close>

lemma translate_from_wf: "\<lbrakk>translate_from (p, r, c) params = Inr (parts, rf, cfgs); wf_map c\<rbrakk> \<Longrightarrow> wf_map cfgs"
  by (induction "(p, r, c)" params arbitrary: p r c rule: translate_from.induct)
     (auto split: if_splits num_result.splits)

lemma translateParameters_wf: "translateParameters params = Inr (parts, rf, cfgs) \<Longrightarrow> wf_map cfgs"
  unfolding translateParameters_def by (erule translate_from_wf) simp

lemma pass_describeTopic: "pass m (describeTopic B name) (\<lambda>_ l m'. l = [] \<and> m' = m)"
  unfolding describeTopic_def by (intro pass_rules) simp_all

lemma pass_createTopic:
  "pass m (createTopic B name parts rf cfgs) (\<lambda>_ l m'. m' = m \<and>
     (\<exists>r. l = [TopicCreated name (if parts = 0 then -1 else parts) (if rf = 0 then -1 else rf) cfgs r]))"
  unfolding createTopic_def by (intro pass_rules) simp_all

text \<open>The run whose first part calls nothing and leaves the memory as it was.\<close>

lemma passD_bind:
  assumes "\<And>m. pass m p (\<lambda>_ l m'. l = [] \<and> m' = m)" and "pass (memory s) (f (pass_out p s)) Q"
  shows "Q (pass_out (State_Monad.bind p f) s) (pass_log (State_Monad.bind p f) s) (pass_mem (State_Monad.bind p f) s)"
proof -
  obtain a s1 where r: "run_state p s = (a, s1)" by fastforce
  with assms(1) [of "memory s", unfolded pass_def, THEN spec, of s]
  have "trace s1 = trace s" "memory s1 = memory s" by simp_all
  with r assms(2) passD [of s1 "f a" Q] show ?thesis
    by (simp add: pass_out_def pass_log_def pass_mem_def)
qed

lemma ensure_existing:
  assumes "translateParameters (erParameters req) = Inr (parts, rf, cfgs)"
    and "pass_out (describeTopic B (erName req)) s = Inr (Some view)"
    and "\<And>m. kmAccepted m = kmAccepted (memory s) \<Longrightarrow> pass m (alignTopic B pf req view (parts, rf, cfgs)) Q"
  shows "Q (pass_out (kadm_EnsureBuckety B pf req) s) (pass_log (kadm_EnsureBuckety B pf req) s) (pass_mem (kadm_EnsureBuckety B pf req) s)"
  unfolding kadm_EnsureBuckety_def assms(1) sum.case prod.case
  by (rule passD_bind [OF pass_describeTopic], unfold assms(2) sum.case option.case, intro pass_rules)
     (simp add: assms(3))

text \<open>
  C26. \<open>EnsureBuckety\<close> never destroys: it makes no call when the parameters do not translate or
  the topic cannot be described; a missing topic gets one create call with the translated
  parameters (zero standing for the broker's default, \<open>-1\<close>); an existing topic is asked at most
  for more partitions than it has and for the config entries that are due, and a request for
  fewer partitions makes no call at all and answers \<open>ErrParameterDrift\<close>.
\<close>

theorem ensure_topic_calls:
  "case translateParameters (erParameters req) of
     Inl e \<Rightarrow> pass_log (kadm_EnsureBuckety B pf req) s = [] \<and> pass_out (kadm_EnsureBuckety B pf req) s = ([], Some e)
   | Inr (parts, rf, cfgs) \<Rightarrow>
       (case pass_out (describeTopic B (erName req)) s of
          Inl e \<Rightarrow> pass_log (kadm_EnsureBuckety B pf req) s = [] \<and> pass_out (kadm_EnsureBuckety B pf req) s = ([], Some e)
        | Inr None \<Rightarrow> \<exists>r. pass_log (kadm_EnsureBuckety B pf req) s =
            [TopicCreated (erName req) (if parts = 0 then -1 else parts) (if rf = 0 then -1 else rf) cfgs r]
        | Inr (Some view) \<Rightarrow>
            if 0 < parts \<and> parts < tvPartitions view
            then pass_log (kadm_EnsureBuckety B pf req) s = [] \<and>
              (\<exists>t. snd (pass_out (kadm_EnsureBuckety B pf req) s) = Some (ErrParameterDrift t))
            else list_all (align_call (erName req) view (parts, rf, cfgs) (kmAccepted (memory s)))
              (pass_log (kadm_EnsureBuckety B pf req) s))"
proof (cases "translateParameters (erParameters req)")
  case (Inl e)
  then show ?thesis
    using passD [of s "kadm_EnsureBuckety B pf req" "\<lambda>a l _. l = [] \<and> a = ([], Some e)"]
    by (simp add: kadm_EnsureBuckety_def pass_ret)
next
  case (Inr want)
  obtain parts rf cfgs where want: "want = (parts, rf, cfgs)" by (cases want)
  note tr = Inr [unfolded want]
  have ens: "Q (pass_out (kadm_EnsureBuckety B pf req) s) (pass_log (kadm_EnsureBuckety B pf req) s)"
    if "pass (memory s) (case pass_out (describeTopic B (erName req)) s of
            Inl e \<Rightarrow> ret ([], Some e)
          | Inr None \<Rightarrow> do {
              modify_accepted (forgetAccepted (erName req));
              err \<leftarrow> createTopic B (erName req) parts rf cfgs;
              ret ([], err) }
          | Inr (Some existing) \<Rightarrow> do {
              modify_export (recordEffective pf (erNamespace req) (erBucketyName req) (erName req) existing);
              alignTopic B pf req existing (parts, rf, cfgs) }) (\<lambda>a l _. Q a l)" for Q
    unfolding kadm_EnsureBuckety_def tr sum.case prod.case
    by (rule passD_bind [OF pass_describeTopic, where Q = "\<lambda>a l _. Q a l"]) (rule that)
  show ?thesis
  proof (cases "pass_out (describeTopic B (erName req)) s")
    case (Inl e)
    then show ?thesis using ens [of "\<lambda>a l. l = [] \<and> a = ([], Some e)"] tr by (simp add: pass_ret)
  next
    case (Inr d)
    show ?thesis
    proof (cases d)
      case None
      have "\<exists>r. pass_log (kadm_EnsureBuckety B pf req) s =
          [TopicCreated (erName req) (if parts = 0 then -1 else parts) (if rf = 0 then -1 else rf) cfgs r]"
        by (rule ens, unfold Inr None sum.case option.case)
           (intro pass_rules pass_mono [OF pass_createTopic], auto)
      with Inr None tr show ?thesis by simp
    next
      case (Some view)
      note al = pass_alignTopic [OF translateParameters_wf [OF tr], of _ B pf req view parts rf]
      have "(\<forall>e \<in> set (pass_log (kadm_EnsureBuckety B pf req) s). align_call (erName req) view (parts, rf, cfgs) (kmAccepted (memory s)) e) \<and>
          (parts > 0 \<and> parts < tvPartitions view \<longrightarrow> pass_log (kadm_EnsureBuckety B pf req) s = [] \<and>
            (\<exists>t. snd (pass_out (kadm_EnsureBuckety B pf req) s) = Some (ErrParameterDrift t)))"
        by (rule ens, unfold Inr Some sum.case option.case) (intro pass_rules pass_mono [OF al], auto)
      with Inr Some tr show ?thesis by (simp add: list_all_iff)
    qed
  qed
qed


section \<open>A broker to evaluate on\<close>

text \<open>A broker with one two-partition topic that reports one config key and accepts every request.\<close>

definition demo_broker :: "unit broker" where
  "demo_broker =
     \<lparr>brMetadata = (\<lambda>name w. (Inr [(Some name, None)], w)),
      brListTopics = (\<lambda>_ w. (Inr (Some (Inr [1, 1])), w)),
      brDescribeTopicConfigs = (\<lambda>_ w. (Inr [Inr [(''retention.ms'', Some ''5'', DefaultConfig)]], w)),
      brListStartOffsets = (\<lambda>name w. (Inr ([\<lparr>loTopic = name, loPartition = 0, loOffset = 7\<rparr>], None), w)),
      brListEndOffsets = (\<lambda>name w. (Inr ([\<lparr>loTopic = name, loPartition = 0, loOffset = 7\<rparr>], None), w)),
      brCreateTopic = (\<lambda>_ _ _ _ w. ((None, None), w)),
      brDeleteTopics = (\<lambda>_ w. (Inr [None], w)),
      brUpdatePartitions = (\<lambda>_ _ w. (Inr (Some None), w)),
      brAlterTopicConfigs = (\<lambda>_ _ w. (Inr [None], w))\<rparr>"

definition demo_topic :: topicView where
  "demo_topic = \<lparr>tvPartitions = 2, tvRf = 1, tvConfigs = [(''retention.ms'', ''5'')], tvSources = [(''retention.ms'', DefaultConfig)]\<rparr>"

definition demo_request :: EnsureRequest where
  "demo_request = \<lparr>erName = ''t'', erParameters = [(''partitions'', ''3''), (''config.min.compaction.lag.ms'', ''9'')],
     erNamespace = ''ns'', erBucketyName = ''b''\<rparr>"

definition demo_kadm :: "(unit, kevent, int kmem) sys" where
  "demo_kadm = \<lparr>world = (), trace = [], memory = \<lparr>kmAccepted = Map.empty, kmExport = empty_export\<rparr>\<rparr>"

lemma demo_translate:
  "translateParameters (erParameters demo_request) = Inr (3, 0, [(''min.compaction.lag.ms'', ''9'')])"
  by code_simp

lemma demo_describe: "pass_out (describeTopic demo_broker (erName demo_request)) demo_kadm = Inr (Some demo_topic)"
  by (simp add: describeTopic_def demo_broker_def demo_topic_def demo_request_def demo_kadm_def to_int_def Let_def pass_run_defs)

lemma demo_ensure:
  "snd (pass_out (kadm_EnsureBuckety demo_broker pf demo_request) demo_kadm) = None"
  "pass_log (kadm_EnsureBuckety demo_broker pf demo_request) demo_kadm =
     [PartitionsUpdated ''t'' 3 (Inr (Some None)), ConfigsAltered ''t'' [(''min.compaction.lag.ms'', ''9'')] (Inr [None])]"
  unfolding kadm_EnsureBuckety_def demo_translate
  by (simp_all add: describeTopic_def alignTopic_def align_partitions_def align_configs_def acceptedUnreported_def
        modify_export_def modify_accepted_def demo_broker_def demo_request_def demo_kadm_def to_int_def Let_def pass_run_defs)

text \<open>
  C27. Changes are reported if and only if the broker acknowledged them: the list handed to
  \<open>OnChange\<close> is, in order, what the answers of the calls of this pass confirm. A rejected
  partition increase is not reported, and an alter is reported key by key only when no
  resource of its answer carries an error.
\<close>

theorem reported_changes_acknowledged:
  assumes "translateParameters (erParameters req) = Inr want"
    and "pass_out (describeTopic B (erName req)) s = Inr (Some view)"
  shows "fst (pass_out (kadm_EnsureBuckety B pf req) s) =
    concat (map (changes_of view) (pass_log (kadm_EnsureBuckety B pf req) s))"
proof -
  obtain parts rf cfgs where want: "want = (parts, rf, cfgs)" by (cases want)
  note tr = assms(1) [unfolded want]
  show ?thesis
    by (rule ensure_existing [OF tr assms(2), where Q = "\<lambda>a l _. fst a = concat (map (changes_of view) l)"])
       (rule pass_mono [OF pass_alignTopic [OF translateParameters_wf [OF tr]]], simp)
qed

theorem reported_changes_acknowledged_witness:
  "fst (pass_out (kadm_EnsureBuckety demo_broker (\<lambda>_. None) demo_request) demo_kadm) =
    concat (map (changes_of demo_topic) (pass_log (kadm_EnsureBuckety demo_broker (\<lambda>_. None) demo_request) demo_kadm))"
  by (rule reported_changes_acknowledged [OF demo_translate demo_describe])

text \<open>
  An acknowledged config alter is not repeated: once \<open>EnsureBuckety\<close> succeeded, a later
  pass of the same request with that memory alters nothing, as long as the broker reports
  each wanted entry at its value, or does not report it and did not report it at its value
  before either. Brokers that accept keys they never report back therefore see one alter.
\<close>

theorem accepted_config_not_reapplied:
  assumes tr: "translateParameters (erParameters req) = Inr (parts, rf, cfgs)"
    and d: "pass_out (describeTopic B (erName req)) s = Inr (Some view)"
    and ok: "snd (pass_out (kadm_EnsureBuckety B pf req) s) = None"
    and mem: "memory s' = pass_mem (kadm_EnsureBuckety B pf req) s"
    and d': "pass_out (describeTopic B (erName req)) s' = Inr (Some view')"
    and rep: "\<forall>(k, v) \<in> set cfgs. map_of (tvConfigs view') k = Some v \<or>
      map_of (tvConfigs view') k = None \<and> map_of (tvConfigs view) k \<noteq> Some v"
  shows "ConfigsAltered name alters r \<notin> set (pass_log (kadm_EnsureBuckety B pf req) s')"
proof -
  note al = pass_alignTopic [OF translateParameters_wf [OF tr]]
  have "config_settled (erName req) view cfgs (kmAccepted (memory s'))"
    by (rule ensure_existing [OF tr d, where Q = "\<lambda>a l m'. snd a = None \<longrightarrow> config_settled (erName req) view cfgs (kmAccepted m')",
          THEN mp [OF _ ok], folded mem]) (rule pass_mono [OF al], simp)
  then have "filter (due (erName req) view' (kmAccepted (memory s'))) cfgs = []"
    using rep by (fastforce simp: config_settled_def due_def filter_empty_conv split: option.splits)
  moreover have "\<forall>e \<in> set (pass_log (kadm_EnsureBuckety B pf req) s').
      align_call (erName req) view' (parts, rf, cfgs) (kmAccepted (memory s')) e"
    by (rule ensure_existing [OF tr d', where Q = "\<lambda>a l m'. \<forall>e \<in> set l. align_call (erName req) view' (parts, rf, cfgs) (kmAccepted (memory s')) e"])
       (rule pass_mono [OF al], simp)
  ultimately show ?thesis by fastforce
qed

theorem accepted_config_not_reapplied_witness:
  "\<exists>r. ConfigsAltered ''t'' [(''min.compaction.lag.ms'', ''9'')] r
      \<in> set (pass_log (kadm_EnsureBuckety demo_broker (\<lambda>_. None) demo_request) demo_kadm) \<and>
    ConfigsAltered ''t'' [(''min.compaction.lag.ms'', ''9'')] r
      \<notin> set (pass_log (kadm_EnsureBuckety demo_broker (\<lambda>_. None) demo_request)
           (demo_kadm\<lparr>memory := pass_mem (kadm_EnsureBuckety demo_broker (\<lambda>_. None) demo_request) demo_kadm\<rparr>))"
proof -
  let ?E = "kadm_EnsureBuckety demo_broker (\<lambda>_. None) demo_request"
  let ?s = "demo_kadm\<lparr>memory := pass_mem ?E demo_kadm\<rparr>"
  have "ConfigsAltered ''t'' [(''min.compaction.lag.ms'', ''9'')] (Inr [None]) \<in> set (pass_log ?E demo_kadm)"
    by (simp add: demo_ensure)
  moreover have "ConfigsAltered ''t'' [(''min.compaction.lag.ms'', ''9'')] (Inr [None]) \<notin> set (pass_log ?E ?s)"
  proof (rule accepted_config_not_reapplied [OF demo_translate demo_describe])
    show "snd (pass_out ?E demo_kadm) = None" by (rule demo_ensure)
    show "pass_out (describeTopic demo_broker (erName demo_request)) ?s = Inr (Some demo_topic)"
      by (simp add: describeTopic_def demo_broker_def demo_topic_def demo_request_def demo_kadm_def to_int_def Let_def pass_run_defs)
  qed (simp_all add: demo_topic_def)
  ultimately show ?thesis by blast
qed


section \<open>Inspection and deletion\<close>

lemma find_topic_find:
  "find_topic name topics =
     (case find (\<lambda>t. fst t = Some name) topics of
        None \<Rightarrow> Inr False
      | Some (_, None) \<Rightarrow> Inr True
      | Some (_, Some e) \<Rightarrow> if UnknownTopicOrPartition e then Inr False
          else Inl (Wrapf ''kadm: metadata for topic %q: %w'' [AStr name] e))"
  by (induction name topics rule: find_topic.induct) (auto split: option.splits)

lemma all_expired_iff:
  "all_expired starts ends \<longleftrightarrow> (\<forall>e \<in> set ends. \<exists>s.
     find (\<lambda>s. loTopic s = loTopic e \<and> loPartition s = loPartition e) starts = Some s \<and> loOffset e \<le> loOffset s)"
  by (auto simp: all_expired_def list_all_iff split: option.splits)

text \<open>
  The adoption decision rests on the brokers' own answer. \<open>InspectBuckety\<close> changes nothing;
  when it answers, a topic is absent exactly when the metadata answer has no entry for the
  name or an unknown-topic error, and present when its entry carries no error; it is empty only
  if both offset listings succeeded and no partition's end offset lies beyond its start.
\<close>

theorem inspection_exact:
  assumes "pass_out (kadm_InspectBuckety B name) s = Inr i"
  shows "pass_log (kadm_InspectBuckety B name) s = [] \<and>
    (\<exists>topics w. brMetadata B name (world s) = (Inr topics, w) \<and>
       (case find (\<lambda>t. fst t = Some name) topics of
          None \<Rightarrow> \<not> Exists i
        | Some (_, Some e) \<Rightarrow> UnknownTopicOrPartition e \<and> \<not> Exists i
        | Some (_, None) \<Rightarrow> Exists i \<and>
            (\<exists>starts w1 ends w2. brListStartOffsets B name w = (Inr (starts, None), w1) \<and>
               brListEndOffsets B name w1 = (Inr (ends, None), w2) \<and>
               (Empty i \<longleftrightarrow> (\<forall>e \<in> set ends. \<exists>st. find (\<lambda>st. loTopic st = loTopic e \<and> loPartition st = loPartition e) starts = Some st \<and>
                  loOffset e \<le> loOffset st)))))"
proof -
  have "pass_log (kadm_InspectBuckety B name) s = []"
    by (rule passD [where Q = "\<lambda>_ l _. l = []"])
       (auto simp: kadm_InspectBuckety_def topicExists_def intro!: pass_rules split: bool.splits)
  moreover obtain r w where "brMetadata B name (world s) = (r, w)" by fastforce
  moreover obtain r1 w1 where "brListStartOffsets B name w = (r1, w1)" by fastforce
  moreover obtain r2 w2 where "brListEndOffsets B name w1 = (r2, w2)" by fastforce
  ultimately show ?thesis
    using assms
    by (auto simp: kadm_InspectBuckety_def topicExists_def offsets_err_def find_topic_find all_expired_iff pass_run_defs
        split: sum.splits option.splits if_splits prod.splits bool.splits)
qed

theorem inspection_exact_witness:
  "\<exists>i. pass_out (kadm_InspectBuckety demo_broker ''t'') demo_kadm = Inr i \<and> Exists i \<and> Empty i \<and>
    pass_log (kadm_InspectBuckety demo_broker ''t'') demo_kadm = []"
proof -
  have i: "pass_out (kadm_InspectBuckety demo_broker ''t'') demo_kadm = Inr \<lparr>Exists = True, Empty = True\<rparr>"
    by (simp add: kadm_InspectBuckety_def topicExists_def offsets_err_def all_expired_def demo_broker_def demo_kadm_def pass_run_defs)
  from inspection_exact [OF i] i show ?thesis by simp
qed

text \<open>
  \<open>DeleteBuckety\<close> makes one delete call, for the requested topic, and succeeds exactly when
  the call answered and every per-topic answer is success or an unknown topic; in both cases
  what was remembered of accepted alters is dropped, so a topic that is created again is
  aligned from scratch.
\<close>

theorem delete_idempotent:
  "\<exists>r. pass_log (kadm_DeleteBuckety B req) s = [TopicDeleted (drName req) r] \<and>
     (pass_out (kadm_DeleteBuckety B req) s = None \<longleftrightarrow>
       (case r of Inl _ \<Rightarrow> False
        | Inr rs \<Rightarrow> list_all (\<lambda>x. case x of None \<Rightarrow> True | Some e \<Rightarrow> UnknownTopicOrPartition e) rs)) \<and>
     kmAccepted (pass_mem (kadm_DeleteBuckety B req) s) = (kmAccepted (memory s))(drName req := None)"
proof -
  have res: "delete_result name rs = None \<longleftrightarrow>
      list_all (\<lambda>x. case x of None \<Rightarrow> True | Some e \<Rightarrow> UnknownTopicOrPartition e) rs" for name rs
    by (induction name rs rule: delete_result.induct) auto
  show ?thesis
    by (rule passD [where Q = "\<lambda>a l m'. \<exists>r. l = [TopicDeleted (drName req) r] \<and>
          (a = None \<longleftrightarrow> (case r of Inl _ \<Rightarrow> False
             | Inr rs \<Rightarrow> list_all (\<lambda>x. case x of None \<Rightarrow> True | Some e \<Rightarrow> UnknownTopicOrPartition e) rs)) \<and>
          kmAccepted m' = (kmAccepted (memory s))(drName req := None)"], unfold kadm_DeleteBuckety_def, intro pass_rules)
       (auto simp: res forgetAccepted_def split: sum.splits)
qed

end
