(* ===== verification/Go_Crypto.thy ===== *)
theory Go_Crypto
  imports Go_Prelude "HOL-Library.Word"
begin

text \<open>
  The parts of Go's \<open>crypto/sha256\<close>, \<open>encoding/base32\<close> and \<open>encoding/hex\<close> the drivers derive names
  and cache keys with, and the decoder of \<open>encoding/base64\<close>. Bytes are natural numbers below 256, hash words are 32 bit words whose
  addition wraps.
\<close>

unbundle bit_operations_syntax

section \<open>SHA-256\<close>

text \<open>
  The constants are given by the standard's description of them: the first 32 bits of the
  fractional parts of the cube roots of the first 64 primes, and of the square roots of the
  first eight. \<open>root_bits e n k r\<close> extends \<open>r\<close>, bit by bit from \<open>k - 1\<close> down, to the integer \<open>e\<close>-th root of \<open>n\<close>.
\<close>

fun root_bits :: "nat \<Rightarrow> int \<Rightarrow> nat \<Rightarrow> int \<Rightarrow> int" where
  "root_bits e n 0 r = r"
| "root_bits e n (Suc k) r = root_bits e n k (if (r + 2 ^ k) ^ e \<le> n then r + 2 ^ k else r)"

definition fraction_bits :: "nat \<Rightarrow> int \<Rightarrow> 32 word" where
  "fraction_bits e p = word_of_int (root_bits e (p * 2 ^ (32 * e)) 40 0)"

definition primes_below :: "nat \<Rightarrow> int list" where
  "primes_below m = map int (filter (\<lambda>n. list_all (\<lambda>d. n mod d \<noteq> 0) [2..<n]) [2..<m])"

definition sha_K :: "32 word list" where
  "sha_K = map (fraction_bits 3) (primes_below 312)"

type_synonym sha_state = "32 word list"

definition sha_init :: sha_state where
  "sha_init = map (fraction_bits 2) (primes_below 20)"

definition sha_rot :: "nat \<Rightarrow> nat \<Rightarrow> nat \<Rightarrow> 32 word \<Rightarrow> 32 word" where
  "sha_rot a b c x = word_rotr a x XOR word_rotr b x XOR word_rotr c x"

definition sha_shift :: "nat \<Rightarrow> nat \<Rightarrow> nat \<Rightarrow> 32 word \<Rightarrow> 32 word" where
  "sha_shift a b c x = word_rotr a x XOR word_rotr b x XOR drop_bit c x"

definition sha_word :: "nat list \<Rightarrow> 32 word" where
  "sha_word bs = of_nat (foldl (\<lambda>n b. n * 256 + b) 0 bs)"

definition sha_extend :: "32 word list \<Rightarrow> 32 word list" where
  "sha_extend w =
     (let t = length w in
      w @ [sha_shift 17 19 10 (w ! (t - 2)) + w ! (t - 7) + sha_shift 7 18 3 (w ! (t - 15)) + w ! (t - 16)])"

definition sha_schedule :: "nat list \<Rightarrow> 32 word list" where
  "sha_schedule block =
     (sha_extend ^^ 48) (map (\<lambda>i. sha_word (take 4 (drop (4 * i) block))) [0..<16])"

definition sha_round :: "32 word \<times> 32 word \<Rightarrow> sha_state \<Rightarrow> sha_state" where
  "sha_round = (\<lambda>(k, w) s.
     let a = s ! 0; b = s ! 1; c = s ! 2; d = s ! 3; e = s ! 4; f = s ! 5; g = s ! 6; h = s ! 7;
         t1 = h + sha_rot 6 11 25 e + ((e AND f) XOR (NOT e AND g)) + k + w;
         t2 = sha_rot 2 13 22 a + ((a AND b) XOR (a AND c) XOR (b AND c))
     in [t1 + t2, a, b, c, d + t1, e, f, g])"

definition sha_block :: "sha_state \<Rightarrow> nat list \<Rightarrow> sha_state" where
  "sha_block s block = map2 (+) s (fold sha_round (zip sha_K (sha_schedule block)) s)"

definition be_bytes :: "nat \<Rightarrow> nat \<Rightarrow> nat list" where
  "be_bytes k n = map (\<lambda>i. n div 256 ^ (k - 1 - i) mod 256) [0..<k]"

definition sha_pad :: "nat list \<Rightarrow> nat list" where
  "sha_pad msg = msg @ [128] @ replicate ((119 - length msg mod 64) mod 64) 0 @ be_bytes 8 (8 * length msg)"

definition Sum256 :: "string \<Rightarrow> nat list" where
  "Sum256 s =
     (let m = sha_pad (map of_char s) in
      concat (map (\<lambda>w. be_bytes 4 (unat w))
        (foldl sha_block sha_init (map (\<lambda>i. take 64 (drop (64 * i) m)) [0..<length m div 64]))))"


section \<open>Text encodings\<close>

definition bits_of_byte :: "nat \<Rightarrow> bool list" where
  "bits_of_byte b = map (\<lambda>i. odd (b div 2 ^ (7 - i))) [0..<8]"

definition nat_of_bits :: "bool list \<Rightarrow> nat" where
  "nat_of_bits bs = foldl (\<lambda>n b. 2 * n + of_bool b) 0 bs"

definition base32_alphabet :: string where
  "base32_alphabet = ''abcdefghijklmnopqrstuvwxyz234567''"

text \<open>\<open>strings.ToLower(base32.StdEncoding.WithPadding(base32.NoPadding).EncodeToString(bytes))\<close>\<close>

definition base32_lower :: "nat list \<Rightarrow> string" where
  "base32_lower bytes =
     (let bits = concat (map bits_of_byte bytes); n = (length bits + 4) div 5 in
      map (\<lambda>i. base32_alphabet ! nat_of_bits (take 5 (drop (5 * i) (bits @ replicate 4 False)))) [0..<n])"

definition base64_alphabet :: string where
  "base64_alphabet = ''ABCDEFGHIJKLMNOPQRSTUVWXYZ'' @ ''abcdefghijklmnopqrstuvwxyz'' @ ''0123456789+/''"

definition base64_value :: "char \<Rightarrow> nat option" where
  "base64_value c = IndexByte base64_alphabet c"

text \<open>\<open>base64.StdEncoding\<close>: quads of digits, the last one padded; unused bits are not checked.\<close>

fun base64_quads :: "string \<Rightarrow> string option" where
  "base64_quads [] = Some []"
| "base64_quads (a # b # c # d # r) =
     (case (base64_value a, base64_value b) of
        (Some p, Some q) \<Rightarrow>
          let x = char_of (p * 4 + q div 16) in
          if c = CHR ''='' then (if d = CHR ''='' \<and> r = [] then Some [x] else None)
          else (case base64_value c of
              None \<Rightarrow> None
            | Some u \<Rightarrow>
                let y = char_of (q mod 16 * 16 + u div 4) in
                if d = CHR ''='' then (if r = [] then Some [x, y] else None)
                else (case base64_value d of
                    None \<Rightarrow> None
                  | Some v \<Rightarrow> map_option (\<lambda>out. x # y # char_of (u mod 4 * 64 + v) # out) (base64_quads r)))
      | _ \<Rightarrow> None)"
| "base64_quads _ = None"

text \<open>\<open>DecodeString\<close> skips line breaks.\<close>

definition base64_DecodeString :: "string \<Rightarrow> string option" where
  "base64_DecodeString s = base64_quads (filter (\<lambda>c. c \<noteq> CHR 0x0A \<and> c \<noteq> CHR 0x0D) s)"

definition hex_digit :: "nat \<Rightarrow> char" where
  "hex_digit n = ''0123456789abcdef'' ! n"

definition hex_EncodeToString :: "nat list \<Rightarrow> string" where
  "hex_EncodeToString bytes = concat (map (\<lambda>b. [hex_digit (b div 16 mod 16), hex_digit (b mod 16)]) bytes)"


section \<open>Sizes\<close>

lemma length_sha_extend: "length (sha_extend w) = Suc (length w)"
  by (simp add: sha_extend_def Let_def)

lemma length_sha_block: "length s = 8 \<Longrightarrow> length (sha_block s block) = 8"
proof -
  have "length (fold sha_round kws s) = 8" if "length s = 8" for kws s
    using that by (induction kws arbitrary: s) (auto simp: sha_round_def Let_def split: prod.splits)
  then show "length s = 8 \<Longrightarrow> length (sha_block s block) = 8" by (simp add: sha_block_def)
qed

lemma length_Sum256: "length (Sum256 s) = 32"
proof -
  have "length (foldl sha_block st blocks) = 8" if "length st = 8" for st blocks
    using that by (induction blocks arbitrary: st) (auto simp: length_sha_block)
  moreover have "length (primes_below 20) = 8" by code_simp
  then have "length sha_init = 8" by (simp add: sha_init_def)
  ultimately show ?thesis
    by (simp add: Sum256_def Let_def length_concat be_bytes_def comp_def sum_list_triv)
qed

lemma length_base32_lower: "length (base32_lower bytes) = (8 * length bytes + 4) div 5"
  by (simp add: base32_lower_def Let_def length_concat bits_of_byte_def comp_def sum_list_triv mult.commute)

lemma nat_of_bits_less: "nat_of_bits bs < 2 ^ length bs"
proof -
  have "foldl (\<lambda>n b. 2 * n + of_bool b) n bs < (n + 1) * 2 ^ length bs" for n :: nat
  proof (induction bs arbitrary: n)
    case (Cons b bs)
    from Cons [of "2 * n + of_bool b"]
    have "foldl (\<lambda>n b. 2 * n + of_bool b) n (b # bs) < (2 * n + of_bool b + 1) * 2 ^ length bs" by simp
    also have "\<dots> \<le> (2 * n + 2) * 2 ^ length bs" by (intro mult_right_mono) auto
    finally show ?case by (simp add: algebra_simps)
  qed simp
  from this [of 0] show ?thesis by (simp add: nat_of_bits_def)
qed

lemma set_base32_lower: "set (base32_lower bytes) \<subseteq> set base32_alphabet"
proof -
  have "base32_alphabet ! nat_of_bits (take 5 xs) \<in> set base32_alphabet" for xs
  proof (rule nth_mem)
    have "nat_of_bits (take 5 xs) < 2 ^ length (take 5 xs)" by (rule nat_of_bits_less)
    also have "\<dots> \<le> 2 ^ 5" by (rule power_increasing) auto
    finally show "nat_of_bits (take 5 xs) < length base32_alphabet" by (simp add: base32_alphabet_def)
  qed
  then show ?thesis unfolding base32_lower_def Let_def set_map by blast
qed

end
