(* ===== verification/Go_Net.thy ===== *)
theory Go_Net
  imports Go_Prelude
begin

text \<open>
  The parts of Go's \<open>net\<close> and \<open>net/url\<close> the drivers use: whether \<open>net.ParseIP\<close> accepts a string,
  \<open>net.JoinHostPort\<close>, and \<open>url.URL.String\<close> for a URL with user, password, host and path.
\<close>

section \<open>IP addresses\<close>

text \<open>\<open>strings.Split(s, sep)\<close> for a one-byte separator.\<close>

fun Split :: "string \<Rightarrow> char \<Rightarrow> string list" where
  "Split [] sep = [[]]"
| "Split (c # s) sep =
     (if c = sep then [] # Split s sep
      else (case Split s sep of f # fs \<Rightarrow> (c # f) # fs | [] \<Rightarrow> [[c]]))"

definition ipv4_field :: "string \<Rightarrow> bool" where
  "ipv4_field f \<longleftrightarrow> f \<noteq> [] \<and> list_all is_digit f \<and> (hd f = CHR ''0'' \<longrightarrow> length f = 1) \<and>
     foldl (\<lambda>n c. n * 10 + (of_char c - 48)) 0 f \<le> (255 :: int)"

definition valid_ipv4 :: "string \<Rightarrow> bool" where
  "valid_ipv4 s \<longleftrightarrow> length (Split s (CHR ''.'')) = 4 \<and> list_all ipv4_field (Split s (CHR ''.''))"

definition is_hex :: "char \<Rightarrow> bool" where
  "is_hex c \<longleftrightarrow> is_digit c \<or> in_range (CHR ''a'') (CHR ''f'') c \<or> in_range (CHR ''A'') (CHR ''F'') c"

text \<open>
  The group loop of \<open>netip\<close>'s IPv6 parser: \<open>i\<close> counts bytes filled, \<open>ell\<close> is whether a \<open>::\<close> was
  seen. Every group takes at least one digit, so the recursion is on the rest of the string.
\<close>

function ipv6_groups :: "nat \<Rightarrow> bool \<Rightarrow> string \<Rightarrow> bool" where
  "ipv6_groups i ell s =
     (if i \<ge> 16 then s = [] \<and> \<not> ell
      else let g = takeWhile is_hex s; r = dropWhile is_hex s in
        if g = [] \<or> length g > 4 then False
        else case r of
            [] \<Rightarrow> if i + 2 < 16 then ell else \<not> ell
          | c # r' \<Rightarrow>
              if c = CHR ''.'' then
                (ell \<or> i = 12) \<and> i + 4 \<le> 16 \<and> valid_ipv4 s \<and> (if i + 4 < 16 then ell else \<not> ell)
              else if c \<noteq> CHR '':'' \<or> r' = [] then False
              else if hd r' = CHR '':'' then
                \<not> ell \<and> (if tl r' = [] then i + 2 < 16 else ipv6_groups (i + 2) True (tl r'))
              else ipv6_groups (i + 2) ell r')"
  by auto
termination by (relation "measure (\<lambda>(i, _, _). 16 - i)") auto

definition valid_ipv6 :: "string \<Rightarrow> bool" where
  "valid_ipv6 s =
     (if HasPrefix s ''::'' then (if length s = 2 then True else ipv6_groups 0 True (drop 2 s))
      else ipv6_groups 0 False s)"

text \<open>\<open>net.ParseIP(s) != nil\<close>: the first of \<open>.\<close>, \<open>:\<close> and \<open>%\<close> decides; a zone is refused.\<close>

definition ParseIP_ok :: "string \<Rightarrow> bool" where
  "ParseIP_ok s =
     (case dropWhile (\<lambda>c. c \<noteq> CHR ''.'' \<and> c \<noteq> CHR '':'' \<and> c \<noteq> CHR ''%'') s of
        [] \<Rightarrow> False
      | c # _ \<Rightarrow> if c = CHR ''.'' then valid_ipv4 s
                else if c = CHR '':'' then CHR ''%'' \<notin> set s \<and> valid_ipv6 s
                else False)"

definition JoinHostPort :: "string \<Rightarrow> string \<Rightarrow> string" where
  "JoinHostPort host port =
     (if CHR '':'' \<in> set host then ''['' @ host @ '']:'' @ port else host @ '':'' @ port)"


section \<open>URLs\<close>

datatype url_part = UserPassword | Host | Path

definition unreserved :: "char \<Rightarrow> bool" where
  "unreserved c \<longleftrightarrow> is_lower c \<or> is_upper c \<or> is_digit c \<or> c \<in> set ''-_.~''"

definition shouldEscape :: "url_part \<Rightarrow> char \<Rightarrow> bool" where
  "shouldEscape m c =
     (if unreserved c then False
      else case m of
        Host \<Rightarrow> c \<notin> set ''!$&()*+,;=:[]<>'' \<and> c \<noteq> CHR 0x22 \<and> c \<noteq> CHR 0x27
      | UserPassword \<Rightarrow> c \<notin> set ''$&+,;=''
      | Path \<Rightarrow> c \<notin> set ''$&+,/:;=@'')"

definition upper_hex :: "nat \<Rightarrow> char" where
  "upper_hex n = ''0123456789ABCDEF'' ! n"

definition url_escape :: "url_part \<Rightarrow> string \<Rightarrow> string" where
  "url_escape m s = concat (map (\<lambda>c. if shouldEscape m c
     then [CHR ''%'', upper_hex (of_char c div 16), upper_hex (of_char c mod 16)] else [c]) s)"

text \<open>\<open>url.URL{Scheme, User: url.UserPassword(user, password), Host, Path}.String()\<close> with a rooted path.\<close>

definition url_String :: "string \<Rightarrow> string \<Rightarrow> string \<Rightarrow> string \<Rightarrow> string \<Rightarrow> string" where
  "url_String scheme user password host path =
     scheme @ ''://'' @ url_escape UserPassword user @ '':'' @ url_escape UserPassword password @ ''@'' @
     url_escape Host host @ url_escape Path path"

lemma url_escape_unreserved: "list_all unreserved s \<Longrightarrow> url_escape m s = s"
  by (induction s) (auto simp: url_escape_def shouldEscape_def)

end
