(* ===== verification/Mysql_Names.thy ===== *)
theory Mysql_Names
  imports Go_Crypto Go_Net "HOL-Library.Sublist"
begin

text \<open>
  \<open>pkg/drivers/mysql/names.go\<close>: the names the mysql driver may touch, the derivation of account
  names, principals and the two quotings. The regular expressions are functions on byte
  strings. The claims: names that pass the prefix boundary are safe to splice, accesses do
  not share an account short of a hash collision, a grant pattern denotes one database, and
  quoting is reversible.
\<close>

section \<open>Configuration\<close>

record TLSConfig =
  tlsCAFile :: string
  tlsServerName :: string

record mysql_config =
  myHost :: string
  myPort :: int
  myAdminUser :: string
  myAdminPassword :: string
  myNamePrefix :: string
  myUserHost :: string
  myTLS :: "TLSConfig option"
  myAccountCheckInterval :: string
  mycheckInterval :: duration

definition maxDatabaseNameLen :: nat where "maxDatabaseNameLen = 64"
definition maxUserNameLen :: nat where "maxUserNameLen = 32"
definition maxHostLen :: nat where "maxHostLen = 255"
definition maxPrefixLen :: nat where "maxPrefixLen = 10"
definition userHashLen :: nat where "userHashLen = 16"

lemmas length_limits = maxDatabaseNameLen_def maxUserNameLen_def maxHostLen_def maxPrefixLen_def userHashLen_def


section \<open>Character sets\<close>

definition lower_digit :: "char \<Rightarrow> bool" where
  "lower_digit c \<longleftrightarrow> is_lower c \<or> is_digit c"

text \<open>\<open>^[a-z][a-z0-9]*_$\<close>\<close>

definition prefixRE :: "string \<Rightarrow> bool" where
  "prefixRE p = (case p of [] \<Rightarrow> False
     | c # r \<Rightarrow> is_lower c \<and> r \<noteq> [] \<and> list_all lower_digit (butlast r) \<and> last r = CHR ''_'')"

text \<open>\<open>^[a-z0-9_-]+$\<close>, \<open>^[a-z0-9.%_:/-]+$\<close>, \<open>^[a-z0-9-]+$\<close>\<close>

definition name_char :: "char \<Rightarrow> bool" where
  "name_char c \<longleftrightarrow> lower_digit c \<or> c = CHR ''_'' \<or> c = CHR ''-''"

definition nameRE :: "string \<Rightarrow> bool" where
  "nameRE s \<longleftrightarrow> s \<noteq> [] \<and> list_all name_char s"

definition hostRE :: "string \<Rightarrow> bool" where
  "hostRE s \<longleftrightarrow> s \<noteq> [] \<and> list_all (\<lambda>c. lower_digit c \<or> c \<in> set ''.%_:/-'') s"

definition k8sPartRE :: "string \<Rightarrow> bool" where
  "k8sPartRE s \<longleftrightarrow> s \<noteq> [] \<and> list_all (\<lambda>c. lower_digit c \<or> c = CHR ''-'') s"

definition systemNames :: "string list" where
  "systemNames = [''mysql'', ''information_schema'', ''performance_schema'', ''sys'',
     ''root'', ''mariadb.sys'', ''mysql.sys'', ''mysql.session'', ''mysql.infoschema'',
     ''public'', ''healthcheck'']"


section \<open>Checks\<close>

fun system_prefix :: "string \<Rightarrow> string list \<Rightarrow> goerr option" where
  "system_prefix p [] = None"
| "system_prefix p (s # ss) =
     (if HasPrefix s p then Some (Errorf (Sprintf ''namePrefix %q matches the system name %q'' [AStr p, AStr s]))
      else system_prefix p ss)"

definition checkPrefix :: "string \<Rightarrow> goerr option" where
  "checkPrefix p =
     (if length p > maxPrefixLen \<or> \<not> prefixRE p
      then Some (Errorf (Sprintf ''namePrefix %q must be 2-%d characters: a lowercase letter, then lowercase letters or digits, ending with _''
             [AStr p, AInt (int maxPrefixLen)]))
      else system_prefix p systemNames)"

definition checkHost :: "string \<Rightarrow> goerr option" where
  "checkHost h =
     (if h = [] \<or> length h > maxHostLen \<or> \<not> hostRE h
      then Some (Errorf (Sprintf ''host %q must be 1-%d characters of lowercase letters, digits and . % _ : / -'' [AStr h, AInt (int maxHostLen)]))
      else None)"

definition checkManaged :: "mysql_config \<Rightarrow> string \<Rightarrow> string \<Rightarrow> nat \<Rightarrow> goerr option" where
  "checkManaged cfg kind name maxLen = (
     let p = myNamePrefix cfg in
     if \<not> HasPrefix name p then
       Some (Errorf (Sprintf ''%s name %q is outside this backend's namePrefix %q; the driver only touches names that start with it'' [AStr kind, AStr name, AStr p]))
     else if length name = length p then
       Some (Errorf (Sprintf ''%s name %q is only the namePrefix'' [AStr kind, AStr name]))
     else if length name > maxLen then
       Some (Errorf (Sprintf ''%s name %q is %d characters; the limit is %d'' [AStr kind, AStr name, AInt (int (length name)), AInt (int maxLen)]))
     else if \<not> nameRE name then
       Some (Errorf (Sprintf ''%s name %q may only contain lowercase letters, digits, _ and -'' [AStr kind, AStr name]))
     else if name \<in> set systemNames then
       Some (Errorf (Sprintf ''%s name %q is reserved'' [AStr kind, AStr name]))
     else None)"

definition checkDatabase :: "mysql_config \<Rightarrow> string \<Rightarrow> goerr option" where
  "checkDatabase cfg name = checkManaged cfg ''database'' name maxDatabaseNameLen"

definition checkUser :: "mysql_config \<Rightarrow> string \<Rightarrow> goerr option" where
  "checkUser cfg name =
     (case checkManaged cfg ''user'' name maxUserNameLen of
        Some e \<Rightarrow> Some e
      | None \<Rightarrow> if name = myAdminUser cfg
          then Some (Errorf (Sprintf ''user name %q is the controller's own account'' [AStr name])) else None)"


section \<open>Account names\<close>

definition userHash :: "string \<Rightarrow> string \<Rightarrow> string" where
  "userHash namespace name = take userHashLen (base32_lower (Sum256 (namespace @ ''/'' @ name)))"

text \<open>
  \<open>strings.Map\<close> over runes: a multi-byte rune becomes one hyphen. Kubernetes names are ASCII, and
  the model's strings are taken to be, so bytes and runes agree.
\<close>

definition readable :: "string \<Rightarrow> string \<Rightarrow> string" where
  "readable namespace name = map (\<lambda>c. if lower_digit c then c else CHR ''-'') (namespace @ ''-'' @ name)"

definition userName :: "mysql_config \<Rightarrow> string \<Rightarrow> string \<Rightarrow> goerr + string" where
  "userName cfg namespace name =
     (if namespace = [] \<or> name = [] then
        Inl (Errorf (Lit ''mysql: the grant request names no BucketyAccess namespace/name; the controller binary is older than this driver''))
      else (
        let p = myNamePrefix cfg;
            plain = p @ namespace @ ''_'' @ name;
            room = maxUserNameLen - length p - 2 - userHashLen;
            u = (if \<not> k8sPartRE namespace \<or> \<not> k8sPartRE name \<or> length plain > maxUserNameLen
                 then p @ take room (readable namespace name) @ ''__'' @ userHash namespace name
                 else plain)
        in case checkUser cfg u of
             Some e \<Rightarrow> Inl (Wrapf ''mysql: derived %w'' [] e)
           | None \<Rightarrow> Inr u))"

record account =
  acctUser :: string
  acctHost :: string

definition account_String :: "account \<Rightarrow> string" where
  "account_String a = acctUser a @ ''@'' @ acctHost a"

definition grantee :: "account \<Rightarrow> string" where
  "grantee a = [CHR 0x27] @ acctUser a @ [CHR 0x27, CHR ''@'', CHR 0x27] @ acctHost a @ [CHR 0x27]"

text \<open>\<open>strings.Cut(s, sep)\<close> for a one-byte separator.\<close>

definition Cut :: "string \<Rightarrow> char \<Rightarrow> (string \<times> string) option" where
  "Cut s sep = map_option (\<lambda>i. (take i s, drop (Suc i) s)) (IndexByte s sep)"

definition parsePrincipal :: "mysql_config \<Rightarrow> string \<Rightarrow> goerr + account" where
  "parsePrincipal cfg prin =
     (case Cut prin (CHR ''@'') of
        None \<Rightarrow> Inl (Errorf (Sprintf ''mysql: principal %q is not user@host; refusing to drop it'' [AStr prin]))
      | Some (user, host) \<Rightarrow>
          (case checkUser cfg user of
             Some e \<Rightarrow> Inl (Wrapf ''mysql: refusing to drop principal %q: %w'' [AStr prin] e)
           | None \<Rightarrow>
               (case checkHost host of
                  Some e \<Rightarrow> Inl (Wrapf ''mysql: refusing to drop principal %q: %w'' [AStr prin] e)
                | None \<Rightarrow> Inr \<lparr>acctUser = user, acctHost = host\<rparr>)))"


section \<open>Quoting\<close>

definition backtick :: char where
  "backtick = CHR 0x60"

definition backslash :: char where
  "backslash = CHR 0x5C"

definition quoteIdent :: "string \<Rightarrow> string" where
  "quoteIdent s = [backtick] @ concat (map (\<lambda>c. if c = backtick then [backtick, backtick] else [c]) s) @ [backtick]"

definition grantPattern :: "string \<Rightarrow> string" where
  "grantPattern db = concat (map (\<lambda>c. if c = backslash \<or> c = CHR ''_'' \<or> c = CHR ''%'' then [backslash, c] else [c]) db)"


section \<open>The prefix boundary\<close>

definition managed :: "mysql_config \<Rightarrow> string \<Rightarrow> bool" where
  "managed cfg name \<longleftrightarrow> strict_prefix (myNamePrefix cfg) name \<and> list_all name_char name \<and> name \<notin> set systemNames"

lemma HasPrefix_prefix: "HasPrefix s p \<longleftrightarrow> prefix p s"
  by (auto simp: HasPrefix_iff prefix_def)

lemma checkManaged_None:
  "checkManaged cfg kind name maxLen = None \<longleftrightarrow> managed cfg name \<and> length name \<le> maxLen"
  by (auto simp: checkManaged_def managed_def Let_def HasPrefix_prefix nameRE_def strict_prefix_def prefix_def)

lemma checkDatabase_None: "checkDatabase cfg name = None \<longleftrightarrow> managed cfg name \<and> length name \<le> 64"
  by (simp add: checkDatabase_def checkManaged_None length_limits)

lemma checkUser_None:
  "checkUser cfg name = None \<longleftrightarrow> managed cfg name \<and> length name \<le> 32 \<and> name \<noteq> myAdminUser cfg"
  by (simp add: checkUser_def checkManaged_None length_limits split: option.splits)
     (metis checkManaged_None option.distinct(1))

lemma system_prefix_None: "system_prefix p ss = None \<longleftrightarrow> (\<forall>s \<in> set ss. \<not> prefix p s)"
  by (induction p ss rule: system_prefix.induct) (auto simp: HasPrefix_prefix)

text \<open>A configuration the driver starts with, as far as names go.\<close>

definition name_config :: "mysql_config \<Rightarrow> bool" where
  "name_config cfg \<longleftrightarrow> checkPrefix (myNamePrefix cfg) = None \<and> \<not> HasPrefix (myAdminUser cfg) (myNamePrefix cfg)"

lemma name_char_class: "lower_digit c \<Longrightarrow> name_char c" "name_char (CHR ''-'')" "name_char (CHR ''_'')"
  by (simp_all add: name_char_def)

lemma checkPrefix_None:
  assumes "checkPrefix p = None"
  shows "length p \<le> 10" "list_all name_char p" "prefix p name \<Longrightarrow> name \<notin> set systemNames"
proof -
  from assms have "length p \<le> 10" "prefixRE p" "\<forall>s \<in> set systemNames. \<not> prefix p s"
    by (auto simp: checkPrefix_def system_prefix_None length_limits split: if_splits)
  then show "length p \<le> 10" "prefix p name \<Longrightarrow> name \<notin> set systemNames" by auto
  from \<open>prefixRE p\<close> obtain c r where p: "p = c # r" "is_lower c" "r \<noteq> []" "list_all lower_digit (butlast r)" "last r = CHR ''_''"
    by (auto simp: prefixRE_def split: list.splits)
  moreover from p(3) have "r = butlast r @ [last r]" by simp
  then have "list_all name_char r"
    using p(4,5) by (metis list_all_append list.pred_inject list.pred_mono_strong name_char_class(1,3))
  ultimately show "list_all name_char p" by (simp add: name_char_def lower_digit_def)
qed


section \<open>Account names are total and do not collide\<close>

lemma lower_digit_not_underscore: "\<not> lower_digit (CHR ''_'')" "\<not> lower_digit (CHR ''@'')"
  by code_simp+

lemma base32_alphabet_class: "set base32_alphabet \<subseteq> Collect lower_digit"
proof -
  have "list_all lower_digit base32_alphabet" by code_simp
  then show ?thesis by (auto simp: list_all_iff)
qed

lemma userHash_class: "length (userHash ns n) = 16" "list_all lower_digit (userHash ns n)"
proof -
  show "length (userHash ns n) = 16"
    by (simp add: userHash_def userHashLen_def length_base32_lower length_Sum256)
  show "list_all lower_digit (userHash ns n)"
    using set_base32_lower base32_alphabet_class
    by (auto simp: userHash_def list_all_iff dest!: in_set_takeD)
qed

lemma readable_class: "list_all (\<lambda>c. lower_digit c \<or> c = CHR ''-'') (readable ns n)"
  by (auto simp: readable_def list_all_iff)

lemma part_no_underscore: "list_all (\<lambda>c. lower_digit c \<or> c = CHR ''-'') s \<Longrightarrow> CHR ''_'' \<notin> set s"
  using lower_digit_not_underscore by (auto simp: list_all_iff)

definition plain_form :: "mysql_config \<Rightarrow> string \<Rightarrow> string \<Rightarrow> bool" where
  "plain_form cfg ns n \<longleftrightarrow> k8sPartRE ns \<and> k8sPartRE n \<and> length (myNamePrefix cfg @ ns @ ''_'' @ n) \<le> maxUserNameLen"

definition derived :: "mysql_config \<Rightarrow> string \<Rightarrow> string \<Rightarrow> string" where
  "derived cfg ns n =
     (if plain_form cfg ns n then ns @ ''_'' @ n
      else take (maxUserNameLen - length (myNamePrefix cfg) - 2 - userHashLen) (readable ns n) @ ''__'' @ userHash ns n)"

lemma userName_derived:
  assumes "ns \<noteq> []" "n \<noteq> []"
  shows "userName cfg ns n =
    (case checkUser cfg (myNamePrefix cfg @ derived cfg ns n) of
       Some e \<Rightarrow> Inl (Wrapf ''mysql: derived %w'' [] e) | None \<Rightarrow> Inr (myNamePrefix cfg @ derived cfg ns n))"
proof -
  have "(if \<not> k8sPartRE ns \<or> \<not> k8sPartRE n \<or> length (myNamePrefix cfg @ ns @ ''_'' @ n) > maxUserNameLen
      then myNamePrefix cfg @ take (maxUserNameLen - length (myNamePrefix cfg) - 2 - userHashLen) (readable ns n) @ ''__'' @ userHash ns n
      else myNamePrefix cfg @ ns @ ''_'' @ n) = myNamePrefix cfg @ derived cfg ns n"
    by (auto simp: derived_def plain_form_def)
  note form = this
  show ?thesis unfolding userName_def Let_def form using assms by simp
qed

lemma userName_Inr: "userName cfg ns n = Inr u \<Longrightarrow> u = myNamePrefix cfg @ derived cfg ns n \<and> checkUser cfg u = None"
proof (cases "ns = [] \<or> n = []")
  case False
  then show "userName cfg ns n = Inr u \<Longrightarrow> ?thesis"
    using userName_derived [of ns n cfg] by (auto split: option.splits)
qed (auto simp: userName_def)

lemma derived_class:
  assumes "length (myNamePrefix cfg) \<le> 10"
  shows "list_all name_char (derived cfg ns n)" "derived cfg ns n \<noteq> []"
    "length (myNamePrefix cfg) + length (derived cfg ns n) \<le> 32"
proof -
  have part: "list_all name_char s" if "list_all (\<lambda>c. lower_digit c \<or> c = CHR ''-'') s" for s
    using that by (auto simp: list_all_iff name_char_def)
  have "list_all name_char (take k (readable ns n))" for k
    using part [OF readable_class] by (auto simp: list_all_iff dest: in_set_takeD)
  moreover have "list_all name_char (userHash ns n)"
    using userHash_class(2) by (auto simp: list_all_iff name_char_class)
  ultimately show "list_all name_char (derived cfg ns n)"
    by (auto simp: derived_def plain_form_def k8sPartRE_def part name_char_class)
  show "derived cfg ns n \<noteq> []" by (simp add: derived_def)
  show "length (myNamePrefix cfg) + length (derived cfg ns n) \<le> 32"
    using assms userHash_class(1) by (auto simp: derived_def plain_form_def length_limits)
qed

lemma userName_total:
  assumes "name_config cfg" and "ns \<noteq> []" and "n \<noteq> []"
  shows "userName cfg ns n = Inr (myNamePrefix cfg @ derived cfg ns n)"
proof -
  note p = checkPrefix_None [of "myNamePrefix cfg"]
  have pre: "checkPrefix (myNamePrefix cfg) = None" and admin: "\<not> prefix (myNamePrefix cfg) (myAdminUser cfg)"
    using assms(1) by (auto simp: name_config_def HasPrefix_prefix)
  note d = derived_class [OF p(1) [OF pre], of ns n]
  have "checkUser cfg (myNamePrefix cfg @ derived cfg ns n) = None"
    unfolding checkUser_None managed_def
    using p(2,3) [OF pre] d admin by (auto simp: strict_prefix_def prefix_def dest: sym)
  with assms show ?thesis by (simp add: userName_derived)
qed

lemma derived_inj:
  assumes "derived cfg ns n = derived cfg ns' n'"
  shows "plain_form cfg ns n \<longleftrightarrow> plain_form cfg ns' n'"
    and "plain_form cfg ns n \<Longrightarrow> ns = ns' \<and> n = n'"
    and "\<not> plain_form cfg ns n \<Longrightarrow> userHash ns n = userHash ns' n'"
proof -
  let ?t = "\<lambda>ns n. take (maxUserNameLen - length (myNamePrefix cfg) - 2 - userHashLen) (readable ns n)"
  have hash: "CHR ''_'' \<notin> set (userHash ns n)" for ns n
    using userHash_class(2) lower_digit_not_underscore by (auto simp: list_all_iff)
  have read: "CHR ''_'' \<notin> set (?t ns n)" for ns n
    using part_no_underscore [OF readable_class] by (auto dest: in_set_takeD)
  have part: "CHR ''_'' \<notin> set s" if "k8sPartRE s" for s
    using that part_no_underscore by (auto simp: k8sPartRE_def)
  have count: "count_list (derived cfg ns n) (CHR ''_'') = (if plain_form cfg ns n then 1 else 2)" for ns n
    using hash [of ns n] read [of ns n]
    by (cases "plain_form cfg ns n") (simp_all add: derived_def plain_form_def part)
  have "(if plain_form cfg ns n then 1 else 2 :: nat) = (if plain_form cfg ns' n' then 1 else 2)"
    unfolding count [symmetric] assms ..
  then show form: "plain_form cfg ns n \<longleftrightarrow> plain_form cfg ns' n'" by (simp split: if_splits)
  show "ns = ns' \<and> n = n'" if "plain_form cfg ns n"
  proof -
    from that form have f: "plain_form cfg ns n" "plain_form cfg ns' n'" by simp_all
    with assms have "ns @ CHR ''_'' # n = ns' @ CHR ''_'' # n'" by (simp add: derived_def)
    moreover from f have "k8sPartRE ns" "k8sPartRE ns'" by (simp_all add: plain_form_def)
    ultimately show ?thesis using part by (intro split_at_first)
  qed
  show "userHash ns n = userHash ns' n'" if "\<not> plain_form cfg ns n"
  proof -
    from that form have "\<not> plain_form cfg ns n" "\<not> plain_form cfg ns' n'" by simp_all
    with assms have "(?t ns n @ ''__'') @ userHash ns n = (?t ns' n' @ ''__'') @ userHash ns' n'"
      by (simp add: derived_def)
    then show ?thesis by (subst (asm) append_eq_append_conv) (simp_all add: userHash_class)
  qed
qed

text \<open>
  C29. One account per access. Under a configuration the driver starts with, every access
  with a namespace and a name gets an account name inside the prefix, of at most 32 bytes;
  and two different accesses share one only if both names are in the hashed form and the
  80-bit hashes of their identities are equal.
\<close>

theorem account_names_unique:
  assumes "name_config cfg" and "ns \<noteq> []" and "n \<noteq> []"
  shows "\<exists>u. userName cfg ns n = Inr u \<and> managed cfg u \<and> length u \<le> 32 \<and> u \<noteq> myAdminUser cfg \<and>
    (\<forall>ns' n'. userName cfg ns' n' = Inr u \<longrightarrow> (ns', n') \<noteq> (ns, n) \<longrightarrow>
       \<not> plain_form cfg ns n \<and> \<not> plain_form cfg ns' n' \<and> userHash ns n = userHash ns' n')"
proof -
  let ?u = "myNamePrefix cfg @ derived cfg ns n"
  have u: "userName cfg ns n = Inr ?u" by (rule userName_total [OF assms])
  then have "checkUser cfg ?u = None" using userName_Inr by blast
  moreover have "\<not> plain_form cfg ns n \<and> \<not> plain_form cfg ns' n' \<and> userHash ns n = userHash ns' n'"
    if "userName cfg ns' n' = Inr ?u" "(ns', n') \<noteq> (ns, n)" for ns' n'
    using derived_inj [of cfg ns n ns' n'] userName_Inr [OF that(1)] that(2) by auto
  ultimately show ?thesis using u by (intro exI [of _ ?u]) (auto simp: checkUser_None)
qed

definition demo_naming :: mysql_config where
  "demo_naming = \<lparr>myHost = ''db'', myPort = 3306, myAdminUser = ''root'', myAdminPassword = ''x'', myNamePrefix = ''b_'', myUserHost = ''%'',
     myTLS = None, myAccountCheckInterval = [], mycheckInterval = 0\<rparr>"

theorem account_names_unique_witness:
  "name_config demo_naming \<and> userName demo_naming ''web'' ''app'' = Inr ''b_web_app'' \<and>
   userName demo_naming ''web_app'' ''x'' \<noteq> Inr ''b_web_app''"
proof -
  have c: "name_config demo_naming" by code_simp
  have p: "plain_form demo_naming ''web'' ''app''" by code_simp
  from account_names_unique [OF c, of "''web''" "''app''"] obtain u where
    u: "userName demo_naming ''web'' ''app'' = Inr u" "userName demo_naming ''web_app'' ''x'' \<noteq> Inr u" using p by auto
  have "userName demo_naming ''web'' ''app'' = Inr ''b_web_app''"
    using userName_total [OF c, of "''web''" "''app''"] p by (simp add: derived_def demo_naming_def)
  with c u show ?thesis by simp
qed

text \<open>
  Principals round trip: the principal recorded for an account that passes the checks
  parses back to that account, so revocation drops the account that was granted; and what
  parses is inside the prefix.
\<close>

theorem principal_roundtrip:
  "(case parsePrincipal cfg (account_String a) of
      Inr b \<Rightarrow> managed cfg (acctUser b) \<and> acctUser b \<noteq> myAdminUser cfg \<and> hostRE (acctHost b) | Inl _ \<Rightarrow> True) \<and>
   (parsePrincipal cfg (account_String a) = Inr a \<longleftrightarrow> checkUser cfg (acctUser a) = None \<and> checkHost (acctHost a) = None)"
proof -
  have safe: "managed cfg (acctUser b) \<and> acctUser b \<noteq> myAdminUser cfg \<and> hostRE (acctHost b)"
    if "parsePrincipal cfg s = Inr b" for s b
    using that by (auto simp: parsePrincipal_def checkUser_None checkHost_def split: option.splits if_splits)
  have "CHR ''@'' \<notin> set (acctUser a)" if "checkUser cfg (acctUser a) = None"
    using that lower_digit_not_underscore by (auto simp: checkUser_None managed_def list_all_iff name_char_def)
  then have "parsePrincipal cfg (account_String a) = Inr a"
    if "checkUser cfg (acctUser a) = None" "checkHost (acctHost a) = None"
    using that by (simp add: parsePrincipal_def account_String_def Cut_def IndexByte_append)
  moreover have "checkUser cfg (acctUser a) = None \<and> checkHost (acctHost a) = None"
    if "parsePrincipal cfg (account_String a) = Inr a"
    using that by (auto simp: parsePrincipal_def split: option.splits)
  moreover have "case parsePrincipal cfg (account_String a) of
      Inr b \<Rightarrow> managed cfg (acctUser b) \<and> acctUser b \<noteq> myAdminUser cfg \<and> hostRE (acctHost b) | Inl _ \<Rightarrow> True"
    using safe by (simp split: sum.splits)
  ultimately show ?thesis by blast
qed


section \<open>Quoting is exact\<close>

text \<open>How the server reads a backtick-quoted identifier: a doubled backtick stands for one.\<close>

fun read_ident :: "string \<Rightarrow> (string \<times> string) option" where
  "read_ident [] = None"
| "read_ident (c # s) =
     (if c \<noteq> backtick then map_option (\<lambda>(i, r). (c # i, r)) (read_ident s)
      else case s of
          d # s' \<Rightarrow> if d = backtick then map_option (\<lambda>(i, r). (backtick # i, r)) (read_ident s') else Some ([], s)
        | [] \<Rightarrow> Some ([], []))"

text \<open>How \<open>GRANT ... ON\<close> matches a database name against a pattern.\<close>

fun sql_like :: "string \<Rightarrow> string \<Rightarrow> bool" where
  "sql_like [] s = (s = [])"
| "sql_like (c # p) s =
     (if c = backslash then
        (case p of [] \<Rightarrow> s = [backslash]
         | d # p' \<Rightarrow> (case s of x # s' \<Rightarrow> x = d \<and> sql_like p' s' | [] \<Rightarrow> False))
      else if c = CHR ''%'' then list_ex (sql_like p) (suffixes s)
      else (case s of x # s' \<Rightarrow> (c = CHR ''_'' \<or> x = c) \<and> sql_like p s' | [] \<Rightarrow> False))"

lemma grantPattern_Cons:
  "grantPattern (c # db) = (if c = backslash \<or> c = CHR ''_'' \<or> c = CHR ''%'' then backslash # c # grantPattern db else c # grantPattern db)"
  by (simp add: grantPattern_def)

lemma like_grantPattern: "sql_like (grantPattern db) s \<longleftrightarrow> s = db"
proof (induction db arbitrary: s)
  case Nil
  then show ?case by (simp add: grantPattern_def)
next
  case (Cons c db)
  then show ?case by (cases s) (auto simp: grantPattern_Cons backslash_def)
qed

lemma read_quoteIdent:
  assumes "rest = [] \<or> hd rest \<noteq> backtick"
  shows "read_ident (tl (quoteIdent s) @ rest) = Some (s, rest)"
proof -
  have "read_ident (concat (map (\<lambda>c. if c = backtick then [backtick, backtick] else [c]) s) @ backtick # rest) = Some (s, rest)"
    using assms by (induction s) (auto split: list.splits)
  then show ?thesis by (simp add: quoteIdent_def)
qed

text \<open>
  C33. Spliced names mean themselves. A grant pattern matches the database it was made from and
  no other, whatever wildcards the name contains; and after the opening backtick the server
  reads a quoted identifier back as exactly that identifier and continues with what follows,
  so no name can end the quotation.
\<close>

theorem spliced_names_exact:
  "(sql_like (grantPattern db) other \<longleftrightarrow> other = db) \<and> hd (quoteIdent ident) = backtick \<and>
   read_ident (tl (quoteIdent ident) @ CHR ''.'' # rest) = Some (ident, CHR ''.'' # rest)"
proof -
  have "CHR ''.'' \<noteq> backtick" by (simp add: backtick_def)
  then show ?thesis using read_quoteIdent [of "CHR ''.'' # rest" ident] like_grantPattern
    by (simp add: quoteIdent_def)
qed

end
