(* ===== verification/Mysql_Server.thy ===== *)
theory Mysql_Server
  imports Mysql_Names
begin

text \<open>
  The mysql driver's way to the server: \<open>password.go\<close>, \<open>statements.go\<close>, \<open>verified.go\<close>, \<open>breaker.go\<close>
  and \<open>conn.go\<close>. \<open>database/sql\<close> over the third-party client is the record \<open>sqldb\<close>, functions of
  the outside world; clock, context, waiting and random source are in \<open>mysql_env\<close>, with the
  \<open>Error\<close> method of error values as \<open>mErrText\<close>. The trace lists what reaches the server.
\<close>

section \<open>Passwords\<close>

definition passwordLen :: nat where "passwordLen = 32"
definition minPasswordLen :: nat where "minPasswordLen = 16"
definition maxPasswordLen :: nat where "maxPasswordLen = 128"
definition passwordSpecials :: string where "passwordSpecials = ''-._~''"

definition upperLetters :: string where "upperLetters = ''ABCDEFGHIJKLMNOPQRSTUVWXYZ''"
definition lowerLetters :: string where "lowerLetters = ''abcdefghijklmnopqrstuvwxyz''"
definition digits :: string where "digits = ''0123456789''"

definition passwordAlphabet :: string where
  "passwordAlphabet = upperLetters @ lowerLetters @ digits @ passwordSpecials"

definition passwordRE :: "string \<Rightarrow> bool" where
  "passwordRE p \<longleftrightarrow> p \<noteq> [] \<and> list_all unreserved p"

definition ContainsAny :: "string \<Rightarrow> string \<Rightarrow> bool" where
  "ContainsAny s cs = list_ex (\<lambda>c. c \<in> set cs) s"

definition hasAllClasses :: "string \<Rightarrow> bool" where
  "hasAllClasses s \<longleftrightarrow> ContainsAny s upperLetters \<and> ContainsAny s lowerLetters \<and>
     ContainsAny s digits \<and> ContainsAny s passwordSpecials"

definition validatePassword :: "string \<Rightarrow> goerr option" where
  "validatePassword p =
     (if length p < minPasswordLen \<or> length p > maxPasswordLen \<or> \<not> passwordRE p
      then Some (Errorf (Sprintf ''password must be %d-%d characters of A-Z a-z 0-9 and %s''
             [AInt (int minPasswordLen), AInt (int maxPasswordLen), AStr passwordSpecials]))
      else None)"

text \<open>\<open>strings.ReplaceAll(s, old, new)\<close> for a non-empty \<open>old\<close>.\<close>

function ReplaceAll :: "string \<Rightarrow> string \<Rightarrow> string \<Rightarrow> string" where
  "ReplaceAll old new s =
     (if s = [] \<or> old = [] then s
      else if HasPrefix s old then new @ ReplaceAll old new (drop (length old) s)
      else hd s # ReplaceAll old new (tl s))"
  by auto
termination by (relation "measure (\<lambda>(_, _, s). length s)") auto

declare ReplaceAll.simps [simp del]

text \<open>A \<open>redactedError\<close> is an error that is its text; \<open>errText\<close> is the \<open>Error\<close> method.\<close>

definition redact :: "(goerr \<Rightarrow> string) \<Rightarrow> goerr \<Rightarrow> string \<Rightarrow> goerr" where
  "redact errText err secret =
     (if secret = [] \<or> \<not> Contains (errText err) secret then err
      else Errorf (Lit (ReplaceAll secret ''<redacted>'' (errText err))))"

text \<open>A server error (\<open>*gomysql.MySQLError\<close>) is a \<open>BackendError\<close> of kind \<open>mysql\<close> with its number.\<close>

definition mysql_number :: "goerr \<Rightarrow> int option" where
  "mysql_number e = (case root_cause e of BackendError k n _ \<Rightarrow> if k = ''mysql'' then Some n else None | _ \<Rightarrow> None)"

definition isMySQLError :: "goerr \<Rightarrow> int \<Rightarrow> bool" where
  "isMySQLError e n = (mysql_number e = Some n)"

definition statementError :: "(goerr \<Rightarrow> string) \<Rightarrow> goerr \<Rightarrow> string \<Rightarrow> goerr" where
  "statementError errText err password =
     (case mysql_number err of
        Some n \<Rightarrow> (
          let hint = (if n = 1819 then '': the server's password policy rejected the password''
                      else if n = 1227 then '': the controller's account lacks the CREATE USER privilege'' else [])
          in Errorf (Sprintf ''server error %d%s'' [AInt n, AStr hint]))
      | None \<Rightarrow> redact errText err password)"


section \<open>Statements\<close>

definition readerPrivileges :: "string list" where
  "readerPrivileges = [''SELECT'']"

definition readWritePrivileges :: "string list" where
  "readWritePrivileges = [''SELECT'', ''INSERT'', ''UPDATE'', ''DELETE'',
     ''CREATE'', ''ALTER'', ''INDEX'', ''DROP'', ''REFERENCES'',
     ''CREATE TEMPORARY TABLES'', ''LOCK TABLES'', ''CREATE VIEW'', ''SHOW VIEW'']"

definition rolePrivileges :: "string \<Rightarrow> goerr + string list" where
  "rolePrivileges role =
     (if role = ''Reader'' then Inr readerPrivileges
      else if role = [] \<or> role = ''ReadWrite'' then Inr readWritePrivileges
      else if role = ''Writer'' then
        Inl (Errorf (Lit ''mysql: role Writer is not supported, and the access holds no user; use Reader (SELECT) or ReadWrite (data and schema changes)''))
      else Inl (Errorf (Sprintf ''mysql: unknown role %q'' [AStr role])))"

text \<open>\<open>^[A-Z]+( [A-Z]+)*$\<close>: words of capitals separated by single spaces.\<close>

definition privilegeRE :: "string \<Rightarrow> bool" where
  "privilegeRE p = list_all (\<lambda>w. w \<noteq> [] \<and> list_all is_upper w) (Split p (CHR '' ''))"

definition createUserSQL :: string where "createUserSQL = ''CREATE USER ?@? IDENTIFIED BY ?''"
definition alterUserSQL :: string where "alterUserSQL = ''ALTER USER ?@? IDENTIFIED BY ?''"
definition dropUserSQL :: string where "dropUserSQL = ''DROP USER IF EXISTS ?@?''"

definition schemaSQL :: string where
  "schemaSQL = ''SELECT DEFAULT_CHARACTER_SET_NAME, DEFAULT_COLLATION_NAME FROM information_schema.SCHEMATA WHERE SCHEMA_NAME = ?''"

definition contentSQL :: string where
  "contentSQL = ''SELECT'' @
     '' (SELECT COUNT(*) FROM information_schema.TABLES WHERE TABLE_SCHEMA = ?)'' @
     '' + (SELECT COUNT(*) FROM information_schema.ROUTINES WHERE ROUTINE_SCHEMA = ?)'' @
     '' + (SELECT COUNT(*) FROM information_schema.EVENTS WHERE EVENT_SCHEMA = ?)''"

definition currentUserSQL :: string where "currentUserSQL = ''SELECT CURRENT_USER()''"

definition privilegesSQL :: string where
  "privilegesSQL = ''SELECT PRIVILEGE_TYPE, IS_GRANTABLE FROM information_schema.SCHEMA_PRIVILEGES WHERE GRANTEE = ? AND TABLE_SCHEMA = ?''"

definition createDatabaseSQL :: "string \<Rightarrow> string \<Rightarrow> string \<Rightarrow> string" where
  "createDatabaseSQL name charset collation =
     ''CREATE DATABASE IF NOT EXISTS '' @ quoteIdent name @
     (if charset \<noteq> [] then '' CHARACTER SET '' @ quoteIdent charset else []) @
     (if collation \<noteq> [] then '' COLLATE '' @ quoteIdent collation else [])"

definition dropDatabaseSQL :: "string \<Rightarrow> string" where
  "dropDatabaseSQL name = ''DROP DATABASE IF EXISTS '' @ quoteIdent name"

definition bad_privilege :: "string \<Rightarrow> unit \<Rightarrow> goerr option" where
  "bad_privilege p _ = (if \<not> privilegeRE p then Some (Errorf (Sprintf ''mysql: unexpected privilege name %q'' [AStr p])) else None)"

definition privilegeList :: "string list \<Rightarrow> goerr + string" where
  "privilegeList privileges =
     (if privileges = [] then Inl (Errorf (Lit ''mysql: empty privilege list''))
      else (case range_check bad_privilege (map (\<lambda>p. (p, ())) privileges) of
         Some e \<Rightarrow> Inl e
       | None \<Rightarrow> Inr (Join privileges '', '')))"

definition grantSQL :: "string list \<Rightarrow> string \<Rightarrow> goerr + string" where
  "grantSQL privileges pattern =
     (case privilegeList privileges of
        Inl e \<Rightarrow> Inl e
      | Inr l \<Rightarrow> Inr (''GRANT '' @ l @ '' ON '' @ quoteIdent pattern @ ''.* TO ?@?''))"

definition revokeSQL :: "string list \<Rightarrow> string \<Rightarrow> goerr + string" where
  "revokeSQL privileges pattern =
     (case privilegeList privileges of
        Inl e \<Rightarrow> Inl e
      | Inr l \<Rightarrow> Inr (''REVOKE '' @ l @ '' ON '' @ quoteIdent pattern @ ''.* FROM ?@?''))"

definition revokeGrantOptionSQL :: "string \<Rightarrow> string" where
  "revokeGrantOptionSQL pattern = ''REVOKE GRANT OPTION ON '' @ quoteIdent pattern @ ''.* FROM ?@?''"

definition without :: "string list \<Rightarrow> string list \<Rightarrow> string list" where
  "without a b = filter (\<lambda>x. x \<notin> set b) a"


section \<open>Verified accounts\<close>

definition defaultVerifyInterval :: duration where
  "defaultVerifyInterval = 30 * Minute"

record verification =
  vfKey :: string
  vfAt :: time

type_synonym verifiedAccounts = "string \<rightharpoonup> verification"

definition verifyKey :: "account \<Rightarrow> string \<Rightarrow> string list \<Rightarrow> string \<Rightarrow> string" where
  "verifyKey acct pattern want password =
     Join [account_String acct, pattern, Join want '','', hex_EncodeToString (Sum256 password)] [CHR 0x00]"

definition verified_fresh :: "account \<Rightarrow> string \<Rightarrow> time \<Rightarrow> duration \<Rightarrow> verifiedAccounts \<Rightarrow> bool" where
  "verified_fresh acct key t interval seen =
     (if interval \<le> 0 then False
      else (case seen (account_String acct) of
         Some e \<Rightarrow> vfKey e = key \<and> t - vfAt e < interval
       | None \<Rightarrow> False))"

definition verified_record :: "account \<Rightarrow> string \<Rightarrow> time \<Rightarrow> verifiedAccounts \<Rightarrow> verifiedAccounts" where
  "verified_record acct key t seen = seen(account_String acct \<mapsto> \<lparr>vfKey = key, vfAt = t\<rparr>)"

definition verified_forget :: "account \<Rightarrow> verifiedAccounts \<Rightarrow> verifiedAccounts" where
  "verified_forget acct seen = seen(account_String acct := None)"


section \<open>The circuit breaker\<close>

definition breakerMin :: duration where "breakerMin = 2 * Second"
definition breakerMax :: duration where "breakerMax = 5 * Minute"

record breaker =
  bkFailures :: nat
  bkUntil :: time
  bkLast :: "goerr option"

definition closed_breaker :: breaker where
  "closed_breaker = \<lparr>bkFailures = 0, bkUntil = 0, bkLast = None\<rparr>"

text \<open>The doubling loop of \<open>cooldown\<close>: \<open>k\<close> rounds are left.\<close>

fun cooldown_loop :: "nat \<Rightarrow> duration \<Rightarrow> duration" where
  "cooldown_loop 0 d = d"
| "cooldown_loop (Suc k) d = (if d < breakerMax then cooldown_loop k (d * 2) else d)"

definition cooldown :: "breaker \<Rightarrow> duration" where
  "cooldown b = min (cooldown_loop (bkFailures b - 1) breakerMin) breakerMax"

definition errBackendUnreachable :: goerr where
  "errBackendUnreachable = Errorf (Lit ''backend unreachable'')"

definition breaker_admit :: "time \<Rightarrow> breaker \<Rightarrow> goerr option \<times> breaker" where
  "breaker_admit t b =
     (if bkFailures b = 0 then (None, b)
      else if t < bkUntil b then
        (Some (Wrapf ''%w after %d consecutive connection failures (last: %v); next attempt after %s''
           [AInt (int (bkFailures b)), (case bkLast b of Some e \<Rightarrow> AErr e | None \<Rightarrow> AStr []), AInt (bkUntil b)] errBackendUnreachable), b)
      else (None, b\<lparr>bkUntil := t + cooldown b\<rparr>))"

definition errLoginDenied :: goerr where
  "errLoginDenied = Errorf (Lit ''login denied'')"

definition errShadowed :: goerr where
  "errShadowed = Errorf (Lit ''login matched another account'')"

text \<open>\<open>errors.Is\<close> with one of the package's sentinel values.\<close>

definition errors_Is :: "goerr \<Rightarrow> goerr \<Rightarrow> bool" where
  "errors_Is e sentinel = (root_cause e = sentinel)"

definition serverAnswered :: "goerr \<Rightarrow> bool" where
  "serverAnswered e \<longleftrightarrow> mysql_number e \<noteq> None \<or> errors_Is e errLoginDenied \<or> errors_Is e errShadowed"

text \<open>\<open>ctxDone\<close> is \<open>ctx.Err() != nil\<close>.\<close>

definition breaker_report :: "time \<Rightarrow> bool \<Rightarrow> goerr option \<Rightarrow> breaker \<Rightarrow> breaker" where
  "breaker_report t ctxDone err b =
     (case err of
        None \<Rightarrow> b\<lparr>bkFailures := 0, bkLast := None\<rparr>
      | Some e \<Rightarrow>
          if serverAnswered e then b\<lparr>bkFailures := 0, bkLast := None\<rparr>
          else if ctxDone then b
          else (let b' = b\<lparr>bkFailures := Suc (bkFailures b), bkLast := Some e\<rparr>
                in b'\<lparr>bkUntil := t + cooldown b'\<rparr>))"


section \<open>Connections\<close>

text \<open>MySQL error numbers the driver branches on.\<close>

definition erAccessDenied :: int where "erAccessDenied = 1045"
definition erCannotUser :: int where "erCannotUser = 1396"
definition erNoSuchGrant :: int where "erNoSuchGrant = 1141"

record schemaInfo =
  scCharset :: string
  scCollation :: string

record grants =
  gsPrivileges :: "string list"
  gsGrantOption :: bool

text \<open>
  What \<open>database/sql\<close> answers: a missing row is \<open>None\<close>; a query of several rows ends with the rows
  read and the error of \<open>Scan\<close> or \<open>rows.Err\<close>, if any. The \<open>As\<close> calls run on a connection of
  their own, opened with a user and a password.
\<close>

record 'w sqldb =
  dbExec :: "string \<Rightarrow> string list \<Rightarrow> 'w \<Rightarrow> goerr option \<times> 'w"
  dbQuerySchema :: "string \<Rightarrow> string list \<Rightarrow> 'w \<Rightarrow> (goerr + schemaInfo option) \<times> 'w"
  dbQueryInt :: "string \<Rightarrow> string list \<Rightarrow> 'w \<Rightarrow> (goerr + int) \<times> 'w"
  dbNewConnector :: "string \<Rightarrow> string \<Rightarrow> goerr option"
  dbQueryStringAs :: "string \<Rightarrow> string \<Rightarrow> string \<Rightarrow> 'w \<Rightarrow> (goerr + string) \<times> 'w"
  dbQueryPairsAs :: "string \<Rightarrow> string \<Rightarrow> string \<Rightarrow> string list \<Rightarrow> 'w \<Rightarrow> (goerr + (string \<times> string) list \<times> goerr option) \<times> 'w"

text \<open>
  \<open>mWait\<close> is the \<open>select\<close> between the end of the context (its error) and a pause (\<open>None\<close>);
  \<open>mDetachedErr\<close> is \<open>Err\<close> of the context detached for a clean-up; \<open>mRounds\<close> bounds the rounds
  of password generation.
\<close>

record 'w mysql_env =
  mDB :: "'w sqldb"
  mNow :: "'w \<Rightarrow> time \<times> 'w"
  mCtxErr :: "'w \<Rightarrow> goerr option \<times> 'w"
  mDetachedErr :: "'w \<Rightarrow> goerr option \<times> 'w"
  mWait :: "'w \<Rightarrow> goerr option \<times> 'w"
  mRandInt :: "int \<Rightarrow> 'w \<Rightarrow> (goerr + int) \<times> 'w"
  mRounds :: nat
  mErrText :: "goerr \<Rightarrow> string"

record mysql_mem =
  mmVerified :: verifiedAccounts
  mmBreaker :: breaker

datatype myevent =
    Executed string "string list" "goerr option"
  | LookedUp string "goerr + schemaInfo option"
  | Counted string "goerr + int"
  | LoggedIn account string "goerr + grants"

type_synonym ('w, 'a) myprog = "('w, myevent, mysql_mem, 'a) prog"

definition sql_exec :: "'w mysql_env \<Rightarrow> string \<Rightarrow> string list \<Rightarrow> ('w, goerr option) myprog" where
  "sql_exec E query args = call (dbExec (mDB E) query args) (Executed query args)"

definition sql_lookupSchema :: "'w mysql_env \<Rightarrow> string \<Rightarrow> ('w, goerr + schemaInfo option) myprog" where
  "sql_lookupSchema E name = call (dbQuerySchema (mDB E) schemaSQL [name]) (LookedUp name)"

definition sql_countContent :: "'w mysql_env \<Rightarrow> string \<Rightarrow> ('w, goerr + int) myprog" where
  "sql_countContent E name = call (dbQueryInt (mDB E) contentSQL [name, name, name]) (Counted name)"

definition read_grants :: "(string \<times> string) list \<Rightarrow> grants" where
  "read_grants rows = \<lparr>gsPrivileges = map fst rows, gsGrantOption = list_ex (\<lambda>r. snd r = ''YES'') rows\<rparr>"

text \<open>The queries of \<open>login\<close>, composed into one visit to the server.\<close>

definition login_visit :: "'w sqldb \<Rightarrow> account \<Rightarrow> string \<Rightarrow> string \<Rightarrow> 'w \<Rightarrow> (goerr + grants) \<times> 'w" where
  "login_visit D acct password pattern w =
     (case dbNewConnector D (acctUser acct) password of
        Some e \<Rightarrow> (Inl e, w)
      | None \<Rightarrow>
          (case dbQueryStringAs D (acctUser acct) password currentUserSQL w of
             (Inl e, w) \<Rightarrow> (Inl (if isMySQLError e erAccessDenied then errLoginDenied else e), w)
           | (Inr current, w) \<Rightarrow>
               if current \<noteq> account_String acct then
                 (Inl (Wrapf ''%w: logged in as %s instead of %s'' [AStr current, AStr (account_String acct)] errShadowed), w)
               else
                 (case dbQueryPairsAs D (acctUser acct) password privilegesSQL [grantee acct, pattern] w of
                    (Inl e, w) \<Rightarrow> (Inl e, w)
                  | (Inr (rows, Some e), w) \<Rightarrow> (Inl e, w)
                  | (Inr (rows, None), w) \<Rightarrow> (Inr (read_grants rows), w))))"

definition sql_login :: "'w mysql_env \<Rightarrow> account \<Rightarrow> string \<Rightarrow> string \<Rightarrow> ('w, goerr + grants) myprog" where
  "sql_login E acct password pattern = call (login_visit (mDB E) acct password pattern) (LoggedIn acct password)"

text \<open>\<open>breakerConn\<close>: every operation is admitted first and reported after.\<close>

definition admit :: "'w mysql_env \<Rightarrow> ('w, goerr option) myprog" where
  "admit E = do {
     m \<leftarrow> get_memory;
     t \<leftarrow> (if bkFailures (mmBreaker m) = 0 then ret 0 else ext (mNow E));
     (case breaker_admit t (mmBreaker m) of
        (r, b) \<Rightarrow> do { put_memory (m\<lparr>mmBreaker := b\<rparr>); ret r }) }"

definition answered :: "goerr option \<Rightarrow> bool" where
  "answered err = (case err of None \<Rightarrow> True | Some e \<Rightarrow> serverAnswered e)"

definition report_outcome :: "'w mysql_env \<Rightarrow> goerr option \<Rightarrow> ('w, unit) myprog" where
  "report_outcome E err = do {
     c \<leftarrow> (if answered err then ret None else ext (mCtxErr E));
     t \<leftarrow> (if answered err \<or> c \<noteq> None then ret 0 else ext (mNow E));
     m \<leftarrow> get_memory;
     put_memory (m\<lparr>mmBreaker := breaker_report t (c \<noteq> None) err (mmBreaker m)\<rparr>) }"

definition err_part :: "goerr + 'a \<Rightarrow> goerr option" where
  "err_part r = (case r of Inl e \<Rightarrow> Some e | Inr _ \<Rightarrow> None)"

definition conn_exec :: "'w mysql_env \<Rightarrow> string \<Rightarrow> string list \<Rightarrow> ('w, goerr option) myprog" where
  "conn_exec E query args = do {
     a \<leftarrow> admit E;
     case a of
       Some e \<Rightarrow> ret (Some e)
     | None \<Rightarrow> do { r \<leftarrow> sql_exec E query args; report_outcome E r; ret r } }"

definition conn_lookupSchema :: "'w mysql_env \<Rightarrow> string \<Rightarrow> ('w, goerr + schemaInfo option) myprog" where
  "conn_lookupSchema E name = do {
     a \<leftarrow> admit E;
     case a of
       Some e \<Rightarrow> ret (Inl e)
     | None \<Rightarrow> do { r \<leftarrow> sql_lookupSchema E name; report_outcome E (err_part r); ret r } }"

definition conn_countContent :: "'w mysql_env \<Rightarrow> string \<Rightarrow> ('w, goerr + int) myprog" where
  "conn_countContent E name = do {
     a \<leftarrow> admit E;
     case a of
       Some e \<Rightarrow> ret (Inl e)
     | None \<Rightarrow> do { r \<leftarrow> sql_countContent E name; report_outcome E (err_part r); ret r } }"

definition conn_login :: "'w mysql_env \<Rightarrow> account \<Rightarrow> string \<Rightarrow> string \<Rightarrow> ('w, goerr + grants) myprog" where
  "conn_login E acct password pattern = do {
     a \<leftarrow> admit E;
     case a of
       Some e \<Rightarrow> ret (Inl e)
     | None \<Rightarrow> do { r \<leftarrow> sql_login E acct password pattern; report_outcome E (err_part r); ret r } }"


section \<open>Generating passwords\<close>

text \<open>One pass over the buffer, \<open>k\<close> bytes to go.\<close>

fun fill :: "'w mysql_env \<Rightarrow> nat \<Rightarrow> ('w, goerr + string) myprog" where
  "fill E 0 = ret (Inr [])"
| "fill E (Suc k) = do {
     r \<leftarrow> ext (mRandInt E (int (length passwordAlphabet)));
     case r of
       Inl e \<Rightarrow> ret (Inl e)
     | Inr n \<Rightarrow> do {
         rest \<leftarrow> fill E k;
         ret (case rest of Inl e \<Rightarrow> Inl e | Inr b \<Rightarrow> Inr (passwordAlphabet ! nat n # b)) } }"

text \<open>The endless loop, for a number of rounds: \<open>None\<close> is that it has not returned yet.\<close>

fun generatePassword :: "'w mysql_env \<Rightarrow> nat \<Rightarrow> ('w, (goerr + string) option) myprog" where
  "generatePassword E 0 = ret None"
| "generatePassword E (Suc rounds) = do {
     b \<leftarrow> fill E passwordLen;
     case b of
       Inl e \<Rightarrow> ret (Some (Inl (Wrapf ''mysql: generate password: %w'' [] e)))
     | Inr s \<Rightarrow> if hasAllClasses s then ret (Some (Inr s)) else generatePassword E rounds }"


section \<open>The breaker holds failing connections apart\<close>

lemma cooldown_loop_closed:
  "0 < d \<Longrightarrow> min (cooldown_loop k d) breakerMax = min (d * 2 ^ k) breakerMax"
proof (induction k arbitrary: d)
  case (Suc k)
  show ?case
  proof (cases "d < breakerMax")
    case True
    with Suc.IH [of "d * 2"] Suc.prems show ?thesis by (simp add: mult.assoc)
  next
    case False
    have "d * 1 \<le> d * 2 ^ Suc k"
      using Suc.prems one_le_power [of "2::int" "Suc k"] by (intro mult_left_mono) linarith+
    with False have "breakerMax \<le> d * 2 ^ Suc k" by linarith
    with False show ?thesis by (simp add: min_absorb2 del: power_Suc)
  qed
qed simp

text \<open>The loop is the capped doubling its comment states.\<close>

lemma cooldown_closed: "cooldown b = min (breakerMin * 2 ^ (bkFailures b - 1)) breakerMax"
  unfolding cooldown_def by (rule cooldown_loop_closed) (simp add: breakerMin_def)

lemma cooldown_mono: "bkFailures b \<le> bkFailures b' \<Longrightarrow> cooldown b \<le> cooldown b'"
proof -
  assume "bkFailures b \<le> bkFailures b'"
  then have "(2::int) ^ (bkFailures b - 1) \<le> 2 ^ (bkFailures b' - 1)" by (intro power_increasing) auto
  then have "breakerMin * 2 ^ (bkFailures b - 1) \<le> breakerMin * 2 ^ (bkFailures b' - 1)"
    by (simp add: breakerMin_def)
  then show ?thesis unfolding cooldown_closed by (rule min.mono) simp
qed

lemma cooldown_pos: "0 < cooldown b"
  by (simp add: cooldown_closed breakerMin_def breakerMax_def)

text \<open>
  The operations of concurrent callers in the order the mutex admits them: an admission, or
  the report of an admitted operation. \<open>admissions\<close> are the times at which an operation may go
  to the server.
\<close>

datatype breaker_op = AdmitAt time | ReportAt time bool "goerr option"

fun op_time :: "breaker_op \<Rightarrow> time" where
  "op_time (AdmitAt t) = t"
| "op_time (ReportAt t _ _) = t"

fun unanswered :: "breaker_op \<Rightarrow> bool" where
  "unanswered (AdmitAt t) = True"
| "unanswered (ReportAt t dn err) = (case err of Some e \<Rightarrow> \<not> serverAnswered e | None \<Rightarrow> False)"

fun admissions :: "breaker_op list \<Rightarrow> breaker \<Rightarrow> time list" where
  "admissions [] b = []"
| "admissions (AdmitAt t # ops) b =
     (case breaker_admit t b of (None, b') \<Rightarrow> t # admissions ops b' | (Some _, b') \<Rightarrow> admissions ops b')"
| "admissions (ReportAt t dn err # ops) b = admissions ops (breaker_report t dn err b)"

lemma cooldown_until [simp]: "cooldown (b\<lparr>bkUntil := t\<rparr>) = cooldown b"
  by (simp add: cooldown_def)

lemma breaker_report_unanswered:
  assumes "unanswered (ReportAt t dn err)" and "bkUntil b \<le> T + cooldown b" and "T \<le> t"
  shows "bkFailures b \<le> bkFailures (breaker_report t dn err b)"
    "bkUntil b \<le> bkUntil (breaker_report t dn err b)"
    "bkUntil (breaker_report t dn err b) \<le> t + cooldown (breaker_report t dn err b)"
proof -
  obtain e where e: "err = Some e" "\<not> serverAnswered e" using assms(1) by (auto split: option.splits)
  show mono: "bkFailures b \<le> bkFailures (breaker_report t dn err b)"
    using e by (simp add: breaker_report_def Let_def)
  show "bkUntil b \<le> bkUntil (breaker_report t dn err b)"
    using e assms(2,3) cooldown_mono [of b "b\<lparr>bkFailures := Suc (bkFailures b), bkLast := Some e\<rparr>"]
    by (simp add: breaker_report_def Let_def)
  show "bkUntil (breaker_report t dn err b) \<le> t + cooldown (breaker_report t dn err b)"
    using e assms(2,3) by (simp add: breaker_report_def Let_def)
qed

lemma admissions_spaced:
  assumes "sorted (T # map op_time ops)" and "list_all unanswered ops" and "0 < bkFailures b"
    and "bkUntil b \<le> T + cooldown b" and "c \<le> cooldown b"
  shows "successively (\<lambda>t t'. t + c \<le> t') (admissions ops b) \<and> (\<forall>t \<in> set (admissions ops b). bkUntil b \<le> t)"
  using assms
proof (induction ops b arbitrary: T rule: admissions.induct)
  case (2 t ops b)
  show ?case
  proof (cases "t < bkUntil b")
    case True
    then have "breaker_admit t b = (fst (breaker_admit t b), b)" "fst (breaker_admit t b) \<noteq> None"
      using "2.prems"(3) by (auto simp: breaker_admit_def)
    then obtain e where e: "breaker_admit t b = (Some e, b)" by auto
    have "successively (\<lambda>t t'. t + c \<le> t') (admissions ops b) \<and> (\<forall>t \<in> set (admissions ops b). bkUntil b \<le> t)"
      using "2.prems" by (intro "2.IH"(2) [OF e [symmetric] refl, where T = T]) auto
    with e show ?thesis by simp
  next
    case False
    let ?b = "b\<lparr>bkUntil := t + cooldown b\<rparr>"
    have e: "breaker_admit t b = (None, ?b)" using False "2.prems"(3) by (simp add: breaker_admit_def)
    have IH: "successively (\<lambda>t t'. t + c \<le> t') (admissions ops ?b) \<and> (\<forall>t' \<in> set (admissions ops ?b). bkUntil ?b \<le> t')"
      using "2.prems" by (intro "2.IH"(1) [OF e [symmetric] refl, where T = t]) auto
    then have "successively (\<lambda>t t'. t + c \<le> t') (t # admissions ops ?b)"
      using "2.prems"(5) by (cases "admissions ops ?b") auto
    with IH e False show ?thesis using cooldown_pos [of b] by fastforce
  qed
next
  case (3 t dn err ops b)
  let ?b = "breaker_report t dn err b"
  have T: "T \<le> t" and u: "unanswered (ReportAt t dn err)" using "3.prems" by auto
  note r = breaker_report_unanswered [OF u "3.prems"(4) T]
  have "successively (\<lambda>t t'. t + c \<le> t') (admissions ops ?b) \<and> (\<forall>t \<in> set (admissions ops ?b). bkUntil ?b \<le> t)"
  proof (rule "3.IH" [where T = t])
    show "c \<le> cooldown ?b" using "3.prems"(5) cooldown_mono [OF r(1)] by simp
  qed (use "3.prems" r in auto)
  with r(2) show ?case by fastforce
qed simp

text \<open>
  C31. The breaker spaces attempts. After a connection failure counted at \<open>t0\<close>, as long as the
  server answers nobody, operations of any number of concurrent callers are let through no
  sooner than one cooldown after the failure and at least one cooldown apart, where the
  cooldown is two seconds doubled per earlier consecutive failure, at most five minutes.
\<close>

theorem breaker_spaces_attempts:
  assumes "\<not> serverAnswered e" and "sorted (t0 # map op_time ops)" and "list_all unanswered ops"
  shows "successively (\<lambda>t t'. t + min (2 * Second * 2 ^ bkFailures b0) (5 * Minute) \<le> t')
    (t0 # admissions ops (breaker_report t0 False (Some e) b0))"
proof -
  define b where "b = breaker_report t0 False (Some e) b0"
  have f: "bkFailures b = Suc (bkFailures b0)" "bkUntil b = t0 + cooldown b"
    using assms(1) by (simp_all add: b_def breaker_report_def Let_def)
  have c: "cooldown b = min (2 * Second * 2 ^ bkFailures b0) (5 * Minute)"
    by (simp add: cooldown_closed f breakerMin_def breakerMax_def)
  have "successively (\<lambda>t t'. t + cooldown b \<le> t') (admissions ops b) \<and> (\<forall>t \<in> set (admissions ops b). bkUntil b \<le> t)"
    by (rule admissions_spaced [OF assms(2,3)]) (simp_all add: f)
  then show ?thesis
    unfolding c [symmetric] b_def [symmetric] using f(2) by (cases "admissions ops b") auto
qed

theorem breaker_spaces_attempts_witness:
  "let e = BackendError ''net'' 0 ''refused''; b = breaker_report 0 False (Some e) closed_breaker;
       ops = [AdmitAt 1, AdmitAt 2000000000, AdmitAt 2000000001, ReportAt 2000000002 False (Some e), AdmitAt 6000000001, AdmitAt 6000000002]
   in successively (\<lambda>t t'. t + 2000000000 \<le> t') (0 # admissions ops b) \<and> admissions ops b = [2000000000, 6000000002]"
proof -
  let ?e = "BackendError ''net'' 0 ''refused''"
  let ?ops = "[AdmitAt 1, AdmitAt 2000000000, AdmitAt 2000000001, ReportAt 2000000002 False (Some ?e), AdmitAt 6000000001, AdmitAt 6000000002]"
  have "\<not> serverAnswered ?e" by code_simp
  moreover have "sorted (0 # map op_time ?ops)" "list_all unanswered ?ops" by code_simp+
  ultimately have "successively (\<lambda>t t'. t + min (2 * Second * 2 ^ bkFailures closed_breaker) (5 * Minute) \<le> t')
      (0 # admissions ?ops (breaker_report 0 False (Some ?e) closed_breaker))"
    by (rule breaker_spaces_attempts)
  moreover have "admissions ?ops (breaker_report 0 False (Some ?e) closed_breaker) = [2000000000, 6000000002]"
    by code_simp
  moreover have "min (2 * Second * 2 ^ bkFailures closed_breaker) (5 * Minute) = 2000000000"
    by (simp add: closed_breaker_def Second_def Minute_def)
  ultimately show ?thesis by (simp add: Let_def)
qed


section \<open>Passwords stay out of error texts\<close>

definition password_ok :: "string \<Rightarrow> bool" where
  "password_ok p \<longleftrightarrow> list_all unreserved p \<and> 16 \<le> length p"

lemma Contains_sublist: "Contains s t \<longleftrightarrow> sublist t s"
  by (induction s t rule: Contains.induct) (auto simp: HasPrefix_prefix sublist_Cons_right)

lemma unreserved_not: "\<not> unreserved (CHR ''<'')" "\<not> unreserved (CHR ''>'')" "\<not> unreserved (CHR '' '')"
  by code_simp+

lemma ReplaceAll_prefix:
  "\<lbrakk>prefix q (ReplaceAll old (CHR ''<'' # new) s); CHR ''<'' \<notin> set q\<rbrakk> \<Longrightarrow> prefix q s"
proof (induction old "CHR ''<'' # new" s arbitrary: q rule: ReplaceAll.induct)
  case (1 old s)
  show ?case
  proof (cases "s = [] \<or> old = []")
    case False
    then show ?thesis
    proof (cases "HasPrefix s old")
      case True
      with False "1.prems" show ?thesis by (cases q) (auto simp: ReplaceAll.simps [of old _ s])
    next
      case no: False
      with False "1.prems" have "q = [] \<or> (\<exists>q'. q = hd s # q' \<and> prefix q' (ReplaceAll old (CHR ''<'' # new) (tl s)))"
        by (cases q) (auto simp: ReplaceAll.simps [of old _ s])
      with "1.hyps"(2) [OF False no] "1.prems"(2) False show ?thesis by (cases s) auto
    qed
  qed (use "1.prems" in \<open>simp add: ReplaceAll.simps [of old _ s]\<close>)
qed

lemma sublist_after_marker:
  assumes "sublist p (''<redacted>'' @ r)" and "password_ok p"
  shows "sublist p r"
proof -
  have no: "CHR ''>'' \<notin> set p" and len: "length ''<redacted>'' < length p"
    using assms(2) unreserved_not by (auto simp: password_ok_def list_all_iff)
  from assms(1) len consider "sublist p r"
    | a b where "p = a @ b" "suffix a ''<redacted>''" "prefix b r"
    unfolding sublist_append by (metis leD sublist_length_le)
  then show ?thesis
  proof cases
    case 2
    from 2(2) have "a = [] \<or> last a = CHR ''>''" by (auto simp: suffix_def) (metis last.simps last_appendR list.distinct(1))
    with 2(1) no have "a = []" by (metis Un_iff last_in_set set_append)
    with 2 show ?thesis by simp
  qed
qed

lemma ReplaceAll_removes:
  assumes "password_ok p"
  shows "\<not> sublist p (ReplaceAll p ''<redacted>'' s)"
  using assms
proof (induction p "''<redacted>''" s rule: ReplaceAll.induct)
  case (1 p s)
  have p: "p \<noteq> []" "CHR ''<'' \<notin> set p" using "1.prems" unreserved_not by (auto simp: password_ok_def list_all_iff)
  show ?case
  proof (cases "s = []")
    case False
    with p have ns: "\<not> (s = [] \<or> p = [])" by simp
    show ?thesis
    proof (cases "HasPrefix s p")
      case True
      with "1.hyps"(1) [OF ns True "1.prems"] ns show ?thesis
        using sublist_after_marker [OF _ "1.prems"] by (auto simp: ReplaceAll.simps [of p _ s])
    next
      case no: False
      have "\<not> prefix p (ReplaceAll p ''<redacted>'' s)"
        using ReplaceAll_prefix [of p p "''redacted>''" s] no p by (auto simp: HasPrefix_prefix)
      with "1.hyps"(2) [OF ns no "1.prems"] ns no show ?thesis
        by (auto simp: ReplaceAll.simps [of p _ s] sublist_Cons_right)
    qed
  qed (use p in \<open>simp add: ReplaceAll.simps [of p _ "[]"]\<close>)
qed

lemma Split_not_Nil [simp]: "Split s sep \<noteq> []"
  by (induction s sep rule: Split.induct) (auto split: list.splits)

lemma Split_hd_prefix: "\<lbrakk>prefix p s; sep \<notin> set p\<rbrakk> \<Longrightarrow> prefix p (hd (Split s sep))"
proof (induction s sep arbitrary: p rule: Split.induct)
  case (2 c s sep)
  then show ?case by (cases p; cases "Split s sep") auto
qed simp

lemma sublist_word: "\<lbrakk>sublist p s; sep \<notin> set p; p \<noteq> []\<rbrakk> \<Longrightarrow> \<exists>w \<in> set (Split s sep). sublist p w"
proof (induction s sep rule: Split.induct)
  case (2 c s sep)
  show ?case
  proof (cases "prefix p (c # s)")
    case True
    then have "prefix p (hd (Split (c # s) sep))" by (rule Split_hd_prefix [OF _ "2.prems"(2)])
    then show ?thesis by (meson Split_not_Nil hd_in_set prefix_imp_sublist)
  next
    case False
    with 2 obtain w where "w \<in> set (Split s sep)" "sublist p w" by (auto simp: sublist_Cons_right)
    then show ?thesis by (cases "Split s sep") (auto simp: sublist_Cons_right)
  qed
qed simp

lemma Split_word: "sep \<notin> set w \<Longrightarrow> Split (w @ s) sep = (w @ hd (Split s sep)) # tl (Split s sep)"
  by (induction w) auto

lemma password_not_in_words:
  assumes "password_ok p" and "list_all (\<lambda>w. length w < 16) (Split s (CHR '' ''))"
  shows "\<not> sublist p s"
proof
  assume "sublist p s"
  moreover have "CHR '' '' \<notin> set p" "p \<noteq> []" "16 \<le> length p"
    using assms(1) unreserved_not by (auto simp: password_ok_def list_all_iff)
  ultimately obtain w where "w \<in> set (Split s (CHR '' ''))" "sublist p w" using sublist_word by blast
  with assms(2) \<open>16 \<le> length p\<close> show False by (auto simp: list_all_iff dest!: sublist_length_le)
qed

lemma show_nat_length: "n < 10 ^ k \<Longrightarrow> 0 < k \<Longrightarrow> length (show_nat n) \<le> k"
proof (induction k arbitrary: n)
  case (Suc k)
  show ?case
  proof (cases "n < 10")
    case False
    with Suc.prems have "n div 10 < 10 ^ k" "0 < k" by (cases k; auto)+
    with Suc.IH False show ?thesis by (simp add: show_nat.simps [of n])
  qed (simp add: show_nat.simps [of n])
qed simp

lemma show_nat_no_space: "CHR '' '' \<notin> set (show_nat n)"
proof (induction n rule: show_nat.induct)
  case (1 n)
  have "CHR '' '' \<noteq> digit k" if "k < 10" for k
  proof
    assume "CHR '' '' = digit k"
    then have "(of_char (CHR '' '') :: nat) = of_char (digit k)" by simp
    with that show False by (simp add: digit_def)
  qed
  then have d: "CHR '' '' \<noteq> digit (n mod 10)" "n < 10 \<Longrightarrow> CHR '' '' \<noteq> digit n" by simp_all
  show ?case using 1 d by (subst show_nat.simps) (simp split: if_splits)
qed

lemma server_error_words:
  assumes "0 \<le> n" "n < 65536"
    and "hint = [] \<or> hint = '': the server's password policy rejected the password''
      \<or> hint = '': the controller's account lacks the CREATE USER privilege''"
  shows "list_all (\<lambda>w. length w < 16) (Split (''server error '' @ Itoa n @ hint) (CHR '' ''))"
proof -
  have n: "length (show_nat (nat n)) \<le> 5" using assms by (intro show_nat_length) auto
  have "Split (''server error '' @ Itoa n @ hint) (CHR '' '') = ''server'' # ''error'' # Split (Itoa n @ hint) (CHR '' '')"
    by (simp split: list.splits)
  with n assms(1,3) show ?thesis by (auto simp: Itoa_def Split_word show_nat_no_space)
qed

text \<open>
  C30. Passwords stay out of error texts. Whatever error the server or the client returns for a
  statement that carried a password, the text of the error the driver reports does not contain
  that password: only the number of a server error is kept, and other texts have every
  occurrence replaced. The hypotheses are what \<open>Error\<close> returns for the two error values.
\<close>

theorem password_not_in_errors:
  assumes "validatePassword password = None"
    and "\<And>s. errText (Errorf (Lit s)) = s"
    and "\<And>n hint. errText (Errorf (Sprintf ''server error %d%s'' [AInt n, AStr hint])) = ''server error '' @ Itoa n @ hint"
    and "\<And>n. mysql_number err = Some n \<Longrightarrow> 0 \<le> n \<and> n < 65536"
  shows "\<not> Contains (errText (statementError errText err password)) password"
proof -
  have p: "password_ok password"
    using assms(1) by (auto simp: validatePassword_def password_ok_def passwordRE_def minPasswordLen_def split: if_splits)
  show ?thesis
  proof (cases "mysql_number err")
    case None
    then show ?thesis
      using ReplaceAll_removes [OF p, of "errText err"] p
      by (auto simp: statementError_def redact_def assms(2) Contains_sublist password_ok_def)
  next
    case (Some n)
    define hint where "hint = (if n = 1819 then '': the server's password policy rejected the password''
      else if n = 1227 then '': the controller's account lacks the CREATE USER privilege'' else [])"
    have "errText (statementError errText err password) = ''server error '' @ Itoa n @ hint"
      unfolding statementError_def Let_def Some option.case hint_def by (rule assms(3))
    moreover have "list_all (\<lambda>w. length w < 16) (Split (''server error '' @ Itoa n @ hint) (CHR '' ''))"
      using assms(4) [OF Some] by (intro server_error_words) (simp_all add: hint_def)
    ultimately show ?thesis unfolding Contains_sublist by (simp only: password_not_in_words [OF p] simp_thms)
  qed
qed

text \<open>An \<open>Error\<close> method for the example.\<close>

fun plain_text :: "goerr \<Rightarrow> string" where
  "plain_text (Errorf (Lit s)) = s"
| "plain_text (Errorf (Sprintf f [AInt n, AStr s])) = ''server error '' @ Itoa n @ s"
| "plain_text (BackendError k n s) = s"
| "plain_text _ = []"

theorem password_not_in_errors_witness:
  "let p = ''abcDEF0123-_.~xyz''; e = BackendError ''net'' 0 (''near '' @ p @ p @ ''!'')
   in \<not> Contains (plain_text (statementError plain_text e p)) p \<and> Contains (plain_text e) p \<and>
      plain_text (statementError plain_text e p) = ''near <redacted><redacted>!''"
proof -
  let ?p = "''abcDEF0123-_.~xyz''"
  let ?e = "BackendError ''net'' 0 (''near '' @ ?p @ ?p @ ''!'')"
  have "\<not> Contains (plain_text (statementError plain_text ?e ?p)) ?p"
  proof (rule password_not_in_errors)
    show "validatePassword ?p = None" by code_simp
    show "\<And>n. mysql_number ?e = Some n \<Longrightarrow> 0 \<le> n \<and> n < 65536" by (simp add: mysql_number_def)
  qed simp_all
  moreover have "Contains (plain_text ?e) ?p"
    "plain_text (statementError plain_text ?e ?p) = ''near <redacted><redacted>!''" by code_simp+
  ultimately show ?thesis by (simp add: Let_def)
qed

end
