(* ===== verification/Go_Time.thy ===== *)
theory Go_Time
  imports Go_Prelude
begin

text \<open>
  Go's \<open>time.ParseDuration\<close> and \<open>time.Parse\<close> for \<open>time.RFC3339\<close>. In durations the numbers are \<open>uint64\<close>: every sum that can pass \<open>2 ^ 64\<close> is reduced,
  and the checks against \<open>1 << 63\<close> are the code's. The \<open>float64\<close> product that turns a decimal
  fraction into nanoseconds is the argument \<open>frac\<close>, of the digits read, the unit and the scale.
\<close>

section \<open>Numbers\<close>

fun leadingInt :: "int \<Rightarrow> string \<Rightarrow> int option" where
  "leadingInt x [] = Some x"
| "leadingInt x (c # s) =
     (if x > 2 ^ 63 div 10 then None
      else let x' = x * 10 + (of_char c - 48) in if x' > 2 ^ 63 then None else leadingInt x' s)"

text \<open>Digits past the precision of a \<open>uint64\<close> are read and ignored.\<close>

fun leadingFraction :: "int \<times> int \<Rightarrow> string \<Rightarrow> int \<times> int" where
  "leadingFraction (x, scale) [] = (x, scale)"
| "leadingFraction (x, scale) (c # s) =
     (if x > (2 ^ 63 - 1) div 10 then (x, scale)
      else let y = x * 10 + (of_char c - 48) in
        if y > 2 ^ 63 then (x, scale) else leadingFraction (y, scale * 10) s)"

definition unitMap :: "(string \<times> int) list" where
  "unitMap = [(''ns'', 1), (''us'', 1000), ([CHR 0xC2, CHR 0xB5, CHR ''s''], 1000),
     ([CHR 0xCE, CHR 0xBC, CHR ''s''], 1000), (''ms'', 1000000), (''s'', 1000000000),
     (''m'', 60000000000), (''h'', 3600000000000)]"


section \<open>Durations\<close>

definition number_char :: "char \<Rightarrow> bool" where
  "number_char c \<longleftrightarrow> c = CHR ''.'' \<or> is_digit c"

definition after_point :: "string \<Rightarrow> string \<times> string" where
  "after_point r =
     (if r \<noteq> [] \<and> hd r = CHR ''.'' then (takeWhile is_digit (tl r), dropWhile is_digit (tl r)) else ([], r))"

lemma after_point_shorter: "length (snd (after_point r)) \<le> length r"
  by (cases r) (auto simp: after_point_def intro: le_SucI length_dropWhile_le)

text \<open>One number and unit after another; \<open>d\<close> is the sum so far.\<close>

function duration_loop :: "(int \<Rightarrow> int \<Rightarrow> int \<Rightarrow> int) \<Rightarrow> int \<Rightarrow> string \<Rightarrow> int option" where
  "duration_loop frac d s =
     (if s = [] then Some d
      else if \<not> number_char (hd s) then None
      else case leadingInt 0 (takeWhile is_digit s) of
        None \<Rightarrow> None
      | Some v \<Rightarrow> (
          let (fs, r) = after_point (dropWhile is_digit s);
              u = takeWhile (\<lambda>c. \<not> number_char c) r
          in if takeWhile is_digit s = [] \<and> fs = [] then None
             else if u = [] then None
             else case map_of unitMap u of
                 None \<Rightarrow> None
               | Some unit \<Rightarrow>
                   if v > 2 ^ 63 div unit then None
                   else (
                     let (f, scale) = leadingFraction (0, 1) fs;
                         v' = (if f > 0 then (v * unit + frac f unit scale) mod 2 ^ 64 else v * unit);
                         d' = (d + v') mod 2 ^ 64
                     in if f > 0 \<and> v' > 2 ^ 63 then None
                        else if d' > 2 ^ 63 then None
                        else duration_loop frac d' (dropWhile (\<lambda>c. \<not> number_char c) r))))"
  by auto
termination
proof (relation "measure (\<lambda>(_, _, s). length s)", goal_cases)
  case (2 frac d s v p fs r u unit q f scale v' d')
  have "length r \<le> length s"
    using 2(4,5) after_point_shorter [of "dropWhile is_digit s"] length_dropWhile_le [of is_digit s]
    by (metis le_trans snd_conv)
  moreover have "length (dropWhile (\<lambda>c. \<not> number_char c) r) < length r"
    using 2(6,8) by (cases r) (auto intro: le_imp_less_Suc length_dropWhile_le split: if_splits)
  ultimately show ?case by simp
qed simp

declare duration_loop.simps [simp del]

definition ParseDuration :: "(int \<Rightarrow> int \<Rightarrow> int \<Rightarrow> int) \<Rightarrow> string \<Rightarrow> duration option" where
  "ParseDuration frac s = (
     let neg = (s \<noteq> [] \<and> hd s = CHR ''-'');
         t = (if s \<noteq> [] \<and> (hd s = CHR ''-'' \<or> hd s = CHR ''+'') then tl s else s)
     in if t = ''0'' then Some 0
        else if t = [] then None
        else case duration_loop frac 0 t of
            None \<Rightarrow> None
          | Some d \<Rightarrow> if neg then Some (- d) else if d > 2 ^ 63 - 1 then None else Some d)"

lemma duration_loop_step:
  assumes "duration_loop frac d s = Some d'" and "s \<noteq> []"
  shows "\<exists>e r. 0 \<le> e \<and> e \<le> 2 ^ 63 \<and> duration_loop frac e r = Some d' \<and> length r < length s"
proof -
  obtain fs r where ap: "after_point (dropWhile is_digit s) = (fs, r)" by force
  obtain f scale where fr: "leadingFraction (0, 1) fs = (f, scale)" by force
  let ?rest = "dropWhile (\<lambda>c. \<not> number_char c) r"
  note step = assms(1) [unfolded duration_loop.simps [of frac d s] Let_def ap fr prod.case]
  from step assms(2) obtain x where e: "x mod 2 ^ 64 \<le> 2 ^ 63" "duration_loop frac (x mod 2 ^ 64) ?rest = Some d'" and
    u: "takeWhile (\<lambda>c. \<not> number_char c) r \<noteq> []"
    by (auto simp: not_less split: if_split_asm option.split_asm)
  have "length ?rest < length r" using u by (cases r) (auto intro: le_imp_less_Suc length_dropWhile_le split: if_splits)
  also have "length r \<le> length s"
    using ap after_point_shorter [of "dropWhile is_digit s"] length_dropWhile_le [of is_digit s] by simp
  finally show ?thesis using e by (intro exI [of _ "x mod 2 ^ 64"] exI [of _ ?rest]) simp
qed

lemma duration_loop_bound: "duration_loop frac d s = Some d' \<Longrightarrow> 0 \<le> d \<Longrightarrow> d \<le> 2 ^ 63 \<Longrightarrow> 0 \<le> d' \<and> d' \<le> 2 ^ 63"
proof (induction s arbitrary: d rule: length_induct)
  case (1 s)
  show ?case
  proof (cases "s = []")
    case False
    with "1.prems" "1.IH" show ?thesis using duration_loop_step by blast
  qed (use "1.prems" in \<open>simp add: duration_loop.simps [of frac d "[]"]\<close>)
qed

text \<open>A parsed duration is an \<open>int64\<close>.\<close>

lemma ParseDuration_int64: "ParseDuration frac s = Some d \<Longrightarrow> - (2 ^ 63) \<le> d \<and> d < 2 ^ 63"
proof -
  have b: "0 \<le> d' \<and> d' \<le> 2 ^ 63" if "duration_loop frac 0 t = Some d'" for t d'
    using duration_loop_bound [OF that] by simp
  assume "ParseDuration frac s = Some d"
  then show ?thesis
    by (auto simp: ParseDuration_def Let_def dest!: b split: if_splits option.splits)
qed


section \<open>Dates and RFC 3339\<close>

definition digits_value :: "string \<Rightarrow> int" where
  "digits_value s = foldl (\<lambda>n c. n * 10 + (of_char c - 48)) 0 s"

definition isLeap :: "int \<Rightarrow> bool" where
  "isLeap y \<longleftrightarrow> y mod 4 = 0 \<and> (y mod 100 \<noteq> 0 \<or> y mod 400 = 0)"

definition daysIn :: "int \<Rightarrow> int \<Rightarrow> int" where
  "daysIn m y = (if m = 2 then (if isLeap y then 29 else 28) else if m \<in> {4, 6, 9, 11} then 30 else 31)"

text \<open>Days from January 1, 1970 to a date of the proleptic Gregorian calendar.\<close>

definition epoch_days :: "int \<Rightarrow> int \<Rightarrow> int \<Rightarrow> int" where
  "epoch_days y m d = (
     let y' = y - 1 in
     365 * y' + y' div 4 - y' div 100 + y' div 400 + sum_list (map (\<lambda>k. daysIn k y) [1..m - 1]) + d - 719163)"

text \<open>A two-digit number at the start; only the hour may have one digit.\<close>

definition two_digits :: "string \<Rightarrow> (int \<times> string) option" where
  "two_digits s = (if length s \<ge> 2 \<and> list_all is_digit (take 2 s) then Some (digits_value (take 2 s), drop 2 s) else None)"

definition hour_digits :: "string \<Rightarrow> (int \<times> string) option" where
  "hour_digits s =
     (if s = [] \<or> \<not> is_digit (hd s) then None
      else if length s \<ge> 2 \<and> is_digit (s ! 1) then two_digits s
      else Some (digits_value (take 1 s), drop 1 s))"

definition literal :: "string \<Rightarrow> string \<Rightarrow> string option" where
  "literal p s = (if HasPrefix s p then Some (drop (length p) s) else None)"

text \<open>A fraction of seconds may follow where the layout has none; digits past the ninth are dropped.\<close>

definition second_fraction :: "string \<Rightarrow> int \<times> string" where
  "second_fraction s =
     (if length s \<ge> 2 \<and> hd s \<in> set ''.,'' \<and> is_digit (s ! 1)
      then let ds = takeWhile is_digit (tl s); used = take 9 ds
           in (digits_value used * 10 ^ (9 - length used), drop (Suc (length ds)) s)
      else (0, s))"

text \<open>\<open>Z\<close> or an offset in seconds; 24 hours and 60 minutes are still accepted.\<close>

definition zone_offset :: "string \<Rightarrow> (int \<times> string) option" where
  "zone_offset s =
     (if HasPrefix s ''Z'' then Some (0, drop 1 s)
      else if length s < 6 \<or> s ! 3 \<noteq> CHR '':'' \<or> hd s \<notin> set ''+-'' then None
      else case (two_digits (take 2 (drop 1 s)), two_digits (take 2 (drop 4 s))) of
          (Some (hr, _), Some (mm, _)) \<Rightarrow>
            if hr > 24 \<or> mm > 60 then None
            else Some ((if hd s = CHR ''-'' then - 1 else 1) * (hr * 3600 + mm * 60), drop 6 s)
        | _ \<Rightarrow> None)"

definition parse_clock :: "string \<Rightarrow> (int \<times> string) option" where
  "parse_clock s = do {
     (hr, s) \<leftarrow> hour_digits s;
     s \<leftarrow> (if hr < 24 then literal '':'' s else None);
     (mi, s) \<leftarrow> two_digits s;
     s \<leftarrow> (if mi < 60 then literal '':'' s else None);
     (se, s) \<leftarrow> two_digits s;
     if se < 60 then let (ns, r) = second_fraction s in Some ((hr * 3600 + mi * 60 + se) * Second + ns, r) else None }"

text \<open>\<open>time.Parse(time.RFC3339, s)\<close>, as nanoseconds since the epoch.\<close>

definition parse_RFC3339 :: "string \<Rightarrow> time option" where
  "parse_RFC3339 s =
     (if length s < 4 \<or> \<not> list_all is_digit (take 4 s) then None
      else do {
        s' \<leftarrow> literal ''-'' (drop 4 s);
        (m, s') \<leftarrow> two_digits s';
        s' \<leftarrow> (if 1 \<le> m \<and> m \<le> 12 then literal ''-'' s' else None);
        (d, s') \<leftarrow> two_digits s';
        s' \<leftarrow> literal ''T'' s';
        (t, s') \<leftarrow> parse_clock s';
        (off, s') \<leftarrow> zone_offset s';
        let y = digits_value (take 4 s) in
        if s' = [] \<and> 1 \<le> d \<and> d \<le> daysIn m y then Some (epoch_days y m d * 86400 * Second + t - off * Second) else None })"

end
