(* ===== verification/Mysql_Config.thy ===== *)
theory Mysql_Config
  imports Mysql_Server Go_Time
begin

text \<open>
  \<open>pkg/drivers/mysql/config.go\<close>: decoding and validation of a backend's configuration and the
  client configuration made from it. YAML decoding and environment substitution are
  third-party code (\<open>unmarshal\<close>, \<open>envsubst\<close>); the file system and the PEM parser are arguments
  of \<open>clientConfig\<close>. The lemmas say what every decoded configuration satisfies.
\<close>

section \<open>Decoding\<close>

definition defaultPort :: int where "defaultPort = 3306"
definition defaultNamePrefix :: string where "defaultNamePrefix = ''b_''"
definition defaultUserHost :: string where "defaultUserHost = ''%''"

definition mysql_validate :: "mysql_config \<Rightarrow> goerr option" where
  "mysql_validate c =
     (if myHost c = [] then Some (Errorf (Sprintf ''missing required field %q'' [AStr ''host'']))
      else if ContainsAny (myHost c) (''/@?# '' @ [CHR 0x09]) \<or> Contains (myHost c) '':'' \<and> \<not> ParseIP_ok (myHost c) then
        Some (Errorf (Sprintf ''host %q must be a bare host name or IP, without scheme, port or path'' [AStr (myHost c)]))
      else if myPort c < 1 \<or> myPort c > 65535 then
        Some (Errorf (Sprintf ''port %d is out of range'' [AInt (myPort c)]))
      else if myAdminUser c = [] then Some (Errorf (Sprintf ''missing required field %q'' [AStr ''adminUser'']))
      else if myAdminPassword c = [] then Some (Errorf (Sprintf ''missing required field %q'' [AStr ''adminPassword'']))
      else if ContainsAny (myAdminPassword c) [CHR 0x0D, CHR 0x0A] then
        Some (Errorf (Lit ''adminPassword contains a line break; recreate its Secret without a trailing newline''))
      else case checkPrefix (myNamePrefix c) of
          Some e \<Rightarrow> Some e
        | None \<Rightarrow>
            if HasPrefix (myAdminUser c) (myNamePrefix c) then
              Some (Errorf (Sprintf ''adminUser %q starts with namePrefix %q; the controller's own account must be outside the names it manages''
                     [AStr (myAdminUser c), AStr (myNamePrefix c)]))
            else case checkHost (myUserHost c) of
                Some e \<Rightarrow> Some (Wrapf ''userHost: %w'' [] e)
              | None \<Rightarrow> None)"

definition with_defaults :: "mysql_config \<Rightarrow> mysql_config" where
  "with_defaults c0 = (
     let c1 = (if myPort c0 = 0 then c0\<lparr>myPort := defaultPort\<rparr> else c0);
         c2 = (if myNamePrefix c1 = [] then c1\<lparr>myNamePrefix := defaultNamePrefix\<rparr> else c1)
     in if myUserHost c2 = [] then c2\<lparr>myUserHost := defaultUserHost\<rparr> else c2)"

definition mysql_decodeConfig ::
  "(string \<Rightarrow> goerr + mysql_config) \<Rightarrow> (mysql_config \<Rightarrow> goerr + mysql_config) \<Rightarrow> (int \<Rightarrow> int \<Rightarrow> int \<Rightarrow> int) \<Rightarrow>
   string \<Rightarrow> goerr + mysql_config" where
  "mysql_decodeConfig unmarshal envsubst frac raw =
     (case unmarshal raw of
        Inl e \<Rightarrow> Inl (Wrapf ''mysql config: %w'' [] e)
      | Inr c0 \<Rightarrow>
     (case envsubst c0 of
        Inl e \<Rightarrow> Inl (Wrapf ''mysql config: %w'' [] e)
      | Inr c1 \<Rightarrow> (
          let c = with_defaults c1 in
          case mysql_validate c of
            Some e \<Rightarrow> Inl (Wrapf ''mysql config: %w'' [] e)
          | None \<Rightarrow>
              if myAccountCheckInterval c = [] then Inr (c\<lparr>mycheckInterval := defaultVerifyInterval\<rparr>)
              else (
                let bad = Inl (Errorf (Sprintf ''mysql config: accountCheckInterval %q must be a non-negative Go duration such as 30m, or 0s to check on every pass''
                       [AStr (myAccountCheckInterval c)]))
                in case ParseDuration frac (myAccountCheckInterval c) of
                     None \<Rightarrow> bad
                   | Some d \<Rightarrow> if d < 0 then bad else Inr (c\<lparr>mycheckInterval := d\<rparr>)))))"


section \<open>The client configuration\<close>

definition dialTimeout :: duration where "dialTimeout = 10 * Second"
definition ioTimeout :: duration where "ioTimeout = 60 * Second"
definition lockWaitTimeout :: duration where "lockWaitTimeout = 50 * Second"

record 'pool tls_client =
  tcServerName :: string
  tcRootCAs :: "'pool option"

text \<open>The fields of \<open>gomysql.Config\<close> the driver sets, on top of the package's defaults.\<close>

record 'pool client_config =
  mcUser :: string
  mcPasswd :: string
  mcNet :: string
  mcAddr :: string
  mcTimeout :: duration
  mcReadTimeout :: duration
  mcWriteTimeout :: duration
  mcInterpolateParams :: bool
  mcCollation :: string
  mcParams :: smap
  mcTLS :: "'pool tls_client option"

definition clientConfig ::
  "(string \<Rightarrow> goerr + string) \<Rightarrow> (string \<Rightarrow> 'pool option) \<Rightarrow> mysql_config \<Rightarrow> goerr + 'pool client_config" where
  "clientConfig readFile certPool c = (
     let mc = \<lparr>mcUser = myAdminUser c, mcPasswd = myAdminPassword c, mcNet = ''tcp'',
               mcAddr = JoinHostPort (myHost c) (Itoa (myPort c)),
               mcTimeout = dialTimeout, mcReadTimeout = ioTimeout, mcWriteTimeout = ioTimeout,
               mcInterpolateParams = True, mcCollation = ''utf8mb4_general_ci'',
               mcParams = [(''lock_wait_timeout'', Itoa (lockWaitTimeout div Second))], mcTLS = None\<rparr>
     in case myTLS c of
          None \<Rightarrow> Inr mc
        | Some t \<Rightarrow> (
            let server = (if tlsServerName t = [] then myHost c else tlsServerName t) in
            if tlsCAFile t = [] then Inr (mc\<lparr>mcTLS := Some \<lparr>tcServerName = server, tcRootCAs = None\<rparr>\<rparr>)
            else case readFile (tlsCAFile t) of
                Inl e \<Rightarrow> Inl (Wrapf ''tls.caFile: %w'' [] e)
              | Inr pem \<Rightarrow>
                  (case certPool pem of
                     None \<Rightarrow> Inl (Errorf (Sprintf ''tls.caFile %q holds no PEM certificates'' [AStr (tlsCAFile t)]))
                   | Some pool \<Rightarrow> Inr (mc\<lparr>mcTLS := Some \<lparr>tcServerName = server, tcRootCAs = Some pool\<rparr>\<rparr>))))"


section \<open>Decoded configurations\<close>

definition config_ok :: "mysql_config \<Rightarrow> bool" where
  "config_ok c \<longleftrightarrow> name_config c \<and> checkHost (myUserHost c) = None \<and> myHost c \<noteq> [] \<and>
     1 \<le> myPort c \<and> myPort c \<le> 65535 \<and> myAdminUser c \<noteq> [] \<and> myAdminPassword c \<noteq> []"

lemma mysql_validate_None: "mysql_validate c = None \<Longrightarrow> config_ok c"
  by (auto simp: mysql_validate_def config_ok_def name_config_def split: if_splits option.splits)

lemma config_ok_interval [simp]: "config_ok (c\<lparr>mycheckInterval := d\<rparr>) = config_ok c"
  by (simp add: config_ok_def name_config_def)

lemma mysql_decodeConfig_ok:
  assumes "mysql_decodeConfig unmarshal envsubst frac raw = Inr c"
  shows "config_ok c \<and> 0 \<le> mycheckInterval c"
  using assms
  by (auto simp: mysql_decodeConfig_def Let_def defaultVerifyInterval_def Minute_def Second_def
      dest!: mysql_validate_None split: sum.splits option.splits if_splits)

text \<open>
  Validated configurations. A configuration the driver starts with keeps the
  controller's own account outside the managed names, whatever the environment substituted: its
  prefix is a lowercase word ending in an underscore that matches no system name, the host of
  created accounts is well formed, the port is in range and the check interval is not negative;
  in particular every defaulted field has passed the same checks.
\<close>

theorem decoded_config_valid:
  assumes "mysql_decodeConfig unmarshal envsubst frac raw = Inr c"
  shows "\<not> managed c (myAdminUser c) \<and> (\<forall>s \<in> set systemNames. \<not> prefix (myNamePrefix c) s) \<and>
    prefixRE (myNamePrefix c) \<and> hostRE (myUserHost c) \<and> 1 \<le> myPort c \<and> myPort c \<le> 65535 \<and> 0 \<le> mycheckInterval c"
proof -
  note ok = mysql_decodeConfig_ok [OF assms]
  then have "checkPrefix (myNamePrefix c) = None" "\<not> prefix (myNamePrefix c) (myAdminUser c)" "checkHost (myUserHost c) = None"
    by (auto simp: config_ok_def name_config_def HasPrefix_prefix)
  with ok show ?thesis
    by (auto simp: managed_def strict_prefix_def checkPrefix_def checkHost_def system_prefix_None config_ok_def split: if_splits)
qed

text \<open>A configuration as the examples use it.\<close>

definition demo_mysql :: mysql_config where
  "demo_mysql = \<lparr>myHost = ''db'', myPort = 0, myAdminUser = ''buckety'', myAdminPassword = ''s3cret'', myNamePrefix = [],
     myUserHost = [], myTLS = None, myAccountCheckInterval = ''1h30m'', mycheckInterval = 0\<rparr>"

definition demo_decoded :: mysql_config where
  "demo_decoded = demo_mysql\<lparr>myPort := 3306, myNamePrefix := ''b_'', myUserHost := ''%'', mycheckInterval := 90 * Minute\<rparr>"

theorem decoded_config_valid_witness:
  "mysql_decodeConfig (\<lambda>_. Inr demo_mysql) Inr (\<lambda>_ _ _. 0) ''x'' = Inr demo_decoded \<and> \<not> managed demo_decoded ''buckety'' \<and>
   mycheckInterval demo_decoded = 5400000000000"
proof -
  have d: "mysql_decodeConfig (\<lambda>_. Inr demo_mysql) Inr (\<lambda>_ _ _. 0) ''x'' = Inr demo_decoded" by code_simp
  have "myAdminUser demo_decoded = ''buckety''" "mycheckInterval demo_decoded = 5400000000000" by code_simp+
  with d decoded_config_valid [OF d] show ?thesis by simp
qed

end
