(* ===== verification/Mysql_Driver.thy ===== *)
theory Mysql_Driver
  imports Mysql_Config Driver_Registry "HOL-Library.List_Lexorder" "HOL-Library.Char_ord"
begin

text \<open>
  \<open>pkg/drivers/mysql/driver.go\<close>: a Buckety is a database, a BucketyAccess a user with grants on
  that one database. Methods are programs of the pass monad over the connection of
  \<open>Mysql_Server\<close>; the driver's memory is the remembered account checks and the breaker.
  \<open>mysql_driver\<close> packs the methods into the \<open>Driver\<close> interface, and the validation methods are
  shown to keep its contract.
\<close>

section \<open>Validation\<close>

definition mysql_DriverName :: string where
  "mysql_DriverName = ''mysql''"

definition mysql_version :: string where
  "mysql_version = ''0.1.0''"

text \<open>\<open>^[a-z][a-z0-9]{1,31}$\<close> and \<open>^[a-z][a-z0-9_]{1,63}$\<close>\<close>

definition charsetRE :: "string \<Rightarrow> bool" where
  "charsetRE s \<longleftrightarrow> 2 \<le> length s \<and> length s \<le> 32 \<and> is_lower (hd s) \<and> list_all lower_digit (tl s)"

definition collationRE :: "string \<Rightarrow> bool" where
  "collationRE s \<longleftrightarrow> 2 \<le> length s \<and> length s \<le> 64 \<and> is_lower (hd s) \<and>
     list_all (\<lambda>c. lower_digit c \<or> c = CHR ''_'') (tl s)"

definition mysql_check_parameter :: "string \<Rightarrow> string \<Rightarrow> goerr option" where
  "mysql_check_parameter k v =
     (if k = ''characterSet'' then
        if \<not> charsetRE v then
          Some (Errorf (Sprintf ''parameters.characterSet %q must be a lowercase character set name, e.g. utf8mb4'' [AStr v]))
        else if v = ''utf8'' then
          Some (Errorf (Lit ''parameters.characterSet \"utf8\" is ambiguous; use utf8mb4 (or utf8mb3)''))
        else None
      else if k = ''collation'' then
        if \<not> collationRE v then
          Some (Errorf (Sprintf ''parameters.collation %q must be a lowercase collation name, e.g. utf8mb4_unicode_ci'' [AStr v]))
        else if HasPrefix v ''utf8_'' then
          Some (Errorf (Sprintf ''parameters.collation %q is ambiguous; use the utf8mb4_ (or utf8mb3_) name'' [AStr v]))
        else None
      else Some (Errorf (Sprintf ''unknown parameter %q (mysql v0.1 accepts: characterSet, collation)'' [AStr k])))"

definition mysql_ValidateParameters :: "smap \<Rightarrow> goerr option" where
  "mysql_ValidateParameters params = range_check mysql_check_parameter params"

fun immutable_keys :: "smap \<Rightarrow> smap \<Rightarrow> string list \<Rightarrow> goerr option" where
  "immutable_keys old new [] = None"
| "immutable_keys old new (k # ks) =
     (if get0 old k \<noteq> get0 new k then
        Some (Errorf (Sprintf ''parameters.%s is immutable post-create (current=%q, requested=%q); the driver does not convert existing tables''
               [AStr k, AStr (get0 old k), AStr (get0 new k)]))
      else immutable_keys old new ks)"

definition mysql_ValidateUpdateParameters :: "smap \<Rightarrow> smap \<Rightarrow> goerr option" where
  "mysql_ValidateUpdateParameters oldParams newParams =
     (case mysql_ValidateParameters newParams of
        Some e \<Rightarrow> Some e
      | None \<Rightarrow> immutable_keys oldParams newParams [''characterSet'', ''collation''])"

definition mysql_ValidateAccessParameters :: "smap \<Rightarrow> goerr option" where
  "mysql_ValidateAccessParameters params =
     (if params = [] then None
      else Some (Errorf (Sprintf ''mysql accepts no BucketyAccess parameters; got: %s'' [AStr (Join (sort (map fst params)) '', '')])))"

definition mysql_ValidateResourceName :: "mysql_config \<Rightarrow> string \<Rightarrow> goerr option" where
  "mysql_ValidateResourceName cfg name =
     (case checkDatabase cfg name of
        Some e \<Rightarrow>
          if \<not> HasPrefix name (myNamePrefix cfg) then
            Some (Wrapf ''%w (set spec.name, e.g. \"%s${namespace}_${name}\")'' [AStr (myNamePrefix cfg)] e)
          else Some e
      | None \<Rightarrow> None)"


section \<open>Databases\<close>

definition mysql_InspectBuckety :: "mysql_config \<Rightarrow> 'w mysql_env \<Rightarrow> string \<Rightarrow> ('w, goerr + Inspection) myprog" where
  "mysql_InspectBuckety cfg E name =
     (case checkDatabase cfg name of
        Some e \<Rightarrow> ret (Inl (Wrapf ''mysql: %w'' [] e))
      | None \<Rightarrow> do {
          s \<leftarrow> conn_lookupSchema E name;
          case s of
            Inl e \<Rightarrow> ret (Inl (Wrapf ''mysql: look up database %q: %w'' [AStr name] e))
          | Inr None \<Rightarrow> ret (Inr \<lparr>Exists = False, Empty = False\<rparr>)
          | Inr (Some _) \<Rightarrow> do {
              n \<leftarrow> conn_countContent E name;
              ret (case n of
                     Inl e \<Rightarrow> Inl (Wrapf ''mysql: count objects in database %q: %w'' [AStr name] e)
                   | Inr k \<Rightarrow> Inr \<lparr>Exists = True, Empty = (k = 0)\<rparr>) } })"

text \<open>\<open>strings.EqualFold\<close> on ASCII strings.\<close>

definition lower_char :: "char \<Rightarrow> char" where
  "lower_char c = (if is_upper c then char_of (of_char c + 32 :: nat) else c)"

definition EqualFold :: "string \<Rightarrow> string \<Rightarrow> bool" where
  "EqualFold s t = (map lower_char s = map lower_char t)"

definition schema_drift :: "string \<Rightarrow> string \<Rightarrow> schemaInfo \<Rightarrow> arg list" where
  "schema_drift charset collation s =
     (if charset \<noteq> [] \<and> \<not> EqualFold charset (scCharset s)
      then [AText (Sprintf ''characterSet: current=%q requested=%q'' [AStr (scCharset s), AStr charset])] else []) @
     (if collation \<noteq> [] \<and> \<not> EqualFold collation (scCollation s)
      then [AText (Sprintf ''collation: current=%q requested=%q'' [AStr (scCollation s), AStr collation])] else [])"

definition drift_result :: "EnsureRequest \<Rightarrow> schemaInfo \<Rightarrow> goerr option" where
  "drift_result req s = (
     let drift = schema_drift (get0 (erParameters req) ''characterSet'') (get0 (erParameters req) ''collation'') s
     in if drift = [] then None
        else Some (ErrParameterDrift (Sprintf ''database %q %s; the driver does not change an existing database's defaults or convert its tables: ALTER DATABASE (and the tables) out of band and then annotate the Buckety to re-check it, or recreate the Buckety''
               (AStr (erName req) # drift))))"

definition mysql_EnsureBuckety :: "mysql_config \<Rightarrow> 'w mysql_env \<Rightarrow> EnsureRequest \<Rightarrow> ('w, goerr option) myprog" where
  "mysql_EnsureBuckety cfg E req =
     (case checkDatabase cfg (erName req) of
        Some e \<Rightarrow> ret (Some (Wrapf ''mysql: %w'' [] e))
      | None \<Rightarrow>
     (case mysql_ValidateParameters (erParameters req) of
        Some e \<Rightarrow> ret (Some (Wrapf ''mysql: %w'' [] e))
      | None \<Rightarrow> do {
          s \<leftarrow> conn_lookupSchema E (erName req);
          case s of
            Inl e \<Rightarrow> ret (Some (Wrapf ''mysql: look up database %q: %w'' [AStr (erName req)] e))
          | Inr (Some info) \<Rightarrow> ret (drift_result req info)
          | Inr None \<Rightarrow> do {
              x \<leftarrow> conn_exec E (createDatabaseSQL (erName req) (get0 (erParameters req) ''characterSet'') (get0 (erParameters req) ''collation'')) [];
              case x of
                Some e \<Rightarrow> ret (Some (Wrapf ''mysql: create database %q: %w'' [AStr (erName req)] e))
              | None \<Rightarrow> do {
                  s' \<leftarrow> conn_lookupSchema E (erName req);
                  ret (case s' of
                         Inl e \<Rightarrow> Some (Wrapf ''mysql: look up database %q: %w'' [AStr (erName req)] e)
                       | Inr None \<Rightarrow> Some (Errorf (Sprintf ''mysql: database %q exists but is not visible to the controller account; its grants must cover the namePrefix %q''
                              [AStr (erName req), AStr (myNamePrefix cfg)]))
                       | Inr (Some info) \<Rightarrow> drift_result req info) } } }))"

definition mysql_DeleteBuckety :: "mysql_config \<Rightarrow> 'w mysql_env \<Rightarrow> DeleteRequest \<Rightarrow> ('w, goerr option) myprog" where
  "mysql_DeleteBuckety cfg E req =
     (case checkDatabase cfg (drName req) of
        Some e \<Rightarrow> ret (Some (Wrapf ''mysql: %w'' [] e))
      | None \<Rightarrow> do {
          x \<leftarrow> conn_exec E (dropDatabaseSQL (drName req)) [];
          ret (map_option (Wrapf ''mysql: drop database %q: %w'' [AStr (drName req)]) x) })"


section \<open>Accounts\<close>

definition mysql_grant :: "'w mysql_env \<Rightarrow> account \<Rightarrow> string \<Rightarrow> string list \<Rightarrow> ('w, goerr option) myprog" where
  "mysql_grant E acct pattern privileges =
     (if privileges = [] then ret None
      else case grantSQL privileges pattern of
          Inl e \<Rightarrow> ret (Some e)
        | Inr q \<Rightarrow> do {
            x \<leftarrow> conn_exec E q [acctUser acct, acctHost acct];
            ret (map_option (Wrapf ''mysql: grant %s to %s: %w'' [AStr (Join privileges '', ''), AStr (account_String acct)]) x) })"

fun revokeIfHeld :: "'w mysql_env \<Rightarrow> account \<Rightarrow> string \<Rightarrow> string list \<Rightarrow> ('w, goerr option) myprog" where
  "revokeIfHeld E acct pattern [] = ret None"
| "revokeIfHeld E acct pattern (p # ps) =
     (case revokeSQL [p] pattern of
        Inl e \<Rightarrow> ret (Some e)
      | Inr q \<Rightarrow> do {
          x \<leftarrow> conn_exec E q [acctUser acct, acctHost acct];
          case x of
            Some e \<Rightarrow>
              if \<not> isMySQLError e erNoSuchGrant
              then ret (Some (Wrapf ''mysql: revoke %s from %s: %w'' [AStr p, AStr (account_String acct)] e))
              else revokeIfHeld E acct pattern ps
          | None \<Rightarrow> revokeIfHeld E acct pattern ps })"

definition revoke_extra :: "'w mysql_env \<Rightarrow> account \<Rightarrow> string \<Rightarrow> string list \<Rightarrow> ('w, goerr option) myprog" where
  "revoke_extra E acct pattern extra =
     (if extra = [] then ret None
      else case revokeSQL extra pattern of
          Inl e \<Rightarrow> ret (Some e)
        | Inr q \<Rightarrow> do {
            x \<leftarrow> conn_exec E q [acctUser acct, acctHost acct];
            ret (map_option (Wrapf ''mysql: revoke %s from %s: %w'' [AStr (Join extra '', ''), AStr (account_String acct)]) x) })"

definition alignGrants ::
  "'w mysql_env \<Rightarrow> account \<Rightarrow> string \<Rightarrow> string list \<Rightarrow> grants option \<Rightarrow> ('w, goerr option) myprog" where
  "alignGrants E acct pattern want have =
     (case have of
        None \<Rightarrow> do {
          g \<leftarrow> mysql_grant E acct pattern want;
          case g of
            Some e \<Rightarrow> ret (Some e)
          | None \<Rightarrow> revokeIfHeld E acct pattern (without readWritePrivileges want) }
      | Some h \<Rightarrow> do {
          g \<leftarrow> mysql_grant E acct pattern (without want (gsPrivileges h));
          case g of
            Some e \<Rightarrow> ret (Some e)
          | None \<Rightarrow> do {
              r \<leftarrow> revoke_extra E acct pattern (without (gsPrivileges h) want);
              case r of
                Some e \<Rightarrow> ret (Some e)
              | None \<Rightarrow>
                  if gsGrantOption h then do {
                    x \<leftarrow> conn_exec E (revokeGrantOptionSQL pattern) [acctUser acct, acctHost acct];
                    ret (map_option (Wrapf ''mysql: revoke GRANT OPTION from %s: %w'' [AStr (account_String acct)]) x) }
                  else ret None } })"

definition setPassword :: "'w mysql_env \<Rightarrow> account \<Rightarrow> string \<Rightarrow> ('w, bool \<times> goerr option) myprog" where
  "setPassword E acct password = do {
     x \<leftarrow> conn_exec E createUserSQL [acctUser acct, acctHost acct, password];
     case x of
       None \<Rightarrow> ret (True, None)
     | Some e \<Rightarrow>
         if \<not> isMySQLError e erCannotUser then
           ret (False, Some (Wrapf ''mysql: create user %s: %w'' [AStr (account_String acct)] (statementError (mErrText E) e password)))
         else do {
           y \<leftarrow> conn_exec E alterUserSQL [acctUser acct, acctHost acct, password];
           ret (False, map_option (\<lambda>e. Wrapf ''mysql: set password of %s: %w'' [AStr (account_String acct)] (statementError (mErrText E) e password)) y) } }"

definition verifyAttempts :: nat where
  "verifyAttempts = 5"

text \<open>The verification loop; \<open>k\<close> further attempts are left after this one.\<close>

fun verify_loop ::
  "mysql_config \<Rightarrow> 'w mysql_env \<Rightarrow> account \<Rightarrow> string \<Rightarrow> string \<Rightarrow> string list \<Rightarrow> bool \<Rightarrow> nat \<Rightarrow>
   ('w, bool \<times> bool \<times> goerr option) myprog" where
  "verify_loop cfg E acct password pattern want created k = do {
     r \<leftarrow> conn_login E acct password pattern;
     case r of
       Inr have \<Rightarrow> do { x \<leftarrow> alignGrants E acct pattern want (Some have); ret (created, True, x) }
     | Inl e \<Rightarrow>
         if errors_Is e errShadowed then ret (created, False, None)
         else if \<not> errors_Is e errLoginDenied \<or> k = 0 then
           ret (created, False, Some (Wrapf ''mysql: set the password of %s from its Secret, but the controller cannot log in with it (userHost %q must admit the controller's address): %w''
                  [AStr (account_String acct), AStr (myUserHost cfg)] e))
         else do {
           c \<leftarrow> ext (mWait E);
           case c of
             Some ce \<Rightarrow> ret (created, False, Some ce)
           | None \<Rightarrow> (case k of 0 \<Rightarrow> ret (created, False, None)
               | Suc k' \<Rightarrow> verify_loop cfg E acct password pattern want created k') } }"

declare verify_loop.simps [simp del]

definition repair_account ::
  "mysql_config \<Rightarrow> 'w mysql_env \<Rightarrow> account \<Rightarrow> string \<Rightarrow> bool \<Rightarrow> string \<Rightarrow> string list \<Rightarrow>
   ('w, bool \<times> bool \<times> goerr option) myprog" where
  "repair_account cfg E acct password fromSecret pattern want = do {
     (created, err) \<leftarrow> setPassword E acct password;
     case err of
       Some e \<Rightarrow> ret (False, False, Some e)
     | None \<Rightarrow> do {
         x \<leftarrow> alignGrants E acct pattern want (if created then Some \<lparr>gsPrivileges = [], gsGrantOption = False\<rparr> else None);
         case x of
           Some e \<Rightarrow> ret (created, False, Some e)
         | None \<Rightarrow>
             if \<not> fromSecret then ret (created, False, None)
             else verify_loop cfg E acct password pattern want created (verifyAttempts - 1) } }"

text \<open>The answer is \<open>(created, verified, err)\<close>.\<close>

definition ensureAccount ::
  "mysql_config \<Rightarrow> 'w mysql_env \<Rightarrow> account \<Rightarrow> string \<Rightarrow> bool \<Rightarrow> string \<Rightarrow> string list \<Rightarrow>
   ('w, bool \<times> bool \<times> goerr option) myprog" where
  "ensureAccount cfg E acct password fromSecret pattern want =
     (if fromSecret then do {
        r \<leftarrow> conn_login E acct password pattern;
        case r of
          Inr have \<Rightarrow> do { x \<leftarrow> alignGrants E acct pattern want (Some have); ret (False, True, x) }
        | Inl e \<Rightarrow>
            if \<not> errors_Is e errLoginDenied \<and> \<not> errors_Is e errShadowed then
              ret (False, False, Some (Wrapf ''mysql: log in as %s to check it: %w'' [AStr (account_String acct)] e))
            else repair_account cfg E acct password fromSecret pattern want }
      else repair_account cfg E acct password fromSecret pattern want)"

definition secretData :: "mysql_config \<Rightarrow> string \<Rightarrow> string \<Rightarrow> string \<Rightarrow> smap" where
  "secretData cfg db user password = (
     let port = Itoa (myPort cfg); hostPort = JoinHostPort (myHost cfg) port
     in [(''host'', myHost cfg), (''port'', port), (''database'', db), (''username'', user), (''password'', password),
         (''jdbcUrl'', ''jdbc:mariadb://'' @ hostPort @ ''/'' @ db),
         (''url'', url_String ''mysql'' user password hostPort (''/'' @ db))])"


section \<open>Access\<close>

definition modify_verified :: "(verifiedAccounts \<Rightarrow> verifiedAccounts) \<Rightarrow> ('w, unit) myprog" where
  "modify_verified f = do { m \<leftarrow> get_memory; put_memory (m\<lparr>mmVerified := f (mmVerified m)\<rparr>) }"

text \<open>The value returned while password generation has not come to an end.\<close>

definition still_generating :: goerr where
  "still_generating = Errorf (Lit ''mysql: password generation has not returned'')"

definition granted_result :: "mysql_config \<Rightarrow> string \<Rightarrow> account \<Rightarrow> string \<Rightarrow> bool \<Rightarrow> GrantResult" where
  "granted_result cfg db acct password minted =
     \<lparr>gtSecretData = secretData cfg db (acctUser acct) password, gtPrincipal = account_String acct,
      gtScoped = True, gtRevocable = True, gtMinted = minted\<rparr>"

text \<open>The password of the access: from its Secret, validated, or generated.\<close>

definition access_password :: "'w mysql_env \<Rightarrow> GrantRequest \<Rightarrow> ('w, goerr + string \<times> bool) myprog" where
  "access_password E req = (
     let stored = (case grExistingSecretData req of Some m \<Rightarrow> get0 m ''password'' | None \<Rightarrow> []) in
     if stored = [] then do {
       g \<leftarrow> generatePassword E (mRounds E);
       ret (case g of
              None \<Rightarrow> Inl still_generating
            | Some (Inl e) \<Rightarrow> Inl e
            | Some (Inr p) \<Rightarrow> Inr (p, False)) }
     else ret (case validatePassword stored of
                 Some e \<Rightarrow> Inl (Wrapf ''mysql: the access Secret's password: %w'' [] e)
               | None \<Rightarrow> Inr (stored, True)))"

text \<open>From \<open>verifyKey\<close> on.\<close>

definition converge_access ::
  "mysql_config \<Rightarrow> 'w mysql_env \<Rightarrow> string \<Rightarrow> account \<Rightarrow> string list \<Rightarrow> string \<Rightarrow> bool \<Rightarrow> ('w, goerr + GrantResult) myprog" where
  "converge_access cfg E db acct want password fromSecret = (
     let pattern = grantPattern db; key = verifyKey acct pattern want password in do {
     m \<leftarrow> get_memory;
     t \<leftarrow> (if fromSecret then ext (mNow E) else ret 0);
     if fromSecret \<and> verified_fresh acct key t (mycheckInterval cfg) (mmVerified m)
     then ret (Inr (granted_result cfg db acct password False))
     else do {
       (created, verified, err) \<leftarrow> ensureAccount cfg E acct password fromSecret pattern want;
       (if verified \<and> err = None then do { t' \<leftarrow> ext (mNow E); modify_verified (verified_record acct key t') }
        else modify_verified (verified_forget acct));
       case err of
         Some e \<Rightarrow> do {
           (if created then do { _ \<leftarrow> conn_exec (E\<lparr>mCtxErr := mDetachedErr E\<rparr>) dropUserSQL [acctUser acct, acctHost acct]; ret () }
            else ret ());
           ret (Inl e) }
       | None \<Rightarrow> ret (Inr (granted_result cfg db acct password created)) } })"

definition mysql_GrantAccess :: "mysql_config \<Rightarrow> 'w mysql_env \<Rightarrow> GrantRequest \<Rightarrow> ('w, goerr + GrantResult) myprog" where
  "mysql_GrantAccess cfg E req =
     (case checkDatabase cfg (grBucketyName req) of
        Some e \<Rightarrow> ret (Inl (Wrapf ''mysql: %w'' [] e))
      | None \<Rightarrow>
     (case userName cfg (grAccessNamespace req) (grAccessName req) of
        Inl e \<Rightarrow> ret (Inl e)
      | Inr user \<Rightarrow> (
          let acct = \<lparr>acctUser = user, acctHost = myUserHost cfg\<rparr> in
          case rolePrivileges (grRole req) of
            Inl e \<Rightarrow> do {
              modify_verified (verified_forget acct);
              x \<leftarrow> conn_exec E dropUserSQL [acctUser acct, acctHost acct];
              ret (Inl (case x of
                     Some derr \<Rightarrow> Wrapf ''%w; dropping the user %s it may hold from an earlier role failed: %v'' [AStr (account_String acct), AErr derr] e
                   | None \<Rightarrow> e)) }
          | Inr want \<Rightarrow> do {
              p \<leftarrow> access_password E req;
              case p of
                Inl e \<Rightarrow> ret (Inl e)
              | Inr (password, fromSecret) \<Rightarrow> converge_access cfg E (grBucketyName req) acct want password fromSecret })))"

definition mysql_RevokeAccess :: "mysql_config \<Rightarrow> 'w mysql_env \<Rightarrow> string \<Rightarrow> ('w, goerr option) myprog" where
  "mysql_RevokeAccess cfg E prin =
     (if prin = [] then ret None
      else case parsePrincipal cfg prin of
          Inl e \<Rightarrow> ret (Some e)
        | Inr acct \<Rightarrow> do {
            modify_verified (verified_forget acct);
            x \<leftarrow> conn_exec E dropUserSQL [acctUser acct, acctHost acct];
            ret (map_option (Wrapf ''mysql: drop user %s: %w'' [AStr (account_String acct)]) x) })"


section \<open>The driver\<close>

type_synonym 'w myworld = "('w, myevent, mysql_mem) sys"

definition mysql_driver :: "mysql_config \<Rightarrow> 'w mysql_env \<Rightarrow> 'w myworld Driver" where
  "mysql_driver cfg E =
     \<lparr>dName = mysql_DriverName, dVersion = mysql_version,
      dInspectBuckety = (\<lambda>name. run_state (mysql_InspectBuckety cfg E name)),
      dEnsureBuckety = (\<lambda>req w. case run_state (mysql_EnsureBuckety cfg E req) w of (err, w') \<Rightarrow> (([], err), w')),
      dDeleteBuckety = (\<lambda>req. run_state (mysql_DeleteBuckety cfg E req)),
      dGrantAccess = (\<lambda>req. run_state (mysql_GrantAccess cfg E req)),
      dRevokeAccess = (\<lambda>p. run_state (mysql_RevokeAccess cfg E p)),
      dValidateParameters = mysql_ValidateParameters,
      dValidateUpdateParameters = mysql_ValidateUpdateParameters,
      dValidateAccessParameters = mysql_ValidateAccessParameters,
      dValidateResourceName = mysql_ValidateResourceName cfg,
      dTemplatedParameters = None, dForgetBuckety = None\<rparr>"

text \<open>\<open>newSQLConn\<close> opens the pool of the third-party client with a client configuration.\<close>

definition mysql_newDriver ::
  "(string \<Rightarrow> goerr + string) \<Rightarrow> (string \<Rightarrow> 'pool option) \<Rightarrow> ('pool client_config \<Rightarrow> goerr + 'w mysql_env) \<Rightarrow>
   mysql_config \<Rightarrow> goerr + 'w myworld Driver" where
  "mysql_newDriver readFile certPool newSQLConn cfg =
     (case clientConfig readFile certPool cfg of
        Inl e \<Rightarrow> Inl (Wrapf ''mysql config: %w'' [] e)
      | Inr mc \<Rightarrow>
          (case newSQLConn mc of
             Inl e \<Rightarrow> Inl (Wrapf ''mysql config: %w'' [] e)
           | Inr E \<Rightarrow> Inr (mysql_driver cfg E)))"

definition mysql_factory ::
  "(string \<Rightarrow> goerr + mysql_config) \<Rightarrow> (mysql_config \<Rightarrow> goerr + mysql_config) \<Rightarrow> (int \<Rightarrow> int \<Rightarrow> int \<Rightarrow> int) \<Rightarrow>
   (string \<Rightarrow> goerr + string) \<Rightarrow> (string \<Rightarrow> 'pool option) \<Rightarrow> ('pool client_config \<Rightarrow> goerr + 'w mysql_env) \<Rightarrow>
   'w myworld Factory" where
  "mysql_factory unmarshal envsubst frac readFile certPool newSQLConn raw =
     (case mysql_decodeConfig unmarshal envsubst frac raw of
        Inl e \<Rightarrow> Inl e
      | Inr cfg \<Rightarrow> mysql_newDriver readFile certPool newSQLConn cfg)"

definition mysql_init :: "'w myworld Factory \<Rightarrow> 'w myworld registry \<Rightarrow> goerr + 'w myworld registry" where
  "mysql_init factory reg = Register mysql_DriverName mysql_version factory reg"


section \<open>The validation contract\<close>

lemma immutable_keys_None: "immutable_keys old new ks = None \<longleftrightarrow> (\<forall>k \<in> set ks. get0 old k = get0 new k)"
  by (induction old new ks rule: immutable_keys.induct) auto

interpretation mysql: driver_validation mysql_ValidateParameters mysql_ValidateUpdateParameters
  mysql_ValidateAccessParameters "mysql_ValidateResourceName cfg"
proof
  fix p q old new :: smap and n :: string
  show "set p = set q \<Longrightarrow> mysql_ValidateParameters p = None \<longleftrightarrow> mysql_ValidateParameters q = None"
    unfolding mysql_ValidateParameters_def by (rule range_check_order)
  show "mysql_ValidateUpdateParameters old new = None \<Longrightarrow> mysql_ValidateParameters new = None"
    by (simp add: mysql_ValidateUpdateParameters_def split: option.splits)
  show "\<lbrakk>mysql_ValidateParameters p = None; map_of old = map_of p\<rbrakk> \<Longrightarrow> mysql_ValidateUpdateParameters old p = None"
    by (simp add: mysql_ValidateUpdateParameters_def immutable_keys_None get0_cong [of old p])
  show "mysql_ValidateAccessParameters p = None \<longleftrightarrow> p = []"
    by (simp add: mysql_ValidateAccessParameters_def)
  show "mysql_ValidateResourceName cfg n = None \<Longrightarrow> n \<noteq> []"
    by (auto simp: mysql_ValidateResourceName_def checkDatabase_None managed_def strict_prefix_def split: option.splits if_splits)
qed

lemma mysql_driver_ok: "driver_ok (mysql_driver cfg E)"
  using mysql.driver_validation_axioms by (simp add: mysql_driver_def)

lemma mysql_factory_ok:
  "mysql_factory unmarshal envsubst frac readFile certPool newSQLConn raw = Inr d \<Longrightarrow> driver_ok d"
  using mysql_driver_ok by (auto simp: mysql_factory_def mysql_newDriver_def split: sum.splits)

end
