(* ===== verification/Mysql_Safety.thy ===== *)
theory Mysql_Safety
  imports Mysql_Driver
begin

text \<open>
  What holds of the mysql driver's calls: the prefix boundary over any sequence of calls, the
  privileges an access ends up with, the users a failed grant leaves behind, the origin of
  remembered account checks, the one statement \<open>EnsureBuckety\<close> makes, and password generation.
\<close>

section \<open>The connection in the calculus\<close>

lemma keeps_admit: "\<lbrakk>R None h; \<And>e. R (Some e) h\<rbrakk> \<Longrightarrow> keeps C h (admit E) R"
  unfolding admit_def by (intro keeps_rules) (metis option.exhaust)+

lemma keeps_report_outcome: "R () h \<Longrightarrow> keeps C h (report_outcome E err) R"
  unfolding report_outcome_def by (intro keeps_rules) simp

lemmas conn_defs = conn_exec_def conn_lookupSchema_def conn_countContent_def conn_login_def
  sql_exec_def sql_lookupSchema_def sql_countContent_def sql_login_def

lemma keeps_conn_exec [keeps_rules]:
  "\<lbrakk>\<And>r. C h (Executed q args r); \<And>r. R r (h @ [Executed q args r]); \<And>e. R (Some e) h\<rbrakk> \<Longrightarrow> keeps C h (conn_exec E q args) R"
  unfolding conn_defs by (intro keeps_rules keeps_admit keeps_report_outcome) simp_all

lemma keeps_conn_lookupSchema [keeps_rules]:
  "\<lbrakk>\<And>r. C h (LookedUp name r); \<And>r. R r (h @ [LookedUp name r]); \<And>e. R (Inl e) h\<rbrakk> \<Longrightarrow> keeps C h (conn_lookupSchema E name) R"
  unfolding conn_defs by (intro keeps_rules keeps_admit keeps_report_outcome) simp_all

lemma keeps_conn_countContent [keeps_rules]:
  "\<lbrakk>\<And>r. C h (Counted name r); \<And>r. R r (h @ [Counted name r]); \<And>e. R (Inl e) h\<rbrakk> \<Longrightarrow> keeps C h (conn_countContent E name) R"
  unfolding conn_defs by (intro keeps_rules keeps_admit keeps_report_outcome) simp_all

lemma keeps_conn_login [keeps_rules]:
  "\<lbrakk>\<And>r. C h (LoggedIn acct password r); \<And>r. R r (h @ [LoggedIn acct password r]); \<And>e. R (Inl e) h\<rbrakk>
   \<Longrightarrow> keeps C h (conn_login E acct password pattern) R"
  unfolding conn_defs by (intro keeps_rules keeps_admit keeps_report_outcome) simp_all

lemma keeps_fill: "(\<And>r. R r h) \<Longrightarrow> keeps C h (fill E k) R"
proof (induction k arbitrary: R)
  case (Suc k)
  show ?case unfolding fill.simps by (intro keeps_rules Suc.IH Suc.prems)
qed (auto intro: keeps_rules)

lemma keeps_generatePassword: "(\<And>r. R r h) \<Longrightarrow> keeps C h (generatePassword E k) R"
proof (induction k)
  case (Suc k)
  show ?case unfolding generatePassword.simps by (intro keeps_rules keeps_fill Suc.IH Suc.prems)
qed (auto intro: keeps_rules)

lemma keeps_modify_verified [keeps_rules]: "R () h \<Longrightarrow> keeps C h (modify_verified f) R"
  unfolding modify_verified_def by (intro keeps_rules)


section \<open>Sequences of calls\<close>

datatype mycall =
    InspectCall string
  | EnsureCall EnsureRequest
  | DeleteCall DeleteRequest
  | GrantCall GrantRequest
  | RevokeCall string

fun run_call :: "'w Driver \<Rightarrow> mycall \<Rightarrow> 'w \<Rightarrow> 'w" where
  "run_call d (InspectCall name) w = snd (dInspectBuckety d name w)"
| "run_call d (EnsureCall req) w = snd (dEnsureBuckety d req w)"
| "run_call d (DeleteCall req) w = snd (dDeleteBuckety d req w)"
| "run_call d (GrantCall req) w = snd (dGrantAccess d req w)"
| "run_call d (RevokeCall p) w = snd (dRevokeAccess d p w)"

text \<open>A property of trace and memory that every method keeps holds after any sequence of calls.\<close>

definition preserves :: "(myevent list \<Rightarrow> mysql_mem \<Rightarrow> bool) \<Rightarrow> ('w, 'a) myprog \<Rightarrow> bool" where
  "preserves I p \<longleftrightarrow> (\<forall>h m. I h m \<longrightarrow> pass m p (\<lambda>_ l m'. I (h @ l) m'))"

lemma preserves_run: "\<lbrakk>preserves I p; I (trace s) (memory s)\<rbrakk> \<Longrightarrow> I (trace (snd (run_state p s))) (memory (snd (run_state p s)))"
  unfolding preserves_def pass_def by (fastforce split: prod.splits)

lemma run_calls_invariant:
  assumes "\<And>name. preserves I (mysql_InspectBuckety cfg E name)" "\<And>req. preserves I (mysql_EnsureBuckety cfg E req)"
    "\<And>req. preserves I (mysql_DeleteBuckety cfg E req)" "\<And>req. preserves I (mysql_GrantAccess cfg E req)"
    "\<And>p. preserves I (mysql_RevokeAccess cfg E p)" and "I (trace s) (memory s)"
  shows "I (trace (fold (run_call (mysql_driver cfg E)) calls s)) (memory (fold (run_call (mysql_driver cfg E)) calls s))"
  using assms(6)
proof (induction calls arbitrary: s)
  case (Cons c calls)
  have "I (trace (run_call (mysql_driver cfg E) c s)) (memory (run_call (mysql_driver cfg E) c s))"
    using Cons.prems by (cases c) (simp_all add: mysql_driver_def case_prod_unfold preserves_run [where I = I] assms(1-5))
  then show ?case by (simp add: Cons.IH)
qed simp

lemma preserves_keeps:
  assumes "\<And>h. keeps (\<lambda>_. C) h p (\<lambda>_ _. True)"
  shows "preserves (\<lambda>h _. list_all C h) p"
  unfolding preserves_def
proof (intro allI impI)
  fix h m assume "list_all C h"
  have "guarded (\<lambda>_. C) h' l \<Longrightarrow> list_all C l" for h' l
    by (induction l arbitrary: h') auto
  with \<open>list_all C h\<close> show "pass m p (\<lambda>_ l _. list_all C (h @ l))"
    by (intro pass_mono [OF keeps_pass [OF assms [of "[]"]]]) auto
qed


section \<open>The prefix boundary\<close>

definition own_account :: "mysql_config \<Rightarrow> account \<Rightarrow> bool" where
  "own_account cfg a \<longleftrightarrow> managed cfg (acctUser a) \<and> acctUser a \<noteq> myAdminUser cfg"

inductive tame :: "mysql_config \<Rightarrow> myevent \<Rightarrow> bool" for cfg where
  create_database: "\<lbrakk>managed cfg db; cs = [] \<or> charsetRE cs; col = [] \<or> collationRE col\<rbrakk>
    \<Longrightarrow> tame cfg (Executed (createDatabaseSQL db cs col) [] r)"
| create_user: "own_account cfg a \<Longrightarrow> tame cfg (Executed createUserSQL [acctUser a, acctHost a, p] r)"
| alter_user: "own_account cfg a \<Longrightarrow> tame cfg (Executed alterUserSQL [acctUser a, acctHost a, p] r)"
| drop_user: "own_account cfg a \<Longrightarrow> tame cfg (Executed dropUserSQL [acctUser a, acctHost a] r)"
| grant_on: "\<lbrakk>own_account cfg a; managed cfg db; grantSQL ps (grantPattern db) = Inr q; list_all privilegeRE ps\<rbrakk>
    \<Longrightarrow> tame cfg (Executed q [acctUser a, acctHost a] r)"
| revoke_on: "\<lbrakk>own_account cfg a; managed cfg db; revokeSQL ps (grantPattern db) = Inr q; list_all privilegeRE ps\<rbrakk>
    \<Longrightarrow> tame cfg (Executed q [acctUser a, acctHost a] r)"
| revoke_option: "\<lbrakk>own_account cfg a; managed cfg db\<rbrakk>
    \<Longrightarrow> tame cfg (Executed (revokeGrantOptionSQL (grantPattern db)) [acctUser a, acctHost a] r)"
| look_up: "managed cfg db \<Longrightarrow> tame cfg (LookedUp db s)"
| count_in: "managed cfg db \<Longrightarrow> tame cfg (Counted db n)"
| log_in: "own_account cfg a \<Longrightarrow> tame cfg (LoggedIn a p g)"

inductive_simps tame_simps [simp]:
  "tame cfg (LookedUp db s)" "tame cfg (Counted db n)" "tame cfg (LoggedIn a p g)"

text \<open>Every call but a deletion is tame; a deletion may drop a managed database.\<close>

definition within :: "mysql_config \<Rightarrow> myevent \<Rightarrow> bool" where
  "within cfg e \<longleftrightarrow> tame cfg e \<or> (\<exists>db r. managed cfg db \<and> e = Executed (dropDatabaseSQL db) [] r)"

lemma privilegeList_Inr: "privilegeList ps = Inr l \<Longrightarrow> ps \<noteq> [] \<and> list_all privilegeRE ps \<and> l = Join ps '', ''"
  by (auto simp: privilegeList_def range_check_None bad_privilege_def list_all_iff split: if_splits option.splits)

lemma grantSQL_Inr: "grantSQL ps pat = Inr q \<Longrightarrow> list_all privilegeRE ps"
  by (auto simp: grantSQL_def dest: privilegeList_Inr split: sum.splits)

lemma revokeSQL_Inr: "revokeSQL ps pat = Inr q \<Longrightarrow> list_all privilegeRE ps"
  by (auto simp: revokeSQL_def dest: privilegeList_Inr split: sum.splits)

lemmas tame_intros = create_database create_user alter_user drop_user revoke_option
  grant_on [OF _ _ _ grantSQL_Inr] revoke_on [OF _ _ _ revokeSQL_Inr]

abbreviation inside :: "mysql_config \<Rightarrow> ('w, 'a) myprog \<Rightarrow> bool" where
  "inside cfg p \<equiv> (\<forall>h. keeps (\<lambda>_. tame cfg) h p (\<lambda>_ _. True))"

lemma inside_grant: "\<lbrakk>own_account cfg a; managed cfg db\<rbrakk> \<Longrightarrow> inside cfg (mysql_grant E a (grantPattern db) ps)"
  unfolding mysql_grant_def by (intro allI keeps_rules) (auto intro: tame_intros)

lemma inside_revokeIfHeld: "\<lbrakk>own_account cfg a; managed cfg db\<rbrakk> \<Longrightarrow> inside cfg (revokeIfHeld E a (grantPattern db) ps)"
proof (induction ps)
  case (Cons p ps)
  then show ?case unfolding revokeIfHeld.simps by (intro allI keeps_rules) (auto intro: tame_intros)
qed (auto intro: keeps_rules)

lemma inside_revoke_extra: "\<lbrakk>own_account cfg a; managed cfg db\<rbrakk> \<Longrightarrow> inside cfg (revoke_extra E a (grantPattern db) ps)"
  unfolding revoke_extra_def by (intro allI keeps_rules) (auto intro: tame_intros)

lemma keeps_then: "\<lbrakk>\<forall>h. keeps C h p (\<lambda>_ _. True); \<And>a h'. keeps C h' (f a) R\<rbrakk> \<Longrightarrow> keeps C h (State_Monad.bind p f) R"
  by (rule keeps_bind, rule keeps_mono, auto)

lemma inside_alignGrants:
  assumes "own_account cfg a" "managed cfg db"
  shows "inside cfg (alignGrants E a (grantPattern db) want have)"
  unfolding alignGrants_def
  by (intro allI keeps_then keeps_rules inside_grant inside_revoke_extra
        inside_revokeIfHeld [THEN spec] tame_intros assms) simp_all

lemma inside_setPassword: "own_account cfg a \<Longrightarrow> inside cfg (setPassword E a password)"
  unfolding setPassword_def by (intro allI keeps_rules) (auto intro: tame_intros)

lemma inside_verify_loop:
  "\<lbrakk>own_account cfg a; managed cfg db\<rbrakk> \<Longrightarrow> inside cfg (verify_loop cfg E a password (grantPattern db) want created k)"
proof (induction k)
  case (Suc k)
  show ?case
    unfolding verify_loop.simps [of _ _ _ _ _ _ _ "Suc k"] nat.case
    by (intro allI keeps_then [OF inside_alignGrants] keeps_rules Suc.IH [THEN spec] Suc.prems) (simp_all add: Suc.prems)
next
  case 0
  then show ?case
    unfolding verify_loop.simps [of _ _ _ _ _ _ _ 0] nat.case
    by (intro allI keeps_then [OF inside_alignGrants] keeps_rules) simp_all
qed

lemma inside_repair_account:
  assumes "own_account cfg a" "managed cfg db"
  shows "inside cfg (repair_account cfg E a password fromSecret (grantPattern db) want)"
  unfolding repair_account_def
  by (intro allI keeps_then [OF inside_alignGrants] keeps_then [OF inside_setPassword] keeps_rules
        inside_verify_loop [THEN spec] assms) simp_all

lemma inside_ensureAccount:
  assumes "own_account cfg a" "managed cfg db"
  shows "inside cfg (ensureAccount cfg E a password fromSecret (grantPattern db) want)"
  unfolding ensureAccount_def
  by (intro allI keeps_then [OF inside_alignGrants] keeps_rules inside_repair_account [THEN spec] assms)
     (simp_all add: assms)

lemma inside_converge_access:
  assumes "own_account cfg a" "managed cfg db"
  shows "inside cfg (converge_access cfg E db a want password fromSecret)"
  unfolding converge_access_def Let_def
  by (intro allI keeps_then [OF inside_ensureAccount] keeps_rules assms tame_intros) simp_all

lemma inside_access_password: "inside cfg (access_password E req)"
  unfolding access_password_def Let_def by (intro allI keeps_rules keeps_generatePassword) simp_all

lemma inside_GrantAccess: "inside cfg (mysql_GrantAccess cfg E req)"
proof -
  have "own_account cfg \<lparr>acctUser = u, acctHost = myUserHost cfg\<rparr>" if "userName cfg ns n = Inr u" for ns n u
    using userName_Inr [OF that] unfolding own_account_def checkUser_None by auto
  moreover have "managed cfg db" if "checkDatabase cfg db = None" for db using that by (simp add: checkDatabase_None)
  ultimately show ?thesis unfolding mysql_GrantAccess_def Let_def
    by (intro allI keeps_then [OF inside_access_password] keeps_rules inside_converge_access [THEN spec] tame_intros) simp_all
qed

lemma inside_RevokeAccess: "inside cfg (mysql_RevokeAccess cfg E prin)"
proof -
  have "own_account cfg a" if "parsePrincipal cfg prin = Inr a" for a
    using that by (auto simp: parsePrincipal_def own_account_def checkUser_None split: option.splits)
  then show ?thesis unfolding mysql_RevokeAccess_def
    by (intro allI keeps_rules tame_intros) simp_all
qed

lemma valid_parameter: "mysql_ValidateParameters ps = None \<Longrightarrow> get0 ps k = [] \<or> mysql_check_parameter k (get0 ps k) = None"
  by (auto simp: mysql_ValidateParameters_def range_check_None get0_def dest!: map_of_SomeD split: option.splits)

lemma valid_charset: "mysql_ValidateParameters ps = None \<Longrightarrow> get0 ps ''characterSet'' = [] \<or> charsetRE (get0 ps ''characterSet'')"
  using valid_parameter [of ps "''characterSet''"] by (auto simp: mysql_check_parameter_def split: if_splits)

lemma valid_collation: "mysql_ValidateParameters ps = None \<Longrightarrow> get0 ps ''collation'' = [] \<or> collationRE (get0 ps ''collation'')"
  using valid_parameter [of ps "''collation''"] by (auto simp: mysql_check_parameter_def split: if_splits)

lemma inside_EnsureBuckety: "inside cfg (mysql_EnsureBuckety cfg E req)"
  unfolding mysql_EnsureBuckety_def
  by (intro allI keeps_rules tame_intros valid_charset valid_collation) (simp_all add: checkDatabase_None)

lemma inside_DeleteBuckety: "\<forall>h. keeps (\<lambda>_ e. managed cfg (drName req) \<and> (\<exists>r. e = Executed (dropDatabaseSQL (drName req)) [] r)) h
    (mysql_DeleteBuckety cfg E req) (\<lambda>_ _. True)"
  unfolding mysql_DeleteBuckety_def by (intro allI keeps_rules) (simp_all add: checkDatabase_None)

lemma inside_InspectBuckety: "inside cfg (mysql_InspectBuckety cfg E name)"
  unfolding mysql_InspectBuckety_def by (intro allI keeps_rules) (simp_all add: checkDatabase_None)

lemma within_calls:
  "\<forall>h. keeps (\<lambda>_. within cfg) h (mysql_DeleteBuckety cfg E req) (\<lambda>_ _. True)"
  "inside cfg p \<Longrightarrow> \<forall>h. keeps (\<lambda>_. within cfg) h p (\<lambda>_ _. True)"
  by (intro allI keeps_weaken [OF inside_DeleteBuckety [THEN spec]], auto simp: within_def)
     (auto intro: keeps_weaken simp: within_def)

text \<open>
  C10. The prefix boundary. Whatever calls the controller makes of the driver, in whatever order
  and with whatever names, parameters, principals and roles, every statement, query and login
  that reaches the server concerns databases and accounts inside the backend's \<open>namePrefix\<close>,
  never the controller's own account and no system name; database names appear quoted,
  character sets and collations as validated, and grants on the pattern of one managed database.
\<close>

theorem prefix_boundary:
  "list_all (within cfg) (trace (fold (run_call (mysql_driver cfg E)) calls \<lparr>world = w, trace = [], memory = m\<rparr>))"
  by (rule run_calls_invariant [where I = "\<lambda>h _. list_all (within cfg) h"],
      (rule preserves_keeps, rule spec,
       rule within_calls(1) within_calls(2) [OF inside_InspectBuckety] within_calls(2) [OF inside_EnsureBuckety]
         within_calls(2) [OF inside_GrantAccess] within_calls(2) [OF inside_RevokeAccess])+) simp


section \<open>Invariants of the connection\<close>

named_theorems preserve_rules \<open>rules of \<open>preserves\<close>\<close>

lemma preserves_ret [preserve_rules]: "preserves I (ret a)"
  by (auto simp: preserves_def intro: pass_rules)

lemma preserves_ext [preserve_rules]: "preserves I (ext f)"
  by (auto simp: preserves_def intro: pass_rules)

lemma preserves_bind [preserve_rules]:
  assumes "preserves I p" and "\<And>a. preserves I (f a)"
  shows "preserves I (State_Monad.bind p f)"
  unfolding preserves_def
proof (intro allI impI pass_bind)
  fix h m assume "I h m"
  with assms(1) have "pass m p (\<lambda>_ l m'. I (h @ l) m')" by (simp add: preserves_def)
  then show "pass m p (\<lambda>a l m'. pass m' (f a) (\<lambda>_ l' m''. I (h @ l @ l') m''))"
    by (rule pass_mono) (use assms(2) in \<open>auto simp: preserves_def simp flip: append_assoc\<close>)
qed

lemma preserves_if [preserve_rules]: "\<lbrakk>preserves I p; preserves I q\<rbrakk> \<Longrightarrow> preserves I (if b then p else q)"
  by simp

lemma preserves_option [preserve_rules]:
  "\<lbrakk>preserves I p; \<And>y. preserves I (q y)\<rbrakk> \<Longrightarrow> preserves I (case x of None \<Rightarrow> p | Some y \<Rightarrow> q y)"
  by (cases x) auto

lemma preserves_sum [preserve_rules]:
  "\<lbrakk>\<And>e. preserves I (p e); \<And>y. preserves I (q y)\<rbrakk> \<Longrightarrow> preserves I (case x of Inl e \<Rightarrow> p e | Inr y \<Rightarrow> q y)"
  by (cases x) auto

lemma preserves_prod [preserve_rules]: "(\<And>a b. preserves I (p a b)) \<Longrightarrow> preserves I (case x of (a, b) \<Rightarrow> p a b)"
  by (cases x) auto

lemma preserves_conj: "\<lbrakk>preserves I p; I h m\<rbrakk> \<Longrightarrow> pass m p Q \<Longrightarrow> pass m p (\<lambda>a l m'. Q a l m' \<and> I (h @ l) m')"
  unfolding preserves_def pass_def by (fastforce split: prod.splits)

text \<open>What every statement and login keeps, the account operations keep.\<close>

locale conn_invariant =
  fixes I :: "myevent list \<Rightarrow> mysql_mem \<Rightarrow> bool" and E :: "'w mysql_env"
  assumes exec [preserve_rules]: "preserves I (conn_exec E q args)"
    and login [preserve_rules]: "preserves I (conn_login E a password pattern)"
begin

lemma setPassword_kept [preserve_rules]: "preserves I (setPassword E a password)"
  unfolding setPassword_def by (intro preserve_rules)

lemma revokeIfHeld_kept [preserve_rules]: "preserves I (revokeIfHeld E a pattern ps)"
proof (induction ps)
  case (Cons p ps)
  then show ?case unfolding revokeIfHeld.simps by (intro preserve_rules)
qed (simp add: preserve_rules)

lemma alignGrants_kept [preserve_rules]: "preserves I (alignGrants E a pattern want have)"
  unfolding alignGrants_def mysql_grant_def revoke_extra_def by (intro preserve_rules)

lemma verify_loop_kept [preserve_rules]: "preserves I (verify_loop cfg E a password pattern want created k)"
proof (induction k)
  case (Suc k)
  show ?case unfolding verify_loop.simps [of _ _ _ _ _ _ _ "Suc k"] nat.case by (intro preserve_rules Suc.IH)
next
  case 0
  show ?case unfolding verify_loop.simps [of _ _ _ _ _ _ _ 0] nat.case by (intro preserve_rules)
qed

lemma ensureAccount_kept [preserve_rules]: "preserves I (ensureAccount cfg E a password fromSecret pattern want)"
  unfolding ensureAccount_def repair_account_def by (intro preserve_rules)

end

text \<open>
  The connection's operations leave the remembered checks alone. One that reached the server and
  was answered leaves the breaker closed; one that did not reach it was refused by an open one.
\<close>

fun answered_event :: "myevent \<Rightarrow> bool" where
  "answered_event (Executed q args r) = answered r"
| "answered_event (LookedUp name r) = answered (err_part r)"
| "answered_event (Counted name r) = answered (err_part r)"
| "answered_event (LoggedIn a p r) = answered (err_part r)"

definition closed_when_answered :: "myevent list \<Rightarrow> mysql_mem \<Rightarrow> bool" where
  "closed_when_answered h m \<longleftrightarrow> (h \<noteq> [] \<and> list_all answered_event h \<longrightarrow> bkFailures (mmBreaker m) = 0)"

lemma pass_admit:
  assumes "\<And>r m'. \<lbrakk>mmVerified m' = mmVerified m; bkFailures (mmBreaker m') = bkFailures (mmBreaker m);
      bkFailures (mmBreaker m) = 0 \<Longrightarrow> r = None\<rbrakk> \<Longrightarrow> Q r [] m'"
  shows "pass m (admit E) Q"
proof -
  have a: "bkFailures b = 0 \<Longrightarrow> fst (breaker_admit t b) = None" "bkFailures (snd (breaker_admit t b)) = bkFailures b" for t b
    by (auto simp: breaker_admit_def)
  have "Q (fst (breaker_admit t (mmBreaker m))) [] (m\<lparr>mmBreaker := snd (breaker_admit t (mmBreaker m))\<rparr>)" for t
    by (intro assms) (simp_all add: a)
  then show ?thesis unfolding admit_def by (intro pass_rules) (auto simp: prod_eq_iff)
qed

lemma pass_report_outcome:
  assumes "\<And>m'. \<lbrakk>mmVerified m' = mmVerified m; answered err \<Longrightarrow> bkFailures (mmBreaker m') = 0\<rbrakk> \<Longrightarrow> Q () [] m'"
  shows "pass m (report_outcome E err) Q"
  unfolding report_outcome_def
  by (intro pass_rules) (auto intro!: assms simp: answered_def breaker_report_def split: option.splits)

definition visited :: "mysql_mem \<Rightarrow> myevent \<Rightarrow> goerr option \<Rightarrow> myevent list \<Rightarrow> mysql_mem \<Rightarrow> bool" where
  "visited m ev err l m' \<longleftrightarrow> mmVerified m' = mmVerified m \<and>
     (if l = [] then bkFailures (mmBreaker m') \<noteq> 0 \<and> bkFailures (mmBreaker m') = bkFailures (mmBreaker m) \<and> err \<noteq> None
      else l = [ev] \<and> (answered err \<longrightarrow> bkFailures (mmBreaker m') = 0))"

lemma pass_conn_exec:
  assumes "\<And>r l m'. visited m (Executed q args r) r l m' \<Longrightarrow> Q r l m'"
  shows "pass m (conn_exec E q args) Q"
  unfolding conn_defs
  by (intro pass_rules pass_admit pass_report_outcome; rule assms) (auto simp: visited_def err_part_def)

lemma pass_conn_lookupSchema:
  assumes "\<And>r l m'. visited m (LookedUp name r) (err_part r) l m' \<Longrightarrow> Q r l m'"
  shows "pass m (conn_lookupSchema E name) Q"
  unfolding conn_defs
  by (intro pass_rules pass_admit pass_report_outcome; rule assms) (auto simp: visited_def err_part_def)

lemma pass_conn_countContent:
  assumes "\<And>r l m'. visited m (Counted name r) (err_part r) l m' \<Longrightarrow> Q r l m'"
  shows "pass m (conn_countContent E name) Q"
  unfolding conn_defs
  by (intro pass_rules pass_admit pass_report_outcome; rule assms) (auto simp: visited_def err_part_def)

lemma pass_conn_login:
  assumes "\<And>r l m'. visited m (LoggedIn a password r) (err_part r) l m' \<Longrightarrow> Q r l m'"
  shows "pass m (conn_login E a password pattern) Q"
  unfolding conn_defs
  by (intro pass_rules pass_admit pass_report_outcome; rule assms) (auto simp: visited_def err_part_def)

lemma visited_closed: "\<lbrakk>visited m ev err l m'; answered_event ev = answered err; closed_when_answered h m\<rbrakk> \<Longrightarrow> closed_when_answered (h @ l) m'"
  by (auto simp: visited_def closed_when_answered_def split: if_splits)

interpretation verified_frame: conn_invariant "\<lambda>_ m. mmVerified m = V" E
  by unfold_locales
     (auto simp: preserves_def visited_def intro!: pass_conn_exec pass_conn_login)

interpretation breaker_closed: conn_invariant closed_when_answered E
  by unfold_locales
     (auto simp: preserves_def intro!: pass_conn_exec pass_conn_login elim!: visited_closed)


section \<open>Account operations\<close>

abbreviation created_user :: "account \<Rightarrow> string \<Rightarrow> myevent" where
  "created_user a password \<equiv> Executed createUserSQL [acctUser a, acctHost a, password] None"

definition user_made :: "account \<Rightarrow> myevent list \<Rightarrow> bool" where
  "user_made a l \<longleftrightarrow> (\<exists>password. created_user a password \<in> set l)"

definition aligning :: "account \<Rightarrow> myevent \<Rightarrow> bool" where
  "aligning a e \<longleftrightarrow> (\<exists>q r. e = Executed q [acctUser a, acctHost a] r)"

lemma keeps_alignGrants: "keeps (\<lambda>_. aligning a) h (alignGrants E a pattern want have) (\<lambda>_ _. True)"
proof -
  have r: "\<forall>h. keeps (\<lambda>_. aligning a) h (revokeIfHeld E a pattern ps) (\<lambda>_ _. True)" for ps
  proof (induction ps)
    case (Cons p ps)
    then show ?case unfolding revokeIfHeld.simps by (intro allI keeps_rules) (auto simp: aligning_def)
  qed (auto intro: keeps_rules)
  show ?thesis
    unfolding alignGrants_def mysql_grant_def revoke_extra_def
    by (intro keeps_rules r [THEN spec]) (auto simp: aligning_def)
qed

lemma guarded_const: "guarded (\<lambda>_. C) h l \<longleftrightarrow> list_all C l"
  by (induction l arbitrary: h) auto

lemma pass_alignGrants:
  "(\<And>r l m'. list_all (aligning a) l \<Longrightarrow> Q r l m') \<Longrightarrow> pass m (alignGrants E a pattern want have) Q"
  by (rule pass_mono [OF keeps_pass [OF keeps_alignGrants]]) (simp add: guarded_const)

lemma aligning_not: "list_all (aligning a) l \<Longrightarrow> \<not> user_made a' l \<and> LoggedIn a'' p g \<notin> set l"
  by (auto simp: list_all_iff aligning_def user_made_def)

lemma user_made_simps [simp]:
  "\<not> user_made a []" "user_made a (l @ l') \<longleftrightarrow> user_made a l \<or> user_made a l'" "\<not> user_made a [LoggedIn a' p r]"
  by (auto simp: user_made_def)

lemma pass_setPassword:
  assumes "\<And>created err l m'. user_made a l \<longleftrightarrow> created \<Longrightarrow> (created \<Longrightarrow> err = None) \<Longrightarrow> Q (created, err) l m'"
  shows "pass m (setPassword E a password) Q"
proof -
  have ne: "alterUserSQL \<noteq> createUserSQL" "createUserSQL \<noteq> alterUserSQL" by code_simp+
  show ?thesis unfolding setPassword_def
    by (intro pass_rules pass_conn_exec; rule assms) (auto simp: visited_def user_made_def ne split: if_splits)
qed

text \<open>What the answer \<open>(created, verified, err)\<close> of an account operation says about its calls.\<close>

definition account_outcome :: "account \<Rightarrow> string \<Rightarrow> bool \<times> bool \<times> goerr option \<Rightarrow> myevent list \<Rightarrow> bool" where
  "account_outcome a password r l = (case r of (created, verified, err) \<Rightarrow>
     (verified \<and> err = None \<longrightarrow> (\<exists>g. LoggedIn a password (Inr g) \<in> set l)) \<and> (user_made a l \<longleftrightarrow> created))"

lemma pass_verify_loop:
  "pass m (verify_loop cfg E a password pattern want created k)
     (\<lambda>r l _. fst r = created \<and> \<not> user_made a l \<and> account_outcome a password (False, snd r) l)"
proof (induction k arbitrary: m)
  case (Suc k)
  show ?case
    unfolding verify_loop.simps [of _ _ _ _ _ _ _ "Suc k"] nat.case
    by (intro pass_rules pass_conn_login pass_alignGrants pass_mono [OF Suc.IH])
       (auto simp: visited_def account_outcome_def err_part_def dest: aligning_not split: if_splits)
next
  case 0
  show ?case
    unfolding verify_loop.simps [of _ _ _ _ _ _ _ 0] nat.case
    by (intro pass_rules pass_conn_login pass_alignGrants)
       (auto simp: visited_def account_outcome_def err_part_def dest: aligning_not split: if_splits)
qed

lemma pass_repair_account:
  "pass m (repair_account cfg E a password fromSecret pattern want) (\<lambda>r l _. account_outcome a password r l)"
  unfolding repair_account_def
  by (intro pass_rules pass_setPassword pass_alignGrants pass_mono [OF pass_verify_loop])
     (auto simp: account_outcome_def dest: aligning_not)

lemma pass_ensureAccount:
  "pass m (ensureAccount cfg E a password fromSecret pattern want) (\<lambda>r l _. account_outcome a password r l)"
  unfolding ensureAccount_def
  by (intro pass_rules pass_conn_login pass_alignGrants pass_mono [OF pass_repair_account])
     (auto simp: visited_def account_outcome_def err_part_def dest: aligning_not split: if_splits)

lemma pass_ensureAccount_memory:
  "pass m (ensureAccount cfg E a password fromSecret pattern want)
     (\<lambda>r l m'. account_outcome a password r l \<and> mmVerified m' = mmVerified m \<and> closed_when_answered l m')"
proof -
  have "pass m (ensureAccount cfg E a password fromSecret pattern want)
      (\<lambda>r l m'. account_outcome a password r l \<and> mmVerified m' = mmVerified m)"
    by (rule preserves_conj [OF verified_frame.ensureAccount_kept _ pass_ensureAccount]) simp
  from preserves_conj [OF breaker_closed.ensureAccount_kept _ this, of "[]"] show ?thesis
    by (simp add: closed_when_answered_def)
qed

definition dropped_last :: "account \<Rightarrow> myevent list \<Rightarrow> bool" where
  "dropped_last a l \<longleftrightarrow> (\<exists>r. last l = Executed dropUserSQL [acctUser a, acctHost a] r)"

definition grant_outcome :: "account \<Rightarrow> goerr + GrantResult \<Rightarrow> myevent list \<Rightarrow> bool" where
  "grant_outcome a r l = (case r of
     Inr res \<Rightarrow> gtMinted res \<longleftrightarrow> user_made a l
   | Inl _ \<Rightarrow> user_made a l \<longrightarrow> dropped_last a l \<or> \<not> list_all answered_event l)"

text \<open>Entries of the memory after \<open>l\<close> were there before or stem from a login in \<open>l\<close>.\<close>

definition remembered :: "account \<Rightarrow> mysql_mem \<Rightarrow> myevent list \<Rightarrow> mysql_mem \<Rightarrow> bool" where
  "remembered a m l m' \<longleftrightarrow> (\<forall>k v. mmVerified m' k = Some v \<longrightarrow> mmVerified m k = Some v \<or>
     k = account_String a \<and> (\<exists>pattern want password g. vfKey v = verifyKey a pattern want password \<and> LoggedIn a password (Inr g) \<in> set l))"

lemma dropUser_not_create: "\<not> user_made a [Executed dropUserSQL args r]"
proof -
  have "dropUserSQL \<noteq> createUserSQL" by code_simp
  then show ?thesis by (simp add: user_made_def)
qed

lemma pass_modify_verified:
  "Q () [] (m\<lparr>mmVerified := f (mmVerified m)\<rparr>) \<Longrightarrow> pass m (modify_verified f) Q"
  unfolding modify_verified_def by (intro pass_rules) simp

lemma remembered_forget: "remembered a m l (m'\<lparr>mmVerified := verified_forget a (mmVerified m)\<rparr>)"
  by (simp add: remembered_def verified_forget_def)

lemma remembered_record:
  "LoggedIn a password (Inr g) \<in> set l
   \<Longrightarrow> remembered a m l (m'\<lparr>mmVerified := verified_record a (verifyKey a pattern want password) t (mmVerified m)\<rparr>)"
  by (auto simp: remembered_def verified_record_def)

lemma remembered_visit: "\<lbrakk>remembered a m l m'; visited m' ev err l' m''\<rbrakk> \<Longrightarrow> remembered a m (l @ l') m''"
  by (auto simp: remembered_def visited_def) fastforce

lemma dropped_after:
  "\<lbrakk>closed_when_answered l m; user_made a l; visited m (Executed dropUserSQL [acctUser a, acctHost a] r) r l' m'\<rbrakk>
   \<Longrightarrow> dropped_last a (l @ l') \<or> \<not> list_all answered_event (l @ l')"
  by (cases "l' = []") (auto simp: closed_when_answered_def visited_def dropped_last_def user_made_def)

lemma closed_verified [simp]: "closed_when_answered l (m\<lparr>mmVerified := V\<rparr>) = closed_when_answered l m"
  by (simp add: closed_when_answered_def)

lemma grant_outcome_settled:
  "account_outcome a password (created, verified, None) l \<Longrightarrow> grant_outcome a (Inr (granted_result cfg db a password created)) l"
  "account_outcome a password (False, verified, Some e) l \<Longrightarrow> grant_outcome a (Inl e) l"
  by (auto simp: account_outcome_def grant_outcome_def granted_result_def)

lemma grant_outcome_dropped:
  assumes "closed_when_answered l m" and v: "visited (m\<lparr>mmVerified := V\<rparr>) (Executed dropUserSQL [acctUser a, acctHost a] r) r l' m'"
  shows "grant_outcome a (Inl e) (l @ l')"
proof -
  have "\<not> user_made a l'" using v dropUser_not_create by (auto simp: visited_def split: if_splits)
  then show ?thesis using dropped_after [OF _ _ v] assms(1) by (auto simp: grant_outcome_def)
qed

lemma logged_in: "account_outcome a password (created, True, None) l \<Longrightarrow> \<exists>g. LoggedIn a password (Inr g) \<in> set l"
  by (simp add: account_outcome_def)

lemma pass_converge_access:
  "pass m (converge_access cfg E db a want password fromSecret) (\<lambda>r l m'. grant_outcome a r l \<and> remembered a m l m')"
proof -
  have fresh: "grant_outcome a (Inr (granted_result cfg db a password False)) [] \<and> remembered a m [] m"
    by (simp add: grant_outcome_def granted_result_def remembered_def)
  have recorded: "\<exists>g. LoggedIn a password (Inr g) \<in> set l \<Longrightarrow>
      remembered a m l (m'\<lparr>mmVerified := verified_record a (verifyKey a (grantPattern db) want password) t (mmVerified m)\<rparr>)" for l m' t
    by (elim exE) (rule remembered_record)
  show ?thesis
    unfolding converge_access_def Let_def
    by (intro pass_rules pass_mono [OF pass_ensureAccount_memory] pass_modify_verified pass_conn_exec)
       (use fresh in \<open>auto intro: grant_outcome_settled grant_outcome_dropped remembered_forget
          remembered_visit [OF remembered_forget] recorded logged_in\<close>)
qed


section \<open>Users of failed grants\<close>

lemma pass_fill: "(\<And>r. Q r [] m) \<Longrightarrow> pass m (fill E k) Q"
proof (induction k arbitrary: Q)
  case (Suc k)
  show ?case unfolding fill.simps by (intro pass_rules Suc.IH) (simp_all add: Suc.prems)
qed (auto intro: pass_rules)

lemma pass_generatePassword: "(\<And>r. Q r [] m) \<Longrightarrow> pass m (generatePassword E k) Q"
proof (induction k)
  case (Suc k)
  show ?case unfolding generatePassword.simps
    by (intro pass_rules pass_fill) (use Suc.prems in \<open>auto intro: Suc.IH\<close>)
qed (auto intro: pass_rules)

lemma pass_access_password: "(\<And>r. Q r [] m) \<Longrightarrow> pass m (access_password E req) Q"
  unfolding access_password_def Let_def by (intro pass_rules pass_generatePassword) simp_all

lemma pass_GrantAccess:
  "pass m (mysql_GrantAccess cfg E req) (\<lambda>r l m'. \<forall>u. userName cfg (grAccessNamespace req) (grAccessName req) = Inr u \<longrightarrow>
     (let a = \<lparr>acctUser = u, acctHost = myUserHost cfg\<rparr> in grant_outcome a r l \<and> remembered a m l m'))"
proof -
  have none: "grant_outcome a (Inl e) []" "remembered a m [] m" for a e
    by (simp_all add: grant_outcome_def remembered_def)
  have drop: "grant_outcome a (Inl e) l" if "visited m' (Executed dropUserSQL args r) r l m''" for a e l m' m'' args r
    using that dropUser_not_create by (auto simp: visited_def grant_outcome_def split: if_splits)
  have forget: "remembered a m l m''" if "visited (m\<lparr>mmVerified := verified_forget a (mmVerified m)\<rparr>) ev r l m''" for a l m'' ev r
    using remembered_visit [OF remembered_forget that, of "[]"] by simp
  show ?thesis
    unfolding mysql_GrantAccess_def Let_def
    by (intro pass_rules pass_modify_verified pass_conn_exec pass_access_password pass_mono [OF pass_converge_access])
       (auto simp: none intro: drop forget)
qed

text \<open>
  C12. No unrecorded users. A grant reports a minted credential exactly when it created the user;
  and a grant that fails after it created the user ends by dropping that user, unless a
  connection failed during the call (the server did not answer something).
\<close>

theorem failed_grant_drops_user:
  assumes "userName cfg (grAccessNamespace req) (grAccessName req) = Inr u"
  shows "let a = \<lparr>acctUser = u, acctHost = myUserHost cfg\<rparr>; l = pass_log (mysql_GrantAccess cfg E req) s in
    case pass_out (mysql_GrantAccess cfg E req) s of
      Inr res \<Rightarrow> gtMinted res \<longleftrightarrow> user_made a l
    | Inl _ \<Rightarrow> user_made a l \<longrightarrow> dropped_last a l \<or> \<not> list_all answered_event l"
proof -
  note passD [OF pass_GrantAccess [of "memory s" cfg E req]]
  with assms show ?thesis by (simp add: grant_outcome_def Let_def)
qed

text \<open>A server for the examples: it answers from a list, \<open>None\<close> being success and an accepted login.\<close>

definition next_answer :: "goerr option list \<Rightarrow> goerr option \<times> goerr option list" where
  "next_answer w = (case w of [] \<Rightarrow> (None, []) | x # xs \<Rightarrow> (x, xs))"

definition demo_sql :: "string \<Rightarrow> goerr option list mysql_env" where
  "demo_sql current =
     \<lparr>mDB = \<lparr>dbExec = (\<lambda>_ _. next_answer), dbQuerySchema = (\<lambda>_ _ w. (Inr None, w)), dbQueryInt = (\<lambda>_ _ w. (Inr 0, w)),
             dbNewConnector = (\<lambda>_ _. None),
             dbQueryStringAs = (\<lambda>_ _ _ w. case next_answer w of (None, w) \<Rightarrow> (Inr current, w) | (Some e, w) \<Rightarrow> (Inl e, w)),
             dbQueryPairsAs = (\<lambda>_ _ _ _ w. (Inr ([(''SELECT'', ''NO''), (''DROP'', ''NO'')], None), w))\<rparr>,
      mNow = (\<lambda>w. (0, w)), mCtxErr = (\<lambda>w. (None, w)), mDetachedErr = (\<lambda>w. (None, w)), mWait = (\<lambda>w. (None, w)),
      mRandInt = (\<lambda>_ w. (Inr 0, w)), mRounds = 0, mErrText = (\<lambda>_. [])\<rparr>"

definition demo_mygrant :: GrantRequest where
  "demo_mygrant = \<lparr>grBucketyName = ''b_shop'', grAccessNamespace = ''web'', grAccessName = ''app'', grRole = ''Reader'', grParameters = [],
     grBucketyParameters = [], grExistingSecretData = Some [(''password'', ''abcDEF0123-_.~xyz'')]\<rparr>"

definition denied :: goerr where "denied = BackendError ''mysql'' 1045 ''denied''"
definition disk_full :: goerr where "disk_full = BackendError ''mysql'' 1021 ''disk full''"

definition demo_at :: "goerr option list \<Rightarrow> myevent list \<Rightarrow> verifiedAccounts \<Rightarrow> goerr option list myworld" where
  "demo_at answers log V = \<lparr>world = answers, trace = log, memory = \<lparr>mmVerified = V, mmBreaker = closed_breaker\<rparr>\<rparr>"

lemma demo_checks:
  "checkDatabase demo_decoded ''b_shop'' = None" "rolePrivileges ''Reader'' = Inr [''SELECT'']"
  "validatePassword ''abcDEF0123-_.~xyz'' = None" "myUserHost demo_decoded = ''%''"
  by code_simp+

lemma demo_user: "userName demo_decoded ''web'' ''app'' = Inr ''b_web_app''"
proof -
  have "checkUser demo_decoded ''b_web_app'' = None" "plain_form demo_decoded ''web'' ''app''" by code_simp+
  then show ?thesis by (simp add: userName_derived derived_def demo_decoded_def)
qed

lemma demo_answered: "answered None" "answered (Some disk_full)" "answered (Some errLoginDenied)"
  by code_simp+

lemma demo_login_errors: "isMySQLError denied erAccessDenied" "errors_Is errLoginDenied errLoginDenied" "\<not> isMySQLError disk_full erNoSuchGrant"
  by code_simp+

lemma demo_detached: "demo_sql c\<lparr>mCtxErr := mDetachedErr (demo_sql c)\<rparr> = demo_sql c"
  by (simp add: demo_sql_def)

lemma closed_report: "answered r \<Longrightarrow> breaker_report t d r closed_breaker = closed_breaker"
  by (cases r) (simp_all add: answered_def breaker_report_def closed_breaker_def)

lemma demo_exec:
  "answered r \<Longrightarrow> run_state (conn_exec (demo_sql c) q args) (demo_at (r # w) l V) = (r, demo_at w (l @ [Executed q args r]) V)"
  by (simp add: conn_defs admit_def report_outcome_def demo_sql_def demo_at_def breaker_admit_def next_answer_def pass_run_defs
      closed_report) (simp add: closed_breaker_def)

lemma demo_login_denied:
  "run_state (conn_login (demo_sql c) a p pattern) (demo_at (Some denied # w) l V) =
     (Inl errLoginDenied, demo_at w (l @ [LoggedIn a p (Inl errLoginDenied)]) V)"
  by (simp add: conn_defs admit_def report_outcome_def demo_sql_def demo_at_def breaker_admit_def next_answer_def pass_run_defs
      closed_report login_visit_def demo_login_errors demo_answered err_part_def) (simp add: closed_breaker_def)

lemma demo_login:
  "run_state (conn_login (demo_sql (account_String a)) a p pattern) (demo_at (None # w) l V) =
     (Inr \<lparr>gsPrivileges = [''SELECT'', ''DROP''], gsGrantOption = False\<rparr>,
      demo_at w (l @ [LoggedIn a p (Inr \<lparr>gsPrivileges = [''SELECT'', ''DROP''], gsGrantOption = False\<rparr>)]) V)"
  by (simp add: conn_defs admit_def report_outcome_def demo_sql_def demo_at_def breaker_admit_def next_answer_def pass_run_defs
      closed_report login_visit_def demo_answered err_part_def read_grants_def) (simp add: closed_breaker_def)

lemma demo_state:
  "run_state (State_Monad.bind p f) s = (case run_state p s of (a, s') \<Rightarrow> run_state (f a) s')"
  "run_state (ret x) s = (x, s)"
  "run_state get_memory (demo_at w l V) = (\<lparr>mmVerified = V, mmBreaker = closed_breaker\<rparr>, demo_at w l V)"
  "run_state (modify_verified g) (demo_at w l V) = ((), demo_at w l (g V))"
  "run_state (ext (mNow (demo_sql c))) (demo_at w l V) = (0, demo_at w l V)"
  "trace (demo_at w l V) = l"
  by (auto simp: pass_run_defs demo_at_def modify_verified_def demo_sql_def split: prod.splits)

lemmas demo_program = mysql_GrantAccess_def access_password_def converge_access_def ensureAccount_def repair_account_def
  setPassword_def alignGrants_def mysql_grant_def revoke_extra_def verified_fresh_def pass_out_def pass_log_def Let_def get0_def

lemmas demo_facts = demo_checks demo_user demo_answered demo_login_errors demo_detached demo_exec demo_login_denied demo_login demo_state

theorem failed_grant_drops_user_witness:
  "let a = \<lparr>acctUser = ''b_web_app'', acctHost = ''%''\<rparr>; s = demo_at [Some denied, None, Some disk_full, None] [] Map.empty;
       l = pass_log (mysql_GrantAccess demo_decoded (demo_sql ''x'') demo_mygrant) s in
   user_made a l \<and> dropped_last a l \<and> isl (pass_out (mysql_GrantAccess demo_decoded (demo_sql ''x'') demo_mygrant) s)"
proof -
  let ?p = "mysql_GrantAccess demo_decoded (demo_sql ''x'') demo_mygrant" and ?s = "demo_at [Some denied, None, Some disk_full, None] [] Map.empty"
  let ?a = "\<lparr>acctUser = ''b_web_app'', acctHost = ''%''\<rparr>"
  obtain q where q: "grantSQL [''SELECT''] (grantPattern ''b_shop'') = Inr q" by (auto simp: grantSQL_def privilegeList_def bad_privilege_def privilegeRE_def char_class_defs)
  have l: "pass_log ?p ?s = [LoggedIn ?a ''abcDEF0123-_.~xyz'' (Inl errLoginDenied),
      Executed createUserSQL [''b_web_app'', ''%'', ''abcDEF0123-_.~xyz''] None,
      Executed q [''b_web_app'', ''%''] (Some disk_full), Executed dropUserSQL [''b_web_app'', ''%''] None]"
    and o: "isl (pass_out ?p ?s)"
    by (simp_all add: demo_program demo_facts demo_mygrant_def without_def q)
  have "userName demo_decoded (grAccessNamespace demo_mygrant) (grAccessName demo_mygrant) = Inr ''b_web_app''"
    by (simp add: demo_mygrant_def demo_user)
  from failed_grant_drops_user [OF this, of "demo_sql ''x''" ?s] o
  have "user_made ?a (pass_log ?p ?s) \<longrightarrow> dropped_last ?a (pass_log ?p ?s) \<or> \<not> list_all answered_event (pass_log ?p ?s)"
    by (auto simp: Let_def demo_checks isl_def)
  moreover have "user_made ?a (pass_log ?p ?s)" by (simp add: l user_made_def)
  moreover have "list_all answered_event (pass_log ?p ?s)" by (simp add: l demo_answered err_part_def)
  ultimately show ?thesis using o by (simp add: Let_def)
qed


section \<open>Remembered account checks\<close>

definition checked_by_login :: "myevent list \<Rightarrow> mysql_mem \<Rightarrow> bool" where
  "checked_by_login h m \<longleftrightarrow> (\<forall>k v. mmVerified m k = Some v \<longrightarrow>
     (\<exists>a pattern want password g. k = account_String a \<and> vfKey v = verifyKey a pattern want password \<and>
        LoggedIn a password (Inr g) \<in> set h))"

lemma checked_mono: "\<lbrakk>checked_by_login h m; remembered a m l m'\<rbrakk> \<Longrightarrow> checked_by_login (h @ l) m'"
  unfolding checked_by_login_def remembered_def by (metis Un_iff set_append)

lemma remembered_frame: "mmVerified m' = mmVerified m \<Longrightarrow> remembered a m l m'"
  by (simp add: remembered_def)

lemma checked_visited: "\<lbrakk>checked_by_login h m; visited m ev err l m'\<rbrakk> \<Longrightarrow> checked_by_login (h @ l) m'"
  using checked_mono remembered_frame by (auto simp: visited_def)

lemma checked_conn:
  "preserves checked_by_login (conn_exec E q args)" "preserves checked_by_login (conn_lookupSchema E name)"
  "preserves checked_by_login (conn_countContent E name)"
  by (auto simp: preserves_def intro!: pass_conn_exec pass_conn_lookupSchema pass_conn_countContent elim!: checked_visited)

lemma checked_forget: "preserves checked_by_login (modify_verified (verified_forget a))"
  unfolding preserves_def using checked_mono remembered_forget by (blast intro: pass_modify_verified)

lemma checked_GrantAccess: "preserves checked_by_login (mysql_GrantAccess cfg E req)"
proof (cases "userName cfg (grAccessNamespace req) (grAccessName req)")
  case (Inr u)
  then show ?thesis unfolding preserves_def
    by (intro allI impI pass_mono [OF pass_GrantAccess]) (auto simp: Let_def elim: checked_mono)
next
  case (Inl e)
  then show ?thesis by (simp add: mysql_GrantAccess_def preserve_rules split: option.splits)
qed

text \<open>
  C13. Skipped checks stand on logins. After any sequence of calls on a driver that started with
  nothing remembered, every remembered check of an account was recorded after a login to that
  very account, with the password in the remembered key, that the server accepted in an earlier
  call; so a grant that skips the server relies on a check that was made.
\<close>

theorem remembered_checks_made:
  "let s = fold (run_call (mysql_driver cfg E)) calls \<lparr>world = w, trace = [], memory = \<lparr>mmVerified = Map.empty, mmBreaker = b\<rparr>\<rparr>
   in checked_by_login (trace s) (memory s)"
  unfolding Let_def
proof (rule run_calls_invariant)
  show "preserves checked_by_login (mysql_InspectBuckety cfg E name)" for name
    unfolding mysql_InspectBuckety_def by (intro preserve_rules checked_conn)
  show "preserves checked_by_login (mysql_EnsureBuckety cfg E req)" for req
    unfolding mysql_EnsureBuckety_def by (intro preserve_rules checked_conn)
  show "preserves checked_by_login (mysql_DeleteBuckety cfg E req)" for req
    unfolding mysql_DeleteBuckety_def by (intro preserve_rules checked_conn)
  show "preserves checked_by_login (mysql_RevokeAccess cfg E p)" for p
    unfolding mysql_RevokeAccess_def by (intro preserve_rules checked_conn checked_forget)
  show "preserves checked_by_login (mysql_GrantAccess cfg E req)" for req
    by (rule checked_GrantAccess)
qed (simp add: checked_by_login_def)


section \<open>Databases\<close>

text \<open>
  \<open>EnsureBuckety\<close> creates or reports, and never alters. It succeeds only when its last query
  found the database with the requested character set and collation, either at once or after
  one \<open>CREATE DATABASE\<close> that followed a look-up without a result; otherwise its calls are a
  beginning of that sequence. No other statement is ever sent.
\<close>

theorem ensure_database_calls:
  "let n = erName req; l = pass_log (mysql_EnsureBuckety cfg E req) s;
       cs = get0 (erParameters req) ''characterSet''; col = get0 (erParameters req) ''collation'';
       create = Executed (createDatabaseSQL n cs col) []
   in case pass_out (mysql_EnsureBuckety cfg E req) s of
        None \<Rightarrow> (\<exists>info. schema_drift cs col info = [] \<and>
          (l = [LookedUp n (Inr (Some info))] \<or> l = [LookedUp n (Inr None), create None, LookedUp n (Inr (Some info))]))
      | Some e \<Rightarrow> l = [] \<or> (\<exists>r. l = [LookedUp n r]) \<or> (\<exists>x. l = [LookedUp n (Inr None), create x]) \<or>
          (\<exists>r. l = [LookedUp n (Inr None), create None, LookedUp n r])"
proof -
  have "keeps (\<lambda>_ _. True) [] (mysql_EnsureBuckety cfg E req)
    (\<lambda>out l. let n = erName req; cs = get0 (erParameters req) ''characterSet''; col = get0 (erParameters req) ''collation'';
       create = Executed (createDatabaseSQL n cs col) [] in
     case out of
        None \<Rightarrow> (\<exists>info. schema_drift cs col info = [] \<and>
          (l = [LookedUp n (Inr (Some info))] \<or> l = [LookedUp n (Inr None), create None, LookedUp n (Inr (Some info))]))
      | Some e \<Rightarrow> l = [] \<or> (\<exists>r. l = [LookedUp n r]) \<or> (\<exists>x. l = [LookedUp n (Inr None), create x]) \<or>
          (\<exists>r. l = [LookedUp n (Inr None), create None, LookedUp n r]))"
    unfolding mysql_EnsureBuckety_def
    by (intro keeps_rules) (auto simp: Let_def drift_result_def split: option.splits sum.splits)
  from keepsD [OF this, of s] show ?thesis by (simp add: Let_def)
qed


section \<open>Password generation returns\<close>

text \<open>The state after \<open>i\<close> passes over the buffer, and whether the pass made there ends the loop.\<close>

fun after_rounds :: "'w mysql_env \<Rightarrow> nat \<Rightarrow> 'w myworld \<Rightarrow> 'w myworld" where
  "after_rounds E 0 s = s"
| "after_rounds E (Suc i) s = after_rounds E i (snd (run_state (fill E passwordLen) s))"

definition round_ends :: "'w mysql_env \<Rightarrow> 'w myworld \<Rightarrow> bool" where
  "round_ends E s = (case fst (run_state (fill E passwordLen) s) of Inl _ \<Rightarrow> True | Inr b \<Rightarrow> hasAllClasses b)"

lemma generatePassword_Suc:
  "pass_out (generatePassword E (Suc n)) s =
     (case fst (run_state (fill E passwordLen) s) of
        Inl e \<Rightarrow> Some (Inl (Wrapf ''mysql: generate password: %w'' [] e))
      | Inr b \<Rightarrow> if hasAllClasses b then Some (Inr b)
                 else pass_out (generatePassword E n) (snd (run_state (fill E passwordLen) s)))"
  by (auto simp: pass_out_def State_Monad.bind_def State_Monad.return_def split: prod.splits sum.splits)

lemma generatePassword_returns: "pass_out (generatePassword E n) s \<noteq> None \<longleftrightarrow> (\<exists>i < n. round_ends E (after_rounds E i s))"
proof (induction n arbitrary: s)
  case 0
  show ?case by (simp add: pass_out_def State_Monad.return_def)
next
  case (Suc n)
  show ?case
  proof (cases "round_ends E s")
    case True
    then have "\<exists>i < Suc n. round_ends E (after_rounds E i s)" by (intro exI [of _ 0]) simp
    moreover have "pass_out (generatePassword E (Suc n)) s \<noteq> None"
      using True unfolding generatePassword_Suc round_ends_def by (auto split: sum.splits)
    ultimately show ?thesis by blast
  next
    case False
    have "(\<exists>i < Suc n. round_ends E (after_rounds E i s)) \<longleftrightarrow>
        (\<exists>i < n. round_ends E (after_rounds E i (snd (run_state (fill E passwordLen) s))))"
      using False by (auto simp: less_Suc_eq_0_disj)
    with False Suc.IH show ?thesis unfolding generatePassword_Suc round_ends_def by (auto split: sum.splits)
  qed
qed

lemma generatePassword_more:
  "pass_out (generatePassword E n) s = Some r \<Longrightarrow> n \<le> k \<Longrightarrow> pass_out (generatePassword E k) s = Some r"
proof (induction n arbitrary: k s)
  case 0
  then show ?case by (simp add: pass_out_def State_Monad.return_def)
next
  case (Suc n)
  then obtain k' where "k = Suc k'" "n \<le> k'" by (cases k) auto
  then show ?case
    unfolding \<open>k = Suc k'\<close> generatePassword_Suc using Suc.prems(1) [unfolded generatePassword_Suc] Suc.IH
    by (cases "fst (run_state (fill E passwordLen) s)") (auto split: if_splits)
qed

lemma fill_range:
  assumes "\<forall>w i. fst (mRandInt E (int (length passwordAlphabet)) w) = Inr i \<longrightarrow> 0 \<le> i \<and> i < int (length passwordAlphabet)"
  shows "fst (run_state (fill E k) s) = Inr b \<Longrightarrow> length b = k \<and> set b \<subseteq> set passwordAlphabet"
proof -
  have "pass (memory s) (fill E k) (\<lambda>r _ _. \<forall>b. r = Inr b \<longrightarrow> length b = k \<and> set b \<subseteq> set passwordAlphabet)" for m
  proof (induction k)
    case (Suc k)
    have "passwordAlphabet ! nat i \<in> set passwordAlphabet" if "\<exists>w. fst (mRandInt E (int (length passwordAlphabet)) w) = Inr i" for i
      using assms that by (intro nth_mem) force
    then show ?case unfolding fill.simps
      by (intro pass_rules pass_mono [OF Suc.IH]) (auto split: sum.splits)
  qed (auto intro: pass_rules)
  from passD [OF this] show "fst (run_state (fill E k) s) = Inr b \<Longrightarrow> length b = k \<and> set b \<subseteq> set passwordAlphabet"
    by (simp add: pass_out_def)
qed

lemma generatePassword_class:
  assumes "\<forall>w i. fst (mRandInt E (int (length passwordAlphabet)) w) = Inr i \<longrightarrow> 0 \<le> i \<and> i < int (length passwordAlphabet)"
  shows "pass_out (generatePassword E n) s = Some (Inr p) \<Longrightarrow> hasAllClasses p \<and> length p = passwordLen \<and> set p \<subseteq> set passwordAlphabet"
proof (induction n arbitrary: s)
  case 0
  then show ?case by (simp add: pass_out_def State_Monad.return_def)
next
  case (Suc n)
  from Suc.prems Suc.IH show ?case unfolding generatePassword_Suc
    using fill_range [OF assms, where k = passwordLen and s = s] by (auto split: sum.splits if_splits)
qed

text \<open>
  C32. Password generation returns, with a usable password. The loop returns within \<open>n\<close> rounds
  exactly when one of the first \<open>n\<close> passes over the buffer meets an error of the random source or
  a string of all four character classes, and more rounds then change nothing; and what it
  returns has 32 characters, every class, and passes the check that the driver makes of a
  Secret's password, so the next pass accepts it. The hypothesis is the range of \<open>rand.Int\<close>.
\<close>

theorem password_generation_returns:
  assumes "\<forall>w i. fst (mRandInt E (int (length passwordAlphabet)) w) = Inr i \<longrightarrow> 0 \<le> i \<and> i < int (length passwordAlphabet)"
  shows "(pass_out (generatePassword E n) s \<noteq> None \<longleftrightarrow> (\<exists>i < n. round_ends E (after_rounds E i s))) \<and>
    (pass_out (generatePassword E n) s = Some r \<longrightarrow> n \<le> k \<longrightarrow> pass_out (generatePassword E k) s = Some r) \<and>
    (pass_out (generatePassword E n) s = Some (Inr p) \<longrightarrow> length p = 32 \<and> hasAllClasses p \<and> validatePassword p = None)"
proof -
  have a: "list_all unreserved passwordAlphabet" by code_simp
  have "validatePassword p = None \<and> length p = 32 \<and> hasAllClasses p" if "pass_out (generatePassword E n) s = Some (Inr p)"
    using generatePassword_class [OF assms that] a
    by (auto simp: validatePassword_def passwordRE_def list_all_iff passwordLen_def minPasswordLen_def maxPasswordLen_def)
  then show ?thesis using generatePassword_returns [of E n s] generatePassword_more [of E n s r k] by simp
qed

definition demo_random :: "int mysql_env" where
  "demo_random = \<lparr>mDB = \<lparr>dbExec = (\<lambda>_ _ w. (None, w)), dbQuerySchema = (\<lambda>_ _ w. (Inr None, w)), dbQueryInt = (\<lambda>_ _ w. (Inr 0, w)),
       dbNewConnector = (\<lambda>_ _. None), dbQueryStringAs = (\<lambda>_ _ _ w. (Inr [], w)), dbQueryPairsAs = (\<lambda>_ _ _ _ w. (Inr ([], None), w))\<rparr>,
     mNow = (\<lambda>w. (0, w)), mCtxErr = (\<lambda>w. (None, w)), mDetachedErr = (\<lambda>w. (None, w)), mWait = (\<lambda>w. (None, w)),
     mRandInt = (\<lambda>_ w. (Inr (w * 7 mod 66), w + 1)), mRounds = 3, mErrText = (\<lambda>_. [])\<rparr>"

fun demo_bytes :: "nat \<Rightarrow> int \<Rightarrow> string" where
  "demo_bytes 0 w = []"
| "demo_bytes (Suc k) w = passwordAlphabet ! nat (w * 7 mod 66) # demo_bytes k (w + 1)"

lemma demo_fill: "run_state (fill demo_random k) s = (Inr (demo_bytes k (world s)), s\<lparr>world := world s + int k\<rparr>)"
  by (induction k arbitrary: s) (auto simp: pass_run_defs demo_random_def)

theorem password_generation_returns_witness:
  "let s = \<lparr>world = 0, trace = [], memory = \<lparr>mmVerified = Map.empty, mmBreaker = closed_breaker\<rparr>\<rparr> in
   pass_out (generatePassword demo_random 3) s = Some (Inr ''AHOVcjqx4.ELSZgnu18BIPWdkry5_FMT'') \<and>
   validatePassword ''AHOVcjqx4.ELSZgnu18BIPWdkry5_FMT'' = None"
proof -
  let ?s = "\<lparr>world = 0, trace = [], memory = \<lparr>mmVerified = Map.empty, mmBreaker = closed_breaker\<rparr>\<rparr>"
  have "length passwordAlphabet = 66" by code_simp
  then have r: "\<forall>w i. fst (mRandInt demo_random (int (length passwordAlphabet)) w) = Inr i \<longrightarrow> 0 \<le> i \<and> i < int (length passwordAlphabet)"
    by (auto simp: demo_random_def)
  have "demo_bytes 32 0 = ''AHOVcjqx4.ELSZgnu18BIPWdkry5_FMT'' \<and> hasAllClasses ''AHOVcjqx4.ELSZgnu18BIPWdkry5_FMT''" by code_simp
  then have g: "pass_out (generatePassword demo_random 3) ?s = Some (Inr ''AHOVcjqx4.ELSZgnu18BIPWdkry5_FMT'')"
    unfolding numeral_3_eq_3 generatePassword_Suc by (simp add: demo_fill passwordLen_def)
  with password_generation_returns [where E = demo_random and n = 3 and s = ?s and p = "''AHOVcjqx4.ELSZgnu18BIPWdkry5_FMT''", OF r]
  show ?thesis by (simp add: Let_def)
qed

end
