(* ===== verification/Go_Json.thy ===== *)
theory Go_Json
  imports Go_Prelude
begin

text \<open>
  The parts of Go's \<open>encoding/json\<close> the object-store drivers use: the syntax (\<open>parse_value\<close>, over
  bytes, with the replacement of invalid UTF-8 and the nesting limit), decoding into strings,
  integers, booleans, pointers, slices, structs and string maps, and encoding of strings. Every
  caller drops the decoded value when there is an error, so decoding stops at the first one and
  its text is not kept. Decoding a slice over an earlier one (a repeated key) starts every element
  from the earlier element at its index; a slice is never decoded over a longer, truncated one.
\<close>

section \<open>Values and bytes\<close>

datatype json = JNull | JBool bool | JNum string | JStr string | JArr "json list" | JObj "(string \<times> json) list"

abbreviation dquote :: char where
  "dquote \<equiv> CHR 0x22"

abbreviation backslash :: char where
  "backslash \<equiv> CHR 0x5C"

definition byte :: "char \<Rightarrow> nat" where
  "byte c = of_char c"

definition between :: "nat \<Rightarrow> nat \<Rightarrow> char \<Rightarrow> bool" where
  "between lo hi c \<longleftrightarrow> lo \<le> byte c \<and> byte c \<le> hi"

text \<open>The length of the valid UTF-8 sequence a string starts with; 0 when there is none.\<close>

definition rune_len :: "string \<Rightarrow> nat" where
  "rune_len s =
     (case s of
        [] \<Rightarrow> 0
      | a # r \<Rightarrow>
          let cont = (\<lambda>k. k \<le> length r \<and> list_all (between 0x80 0xBF) (take k r));
              second = (\<lambda>lo hi. r \<noteq> [] \<and> between lo hi (hd r))
          in if between 0 0x7F a then 1
             else if between 0xC2 0xDF a then (if cont 1 then 2 else 0)
             else if byte a = 0xE0 then (if cont 2 \<and> second 0xA0 0xBF then 3 else 0)
             else if byte a = 0xED then (if cont 2 \<and> second 0x80 0x9F then 3 else 0)
             else if between 0xE1 0xEF a then (if cont 2 then 3 else 0)
             else if byte a = 0xF0 then (if cont 3 \<and> second 0x90 0xBF then 4 else 0)
             else if between 0xF1 0xF3 a then (if cont 3 then 4 else 0)
             else if byte a = 0xF4 then (if cont 3 \<and> second 0x80 0x8F then 4 else 0)
             else 0)"

definition utf8_encode :: "nat \<Rightarrow> string" where
  "utf8_encode n = (
     let tail = (\<lambda>k. char_of (0x80 + n div 64 ^ k mod 64)) in
     if n < 0x80 then [char_of n]
     else if n < 0x800 then [char_of (0xC0 + n div 64), tail 0]
     else if n < 0x10000 then [char_of (0xE0 + n div 4096), tail 1, tail 0]
     else [char_of (0xF0 + n div 262144), tail 2, tail 1, tail 0])"

definition replacement :: string where
  "replacement = [CHR 0xEF, CHR 0xBF, CHR 0xBD]"


section \<open>Syntax\<close>

definition json_space :: "char \<Rightarrow> bool" where
  "json_space c \<longleftrightarrow> byte c \<in> {0x20, 0x09, 0x0A, 0x0D}"

definition skip_space :: "string \<Rightarrow> string" where
  "skip_space = dropWhile json_space"

text \<open>The next byte after white space is \<open>c\<close>: what follows it.\<close>

definition expect :: "char \<Rightarrow> string \<Rightarrow> string option" where
  "expect c s = (case skip_space s of x # r \<Rightarrow> if x = c then Some r else None | [] \<Rightarrow> None)"

definition hex_val :: "char \<Rightarrow> nat option" where
  "hex_val c =
     (if is_digit c then Some (byte c - 48)
      else if in_range (CHR ''a'') (CHR ''f'') c then Some (byte c - 87)
      else if in_range (CHR ''A'') (CHR ''F'') c then Some (byte c - 55)
      else None)"

definition hex4 :: "string \<Rightarrow> (nat \<times> string) option" where
  "hex4 s =
     (case s of
        a # b # c # d # r \<Rightarrow>
          (case (hex_val a, hex_val b, hex_val c, hex_val d) of
             (Some p, Some q, Some u, Some v) \<Rightarrow> Some (p * 4096 + q * 256 + u * 16 + v, r)
           | _ \<Rightarrow> None)
      | _ \<Rightarrow> None)"

definition unescape :: "char \<Rightarrow> char option" where
  "unescape e =
     (if e \<in> {dquote, backslash, CHR ''/''} then Some e
      else map_of [(CHR ''b'', CHR 0x08), (CHR ''f'', CHR 0x0C), (CHR ''n'', CHR 0x0A), (CHR ''r'', CHR 0x0D), (CHR ''t'', CHR 0x09)] e)"

text \<open>A \<open>\u\<close> escape, after the \<open>u\<close>: the bytes it stands for and the rest. A lone surrogate is replaced.\<close>

definition unicode_escape :: "string \<Rightarrow> (string \<times> string) option" where
  "unicode_escape s =
     (case hex4 s of
        None \<Rightarrow> None
      | Some (x, r) \<Rightarrow>
          if x < 0xD800 \<or> 0xE000 \<le> x then Some (utf8_encode x, r)
          else (case r of
              a # b # r' \<Rightarrow>
                (case hex4 r' of
                   Some (y, r'') \<Rightarrow>
                     if a = backslash \<and> b = CHR ''u'' \<and> x < 0xDC00 \<and> 0xDC00 \<le> y \<and> y < 0xE000
                     then Some (utf8_encode ((x - 0xD800) * 1024 + (y - 0xDC00) + 0x10000), r'')
                     else Some (replacement, r)
                 | None \<Rightarrow> Some (replacement, r))
            | _ \<Rightarrow> Some (replacement, r)))"

lemma hex4_shorter: "hex4 s = Some (x, r) \<Longrightarrow> length r < length s"
  by (auto simp: hex4_def split: list.splits option.splits)

lemma unicode_escape_shorter: "unicode_escape s = Some (b, r) \<Longrightarrow> length r < length s"
  by (auto simp: unicode_escape_def split: option.splits list.splits if_splits dest!: hex4_shorter)

text \<open>The rest of a string literal after its opening quote: its value and what follows.\<close>

function parse_string :: "string \<Rightarrow> (string \<times> string) option" where
  "parse_string s =
     (case s of
        [] \<Rightarrow> None
      | c # r \<Rightarrow>
          let push = (\<lambda>b. map_option (map_prod ((@) b) id)) in
          if c = dquote then Some ([], r)
          else if c = backslash then
            (case r of
               [] \<Rightarrow> None
             | e # r' \<Rightarrow>
                 if e = CHR ''u'' then (case unicode_escape r' of None \<Rightarrow> None | Some (b, r'') \<Rightarrow> push b (parse_string r''))
                 else (case unescape e of None \<Rightarrow> None | Some x \<Rightarrow> push [x] (parse_string r')))
          else if byte c < 0x20 then None
          else if rune_len s = 0 then push replacement (parse_string r)
          else push (take (rune_len s) s) (parse_string (drop (rune_len s - 1) r)))"
  by auto
termination by (relation "measure length") (auto dest: unicode_escape_shorter)

declare parse_string.simps [simp del]

definition parse_digits :: "string \<Rightarrow> (string \<times> string) option" where
  "parse_digits s = (if takeWhile is_digit s = [] then None else Some (takeWhile is_digit s, dropWhile is_digit s))"

definition parse_int_part :: "string \<Rightarrow> (string \<times> string) option" where
  "parse_int_part s = (case s of [] \<Rightarrow> None | c # r \<Rightarrow> if c = CHR ''0'' then Some (''0'', r) else parse_digits s)"

text \<open>An optional part of a number: absent unless the text starts with one of \<open>cs\<close>, and then complete.\<close>

definition parse_part :: "string \<Rightarrow> string \<Rightarrow> string \<Rightarrow> (string \<times> string) option" where
  "parse_part cs signs s =
     (case s of
        c # r \<Rightarrow>
          if c \<in> set cs then
            let sg = (if r \<noteq> [] \<and> hd r \<in> set signs then [hd r] else []) in
            map_option (map_prod (\<lambda>d. c # sg @ d) id) (parse_digits (drop (length sg) r))
          else Some ([], s)
      | [] \<Rightarrow> Some ([], s))"

definition parse_number :: "string \<Rightarrow> (string \<times> string) option" where
  "parse_number s = (
     let sg = (if s \<noteq> [] \<and> hd s = CHR ''-'' then ''-'' else []) in do {
     (i, r) \<leftarrow> parse_int_part (drop (length sg) s);
     (f, r) \<leftarrow> parse_part ''.'' [] r;
     (e, r) \<leftarrow> parse_part ''eE'' ''+-'' r;
     Some (sg @ i @ f @ e, r) })"

definition parse_literal :: "string \<Rightarrow> (json \<times> string) option" where
  "parse_literal s =
     (if HasPrefix s ''null'' then Some (JNull, drop 4 s)
      else if HasPrefix s ''true'' then Some (JBool True, drop 4 s)
      else if HasPrefix s ''false'' then Some (JBool False, drop 5 s)
      else map_option (map_prod JNum id) (parse_number s))"

definition maxNestingDepth :: nat where
  "maxNestingDepth = 10000"

text \<open>
  \<open>parse_value n d s\<close> reads the value \<open>s\<close> starts with, inside \<open>d\<close> open containers, and returns the
  rest. Between two recursive calls that do not consume a byte there is one that does, so fuel of
  twice the length is enough; \<open>parse_fuel\<close> below shows that more changes nothing.
\<close>

fun parse_value :: "nat \<Rightarrow> nat \<Rightarrow> string \<Rightarrow> (json \<times> string) option"
  and parse_elems :: "nat \<Rightarrow> nat \<Rightarrow> string \<Rightarrow> (json list \<times> string) option"
  and parse_members :: "nat \<Rightarrow> nat \<Rightarrow> string \<Rightarrow> ((string \<times> json) list \<times> string) option" where
  "parse_value 0 d s = None"
| "parse_value (Suc n) d s =
     (case skip_space s of
        [] \<Rightarrow> None
      | c # r \<Rightarrow>
          if c = dquote then map_option (map_prod JStr id) (parse_string r)
          else if c = CHR ''{'' then
            if d \<ge> maxNestingDepth then None
            else (case expect (CHR ''}'') r of
                Some r' \<Rightarrow> Some (JObj [], r')
              | None \<Rightarrow> map_option (map_prod JObj id) (parse_members n (Suc d) r))
          else if c = CHR ''['' then
            if d \<ge> maxNestingDepth then None
            else (case expect (CHR '']'') r of
                Some r' \<Rightarrow> Some (JArr [], r')
              | None \<Rightarrow> map_option (map_prod JArr id) (parse_elems n (Suc d) r))
          else parse_literal (c # r))"
| "parse_elems 0 d s = None"
| "parse_elems (Suc n) d s =
     (case parse_value n d s of
        None \<Rightarrow> None
      | Some (v, r) \<Rightarrow>
          (case expect (CHR '']'') r of
             Some r' \<Rightarrow> Some ([v], r')
           | None \<Rightarrow>
               (case expect (CHR '','') r of
                  Some r' \<Rightarrow> map_option (map_prod (Cons v) id) (parse_elems n d r')
                | None \<Rightarrow> None)))"
| "parse_members 0 d s = None"
| "parse_members (Suc n) d s =
     (case Option.bind (expect dquote s) parse_string of
        None \<Rightarrow> None
      | Some (k, r) \<Rightarrow>
     (case Option.bind (expect (CHR '':'') r) (parse_value n d) of
        None \<Rightarrow> None
      | Some (v, r) \<Rightarrow>
          (case expect (CHR ''}'') r of
             Some r' \<Rightarrow> Some ([(k, v)], r')
           | None \<Rightarrow>
               (case expect (CHR '','') r of
                  Some r' \<Rightarrow> map_option (map_prod (Cons (k, v)) id) (parse_members n d r')
                | None \<Rightarrow> None))))"

definition parse_first :: "string \<Rightarrow> (json \<times> string) option" where
  "parse_first s = parse_value (2 * length s + 2) 0 s"

text \<open>\<open>json.Unmarshal\<close> reads the whole input; \<open>Decoder.Decode\<close> the first value of it.\<close>

definition json_Unmarshal :: "string \<Rightarrow> json option" where
  "json_Unmarshal s = (case parse_first s of Some (v, r) \<Rightarrow> if skip_space r = [] then Some v else None | None \<Rightarrow> None)"

definition json_Decode :: "string \<Rightarrow> json option" where
  "json_Decode s = map_option fst (parse_first s)"


section \<open>Decoding\<close>

definition decode_string :: "json \<Rightarrow> string \<Rightarrow> string option" where
  "decode_string v old = (case v of JStr s \<Rightarrow> Some s | JNull \<Rightarrow> Some old | _ \<Rightarrow> None)"

definition decode_bool :: "json \<Rightarrow> bool \<Rightarrow> bool option" where
  "decode_bool v old = (case v of JBool b \<Rightarrow> Some b | JNull \<Rightarrow> Some old | _ \<Rightarrow> None)"

definition decode_int64 :: "json \<Rightarrow> int \<Rightarrow> int option" where
  "decode_int64 v old =
     (case v of
        JNum lit \<Rightarrow> (case ParseInt lit 64 of NumOk n \<Rightarrow> Some n | _ \<Rightarrow> None)
      | JNull \<Rightarrow> Some old
      | _ \<Rightarrow> None)"

text \<open>Pointers and slices: \<open>null\<close> sets them to nil, which is \<open>None\<close>.\<close>

definition decode_pointer :: "(json \<Rightarrow> 'a \<Rightarrow> 'a option) \<Rightarrow> 'a \<Rightarrow> json \<Rightarrow> 'a option \<Rightarrow> 'a option option" where
  "decode_pointer dec zero v old =
     (if v = JNull then Some None
      else map_option Some (dec v (case old of Some x \<Rightarrow> x | None \<Rightarrow> zero)))"

fun decode_elems :: "(json \<Rightarrow> 'a \<Rightarrow> 'a option) \<Rightarrow> 'a \<Rightarrow> json list \<Rightarrow> 'a list \<Rightarrow> 'a list option" where
  "decode_elems dec zero [] old = Some []"
| "decode_elems dec zero (v # vs) old =
     (case dec v (case old of x # _ \<Rightarrow> x | [] \<Rightarrow> zero) of
        None \<Rightarrow> None
      | Some y \<Rightarrow> map_option (Cons y) (decode_elems dec zero vs (tl old)))"

definition decode_slice :: "(json \<Rightarrow> 'a \<Rightarrow> 'a option) \<Rightarrow> 'a \<Rightarrow> json \<Rightarrow> 'a list option \<Rightarrow> 'a list option option" where
  "decode_slice dec zero v old =
     (case v of
        JNull \<Rightarrow> Some None
      | JArr vs \<Rightarrow> map_option Some (decode_elems dec zero vs (case old of Some xs \<Rightarrow> xs | None \<Rightarrow> []))
      | _ \<Rightarrow> None)"

text \<open>
  Field names match exactly or, failing that, up to case; the two runes beyond ASCII that fold to
  an ASCII letter are the Kelvin sign and the long s.
\<close>

definition ascii_upper :: "char \<Rightarrow> char" where
  "ascii_upper c = (if is_lower c then char_of (byte c - 32) else c)"

fun foldName :: "string \<Rightarrow> string" where
  "foldName [] = []"
| "foldName (c # s) =
     (if byte c = 0xE2 \<and> take 2 s = [CHR 0x84, CHR 0xAA] then CHR ''K'' # foldName (drop 2 s)
      else if byte c = 0xC5 \<and> take 1 s = [CHR 0xBF] then CHR ''S'' # foldName (drop 1 s)
      else ascii_upper c # foldName s)"

definition field_of :: "string list \<Rightarrow> string \<Rightarrow> string option" where
  "field_of names k = (if k \<in> set names then Some k else find (\<lambda>f. foldName f = foldName k) names)"

fun decode_members :: "string list \<Rightarrow> bool \<Rightarrow> (string \<Rightarrow> json \<Rightarrow> 'a \<Rightarrow> 'a option) \<Rightarrow> (string \<times> json) list \<Rightarrow> 'a \<Rightarrow> 'a option" where
  "decode_members names strict dec [] x = Some x"
| "decode_members names strict dec ((k, v) # ms) x =
     (case field_of names k of
        None \<Rightarrow> if strict then None else decode_members names strict dec ms x
      | Some f \<Rightarrow> (case dec f v x of None \<Rightarrow> None | Some y \<Rightarrow> decode_members names strict dec ms y))"

text \<open>\<open>strict\<close> is \<open>DisallowUnknownFields\<close>; \<open>dec f v x\<close> stores \<open>v\<close> in the field \<open>f\<close> of \<open>x\<close>.\<close>

definition decode_struct :: "string list \<Rightarrow> bool \<Rightarrow> (string \<Rightarrow> json \<Rightarrow> 'a \<Rightarrow> 'a option) \<Rightarrow> json \<Rightarrow> 'a \<Rightarrow> 'a option" where
  "decode_struct names strict dec v x =
     (case v of JObj ms \<Rightarrow> decode_members names strict dec ms x | JNull \<Rightarrow> Some x | _ \<Rightarrow> None)"

fun decode_map_members :: "(string \<times> json) list \<Rightarrow> smap \<Rightarrow> smap option" where
  "decode_map_members [] m = Some m"
| "decode_map_members ((k, v) # ms) m =
     (case decode_string v [] of None \<Rightarrow> None | Some s \<Rightarrow> decode_map_members ms (AList.update k s m))"

definition decode_smap :: "json \<Rightarrow> smap option" where
  "decode_smap v = (case v of JObj ms \<Rightarrow> decode_map_members ms [] | JNull \<Rightarrow> Some [] | _ \<Rightarrow> None)"

definition json_error :: goerr where
  "json_error = Errorf (Lit ''json: invalid document'')"

lemma decode_map_members_wf: "\<lbrakk>decode_map_members ms m = Some m'; wf_map m\<rbrakk> \<Longrightarrow> wf_map m'"
  by (induction ms m rule: decode_map_members.induct) (auto split: option.splits)

lemma decode_smap_wf: "decode_smap v = Some m \<Longrightarrow> wf_map m"
  by (auto simp: decode_smap_def split: json.splits dest: decode_map_members_wf)


section \<open>Encoding of strings\<close>

definition lower_hex :: "nat \<Rightarrow> char" where
  "lower_hex n = ''0123456789abcdef'' ! n"

definition escape_byte :: "char \<Rightarrow> string" where
  "escape_byte c =
     (if c = dquote \<or> c = backslash then [backslash, c]
      else case map_of [(CHR 0x08, CHR ''b''), (CHR 0x0C, CHR ''f''), (CHR 0x0A, CHR ''n''), (CHR 0x0D, CHR ''r''), (CHR 0x09, CHR ''t'')] c of
          Some e \<Rightarrow> [backslash, e]
        | None \<Rightarrow>
            if byte c < 0x20 \<or> c \<in> set ''<>&'' then backslash # ''u00'' @ [lower_hex (byte c div 16), lower_hex (byte c mod 16)]
            else [c])"

text \<open>\<open>appendString\<close> with HTML escaping, which \<open>json.Marshal\<close> uses.\<close>

function json_escape :: "string \<Rightarrow> string" where
  "json_escape s =
     (case s of
        [] \<Rightarrow> []
      | c # r \<Rightarrow>
          if byte c < 0x80 then escape_byte c @ json_escape r
          else if rune_len s = 0 then backslash # ''ufffd'' @ json_escape r
          else if take 3 s = [CHR 0xE2, CHR 0x80, CHR 0xA8] then backslash # ''u2028'' @ json_escape (drop 2 r)
          else if take 3 s = [CHR 0xE2, CHR 0x80, CHR 0xA9] then backslash # ''u2029'' @ json_escape (drop 2 r)
          else take (rune_len s) s @ json_escape (drop (rune_len s - 1) r))"
  by auto
termination by (relation "measure length") auto

declare json_escape.simps [simp del]

definition json_string :: "string \<Rightarrow> string" where
  "json_string s = dquote # json_escape s @ [dquote]"

definition ascii :: "string \<Rightarrow> bool" where
  "ascii s = list_all (\<lambda>c. byte c < 0x80) s"

lemma hex_val_lower_hex: "n < 16 \<Longrightarrow> hex_val (lower_hex n) = Some n"
proof -
  assume "n < 16"
  then have "n \<in> set [0..<16]" by simp
  moreover have "\<forall>n \<in> set [0..<16]. hex_val (lower_hex n) = Some n" by code_simp
  ultimately show ?thesis by blast
qed

lemma char_of_byte: "char_of (byte c) = c"
  by (simp add: byte_def)

lemma parse_escape_byte:
  assumes "byte c < 0x80"
  shows "parse_string (escape_byte c @ t) = map_option (map_prod (Cons c) id) (parse_string t)"
proof -
  let ?esc = "[(CHR 0x08, CHR ''b''), (CHR 0x0C, CHR ''f''), (CHR 0x0A, CHR ''n''), (CHR 0x0D, CHR ''r''), (CHR 0x09, CHR ''t'')]"
  consider "c = dquote \<or> c = backslash" | e where "map_of ?esc c = Some e" "c \<noteq> dquote" "c \<noteq> backslash"
    | "map_of ?esc c = None" "c \<noteq> dquote" "c \<noteq> backslash" by (cases "map_of ?esc c") auto
  then show ?thesis
  proof cases
    case 1
    then have "escape_byte c = [backslash, c]" "unescape c = Some c" "c \<noteq> CHR ''u''" by (auto simp: escape_byte_def unescape_def)
    then show ?thesis by (subst parse_string.simps) (simp add: append_def)
  next
    case 2
    then have "escape_byte c = [backslash, e]" "unescape e = Some c \<and> e \<noteq> CHR ''u''"
      by (auto simp: escape_byte_def unescape_def split: if_splits)
    then show ?thesis by (subst parse_string.simps) (simp add: append_def)
  next
    case 3
    show ?thesis
    proof (cases "byte c < 0x20 \<or> c \<in> set ''<>&''")
      case True
      then have e: "escape_byte c = backslash # ''u00'' @ [lower_hex (byte c div 16), lower_hex (byte c mod 16)]"
        using 3 unfolding escape_byte_def by simp
      have h: "hex4 (CHR ''0'' # CHR ''0'' # lower_hex (byte c div 16) # lower_hex (byte c mod 16) # t) = Some (byte c, t)"
        using assms hex_val_lower_hex [of "byte c div 16"] hex_val_lower_hex [of "byte c mod 16"] hex_val_lower_hex [of 0]
        by (simp add: hex4_def lower_hex_def [of 0])
      have u: "unicode_escape (CHR ''0'' # CHR ''0'' # lower_hex (byte c div 16) # lower_hex (byte c mod 16) # t) = Some ([c], t)"
        unfolding unicode_escape_def h using assms by (simp add: utf8_encode_def char_of_byte)
      show ?thesis unfolding e by (subst parse_string.simps) (simp add: u append_def)
    next
      case False
      then have "escape_byte c = [c]" using 3 unfolding escape_byte_def by simp
      moreover have "rune_len (c # t) = 1" using assms by (simp add: rune_len_def between_def)
      ultimately show ?thesis using 3 False by (subst parse_string.simps) (simp add: append_def)
    qed
  qed
qed

lemma parse_json_escape: "ascii s \<Longrightarrow> parse_string (json_escape s @ dquote # r) = Some (s, r)"
proof (induction s)
  case Nil
  then show ?case by (simp add: json_escape.simps [of "[]"]) (simp add: parse_string.simps)
next
  case (Cons c s)
  then have "json_escape (c # s) = escape_byte c @ json_escape s" by (simp add: json_escape.simps [of "c # s"] ascii_def)
  with Cons show ?case by (simp add: parse_escape_byte ascii_def)
qed


section \<open>Enough fuel\<close>

lemma expect_shorter: "expect c s = Some r \<Longrightarrow> length r < length s"
  using length_dropWhile_le [of json_space s] by (auto simp: expect_def skip_space_def split: list.splits if_splits)

lemma skip_space_Cons: "skip_space s = c # r \<Longrightarrow> length r < length s"
  using length_dropWhile_le [of json_space s] by (simp add: skip_space_def)

lemma parse_string_Some:
  assumes "parse_string s = Some (b, r)"
  obtains "s = dquote # r" "b = []"
    | b' t c where "parse_string t = Some (b', r)" "length t < length s" "s = c # drop 1 s" "c \<noteq> dquote"
proof -
  from assms obtain c t where s: "s = c # t" by (subst (asm) parse_string.simps) (auto split: list.splits)
  show ?thesis
  proof (cases "c = dquote")
    case True
    with assms s that(1) show ?thesis by (subst (asm) parse_string.simps) simp
  next
    case False
    with assms s obtain b' t' where "parse_string t' = Some (b', r)" "length t' < length s"
      by (subst (asm) parse_string.simps)
         (auto simp: Let_def less_Suc_eq_le split: list.splits if_splits option.splits dest!: unicode_escape_shorter)
    with s False that(2) show ?thesis by auto
  qed
qed

lemma parse_string_shorter: "parse_string s = Some (b, r) \<Longrightarrow> length r < length s"
proof (induction "length s" arbitrary: s b rule: less_induct)
  case less
  from less.prems show ?case
  proof (cases rule: parse_string_Some)
    case (2 b' t c)
    with less.hyps [of t b'] show ?thesis by simp
  qed simp
qed

lemma parse_literal_le: "parse_literal s = Some (v, r) \<Longrightarrow> length r \<le> length s"
proof -
  have d: "parse_digits s = Some (a, r) \<Longrightarrow> length r \<le> length s" for s a r
    by (auto simp: parse_digits_def length_dropWhile_le split: if_splits)
  have i: "parse_int_part s = Some (a, r) \<Longrightarrow> length r \<le> length s" for s a r
    by (auto simp: parse_int_part_def split: list.splits if_splits dest: d)
  have p: "parse_part cs sg s = Some (a, r) \<Longrightarrow> length r \<le> length s" for cs sg s a r
    by (fastforce simp: parse_part_def Let_def split: list.splits if_splits dest: d)
  have "parse_number s = Some (a, r) \<Longrightarrow> length r \<le> length s" for s a r
    by (fastforce simp: parse_number_def Let_def Option.bind_eq_Some_conv split: if_splits dest: i p)
  then show "parse_literal s = Some (v, r) \<Longrightarrow> length r \<le> length s"
    by (auto simp: parse_literal_def split: if_splits)
qed

lemma parse_le:
  "(parse_value n d s = Some (v, r) \<longrightarrow> length r \<le> length s) \<and> (parse_elems n d s = Some (vs, r) \<longrightarrow> length r \<le> length s) \<and>
   (parse_members n d s = Some (ms, r) \<longrightarrow> length r \<le> length s)"
proof (induction n arbitrary: d s v vs ms r)
  case (Suc n)
  note IH = Suc.IH [THEN conjunct1, rule_format] Suc.IH [THEN conjunct2, THEN conjunct1, rule_format]
    Suc.IH [THEN conjunct2, THEN conjunct2, rule_format]
  have "parse_value (Suc n) d s = Some (v, r) \<Longrightarrow> length r \<le> length s"
    by (auto split: list.splits if_splits option.splits
        dest!: skip_space_Cons IH(2,3) parse_string_shorter parse_literal_le expect_shorter)
  moreover have "parse_elems (Suc n) d s = Some (vs, r) \<Longrightarrow> length r \<le> length s"
    by (auto split: option.splits prod.splits dest!: IH(1,2) expect_shorter)
  moreover have "parse_members (Suc n) d s = Some (ms, r) \<Longrightarrow> length r \<le> length s"
    by (auto simp: Option.bind_eq_Some_conv split: option.splits prod.splits dest!: IH(1,3) expect_shorter parse_string_shorter)
  ultimately show ?case by blast
qed simp

lemma parse_value_le: "parse_value n d s = Some (v, r) \<Longrightarrow> length r \<le> length s"
  using parse_le by blast

declare parse_value.simps [simp del] parse_elems.simps [simp del] parse_members.simps [simp del]

lemma parse_fuel_step:
  "(2 * length s + 1 \<le> n \<longrightarrow> parse_value (Suc n) d s = parse_value n d s) \<and>
   (2 * length s + 2 \<le> n \<longrightarrow> parse_elems (Suc n) d s = parse_elems n d s \<and> parse_members (Suc n) d s = parse_members n d s)"
proof (induction n arbitrary: d s)
  case (Suc n)
  have v: "2 * length t + 1 \<le> n \<Longrightarrow> parse_value (Suc n) e t = parse_value n e t" for t e using Suc.IH by blast
  have em: "2 * length t + 2 \<le> n \<Longrightarrow> parse_elems (Suc n) e t = parse_elems n e t \<and> parse_members (Suc n) e t = parse_members n e t" for t e
    using Suc.IH by blast
  have "parse_value (Suc (Suc n)) d s = parse_value (Suc n) d s" if n: "2 * length s + 1 \<le> Suc n"
  proof (cases "skip_space s")
    case (Cons c r)
    with skip_space_Cons [OF Cons] n have "2 * length r + 2 \<le> n" by simp
    from em [OF this, of "Suc d"] show ?thesis by (simp add: parse_value.simps Cons split: option.split)
  qed (simp add: parse_value.simps)
  moreover have "parse_elems (Suc (Suc n)) d s = parse_elems (Suc n) d s" if n: "2 * length s + 2 \<le> Suc n"
  proof -
    have r: "parse_elems (Suc n) d r' = parse_elems n d r'" if "parse_value n d s = Some (x, r)" "expect (CHR '','') r = Some r'" for x r r'
      using em [of r' d] parse_value_le [OF that(1)] expect_shorter [OF that(2)] n by simp
    show ?thesis
      using n v [of s d] by (subst parse_elems.simps(2), subst (2) parse_elems.simps(2)) (auto split: option.splits simp: r)
  qed
  moreover have "parse_members (Suc (Suc n)) d s = parse_members (Suc n) d s" if n: "2 * length s + 2 \<le> Suc n"
  proof -
    have b: "Option.bind (expect (CHR '':'') r) (parse_value (Suc n) d) = Option.bind (expect (CHR '':'') r) (parse_value n d)"
      if "Option.bind (expect dquote s) parse_string = Some (k, r)" for k r
    proof (cases "expect (CHR '':'') r")
      case (Some r')
      from that have "length r < length s"
        by (auto simp: Option.bind_eq_Some_conv dest!: expect_shorter parse_string_shorter)
      with v [of r' d] expect_shorter [OF Some] n show ?thesis by (simp add: Some)
    qed simp
    have r: "parse_members (Suc n) d r'' = parse_members n d r''"
      if "Option.bind (expect dquote s) parse_string = Some (k, r)" "Option.bind (expect (CHR '':'') r) (parse_value n d) = Some (x, r')"
        "expect (CHR '','') r' = Some r''" for k r x r' r''
      using that em [of r'' d] n
      by (auto simp: Option.bind_eq_Some_conv
          dest!: expect_shorter parse_string_shorter parse_value_le)
    show ?thesis
      by (subst parse_members.simps(2), subst (2) parse_members.simps(2))
         (auto split: option.splits simp: b r)
  qed
  ultimately show ?case by blast
qed simp

lemma parse_fuel: "2 * length s + 1 \<le> n \<Longrightarrow> parse_value (n + k) d s = parse_value n d s"
proof (induction k)
  case (Suc k)
  with parse_fuel_step [of s "n + k" d] show ?case by simp
qed simp

end
