(* ===== verification/Object_Lifecycle.thy ===== *)
theory Object_Lifecycle
  imports Go_Json Go_Time
begin

text \<open>
  \<open>pkg/drivers/objectstore/lifecycle.go\<close>: the neutral form of lifecycle rules the bucket drivers
  share, from the JSON document (decoded strictly, in the gsutil shape) to the validated rules.
  \<open>time.Parse\<close> is modelled for the layout the code uses; a date is its year, month and day. A nil
  slice is \<open>None\<close>: the gcs driver compares rules deeply, and there nil and empty differ.
\<close>

section \<open>Dates\<close>

type_synonym date = "int \<times> int \<times> int"

text \<open>\<open>time.Time{}\<close> is midnight of January 1 of year 1, which \<open>IsZero\<close> tests for.\<close>

definition zero_date :: date where
  "zero_date = (1, 1, 1)"

definition parse_ymd :: "string \<Rightarrow> date option" where
  "parse_ymd v =
     (if length v = 10 \<and> list_all is_digit (take 4 v) \<and> v ! 4 = CHR ''-'' \<and> list_all is_digit (take 2 (drop 5 v)) \<and>
         v ! 7 = CHR ''-'' \<and> list_all is_digit (drop 8 v)
      then let y = digits_value (take 4 v); m = digits_value (take 2 (drop 5 v)); d = digits_value (drop 8 v)
           in if 1 \<le> m \<and> m \<le> 12 \<and> 1 \<le> d \<and> d \<le> daysIn m y then Some (y, m, d) else None
      else None)"

definition parseDate :: "string \<Rightarrow> nat \<Rightarrow> string \<Rightarrow> goerr + date" where
  "parseDate v i field =
     (if v = [] then Inr zero_date
      else case parse_ymd v of
          None \<Rightarrow> Inl (Errorf (Sprintf ''rule[%d].condition.%s: want YYYY-MM-DD, got %q'' [AInt (int i), AStr field, AStr v]))
        | Some t \<Rightarrow> Inr t)"


section \<open>Rules\<close>

record Action =
  acType :: string
  acStorageClass :: string

record Condition =
  cnAge :: "int option"
  cnCreatedBefore :: date
  cnCustomTimeBefore :: date
  cnNoncurrentTimeBefore :: date
  cnDaysSinceCustomTime :: int
  cnDaysSinceNoncurrentTime :: int
  cnIsLive :: "bool option"
  cnMatchesPrefix :: "string list option"
  cnMatchesStorageClass :: "string list option"
  cnMatchesSuffix :: "string list option"
  cnNumNewerVersions :: int

record Rule =
  ruAction :: Action
  ruCondition :: Condition

record lifecycleCondition =
  lcAge :: "int option"
  lcCreatedBefore :: string
  lcCustomTimeBefore :: string
  lcDaysSinceCustomTime :: int
  lcDaysSinceNoncurrentTime :: int
  lcIsLive :: "bool option"
  lcMatchesPrefix :: "string list option"
  lcMatchesStorageClass :: "string list option"
  lcMatchesSuffix :: "string list option"
  lcNoncurrentTimeBefore :: string
  lcNumNewerVersions :: int

record lifecycleRule =
  lrAction :: Action
  lrCondition :: lifecycleCondition

text \<open>\<open>len\<close> and \<open>range\<close> see no element in a nil slice.\<close>

definition items :: "'a list option \<Rightarrow> 'a list" where
  "items x = (case x of Some xs \<Rightarrow> xs | None \<Rightarrow> [])"


section \<open>Decoding\<close>

text \<open>Decode into the part of a struct that \<open>get\<close> reads and \<open>put\<close> replaces.\<close>

definition store :: "(json \<Rightarrow> 'b \<Rightarrow> 'b option) \<Rightarrow> ('a \<Rightarrow> 'b) \<Rightarrow> (('b \<Rightarrow> 'b) \<Rightarrow> 'a \<Rightarrow> 'a) \<Rightarrow> json \<Rightarrow> 'a \<Rightarrow> 'a option" where
  "store dec get put v x = map_option (\<lambda>y. put (\<lambda>_. y) x) (dec v (get x))"

definition decode_action :: "json \<Rightarrow> Action \<Rightarrow> Action option" where
  "decode_action = decode_struct [''type'', ''storageClass''] True (\<lambda>f.
     if f = ''type'' then store decode_string acType acType_update else store decode_string acStorageClass acStorageClass_update)"

definition condition_fields :: "(string \<times> (json \<Rightarrow> lifecycleCondition \<Rightarrow> lifecycleCondition option)) list" where
  "condition_fields = (let strings = decode_slice decode_string [] in
     [(''age'', store (decode_pointer decode_int64 0) lcAge lcAge_update),
      (''createdBefore'', store decode_string lcCreatedBefore lcCreatedBefore_update),
      (''customTimeBefore'', store decode_string lcCustomTimeBefore lcCustomTimeBefore_update),
      (''daysSinceCustomTime'', store decode_int64 lcDaysSinceCustomTime lcDaysSinceCustomTime_update),
      (''daysSinceNoncurrentTime'', store decode_int64 lcDaysSinceNoncurrentTime lcDaysSinceNoncurrentTime_update),
      (''isLive'', store (decode_pointer decode_bool False) lcIsLive lcIsLive_update),
      (''matchesPrefix'', store strings lcMatchesPrefix lcMatchesPrefix_update),
      (''matchesStorageClass'', store strings lcMatchesStorageClass lcMatchesStorageClass_update),
      (''matchesSuffix'', store strings lcMatchesSuffix lcMatchesSuffix_update),
      (''noncurrentTimeBefore'', store decode_string lcNoncurrentTimeBefore lcNoncurrentTimeBefore_update),
      (''numNewerVersions'', store decode_int64 lcNumNewerVersions lcNumNewerVersions_update)])"

definition decode_condition :: "json \<Rightarrow> lifecycleCondition \<Rightarrow> lifecycleCondition option" where
  "decode_condition = decode_struct (map fst condition_fields) True
     (\<lambda>f v c. case map_of condition_fields f of Some dec \<Rightarrow> dec v c | None \<Rightarrow> None)"

definition decode_rule :: "json \<Rightarrow> lifecycleRule \<Rightarrow> lifecycleRule option" where
  "decode_rule = decode_struct [''action'', ''condition''] True (\<lambda>f.
     if f = ''action'' then store decode_action lrAction lrAction_update else store decode_condition lrCondition lrCondition_update)"

definition zero_condition :: lifecycleCondition where
  "zero_condition = \<lparr>lcAge = None, lcCreatedBefore = [], lcCustomTimeBefore = [], lcDaysSinceCustomTime = 0, lcDaysSinceNoncurrentTime = 0,
     lcIsLive = None, lcMatchesPrefix = None, lcMatchesStorageClass = None, lcMatchesSuffix = None, lcNoncurrentTimeBefore = [],
     lcNumNewerVersions = 0\<rparr>"

definition zero_rule :: lifecycleRule where
  "zero_rule = \<lparr>lrAction = \<lparr>acType = [], acStorageClass = []\<rparr>, lrCondition = zero_condition\<rparr>"

text \<open>\<open>lifecycleDoc\<close> has the one field \<open>rule\<close>.\<close>

definition decode_lifecycleDoc :: "string \<Rightarrow> goerr + lifecycleRule list option" where
  "decode_lifecycleDoc doc =
     (case Option.bind (json_Decode doc) (\<lambda>v. decode_struct [''rule''] True (\<lambda>_. decode_slice decode_rule zero_rule) v None) of
        None \<Rightarrow> Inl json_error
      | Some rules \<Rightarrow> Inr rules)"


section \<open>Validation\<close>

definition parse_action :: "nat \<Rightarrow> Action \<Rightarrow> goerr + Action" where
  "parse_action i a =
     (if acType a = ''Delete'' \<or> acType a = ''AbortIncompleteMultipartUpload'' then
        if acStorageClass a \<noteq> [] then
          Inl (Errorf (Sprintf ''rule[%d].action.storageClass is only valid with type SetStorageClass'' [AInt (int i)]))
        else Inr \<lparr>acType = acType a, acStorageClass = []\<rparr>
      else if acType a = ''SetStorageClass'' then
        if acStorageClass a = [] then
          Inl (Errorf (Sprintf ''rule[%d].action.storageClass is required with type SetStorageClass'' [AInt (int i)]))
        else Inr a
      else if acType a = [] then Inl (Errorf (Sprintf ''rule[%d].action.type is required'' [AInt (int i)]))
      else Inl (Errorf (Sprintf ''rule[%d].action.type %q is not one of Delete, SetStorageClass, AbortIncompleteMultipartUpload''
             [AInt (int i), AStr (acType a)])))"

definition parse_condition :: "nat \<Rightarrow> lifecycleCondition \<Rightarrow> goerr + Condition" where
  "parse_condition i c =
     (case parseDate (lcCreatedBefore c) i ''createdBefore'' of
        Inl e \<Rightarrow> Inl e
      | Inr created \<Rightarrow>
     (case parseDate (lcCustomTimeBefore c) i ''customTimeBefore'' of
        Inl e \<Rightarrow> Inl e
      | Inr custom \<Rightarrow>
     (case parseDate (lcNoncurrentTimeBefore c) i ''noncurrentTimeBefore'' of
        Inl e \<Rightarrow> Inl e
      | Inr noncurrent \<Rightarrow>
          Inr \<lparr>cnAge = lcAge c, cnCreatedBefore = created, cnCustomTimeBefore = custom, cnNoncurrentTimeBefore = noncurrent,
               cnDaysSinceCustomTime = lcDaysSinceCustomTime c, cnDaysSinceNoncurrentTime = lcDaysSinceNoncurrentTime c,
               cnIsLive = lcIsLive c, cnMatchesPrefix = lcMatchesPrefix c, cnMatchesStorageClass = lcMatchesStorageClass c,
               cnMatchesSuffix = lcMatchesSuffix c, cnNumNewerVersions = lcNumNewerVersions c\<rparr>)))"

fun parse_rules :: "nat \<Rightarrow> lifecycleRule list \<Rightarrow> goerr + Rule list" where
  "parse_rules i [] = Inr []"
| "parse_rules i (r # rs) =
     (case parse_action i (lrAction r) of
        Inl e \<Rightarrow> Inl e
      | Inr a \<Rightarrow>
     (case parse_condition i (lrCondition r) of
        Inl e \<Rightarrow> Inl e
      | Inr c \<Rightarrow> map_sum id (Cons \<lparr>ruAction = a, ruCondition = c\<rparr>) (parse_rules (Suc i) rs)))"

definition ParseLifecycle :: "string \<Rightarrow> goerr + Rule list" where
  "ParseLifecycle doc =
     (case decode_lifecycleDoc doc of
        Inl e \<Rightarrow> Inl (Wrapf ''not a valid gsutil lifecycle document: %w'' [] e)
      | Inr None \<Rightarrow> Inl (Errorf (Lit ''not a valid gsutil lifecycle document: missing \"rule\" list (use {\"rule\": []} to clear all rules)''))
      | Inr (Some rs) \<Rightarrow> parse_rules 0 rs)"


section \<open>What parsed rules satisfy\<close>

definition action_ok :: "Action \<Rightarrow> bool" where
  "action_ok a \<longleftrightarrow> acType a \<in> {''Delete'', ''AbortIncompleteMultipartUpload'', ''SetStorageClass''} \<and>
     (acType a = ''SetStorageClass'' \<longleftrightarrow> acStorageClass a \<noteq> [])"

lemma parse_action_Inr: "parse_action i a = Inr b \<Longrightarrow> b = a \<and> action_ok a"
  by (auto simp: parse_action_def action_ok_def split: if_splits)

lemma parse_condition_Inr:
  "parse_condition i c = Inr d \<Longrightarrow> cnAge d = lcAge c \<and> cnMatchesPrefix d = lcMatchesPrefix c \<and> cnIsLive d = lcIsLive c \<and>
     cnMatchesSuffix d = lcMatchesSuffix c \<and> cnMatchesStorageClass d = lcMatchesStorageClass c \<and>
     cnNumNewerVersions d = lcNumNewerVersions c"
  by (auto simp: parse_condition_def split: sum.splits)

lemma parse_rules_Inr:
  "parse_rules i rs = Inr out \<Longrightarrow>
     list_all2 (\<lambda>r q. ruAction q = lrAction r \<and> action_ok (lrAction r) \<and> (\<exists>j. parse_condition j (lrCondition r) = Inr (ruCondition q))) rs out"
proof (induction i rs arbitrary: out rule: parse_rules.induct)
  case (2 i r rs)
  from "2.prems" obtain a c out' where s: "parse_action i (lrAction r) = Inr a" "parse_condition i (lrCondition r) = Inr c"
    "parse_rules (Suc i) rs = Inr out'" "out = \<lparr>ruAction = a, ruCondition = c\<rparr> # out'"
    by (cases "parse_rules (Suc i) rs") (auto split: sum.splits)
  with "2.IH" [OF s(1,2,3)] parse_action_Inr [OF s(1)] show ?case by auto
qed simp

end
