(* ===== verification/S3_Driver.thy ===== *)
theory S3_Driver
  imports Object_Lifecycle Driver_Registry Go_Net "HOL-Library.Multiset" "HOL-Library.List_Lexorder" "HOL-Library.Char_ord"
begin

text \<open>
  \<open>pkg/drivers/s3/driver.go\<close>: buckets of S3-compatible services. The AWS client is third-party
  code: the calls the driver makes are the fields of the record \<open>s3_client\<close>, functions of the
  outside world. A service error is a \<open>BackendError\<close> with its API error code (empty when the
  answer had none) and its HTTP status. The trace lists every call with its answer. The driver
  keeps no memory.
\<close>

section \<open>Configuration\<close>

record s3_config =
  scImplementation :: string
  scEndpoint :: string
  scRegion :: string
  scForcePathStyle :: bool
  scAccessKeyID :: string
  scSecretAccessKey :: string

definition s3_DriverName :: string where
  "s3_DriverName = ''s3''"

definition s3_version :: string where
  "s3_version = ''0.1.0''"


section \<open>Error classes\<close>

definition api_code :: "goerr \<Rightarrow> string" where
  "api_code e = (case root_cause e of BackendError c _ _ \<Rightarrow> c | _ \<Rightarrow> [])"

definition http_status :: "goerr \<Rightarrow> int" where
  "http_status e = (case root_cause e of BackendError _ n _ \<Rightarrow> n | _ \<Rightarrow> 0)"

definition isAlreadyOwnedByYou :: "goerr \<Rightarrow> bool" where
  "isAlreadyOwnedByYou e = (api_code e = ''BucketAlreadyOwnedByYou'')"

definition s3_isAlreadyExists :: "goerr \<Rightarrow> bool" where
  "s3_isAlreadyExists e = (api_code e = ''BucketAlreadyExists'')"

definition isBucketNotEmpty :: "goerr \<Rightarrow> bool" where
  "isBucketNotEmpty e = (api_code e = ''BucketNotEmpty'')"

definition isAccessDenied :: "goerr \<Rightarrow> bool" where
  "isAccessDenied e = (api_code e = ''AccessDenied'')"

definition isForbidden :: "goerr \<Rightarrow> bool" where
  "isForbidden e \<longleftrightarrow> api_code e = ''Forbidden'' \<or> api_code e = ''AccessDenied'' \<or> http_status e = 403"

definition s3_isNotFound :: "goerr \<Rightarrow> bool" where
  "s3_isNotFound e \<longleftrightarrow> api_code e = ''NoSuchBucket'' \<or> api_code e = ''NotFound''"

definition isNotImplemented :: "goerr \<Rightarrow> bool" where
  "isNotImplemented e \<longleftrightarrow> http_status e = 501 \<or> api_code e = ''NotImplemented'' \<or> api_code e = ''NotSupported''"

definition isNoLifecycle :: "goerr \<Rightarrow> bool" where
  "isNoLifecycle e = (api_code e = ''NoSuchLifecycleConfiguration'')"


section \<open>Lifecycle rules\<close>

text \<open>The fields of \<open>s3types.LifecycleRule\<close> the driver reads or sets; the nested pointers are options.\<close>

record s3_rule =
  srID :: "string option"
  srStatus :: string
  srFilter :: "string option option"
  srPrefix :: "string option"
  srExpiration :: "int option option"
  srAbort :: "int option option"

definition outside_subset :: "Condition \<Rightarrow> bool" where
  "outside_subset c \<longleftrightarrow> cnCreatedBefore c \<noteq> zero_date \<or> cnCustomTimeBefore c \<noteq> zero_date \<or> cnNoncurrentTimeBefore c \<noteq> zero_date \<or>
     cnDaysSinceCustomTime c \<noteq> 0 \<or> cnDaysSinceNoncurrentTime c \<noteq> 0 \<or> cnIsLive c \<noteq> None \<or>
     items (cnMatchesStorageClass c) \<noteq> [] \<or> items (cnMatchesSuffix c) \<noteq> [] \<or> cnNumNewerVersions c \<noteq> 0"

definition translate_rule :: "nat \<Rightarrow> Rule \<Rightarrow> goerr + s3_rule" where
  "translate_rule i r = (
     let c = ruCondition r; bad = (\<lambda>f args. Inl (Errorf (Sprintf f (AInt (int i) # args)))) in
     case cnAge c of
       None \<Rightarrow> bad ''rule[%d]: the s3 driver's portable subset requires condition.age >= 1'' []
     | Some age \<Rightarrow>
         if age = 0 then bad ''rule[%d]: the s3 driver's portable subset requires condition.age >= 1'' []
         else if length (items (cnMatchesPrefix c)) > 1 then bad ''rule[%d]: S3 supports one prefix per rule; split into one rule per prefix'' []
         else if outside_subset c then bad ''rule[%d]: only age + matchesPrefix conditions are in the s3 driver's portable subset'' []
         else (
           let prefix = (case items (cnMatchesPrefix c) of [p] \<Rightarrow> p | _ \<Rightarrow> []);
               rule = \<lparr>srID = Some (''buckety-'' @ Itoa (int i)), srStatus = ''Enabled'', srFilter = Some (Some prefix), srPrefix = None,
                       srExpiration = None, srAbort = None\<rparr>
           in if acType (ruAction r) = ''Delete'' then Inr (rule\<lparr>srExpiration := Some (Some (to_int 32 age))\<rparr>)
              else if acType (ruAction r) = ''AbortIncompleteMultipartUpload'' then Inr (rule\<lparr>srAbort := Some (Some (to_int 32 age))\<rparr>)
              else bad ''rule[%d]: action %q is not in the s3 driver's portable subset (Delete, AbortIncompleteMultipartUpload)''
                     [AStr (acType (ruAction r))]))"

fun translate_rules :: "nat \<Rightarrow> Rule list \<Rightarrow> goerr + s3_rule list" where
  "translate_rules i [] = Inr []"
| "translate_rules i (r # rs) =
     (case translate_rule i r of
        Inl e \<Rightarrow> Inl e
      | Inr q \<Rightarrow> map_sum id (Cons q) (translate_rules (Suc i) rs))"

definition s3_translateLifecycle :: "string \<Rightarrow> goerr + s3_rule list" where
  "s3_translateLifecycle doc =
     (case ParseLifecycle doc of Inl e \<Rightarrow> Inl e | Inr rules \<Rightarrow> translate_rules 0 rules)"

definition rule_prefix :: "s3_rule \<Rightarrow> string" where
  "rule_prefix r =
     (case srFilter r of
        Some (Some p) \<Rightarrow> p
      | _ \<Rightarrow> (case srPrefix r of Some p \<Rightarrow> p | None \<Rightarrow> []))"

definition days :: "int option option \<Rightarrow> int" where
  "days x = (case x of Some (Some d) \<Rightarrow> d | _ \<Rightarrow> 0)"

definition rule_key :: "s3_rule \<Rightarrow> string" where
  "rule_key r = rule_prefix r @ ''|'' @ Itoa (days (srExpiration r)) @ ''|'' @ Itoa (days (srAbort r)) @ ''|'' @ srStatus r"

definition lifecycleEqual :: "s3_rule list \<Rightarrow> s3_rule list \<Rightarrow> bool" where
  "lifecycleEqual a b =
     (if length a \<noteq> length b then False
      else let ka = sort (map rule_key a); kb = sort (map rule_key b)
           in list_all (\<lambda>i. ka ! i = kb ! i) [0..<length ka])"


section \<open>Validation\<close>

definition s3_check_parameter :: "s3_config \<Rightarrow> string \<Rightarrow> string \<Rightarrow> goerr option" where
  "s3_check_parameter cfg k v =
     (if k = ''jurisdiction'' then
        if scImplementation cfg \<noteq> ''r2'' then
          Some (Errorf (Sprintf ''parameters.jurisdiction is r2-only; this backend's implementation is %q'' [AStr (scImplementation cfg)]))
        else if v \<noteq> ''eu'' then
          Some (Errorf (Sprintf ''parameters.jurisdiction: only %q is supported in v0.1, got %q'' [AStr ''eu'', AStr v]))
        else None
      else if k = ''versioning'' then
        (case ParseBool v of
           None \<Rightarrow> Some (Errorf (Sprintf ''parameters.versioning: want \"true\" or \"false\", got %q'' [AStr v]))
         | Some _ \<Rightarrow> None)
      else if k = ''lifecycle'' then
        (case s3_translateLifecycle v of
           Inl e \<Rightarrow> Some (Wrapf ''parameters.lifecycle: %w'' [] e)
         | Inr _ \<Rightarrow> None)
      else Some (Errorf (Sprintf ''unknown parameter %q (s3 accepts: versioning, lifecycle, and jurisdiction when implementation=r2)'' [AStr k])))"

definition s3_ValidateParameters :: "s3_config \<Rightarrow> smap \<Rightarrow> goerr option" where
  "s3_ValidateParameters cfg params = range_check (s3_check_parameter cfg) params"

definition s3_ValidateUpdateParameters :: "s3_config \<Rightarrow> smap \<Rightarrow> smap \<Rightarrow> goerr option" where
  "s3_ValidateUpdateParameters cfg oldParams newParams =
     (case s3_ValidateParameters cfg newParams of
        Some e \<Rightarrow> Some e
      | None \<Rightarrow>
          if get0 oldParams ''jurisdiction'' \<noteq> get0 newParams ''jurisdiction'' then
            Some (Errorf (Sprintf ''parameters.jurisdiction is immutable post-create (current=%q, requested=%q)''
                   [AStr (get0 oldParams ''jurisdiction''), AStr (get0 newParams ''jurisdiction'')]))
          else None)"

definition s3_ValidateAccessParameters :: "smap \<Rightarrow> goerr option" where
  "s3_ValidateAccessParameters params =
     (if params = [] then None
      else Some (Errorf (Sprintf ''s3 v0.1 accepts no BucketyAccess parameters; got: %s'' [AStr (Join (map fst params) '', '')])))"

definition bucket_end :: "char \<Rightarrow> bool" where
  "bucket_end c \<longleftrightarrow> is_lower c \<or> is_digit c"

text \<open>\<open>^[a-z0-9][a-z0-9.-]*[a-z0-9]$\<close> and \<open>^(\d{1,3}\.){3}\d{1,3}$\<close>\<close>

definition bucketNameRE :: "string \<Rightarrow> bool" where
  "bucketNameRE s \<longleftrightarrow> 2 \<le> length s \<and> bucket_end (hd s) \<and> bucket_end (last s) \<and>
     list_all (\<lambda>c. bucket_end c \<or> c = CHR ''.'' \<or> c = CHR ''-'') s"

definition ipLikeRE :: "string \<Rightarrow> bool" where
  "ipLikeRE s \<longleftrightarrow> length (Split s (CHR ''.'')) = 4 \<and>
     list_all (\<lambda>f. 1 \<le> length f \<and> length f \<le> 3 \<and> list_all is_digit f) (Split s (CHR ''.''))"

definition s3_ValidateResourceName :: "string \<Rightarrow> goerr option" where
  "s3_ValidateResourceName name =
     (if length name < 3 \<or> length name > 63 then
        Some (Errorf (Sprintf ''bucket name %q is %d characters; S3 requires 3-63'' [AStr name, AInt (int (length name))]))
      else if \<not> bucketNameRE name then
        Some (Errorf (Sprintf ''bucket name %q must be lowercase alphanumerics, dots and hyphens, starting and ending alphanumeric'' [AStr name]))
      else if Contains name ''..'' then
        Some (Errorf (Sprintf ''bucket name %q must not contain two adjacent periods'' [AStr name]))
      else if ipLikeRE name then
        Some (Errorf (Sprintf ''bucket name %q must not be formatted as an IP address'' [AStr name]))
      else None)"


section \<open>The service\<close>

text \<open>
  An object identifier is a key and, for a version, its version id. \<open>ListObjectVersions\<close> answers
  the versions and the delete markers; \<open>DeleteObjects\<close> the keys it refused, with code and message.
\<close>

type_synonym object_id = "string \<times> string option"

record 'w s3_client =
  s3HeadBucket :: "string \<Rightarrow> 'w \<Rightarrow> goerr option \<times> 'w"
  s3ListObjectsV2 :: "string \<Rightarrow> int option \<Rightarrow> 'w \<Rightarrow> (goerr + string list) \<times> 'w"
  s3ListObjectVersions :: "string \<Rightarrow> int option \<Rightarrow> 'w \<Rightarrow> (goerr + object_id list \<times> object_id list) \<times> 'w"
  s3CreateBucket :: "string \<Rightarrow> string option \<Rightarrow> 'w \<Rightarrow> goerr option \<times> 'w"
  s3DeleteBucket :: "string \<Rightarrow> 'w \<Rightarrow> goerr option \<times> 'w"
  s3DeleteObjects :: "string \<Rightarrow> object_id list \<Rightarrow> 'w \<Rightarrow> (goerr + (string \<times> string \<times> string) list) \<times> 'w"
  s3GetBucketVersioning :: "string \<Rightarrow> 'w \<Rightarrow> (goerr + string) \<times> 'w"
  s3PutBucketVersioning :: "string \<Rightarrow> string \<Rightarrow> 'w \<Rightarrow> goerr option \<times> 'w"
  s3GetBucketLifecycle :: "string \<Rightarrow> 'w \<Rightarrow> (goerr + s3_rule list) \<times> 'w"
  s3PutBucketLifecycle :: "string \<Rightarrow> s3_rule list \<Rightarrow> 'w \<Rightarrow> goerr option \<times> 'w"
  s3DeleteBucketLifecycle :: "string \<Rightarrow> 'w \<Rightarrow> goerr option \<times> 'w"

datatype s3event =
    Headed string "goerr option"
  | ListedObjects string "goerr + string list"
  | ListedVersions string "goerr + object_id list \<times> object_id list"
  | BucketCreated string "string option" "goerr option"
  | BucketDeleted string "goerr option"
  | ObjectsDeleted string "object_id list" "goerr + (string \<times> string \<times> string) list"
  | GotVersioning string "goerr + string"
  | VersioningPut string string "goerr option"
  | GotLifecycle string "goerr + s3_rule list"
  | LifecyclePut string "s3_rule list" "goerr option"
  | LifecycleDeleted string "goerr option"

type_synonym ('w, 'a) s3prog = "('w, s3event, unit, 'a) prog"


section \<open>Methods\<close>

definition not_accessible :: "string \<Rightarrow> goerr \<Rightarrow> goerr" where
  "not_accessible name e =
     Wrapf ''s3: bucket %q exists but is not accessible with this backend's credentials (name likely taken by another account): %w'' [AStr name] e"

definition inspected :: "bool \<Rightarrow> goerr + Inspection" where
  "inspected b = Inr \<lparr>Exists = True, Empty = b\<rparr>"

definition s3_InspectBuckety :: "'w s3_client \<Rightarrow> string \<Rightarrow> ('w, goerr + Inspection) s3prog" where
  "s3_InspectBuckety S name = do {
     h \<leftarrow> call (s3HeadBucket S name) (Headed name);
     case h of
       Some e \<Rightarrow>
         ret (if s3_isNotFound e then Inr \<lparr>Exists = False, Empty = False\<rparr>
              else if isForbidden e then Inl (not_accessible name e)
              else Inl (Wrapf ''s3: head bucket %q: %w'' [AStr name] e))
     | None \<Rightarrow> do {
         objs \<leftarrow> call (s3ListObjectsV2 S name (Some 1)) (ListedObjects name);
         case objs of
           Inl e \<Rightarrow> ret (if isAccessDenied e then inspected False else Inl (Wrapf ''s3: list bucket %q: %w'' [AStr name] e))
         | Inr keys \<Rightarrow>
             if keys \<noteq> [] then ret (inspected False)
             else do {
               vers \<leftarrow> call (s3ListObjectVersions S name (Some 1)) (ListedVersions name);
               ret (case vers of
                      Inl e \<Rightarrow>
                        if isNotImplemented e then inspected True
                        else if isAccessDenied e then inspected False
                        else Inl (Wrapf ''s3: list versions of %q: %w'' [AStr name] e)
                    | Inr (vs, _) \<Rightarrow> inspected (vs = [])) } } }"

text \<open>The \<open>LocationConstraint\<close> of the creation request, if any.\<close>

definition bucketCreationConfig :: "string \<Rightarrow> string \<Rightarrow> smap \<Rightarrow> string option" where
  "bucketCreationConfig impl region params =
     (if impl = ''r2'' then
        (case map_of params ''jurisdiction'' of Some j \<Rightarrow> if j \<noteq> [] then Some j else None | None \<Rightarrow> None)
      else if impl = ''aws'' then (if region \<noteq> [] \<and> region \<noteq> ''us-east-1'' then Some region else None)
      else None)"

definition createBucket :: "s3_config \<Rightarrow> 'w s3_client \<Rightarrow> EnsureRequest \<Rightarrow> ('w, goerr option) s3prog" where
  "createBucket cfg S req = (
     let name = erName req; loc = bucketCreationConfig (scImplementation cfg) (scRegion cfg) (erParameters req) in do {
     x \<leftarrow> call (s3CreateBucket S name loc) (BucketCreated name loc);
     case x of
       None \<Rightarrow> ret None
     | Some e \<Rightarrow>
         if isAlreadyOwnedByYou e then ret None
         else if s3_isAlreadyExists e then do {
           h \<leftarrow> call (s3HeadBucket S name) (Headed name);
           ret (map_option (\<lambda>he. if isForbidden he then not_accessible name he
                                else Wrapf ''s3: head bucket %q after create conflict: %w'' [AStr name] he) h) }
         else ret (Some (Wrapf ''s3: create bucket %q: %w'' [AStr name] e)) })"

definition put_failed :: "string \<Rightarrow> arg list \<Rightarrow> goerr option \<Rightarrow> goerr option" where
  "put_failed f args x = (case x of None \<Rightarrow> None | Some e \<Rightarrow> if isNotImplemented e then None else Some (Wrapf f args e))"

definition reconcileVersioning :: "'w s3_client \<Rightarrow> string \<Rightarrow> smap \<Rightarrow> ('w, goerr option) s3prog" where
  "reconcileVersioning S name params =
     (case map_of params ''versioning'' of
        None \<Rightarrow> ret None
      | Some v \<Rightarrow>
     (case ParseBool v of
        None \<Rightarrow> ret (Some (Wrapf ''s3: parameters.versioning: %w'' [] (Errorf (Sprintf ''strconv.ParseBool: parsing %q: invalid syntax'' [AStr v]))))
      | Some want \<Rightarrow> do {
          got \<leftarrow> call (s3GetBucketVersioning S name) (GotVersioning name);
          case got of
            Inl e \<Rightarrow> ret (if isNotImplemented e then None else Some (Wrapf ''s3: get versioning for %q: %w'' [AStr name] e))
          | Inr status \<Rightarrow>
              if (status = ''Enabled'') = want then ret None
              else if \<not> want \<and> status = [] then ret None
              else (
                let status' = (if want then ''Enabled'' else ''Suspended'') in do {
                x \<leftarrow> call (s3PutBucketVersioning S name status') (VersioningPut name status');
                ret (put_failed ''s3: set versioning=%v on %q: %w'' [ABool want, AStr name] x) }) }))"

text \<open>The second half of \<open>reconcileLifecycle\<close>: the current rules are known.\<close>

definition apply_lifecycle :: "'w s3_client \<Rightarrow> string \<Rightarrow> s3_rule list \<Rightarrow> s3_rule list \<Rightarrow> ('w, goerr option) s3prog" where
  "apply_lifecycle S name current desired =
     (if lifecycleEqual current desired then ret None
      else if desired = [] then do {
        x \<leftarrow> call (s3DeleteBucketLifecycle S name) (LifecycleDeleted name);
        ret (case x of None \<Rightarrow> None
             | Some e \<Rightarrow> if isNotImplemented e \<or> isNoLifecycle e then None else Some (Wrapf ''s3: clear lifecycle on %q: %w'' [AStr name] e)) }
      else do {
        x \<leftarrow> call (s3PutBucketLifecycle S name desired) (LifecyclePut name desired);
        ret (put_failed ''s3: set lifecycle on %q: %w'' [AStr name] x) })"

definition reconcileLifecycle :: "'w s3_client \<Rightarrow> string \<Rightarrow> smap \<Rightarrow> ('w, goerr option) s3prog" where
  "reconcileLifecycle S name params =
     (case map_of params ''lifecycle'' of
        None \<Rightarrow> ret None
      | Some doc \<Rightarrow>
     (case s3_translateLifecycle doc of
        Inl e \<Rightarrow> ret (Some (Wrapf ''s3: parameters.lifecycle: %w'' [] e))
      | Inr desired \<Rightarrow> do {
          cur \<leftarrow> call (s3GetBucketLifecycle S name) (GotLifecycle name);
          case cur of
            Inr rules \<Rightarrow> apply_lifecycle S name rules desired
          | Inl e \<Rightarrow>
              if isNoLifecycle e then apply_lifecycle S name [] desired
              else if isNotImplemented e then ret None
              else ret (Some (Wrapf ''s3: get lifecycle for %q: %w'' [AStr name] e)) }))"

definition s3_EnsureBuckety :: "s3_config \<Rightarrow> 'w s3_client \<Rightarrow> EnsureRequest \<Rightarrow> ('w, goerr option) s3prog" where
  "s3_EnsureBuckety cfg S req = do {
     h \<leftarrow> call (s3HeadBucket S (erName req)) (Headed (erName req));
     c \<leftarrow> (case h of None \<Rightarrow> ret None | Some _ \<Rightarrow> createBucket cfg S req);
     case c of
       Some e \<Rightarrow> ret (Some e)
     | None \<Rightarrow> do {
         v \<leftarrow> reconcileVersioning S (erName req) (erParameters req);
         case v of
           Some e \<Rightarrow> ret (Some e)
         | None \<Rightarrow> reconcileLifecycle S (erName req) (erParameters req) } }"

definition listVersionsPage :: "'w s3_client \<Rightarrow> string \<Rightarrow> ('w, goerr + object_id list) s3prog" where
  "listVersionsPage S name = do {
     v \<leftarrow> call (s3ListObjectVersions S name None) (ListedVersions name);
     ret (case v of
            Inl e \<Rightarrow> if api_code e = ''NotImplemented'' then Inr [] else Inl e
          | Inr (vs, ms) \<Rightarrow> Inr (vs @ ms)) }"

definition delete_listed :: "'w s3_client \<Rightarrow> string \<Rightarrow> object_id list \<Rightarrow> ('w, goerr + nat) s3prog" where
  "delete_listed S name ids =
     (if ids = [] then ret (Inr 0)
      else do {
        out \<leftarrow> call (s3DeleteObjects S name ids) (ObjectsDeleted name ids);
        ret (case out of
               Inl e \<Rightarrow> Inl e
             | Inr [] \<Rightarrow> Inr (length ids)
             | Inr ((key, code, msg) # others) \<Rightarrow>
                 Inl (Errorf (Sprintf ''delete of %q refused (%s): %s (and %d more)'' [AStr key, AStr code, AStr msg, AInt (int (length others))]))) })"

definition emptyBucketSlice :: "'w s3_client \<Rightarrow> string \<Rightarrow> ('w, goerr + nat) s3prog" where
  "emptyBucketSlice S name = do {
     l \<leftarrow> call (s3ListObjectsV2 S name None) (ListedObjects name);
     case l of
       Inl e \<Rightarrow> ret (Inl e)
     | Inr keys \<Rightarrow>
         if keys \<noteq> [] then delete_listed S name (map (\<lambda>k. (k, None)) keys)
         else do {
           v \<leftarrow> listVersionsPage S name;
           case v of
             Inl e \<Rightarrow> ret (Inl e)
           | Inr ids \<Rightarrow> delete_listed S name ids } }"

definition s3_DeleteBuckety :: "'w s3_client \<Rightarrow> DeleteRequest \<Rightarrow> ('w, goerr option) s3prog" where
  "s3_DeleteBuckety S req = (
     let name = drName req in do {
     d \<leftarrow> emptyBucketSlice S name;
     case d of
       Inl e \<Rightarrow> ret (if s3_isNotFound e then None else Some (Wrapf ''s3: empty bucket %q for deletion: %w'' [AStr name] e))
     | Inr deleted \<Rightarrow>
         if deleted > 0 then
           ret (Some (ErrDeletionInProgress (Sprintf ''bucket %q: deleted %d objects, checking for more'' [AStr name, AInt (int deleted)]) False))
         else do {
           x \<leftarrow> call (s3DeleteBucket S name) (BucketDeleted name);
           ret (case x of
                  None \<Rightarrow> None
                | Some e \<Rightarrow>
                    if s3_isNotFound e then None
                    else if isBucketNotEmpty e then
                      Some (ErrDeletionInProgress (Sprintf ''bucket %q: still not empty after emptying pass'' [AStr name]) True)
                    else Some (Wrapf ''s3: delete bucket %q: %w'' [AStr name] e)) } })"

definition s3_GrantAccess :: "s3_config \<Rightarrow> GrantRequest \<Rightarrow> goerr + GrantResult" where
  "s3_GrantAccess cfg req =
     Inr \<lparr>gtSecretData = [(''endpoint'', scEndpoint cfg), (''bucket'', grBucketyName req), (''accessKeyID'', scAccessKeyID cfg),
            (''secretAccessKey'', scSecretAccessKey cfg)] @ (if scRegion cfg \<noteq> [] then [(''region'', scRegion cfg)] else []),
          gtPrincipal = ''s3-root'', gtScoped = False, gtRevocable = False, gtMinted = False\<rparr>"

definition s3_RevokeAccess :: "string \<Rightarrow> goerr option" where
  "s3_RevokeAccess p = None"


section \<open>The driver\<close>

type_synonym 'w s3world = "('w, s3event, unit) sys"

definition s3_driver :: "s3_config \<Rightarrow> 'w s3_client \<Rightarrow> 'w s3world Driver" where
  "s3_driver cfg S =
     \<lparr>dName = s3_DriverName, dVersion = s3_version,
      dInspectBuckety = (\<lambda>name. run_state (s3_InspectBuckety S name)),
      dEnsureBuckety = (\<lambda>req w. case run_state (s3_EnsureBuckety cfg S req) w of (err, w') \<Rightarrow> (([], err), w')),
      dDeleteBuckety = (\<lambda>req. run_state (s3_DeleteBuckety S req)),
      dGrantAccess = (\<lambda>req w. (s3_GrantAccess cfg req, w)),
      dRevokeAccess = (\<lambda>p w. (s3_RevokeAccess p, w)),
      dValidateParameters = s3_ValidateParameters cfg,
      dValidateUpdateParameters = s3_ValidateUpdateParameters cfg,
      dValidateAccessParameters = s3_ValidateAccessParameters,
      dValidateResourceName = s3_ValidateResourceName,
      dTemplatedParameters = None, dForgetBuckety = None\<rparr>"

text \<open>\<open>newClient\<close> is \<open>awss3.NewFromConfig\<close> with region, credentials, endpoint and path style.\<close>

definition s3_factory ::
  "(string \<Rightarrow> goerr + s3_config) \<Rightarrow> (s3_config \<Rightarrow> goerr + s3_config) \<Rightarrow>
   (string \<Rightarrow> string \<times> string \<Rightarrow> string \<Rightarrow> bool \<Rightarrow> 'w s3_client) \<Rightarrow> 'w s3world Factory" where
  "s3_factory unmarshal envsubst newClient raw = (
     let missing = (\<lambda>f. Inl (Errorf (Sprintf ''s3 config: missing required field %q'' [AStr f]))) in
     case unmarshal raw of
       Inl e \<Rightarrow> Inl (Wrapf ''s3 config: %w'' [] e)
     | Inr c0 \<Rightarrow>
    (case envsubst c0 of
       Inl e \<Rightarrow> Inl (Wrapf ''s3 config: %w'' [] e)
     | Inr c \<Rightarrow>
         if scEndpoint c = [] then missing ''endpoint''
         else if scAccessKeyID c = [] then missing ''accessKeyID''
         else if scSecretAccessKey c = [] then missing ''secretAccessKey''
         else if scImplementation c \<notin> {[], ''aws'', ''r2'', ''minio'', ''versitygw''} then
           Inl (Errorf (Sprintf ''s3 config: unknown implementation %q'' [AStr (scImplementation c)]))
         else (
           let region = (if scRegion c = [] then ''us-east-1'' else scRegion c)
           in Inr (s3_driver c (newClient region (scAccessKeyID c, scSecretAccessKey c) (scEndpoint c) (scForcePathStyle c))))))"

definition s3_init :: "'w s3world Factory \<Rightarrow> 'w s3world registry \<Rightarrow> goerr + 'w s3world registry" where
  "s3_init factory reg = Register s3_DriverName s3_version factory reg"


section \<open>The validation contract\<close>

interpretation s3: driver_validation "s3_ValidateParameters cfg" "s3_ValidateUpdateParameters cfg"
  s3_ValidateAccessParameters s3_ValidateResourceName
proof
  fix p q old new :: smap and n :: string
  show "set p = set q \<Longrightarrow> s3_ValidateParameters cfg p = None \<longleftrightarrow> s3_ValidateParameters cfg q = None"
    unfolding s3_ValidateParameters_def by (rule range_check_order)
  show "s3_ValidateUpdateParameters cfg old new = None \<Longrightarrow> s3_ValidateParameters cfg new = None"
    by (simp add: s3_ValidateUpdateParameters_def split: option.splits)
  show "\<lbrakk>s3_ValidateParameters cfg p = None; map_of old = map_of p\<rbrakk> \<Longrightarrow> s3_ValidateUpdateParameters cfg old p = None"
    by (simp add: s3_ValidateUpdateParameters_def get0_cong [of old p])
  show "s3_ValidateAccessParameters p = None \<longleftrightarrow> p = []"
    by (simp add: s3_ValidateAccessParameters_def)
  show "s3_ValidateResourceName n = None \<Longrightarrow> n \<noteq> []"
    by (auto simp: s3_ValidateResourceName_def)
qed

lemma s3_driver_ok: "driver_ok (s3_driver cfg S)"
  using s3.driver_validation_axioms by (simp add: s3_driver_def)

lemma s3_factory_ok: "s3_factory unmarshal envsubst newClient raw = Inr d \<Longrightarrow> driver_ok d"
  using s3_driver_ok by (auto simp: s3_factory_def Let_def split: sum.splits if_splits)

end
