(* ===== verification/S3_Safety.thy ===== *)
theory S3_Safety
  imports S3_Driver
begin

text \<open>
  What holds of the s3 driver: the comparison of lifecycle configurations is equality of
  multisets of the expressible tuples, inspection calls a bucket empty only on evidence, writes
  of \<open>EnsureBuckety\<close> answer an observed difference, and teardown by slices comes to an end. Two
  lemmas show where the code departs from what its comments say.
\<close>

section \<open>Comparing lifecycle configurations\<close>

type_synonym rule_tuple = "string \<times> int \<times> int \<times> string"

definition rule_tuple :: "s3_rule \<Rightarrow> rule_tuple" where
  "rule_tuple r = (rule_prefix r, days (srExpiration r), days (srAbort r), srStatus r)"

lemma digit_value: "n < 10 \<Longrightarrow> (of_char (digit n) :: nat) = 48 + n"
  by (simp add: digit_def)

lemma digit_inj: "\<lbrakk>digit i = digit j; i < 10; j < 10\<rbrakk> \<Longrightarrow> i = j"
  by (metis add_left_cancel digit_value)

lemma show_nat_cases:
  "n < 10 \<and> show_nat n = [digit n] \<or> \<not> n < 10 \<and> show_nat n = show_nat (n div 10) @ [digit (n mod 10)]"
  using show_nat.simps [of n] by (cases "n < 10") auto

lemma show_nat_ne: "show_nat n \<noteq> []"
  using show_nat_cases [of n] by auto

lemma show_nat_class: "c \<in> set (show_nat n) \<Longrightarrow> 48 \<le> (of_char c :: nat) \<and> (of_char c :: nat) \<le> 57"
proof (induction n rule: less_induct)
  case (less n)
  have d: "48 \<le> (of_char (digit i) :: nat) \<and> (of_char (digit i) :: nat) \<le> 57" if "i < 10" for i
    using that by (simp add: digit_value)
  from show_nat_cases [of n] show ?case
  proof
    assume "n < 10 \<and> show_nat n = [digit n]"
    with less.prems d show ?thesis by simp
  next
    assume n: "\<not> n < 10 \<and> show_nat n = show_nat (n div 10) @ [digit (n mod 10)]"
    with less.prems consider "c \<in> set (show_nat (n div 10))" | "c = digit (n mod 10)" by auto
    then show ?thesis
    proof cases
      case 1
      with less.IH [of "n div 10"] n show ?thesis by simp
    next
      case 2
      with d [of "n mod 10"] show ?thesis by simp
    qed
  qed
qed

lemma show_nat_inj: "show_nat m = show_nat n \<Longrightarrow> m = n"
proof (induction m arbitrary: n rule: less_induct)
  case (less m)
  note cm = show_nat_cases [of m] and cn = show_nat_cases [of n]
  show ?case
  proof (cases "m < 10")
    case True
    with cm have m: "show_nat m = [digit m]" by blast
    with cn less.prems show_nat_ne [of "n div 10"] have "n < 10" "digit m = digit n" by auto
    with True show ?thesis by (intro digit_inj)
  next
    case False
    with cm have m: "show_nat m = show_nat (m div 10) @ [digit (m mod 10)]" by blast
    with cn less.prems show_nat_ne [of "m div 10"]
    have n: "\<not> n < 10" "show_nat (m div 10) = show_nat (n div 10)" "digit (m mod 10) = digit (n mod 10)" by auto
    then have "m div 10 = n div 10" "m mod 10 = n mod 10"
      using less.IH [of "m div 10"] False digit_inj [of "m mod 10" "n mod 10"] by simp_all
    then show ?thesis by (metis div_mult_mod_eq)
  qed
qed

lemma show_nat_not: "CHR ''-'' # s \<noteq> show_nat k" "CHR ''|'' \<notin> set (show_nat k)"
proof -
  have "CHR ''-'' \<notin> set (show_nat k)" using show_nat_class [of "CHR ''-''" k] by auto
  then show "CHR ''-'' # s \<noteq> show_nat k" by (metis list.set_intros(1))
  show "CHR ''|'' \<notin> set (show_nat k)" using show_nat_class [of "CHR ''|''" k] by auto
qed

lemma Itoa_inj: "Itoa m = Itoa n \<Longrightarrow> m = n"
  using show_nat_not(1) show_nat_not(1) [symmetric] show_nat_inj [of "nat m" "nat n"] show_nat_inj [of "nat (- m)" "nat (- n)"]
  by (simp add: Itoa_def split: if_splits)

lemma Itoa_no_bar: "CHR ''|'' \<notin> set (Itoa n)"
  using show_nat_not(2) by (simp add: Itoa_def)

lemma split_at_last:
  assumes "a @ x # b = a' @ x # b'" "x \<notin> set b" "x \<notin> set b'"
  shows "a = a' \<and> b = b'"
proof -
  have "rev b @ x # rev a = rev b' @ x # rev a'"
    using arg_cong [OF assms(1), of rev] by simp
  from split_at_first [OF this] assms(2,3) show ?thesis by simp
qed

lemma rule_key_inj:
  assumes "rule_key r = rule_key q" and "CHR ''|'' \<notin> set (srStatus r)" and "CHR ''|'' \<notin> set (srStatus q)"
  shows "rule_tuple r = rule_tuple q"
proof -
  from assms(1) have "(rule_prefix r @ CHR ''|'' # Itoa (days (srExpiration r)) @ CHR ''|'' # Itoa (days (srAbort r))) @ CHR ''|'' # srStatus r =
      (rule_prefix q @ CHR ''|'' # Itoa (days (srExpiration q)) @ CHR ''|'' # Itoa (days (srAbort q))) @ CHR ''|'' # srStatus q"
    by (simp add: rule_key_def)
  note s1 = split_at_last [OF this assms(2,3)]
  then have "(rule_prefix r @ CHR ''|'' # Itoa (days (srExpiration r))) @ CHR ''|'' # Itoa (days (srAbort r)) =
      (rule_prefix q @ CHR ''|'' # Itoa (days (srExpiration q))) @ CHR ''|'' # Itoa (days (srAbort q))" by simp
  note s2 = split_at_last [OF this Itoa_no_bar Itoa_no_bar]
  then have "rule_prefix r @ CHR ''|'' # Itoa (days (srExpiration r)) = rule_prefix q @ CHR ''|'' # Itoa (days (srExpiration q))" by simp
  note s3 = split_at_last [OF this Itoa_no_bar Itoa_no_bar]
  show ?thesis using s1 s2 s3 Itoa_inj by (simp add: rule_tuple_def)
qed

lemma rule_key_tuple: "rule_key r = (case rule_tuple r of (p, e, a, s) \<Rightarrow> p @ ''|'' @ Itoa e @ ''|'' @ Itoa a @ ''|'' @ s)"
  by (simp add: rule_key_def rule_tuple_def)

lemma lifecycleEqual_keys: "lifecycleEqual a b \<longleftrightarrow> mset (map rule_key a) = mset (map rule_key b)"
proof -
  define ka kb where "ka = sort (map rule_key a)" and "kb = sort (map rule_key b)"
  then have len: "length ka = length a" "length kb = length b" by simp_all
  have "lifecycleEqual a b \<longleftrightarrow> ka = kb"
    unfolding lifecycleEqual_def Let_def ka_def [symmetric] kb_def [symmetric]
    by (simp add: list_eq_iff_nth_eq [of ka kb] len list_all_iff Ball_def)
  also have "\<dots> \<longleftrightarrow> mset (map rule_key a) = mset (map rule_key b)"
  proof
    assume "ka = kb"
    then have "mset ka = mset kb" by simp
    then show "mset (map rule_key a) = mset (map rule_key b)" by (simp add: ka_def kb_def)
  next
    assume "mset (map rule_key a) = mset (map rule_key b)"
    then have "mset kb = mset (map rule_key a)" by (simp add: kb_def)
    then show "ka = kb" unfolding ka_def by (rule properties_for_sort) (simp add: kb_def)
  qed
  finally show ?thesis .
qed

text \<open>
  C37. \<open>lifecycleEqual\<close> is what its comment says: the length check, the sorted textual keys and the
  element-wise comparison decide whether the two configurations are equal as multisets of
  (prefix, expiration days, abort days, status), whatever the order and the ids of the rules.
  Statuses are the service's enumeration, of which only the separator's absence is used.
\<close>

theorem lifecycle_comparison_exact:
  assumes "\<forall>r \<in> set a \<union> set b. CHR ''|'' \<notin> set (srStatus r)"
  shows "lifecycleEqual a b \<longleftrightarrow> image_mset rule_tuple (mset a) = image_mset rule_tuple (mset b)"
proof -
  define T where "T = rule_tuple ` (set a \<union> set b)"
  define key where "key = (\<lambda>(p, e, ab, s). p @ ''|'' @ Itoa e @ ''|'' @ Itoa ab @ ''|'' @ s)"
  have k: "rule_key r = key (rule_tuple r)" for r by (simp add: key_def rule_key_tuple)
  have inj: "inj_on key T"
  proof (rule inj_onI)
    fix x y assume "x \<in> T" "y \<in> T" "key x = key y"
    then obtain r q where "x = rule_tuple r" "y = rule_tuple q" "r \<in> set a \<union> set b" "q \<in> set a \<union> set b" by (auto simp: T_def)
    with \<open>key x = key y\<close> rule_key_inj [of r q] assms show "x = y" by (simp add: k)
  qed
  have im: "mset (map rule_key l) = image_mset key (image_mset rule_tuple (mset l))" for l
    by (simp add: k multiset.map_comp comp_def cong: image_mset_cong)
  have sub: "set_mset (image_mset rule_tuple (mset l)) \<subseteq> T" if "l = a \<or> l = b" for l using that by (auto simp: T_def)
  have "image_mset (the_inv_into T key) (image_mset key M) = M" if "set_mset M \<subseteq> T" for M
  proof -
    have "image_mset (the_inv_into T key) (image_mset key M) = image_mset id M"
      unfolding multiset.map_comp by (rule image_mset_cong) (use that inj in \<open>auto intro: the_inv_into_f_f\<close>)
    then show ?thesis by simp
  qed
  then have "image_mset key (image_mset rule_tuple (mset a)) = image_mset key (image_mset rule_tuple (mset b)) \<longleftrightarrow>
      image_mset rule_tuple (mset a) = image_mset rule_tuple (mset b)"
    using sub by metis
  then show ?thesis unfolding lifecycleEqual_keys im .
qed

definition demo_rule :: "string \<Rightarrow> string \<Rightarrow> int \<Rightarrow> s3_rule" where
  "demo_rule i p d = \<lparr>srID = Some i, srStatus = ''Enabled'', srFilter = Some (Some p), srPrefix = None, srExpiration = Some (Some d), srAbort = None\<rparr>"

theorem lifecycle_comparison_exact_witness:
  "let a = [demo_rule ''x'' ''logs|'' 30, demo_rule ''y'' [] 7]; b = [demo_rule ''1'' [] 7, demo_rule ''2'' ''logs|'' 30] in
   lifecycleEqual a b \<and> image_mset rule_tuple (mset a) = image_mset rule_tuple (mset b) \<and> \<not> lifecycleEqual a (a @ b)"
proof -
  let ?a = "[demo_rule ''x'' ''logs|'' 30, demo_rule ''y'' [] 7]" and ?b = "[demo_rule ''1'' [] 7, demo_rule ''2'' ''logs|'' 30]"
  have "\<forall>r \<in> set ?a \<union> set ?b. CHR ''|'' \<notin> set (srStatus r)" by (simp add: demo_rule_def)
  from lifecycle_comparison_exact [OF this]
  have "lifecycleEqual ?a ?b \<longleftrightarrow> image_mset rule_tuple (mset ?a) = image_mset rule_tuple (mset ?b)" .
  moreover have "image_mset rule_tuple (mset ?a) = image_mset rule_tuple (mset ?b)"
    by (simp add: rule_tuple_def demo_rule_def rule_prefix_def days_def add_mset_commute)
  moreover have "\<not> lifecycleEqual ?a (?a @ ?b)" by (simp add: lifecycleEqual_def)
  ultimately show ?thesis by (simp add: Let_def)
qed


section \<open>Inspection\<close>

fun is_read :: "s3event \<Rightarrow> bool" where
  "is_read (Headed n r) = True"
| "is_read (ListedObjects n r) = True"
| "is_read (ListedVersions n r) = True"
| "is_read (GotVersioning n r) = True"
| "is_read (GotLifecycle n r) = True"
| "is_read e = False"

definition no_versions :: "goerr + object_id list \<times> object_id list \<Rightarrow> bool" where
  "no_versions v = (case v of Inl e \<Rightarrow> isNotImplemented e | Inr (vs, _) \<Rightarrow> vs = [])"

text \<open>The calls after which an inspection may answer \<open>i\<close>.\<close>

definition evidence :: "string \<Rightarrow> Inspection \<Rightarrow> s3event list \<Rightarrow> bool" where
  "evidence name i l =
     (if \<not> Exists i then (\<exists>e. s3_isNotFound e \<and> l = [Headed name (Some e)])
      else if Empty i then (\<exists>v. l = [Headed name None, ListedObjects name (Inr []), ListedVersions name v] \<and> no_versions v)
      else (\<exists>r. l = [Headed name None, ListedObjects name r] \<and> (case r of Inl e \<Rightarrow> isAccessDenied e | Inr keys \<Rightarrow> keys \<noteq> [])) \<or>
        (\<exists>v. l = [Headed name None, ListedObjects name (Inr []), ListedVersions name v] \<and>
           (case v of Inl e \<Rightarrow> isAccessDenied e | Inr (vs, _) \<Rightarrow> vs \<noteq> [])))"

text \<open>
  Empty on evidence. Inspection answers \<open>empty\<close>, which lets the controller adopt the bucket,
  only after the bucket answered a HEAD request, a listing that returned no object, and a
  listing of versions that returned none or that the service does not implement; it answers
  \<open>absent\<close> only when the HEAD request found no bucket; a refused listing counts as content.
  Inspection writes nothing.
\<close>

theorem s3_empty_on_evidence:
  "list_all is_read (pass_log (s3_InspectBuckety S name) s) \<and>
   (case pass_out (s3_InspectBuckety S name) s of
      Inl _ \<Rightarrow> True
    | Inr i \<Rightarrow> evidence name i (pass_log (s3_InspectBuckety S name) s))"
proof -
  have "keeps (\<lambda>_ _. True) [] (s3_InspectBuckety S name)
      (\<lambda>r l. list_all is_read l \<and> (case r of Inl _ \<Rightarrow> True | Inr i \<Rightarrow> evidence name i l))"
    unfolding s3_InspectBuckety_def
    by (intro keeps_rules) (auto simp: evidence_def no_versions_def inspected_def split: sum.splits prod.splits)
  from keepsD [OF this, of s] show ?thesis by simp
qed


section \<open>Writes answer a difference\<close>

text \<open>Whether a call of \<open>EnsureBuckety\<close> is due after the calls \<open>h\<close> of the same pass.\<close>

fun write_due :: "EnsureRequest \<Rightarrow> s3event list \<Rightarrow> s3event \<Rightarrow> bool" where
  "write_due req h (BucketCreated n loc r) = (n = erName req \<and> (\<exists>e. h = [Headed n (Some e)]))"
| "write_due req h (VersioningPut n status r) =
     (n = erName req \<and> (\<exists>cur v want. last h = GotVersioning n (Inr cur) \<and> map_of (erParameters req) ''versioning'' = Some v \<and>
        ParseBool v = Some want \<and> status = (if want then ''Enabled'' else ''Suspended'') \<and> cur \<noteq> status \<and> (cur = ''Enabled'') \<noteq> want))"
| "write_due req h (LifecyclePut n rules r) =
     (n = erName req \<and> rules \<noteq> [] \<and> (\<exists>cur doc. last h = GotLifecycle n cur \<and> map_of (erParameters req) ''lifecycle'' = Some doc \<and>
        s3_translateLifecycle doc = Inr rules \<and>
        (case cur of Inr old \<Rightarrow> \<not> lifecycleEqual old rules | Inl e \<Rightarrow> isNoLifecycle e)))"
| "write_due req h (LifecycleDeleted n r) =
     (n = erName req \<and> (\<exists>old doc. last h = GotLifecycle n (Inr old) \<and> old \<noteq> [] \<and> map_of (erParameters req) ''lifecycle'' = Some doc \<and>
        s3_translateLifecycle doc = Inr []))"
| "write_due req h (BucketDeleted n r) = False"
| "write_due req h (ObjectsDeleted n ids r) = False"
| "write_due req h e = True"

lemma lifecycleEqual_Nil: "lifecycleEqual a [] \<longleftrightarrow> a = []" "lifecycleEqual [] []"
  by (auto simp: lifecycleEqual_def)

lemma apply_lifecycle_due:
  assumes "map_of (erParameters req) ''lifecycle'' = Some doc" "s3_translateLifecycle doc = Inr desired"
    and "last h = GotLifecycle (erName req) g"
    and "case g of Inr old \<Rightarrow> current = old | Inl e \<Rightarrow> isNoLifecycle e \<and> current = []"
  shows "keeps (write_due req) h (apply_lifecycle S (erName req) current desired) (\<lambda>_ _. True)"
  unfolding apply_lifecycle_def
  by (intro keeps_rules) (use assms lifecycleEqual_Nil in \<open>auto split: sum.splits\<close>)

lemma reconcileLifecycle_due:
  "keeps (write_due req) h (reconcileLifecycle S (erName req) (erParameters req)) (\<lambda>_ _. True)"
  unfolding reconcileLifecycle_def
  by (intro keeps_rules apply_lifecycle_due) auto

lemma reconcileVersioning_due:
  "keeps (write_due req) h (reconcileVersioning S (erName req) (erParameters req)) (\<lambda>_ _. True)"
  unfolding reconcileVersioning_def by (intro keeps_rules) auto

text \<open>
  C34. Writes answer a difference. Every write of \<open>EnsureBuckety\<close> is to the requested bucket and due:
  the bucket is created only when the first HEAD request of the pass failed, the versioning
  status and the lifecycle rules are put only right after an answer that differs from the
  parameter, lifecycle rules are cleared only where the service reported some; and nothing is
  ever deleted. A pass over a bucket that is as requested makes read calls only.
\<close>

theorem s3_writes_due:
  "guarded (write_due req) [] (pass_log (s3_EnsureBuckety cfg S req) s)"
proof -
  have create: "keeps (write_due req) [Headed (erName req) (Some e)] (createBucket cfg S req) (\<lambda>_ _. True)" for e
    unfolding createBucket_def Let_def by (intro keeps_rules) auto
  have "keeps (write_due req) [] (s3_EnsureBuckety cfg S req) (\<lambda>_ _. True)"
    unfolding s3_EnsureBuckety_def
    by (intro keeps_rules)
       (auto intro!: keeps_rules keeps_mono [OF create] keeps_mono [OF reconcileVersioning_due] reconcileLifecycle_due)
  from keepsD [OF this, of s] show ?thesis by simp
qed


section \<open>Teardown\<close>

text \<open>
  A service in which nobody else writes: listings answer without changing it, deleting a listed
  page succeeds and leaves less, and a bucket listed as empty can be deleted.
\<close>

definition quiet_step :: "'w s3_client \<Rightarrow> string \<Rightarrow> ('w \<Rightarrow> nat) \<Rightarrow> 'w \<Rightarrow> bool" where
  "quiet_step S n remaining w \<longleftrightarrow> (\<exists>keys vs ms w'.
     s3ListObjectsV2 S n None w = (Inr keys, w) \<and> s3ListObjectVersions S n None w = (Inr (vs, ms), w) \<and>
     (let ids = (if keys \<noteq> [] then map (\<lambda>k. (k, None)) keys else vs @ ms) in
      if ids = [] then s3DeleteBucket S n w = (None, w')
      else s3DeleteObjects S n ids w = (Inr [], w') \<and> remaining w' < remaining w))"

lemma delete_slice:
  assumes "quiet_step S (drName req) remaining (world s)"
  shows "(let (r, s') = run_state (s3_DeleteBuckety S req) s in
    r = None \<or> (\<exists>p. r = Some (ErrDeletionInProgress p False)) \<and> remaining (world s') < remaining (world s))"
proof -
  from assms obtain keys vs ms w' where l: "s3ListObjectsV2 S (drName req) None (world s) = (Inr keys, world s)"
      "s3ListObjectVersions S (drName req) None (world s) = (Inr (vs, ms), world s)" and
    d: "let ids = (if keys \<noteq> [] then map (\<lambda>k. (k, None)) keys else vs @ ms) in
      if ids = [] then s3DeleteBucket S (drName req) (world s) = (None, w')
      else s3DeleteObjects S (drName req) ids (world s) = (Inr [], w') \<and> remaining w' < remaining (world s)"
    by (auto simp: quiet_step_def)
  show ?thesis
  proof (cases "keys = []")
    case True
    then show ?thesis
      using l d by (cases "vs @ ms = []")
        (simp_all add: s3_DeleteBuckety_def emptyBucketSlice_def listVersionsPage_def delete_listed_def Let_def pass_run_defs)
  next
    case False
    then show ?thesis
      using l d by (simp add: s3_DeleteBuckety_def emptyBucketSlice_def listVersionsPage_def delete_listed_def Let_def pass_run_defs)
  qed
qed

lemma s3_slice_progress:
  assumes "\<forall>w. quiet_step S (drName req) remaining w"
  shows "case run_state (s3_DeleteBuckety S req) s of (r, s') \<Rightarrow>
      r = None \<or> (\<exists>q. r = Some (ErrDeletionInProgress q False)) \<and> True \<and> remaining (world s') < remaining (world s)"
  using delete_slice [OF spec [OF assms], where s = s] by (auto simp: Let_def split: prod.splits)

text \<open>
  Teardown ends. On a bucket nobody else writes to, \<open>DeleteBuckety\<close> called again and again as
  the controller does removes the bucket after at most as many passes as there are things left
  to delete; until then every pass answers \<open>ErrDeletionInProgress\<close> without the stalled mark, so
  the controller requeues promptly.
\<close>

theorem s3_teardown_ends:
  assumes "\<forall>w. quiet_step S (drName req) remaining w"
  shows "\<exists>k \<le> remaining (world s). pass_out (s3_DeleteBuckety S req) (after_passes (s3_DeleteBuckety S req) k s) = None \<and>
    (\<forall>i < k. \<exists>p. pass_out (s3_DeleteBuckety S req) (after_passes (s3_DeleteBuckety S req) i s) = Some (ErrDeletionInProgress p False))"
  unfolding pass_out_def
  by (rule deletion_passes_end [where I = "\<lambda>_. True" and m = "\<lambda>s. remaining (world s)"], rule TrueI, rule s3_slice_progress [OF assms])

text \<open>A service with pages of two, holding current keys and versions.\<close>

definition demo_store :: "(string list \<times> object_id list) s3_client" where
  "demo_store =
     \<lparr>s3HeadBucket = (\<lambda>_ w. (None, w)), s3ListObjectsV2 = (\<lambda>_ _ w. (Inr (take 2 (fst w)), w)),
      s3ListObjectVersions = (\<lambda>_ _ w. (Inr (take 2 (snd w), []), w)), s3CreateBucket = (\<lambda>_ _ w. (None, w)),
      s3DeleteBucket = (\<lambda>_ w. (None, w)),
      s3DeleteObjects = (\<lambda>_ ids w. (Inr [], if fst w \<noteq> [] then (drop (length ids) (fst w), snd w) else (fst w, drop (length ids) (snd w)))),
      s3GetBucketVersioning = (\<lambda>_ w. (Inr ''Enabled'', w)), s3PutBucketVersioning = (\<lambda>_ _ w. (None, w)),
      s3GetBucketLifecycle = (\<lambda>_ w. (Inr [], w)), s3PutBucketLifecycle = (\<lambda>_ _ w. (None, w)), s3DeleteBucketLifecycle = (\<lambda>_ w. (None, w))\<rparr>"

theorem s3_teardown_ends_witness:
  "let s = \<lparr>world = ([''a'', ''b'', ''c''], [(''a'', Some ''1'')]), trace = [], memory = ()\<rparr>; req = \<lparr>drName = ''b'', drParameters = []\<rparr> in
   \<exists>k \<le> 4. pass_out (s3_DeleteBuckety demo_store req) (after_passes (s3_DeleteBuckety demo_store req) k s) = None"
proof -
  let ?s = "\<lparr>world = ([''a'', ''b'', ''c''], [(''a'', Some ''1'')]), trace = [], memory = ()\<rparr>"
  let ?req = "\<lparr>drName = ''b'', drParameters = []\<rparr>"
  have "\<forall>w. quiet_step demo_store (drName ?req) (\<lambda>w. length (fst w) + length (snd w)) w"
  proof
    fix w show "quiet_step demo_store (drName ?req) (\<lambda>w. length (fst w) + length (snd w)) w"
      by (cases "fst w"; cases "snd w"; cases w) (auto simp: quiet_step_def demo_store_def Let_def)
  qed
  from s3_teardown_ends [OF this, of ?s] obtain k where
    "k \<le> 4" "pass_out (s3_DeleteBuckety demo_store ?req) (after_passes (s3_DeleteBuckety demo_store ?req) k ?s) = None" by (auto simp: numeral_eq_Suc)
  then show ?thesis by (auto simp: Let_def)
qed


section \<open>Where code and comments part\<close>

definition age_rule :: "int \<Rightarrow> Rule" where
  "age_rule n = \<lparr>ruAction = \<lparr>acType = ''Delete'', acStorageClass = []\<rparr>, ruCondition =
     \<lparr>cnAge = Some n, cnCreatedBefore = zero_date, cnCustomTimeBefore = zero_date, cnNoncurrentTimeBefore = zero_date,
      cnDaysSinceCustomTime = 0, cnDaysSinceNoncurrentTime = 0, cnIsLive = None, cnMatchesPrefix = None, cnMatchesStorageClass = None,
      cnMatchesSuffix = None, cnNumNewerVersions = 0\<rparr>\<rparr>"

definition expires_after :: "goerr + s3_rule \<Rightarrow> int option" where
  "expires_after r = (case r of Inr q \<Rightarrow> Some (days (srExpiration q)) | Inl _ \<Rightarrow> None)"

lemma translate_age: "n \<noteq> 0 \<Longrightarrow> expires_after (translate_rule i (age_rule n)) = Some (to_int 32 n)"
  by (simp add: translate_rule_def age_rule_def outside_subset_def items_def expires_after_def days_def Let_def)

text \<open>
  The age of a lifecycle rule is only checked against zero. An age within 1 to \<open>2 ^ 31 - 1\<close> is
  sent as it is; but a negative age is accepted although the message asks for at least 1, and a
  larger one is cut to 32 bits, so a rule meant to keep objects for \<open>2 ^ 32 + n\<close> days deletes them
  after \<open>n\<close>.
\<close>

theorem s3_age_conversion:
  assumes "1 \<le> n" and "n < 2 ^ 31"
  shows "expires_after (translate_rule i (age_rule n)) = Some n \<and>
    expires_after (translate_rule i (age_rule (2 ^ 32 + n))) = Some n \<and>
    expires_after (translate_rule i (age_rule (- n))) = Some (- n)"
proof -
  have "(2 ^ 32 + n + 2 ^ 31) mod 2 ^ 32 = (n + 2 ^ 31) mod 2 ^ 32" by (simp only: add.assoc mod_add_self1)
  moreover have "(n + 2 ^ 31) mod 2 ^ 32 = n + 2 ^ 31" "(- n + 2 ^ 31) mod 2 ^ 32 = - n + 2 ^ 31"
    using assms by (simp_all add: mod_pos_pos_trivial)
  ultimately have "to_int 32 n = n" "to_int 32 (2 ^ 32 + n) = n" "to_int 32 (- n) = - n" by (simp_all add: to_int_def)
  with assms show ?thesis by (simp add: translate_age)
qed

theorem s3_age_conversion_witness:
  "expires_after (translate_rule 0 (age_rule 30)) = Some 30 \<and> expires_after (translate_rule 0 (age_rule 4294967297)) = Some 1 \<and>
   expires_after (translate_rule 0 (age_rule (- 5))) = Some (- 5)"
  using s3_age_conversion [of 30 0] s3_age_conversion [of 1 0] s3_age_conversion [of 5 0] by simp

text \<open>A service that answers a listing of versions with HTTP 501 and a code of its own.\<close>

definition no_versioning :: goerr where
  "no_versioning = BackendError ''VersioningNotConfigured'' 501 ''versioning is not configured''"

text \<open>
  An unsupported versions listing is read in two ways. For inspection every HTTP 501 answer
  means that there are no hidden versions, and an empty bucket counts as empty; teardown
  recognises only the code \<open>NotImplemented\<close>, so on a service that answers 501 with another code it
  fails on that same bucket, in every pass, without deleting it.
\<close>

theorem s3_unlisted_versions_block_teardown:
  assumes "s3HeadBucket S n (world s) = (None, world s)"
    and "\<forall>k. s3ListObjectsV2 S n k (world s) = (Inr [], world s)"
    and "\<forall>k. s3ListObjectVersions S n k (world s) = (Inl e, world s)"
    and "http_status e = 501" and "api_code e \<notin> {''NotImplemented'', ''NoSuchBucket'', ''NotFound''}"
  shows "pass_out (s3_InspectBuckety S n) s = Inr \<lparr>Exists = True, Empty = True\<rparr> \<and>
    pass_out (s3_DeleteBuckety S \<lparr>drName = n, drParameters = ps\<rparr>) s = Some (Wrapf ''s3: empty bucket %q for deletion: %w'' [AStr n] e) \<and>
    world (after_passes (s3_DeleteBuckety S \<lparr>drName = n, drParameters = ps\<rparr>) k s) = world s"
proof -
  have i: "isNotImplemented e" using assms(4) by (simp add: isNotImplemented_def)
  have run: "run_state (s3_DeleteBuckety S \<lparr>drName = n, drParameters = ps\<rparr>) t =
      (Some (Wrapf ''s3: empty bucket %q for deletion: %w'' [AStr n] e),
       t\<lparr>trace := trace t @ [ListedObjects n (Inr []), ListedVersions n (Inl e)]\<rparr>)" if "world t = world s" for t
    using that assms(2,3,5) by (simp add: s3_DeleteBuckety_def emptyBucketSlice_def listVersionsPage_def s3_isNotFound_def Let_def pass_run_defs)
  have "world (after_passes (s3_DeleteBuckety S \<lparr>drName = n, drParameters = ps\<rparr>) k s) = world s"
    by (induction k) (simp_all add: after_passes_def run)
  with assms i run show ?thesis by (simp add: s3_InspectBuckety_def inspected_def pass_run_defs)
qed

theorem s3_unlisted_versions_block_teardown_witness:
  "let S = demo_store\<lparr>s3ListObjectVersions := \<lambda>_ _ w. (Inl no_versioning, w)\<rparr>; s = \<lparr>world = ([], []), trace = [], memory = ()\<rparr> in
   pass_out (s3_InspectBuckety S ''b'') s = Inr \<lparr>Exists = True, Empty = True\<rparr> \<and>
   pass_out (s3_DeleteBuckety S \<lparr>drName = ''b'', drParameters = []\<rparr>) s = Some (Wrapf ''s3: empty bucket %q for deletion: %w'' [AStr ''b''] no_versioning)"
proof -
  let ?S = "demo_store\<lparr>s3ListObjectVersions := \<lambda>_ _ w. (Inl no_versioning, w)\<rparr>" and ?s = "\<lparr>world = ([], []), trace = [], memory = ()\<rparr>"
  have "s3HeadBucket ?S ''b'' (world ?s) = (None, world ?s)" "\<forall>k. s3ListObjectsV2 ?S ''b'' k (world ?s) = (Inr [], world ?s)"
    "\<forall>k. s3ListObjectVersions ?S ''b'' k (world ?s) = (Inl no_versioning, world ?s)" "http_status no_versioning = 501"
    "api_code no_versioning \<notin> {''NotImplemented'', ''NoSuchBucket'', ''NotFound''}"
    by (simp_all add: demo_store_def no_versioning_def http_status_def api_code_def)
  from s3_unlisted_versions_block_teardown [OF this, of "[]" 0] show ?thesis by (simp add: Let_def)
qed

end
