(* ===== verification/Gcs_Params.thy ===== *)
theory Gcs_Params
  imports Object_Lifecycle Driver_Registry Go_Net Go_Time "HOL-Library.List_Lexorder" "HOL-Library.Char_ord"
begin

text \<open>
  \<open>pkg/drivers/gcs/driver.go\<close>, first part: the configuration, the parameters with their
  validation, and the translation of parameters into bucket attributes (\<open>attrsForCreate\<close>) and
  into the update that repairs drift (\<open>updateForDrift\<close>).
\<close>

section \<open>Configuration\<close>

record ServiceAccountsConfig =
  sacProject :: string
  sacEndpoint :: string
  sacInsecure :: bool

record gcs_config =
  gcProject :: string
  gcEndpoint :: string
  gcRegion :: string
  gcAccessKeyID :: string
  gcSecretAccessKey :: string
  gcServiceAccounts :: "ServiceAccountsConfig option"

definition gcs_DriverName :: string where
  "gcs_DriverName = ''gcs''"

definition gcs_version :: string where
  "gcs_version = ''0.2.0''"

definition globalEndpoint :: string where
  "globalEndpoint = ''storage.googleapis.com''"


section \<open>Error classes\<close>

text \<open>
  An error of the Google clients is a \<open>BackendError\<close>: the name of the sentinel error it wraps, if
  any, the code of the \<open>googleapi.Error\<close> in its chain (0 when there is none) and its message.
\<close>

definition gapiCode :: "goerr \<Rightarrow> int \<Rightarrow> bool" where
  "gapiCode e code = (case root_cause e of BackendError _ n _ \<Rightarrow> n = code | _ \<Rightarrow> False)"

definition gcs_isConflict :: "goerr \<Rightarrow> bool" where
  "gcs_isConflict e = gapiCode e 409"

definition gcs_isForbidden :: "goerr \<Rightarrow> bool" where
  "gcs_isForbidden e = gapiCode e 403"

definition gcs_isNotFound :: "goerr \<Rightarrow> bool" where
  "gcs_isNotFound e = gapiCode e 404"

definition sentinel :: "string \<Rightarrow> goerr \<Rightarrow> bool" where
  "sentinel s e = (case root_cause e of BackendError c _ _ \<Rightarrow> c = s | _ \<Rightarrow> False)"

definition ErrBucketNotExist :: "goerr \<Rightarrow> bool" where
  "ErrBucketNotExist e = sentinel ''storage.ErrBucketNotExist'' e"

definition ErrObjectNotExist :: "goerr \<Rightarrow> bool" where
  "ErrObjectNotExist e = sentinel ''storage.ErrObjectNotExist'' e"


section \<open>Lifecycle\<close>

datatype Liveness = LiveAndArchived | Live | Archived

record gcs_rule =
  glType :: string
  glStorageClass :: string
  glAgeInDays :: int
  glAllObjects :: bool
  glCreatedBefore :: date
  glCustomTimeBefore :: date
  glNoncurrentTimeBefore :: date
  glDaysSinceCustomTime :: int
  glDaysSinceNoncurrentTime :: int
  glLiveness :: Liveness
  glMatchesPrefix :: "string list option"
  glMatchesStorageClasses :: "string list option"
  glMatchesSuffix :: "string list option"
  glNumNewerVersions :: int

text \<open>\<open>storage.Lifecycle\<close> is its rules; \<open>None\<close> is the nil slice.\<close>

type_synonym Lifecycle = "gcs_rule list option"

definition gcs_translate_rule :: "Rule \<Rightarrow> gcs_rule" where
  "gcs_translate_rule r = (let c = ruCondition r in
     \<lparr>glType = acType (ruAction r), glStorageClass = acStorageClass (ruAction r),
      glAgeInDays = (case cnAge c of Some n \<Rightarrow> n | None \<Rightarrow> 0), glAllObjects = (cnAge c = Some 0),
      glCreatedBefore = cnCreatedBefore c, glCustomTimeBefore = cnCustomTimeBefore c, glNoncurrentTimeBefore = cnNoncurrentTimeBefore c,
      glDaysSinceCustomTime = cnDaysSinceCustomTime c, glDaysSinceNoncurrentTime = cnDaysSinceNoncurrentTime c,
      glLiveness = (case cnIsLive c of None \<Rightarrow> LiveAndArchived | Some b \<Rightarrow> if b then Live else Archived),
      glMatchesPrefix = cnMatchesPrefix c, glMatchesStorageClasses = cnMatchesStorageClass c, glMatchesSuffix = cnMatchesSuffix c,
      glNumNewerVersions = cnNumNewerVersions c\<rparr>)"

definition gcs_parseLifecycle :: "string \<Rightarrow> goerr + Lifecycle" where
  "gcs_parseLifecycle doc =
     (case ParseLifecycle doc of
        Inl e \<Rightarrow> Inl e
      | Inr rules \<Rightarrow> Inr (if rules = [] then None else Some (map gcs_translate_rule rules)))"


section \<open>Other parameters\<close>

definition week :: int where
  "week = 7 * 24 * 60 * 60"

definition ninetyDays :: int where
  "ninetyDays = 90 * 24 * 60 * 60"

text \<open>The product of two \<open>int64\<close> wraps.\<close>

definition parseSoftDeleteRetention :: "string \<Rightarrow> goerr + duration" where
  "parseSoftDeleteRetention v =
     (case ParseInt v 64 of
        NumOk secs \<Rightarrow>
          if secs \<noteq> 0 \<and> (secs < week \<or> secs > ninetyDays) then
            Inl (Errorf (Sprintf ''GCS requires 0 (disabled) or %d..%d seconds (7 to 90 days), got %d'' [AInt week, AInt ninetyDays, AInt secs]))
          else Inr (to_int 64 (secs * Second))
      | _ \<Rightarrow> Inl (Errorf (Sprintf ''want seconds as an integer (\"0\" disables), got %q'' [AStr v])))"

definition parseLabels :: "string \<Rightarrow> goerr + smap" where
  "parseLabels v =
     (case Option.bind (json_Decode v) decode_smap of
        None \<Rightarrow> Inl (Wrapf ''want a JSON object of string values, got %q: %w'' [AStr v] json_error)
      | Some out \<Rightarrow> Inr out)"

definition parse_bool :: "string \<Rightarrow> goerr + bool" where
  "parse_bool v =
     (case ParseBool v of
        None \<Rightarrow> Inl (Errorf (Sprintf ''strconv.ParseBool: parsing %q: invalid syntax'' [AStr v]))
      | Some b \<Rightarrow> Inr b)"

text \<open>\<open>^[a-z][-a-z0-9]{4,28}[a-z0-9]$\<close>\<close>

definition saNameRE :: "string \<Rightarrow> bool" where
  "saNameRE s \<longleftrightarrow> 6 \<le> length s \<and> length s \<le> 30 \<and> is_lower (hd s) \<and> (is_lower (last s) \<or> is_digit (last s)) \<and>
     list_all (\<lambda>c. is_lower c \<or> is_digit c \<or> c = CHR ''-'') s"


section \<open>Validation\<close>

definition gcs_check_parameter :: "gcs_config \<Rightarrow> string \<Rightarrow> string \<Rightarrow> goerr option" where
  "gcs_check_parameter cfg k v = (
     let want_bool = (if ParseBool v = None
           then Some (Errorf (Sprintf ''parameters.%s: want \"true\" or \"false\", got %q'' [AStr k, AStr v])) else None)
     in if k = ''location'' then
          if v = [] then Some (Errorf (Lit ''parameters.location must not be empty when set'')) else None
        else if k = ''uniformBucketLevelAccess'' \<or> k = ''versioning'' then want_bool
        else if k = ''lifecycle'' then (case gcs_parseLifecycle v of Inl e \<Rightarrow> Some (Wrapf ''parameters.lifecycle: %w'' [] e) | Inr _ \<Rightarrow> None)
        else if k = ''softDeleteRetentionSeconds'' then
          (case parseSoftDeleteRetention v of Inl e \<Rightarrow> Some (Wrapf ''parameters.softDeleteRetentionSeconds: %w'' [] e) | Inr _ \<Rightarrow> None)
        else if k = ''labels'' then (case parseLabels v of Inl e \<Rightarrow> Some (Wrapf ''parameters.labels: %w'' [] e) | Inr _ \<Rightarrow> None)
        else if k = ''serviceAccount'' then
          if v = [] then None
          else if gcServiceAccounts cfg = None then
            Some (Errorf (Lit ''parameters.serviceAccount requires serviceAccounts to be enabled in this backend's config''))
          else if \<not> saNameRE v then
            Some (Errorf (Sprintf ''parameters.serviceAccount %q must be a valid service account ID: 6-30 characters of lowercase letters, digits and hyphens, starting with a letter and ending alphanumeric (include the namespace, e.g. via the ${name}-${namespace} template, for project-wide uniqueness)'' [AStr v]))
          else None
        else if k = ''hmac'' then want_bool
        else Some (Errorf (Sprintf ''unknown parameter %q (gcs v0.2 accepts: location, uniformBucketLevelAccess, versioning, lifecycle, softDeleteRetentionSeconds, labels, hmac, and serviceAccount when serviceAccounts=enabled)'' [AStr k])))"

definition gcs_ValidateParameters :: "gcs_config \<Rightarrow> smap \<Rightarrow> goerr option" where
  "gcs_ValidateParameters cfg params = range_check (gcs_check_parameter cfg) params"

definition gcs_ValidateUpdateParameters :: "gcs_config \<Rightarrow> smap \<Rightarrow> smap \<Rightarrow> goerr option" where
  "gcs_ValidateUpdateParameters cfg oldParams newParams =
     (case gcs_ValidateParameters cfg newParams of
        Some e \<Rightarrow> Some e
      | None \<Rightarrow>
          let o1 = get0 oldParams ''location''; n1 = get0 newParams ''location'';
              o2 = get0 oldParams ''serviceAccount''; n2 = get0 newParams ''serviceAccount''
          in if o1 \<noteq> n1 then
               Some (Errorf (Sprintf ''parameters.location is immutable post-create (current=%q, requested=%q)'' [AStr o1, AStr n1]))
             else if o2 \<noteq> n2 then
               Some (Errorf (Sprintf ''parameters.serviceAccount is immutable post-create (current=%q, requested=%q); recreate the Buckety with retentionPolicy=Retain + adoption to change it'' [AStr o2, AStr n2]))
             else None)"

definition gcs_TemplatedParameters :: "gcs_config \<Rightarrow> string list" where
  "gcs_TemplatedParameters cfg = (if gcServiceAccounts cfg = None then [] else [''serviceAccount''])"

definition gcs_ValidateAccessParameters :: "smap \<Rightarrow> goerr option" where
  "gcs_ValidateAccessParameters params =
     (if params = [] then None
      else Some (Errorf (Sprintf ''gcs accepts no BucketyAccess parameters; got: %s'' [AStr (Join (sort (map fst params)) '', '')])))"

text \<open>\<open>^[a-z0-9][a-z0-9._-]*[a-z0-9]$\<close>\<close>

definition gcs_bucketNameRE :: "string \<Rightarrow> bool" where
  "gcs_bucketNameRE s \<longleftrightarrow> 2 \<le> length s \<and> (is_lower (hd s) \<or> is_digit (hd s)) \<and> (is_lower (last s) \<or> is_digit (last s)) \<and>
     list_all (\<lambda>c. is_lower c \<or> is_digit c \<or> c \<in> set ''._-'') s"

definition gcs_ValidateResourceName :: "string \<Rightarrow> goerr option" where
  "gcs_ValidateResourceName name =
     (if length name < 3 \<or> length name > 63 then
        Some (Errorf (Sprintf ''bucket name %q is %d characters; GCS requires 3-63 (longer dotted names need domain verification and are out of scope)''
               [AStr name, AInt (int (length name))]))
      else if \<not> gcs_bucketNameRE name then
        Some (Errorf (Sprintf ''bucket name %q must be lowercase alphanumerics, dashes, underscores and dots, starting and ending alphanumeric'' [AStr name]))
      else if HasPrefix name ''goog'' then
        Some (Errorf (Sprintf ''bucket name %q must not begin with the %q prefix'' [AStr name, AStr ''goog'']))
      else if Contains name ''google'' then
        Some (Errorf (Sprintf ''bucket name %q must not contain %q'' [AStr name, AStr ''google'']))
      else if ParseIP_ok name then
        Some (Errorf (Sprintf ''bucket name %q must not be formatted as an IP address'' [AStr name]))
      else None)"


section \<open>Parameter translation\<close>

text \<open>The fields of \<open>storage.BucketAttrs\<close> and \<open>storage.BucketAttrsToUpdate\<close> the driver reads or sets.\<close>

record BucketAttrs =
  baLocation :: string
  baUniformBucketLevelAccess :: bool
  baVersioningEnabled :: bool
  baLifecycle :: Lifecycle
  baSoftDeletePolicy :: "duration option"
  baLabels :: smap

record BucketAttrsToUpdate =
  buUniformBucketLevelAccess :: "bool option"
  buVersioningEnabled :: "bool option"
  buLifecycle :: "Lifecycle option"
  buSoftDeletePolicy :: "duration option"
  buSetLabels :: smap

text \<open>
  Both translations read the same five parameters in the same order with the same messages: \<open>if v,
  ok := params[k]; ok { x, err := parse(v); if err != nil { return nil, fmt.Errorf("parameters.k: %w", err) } ... }\<close>.
\<close>

definition managed_param :: "smap \<Rightarrow> string \<Rightarrow> (string \<Rightarrow> goerr + 'a) \<Rightarrow> goerr + 'a option" where
  "managed_param params k parse =
     (case map_of params k of
        None \<Rightarrow> Inr None
      | Some v \<Rightarrow> (case parse v of Inl e \<Rightarrow> Inl (Wrapf (''parameters.'' @ k @ '': %w'') [] e) | Inr x \<Rightarrow> Inr (Some x)))"

definition managed_values :: "smap \<Rightarrow> goerr + bool option \<times> bool option \<times> Lifecycle option \<times> duration option \<times> smap option" where
  "managed_values params =
     (case managed_param params ''uniformBucketLevelAccess'' parse_bool of
        Inl e \<Rightarrow> Inl e
      | Inr ubla \<Rightarrow>
     (case managed_param params ''versioning'' parse_bool of
        Inl e \<Rightarrow> Inl e
      | Inr versioning \<Rightarrow>
     (case managed_param params ''lifecycle'' gcs_parseLifecycle of
        Inl e \<Rightarrow> Inl e
      | Inr lifecycle \<Rightarrow>
     (case managed_param params ''softDeleteRetentionSeconds'' parseSoftDeleteRetention of
        Inl e \<Rightarrow> Inl e
      | Inr soft \<Rightarrow>
     (case managed_param params ''labels'' parseLabels of
        Inl e \<Rightarrow> Inl e
      | Inr labels \<Rightarrow> Inr (ubla, versioning, lifecycle, soft, labels))))))"

definition or_else :: "'a option \<Rightarrow> 'a \<Rightarrow> 'a" where
  "or_else x d = (case x of Some y \<Rightarrow> y | None \<Rightarrow> d)"

definition attrsForCreate :: "smap \<Rightarrow> goerr + BucketAttrs" where
  "attrsForCreate params =
     (case managed_values params of
        Inl e \<Rightarrow> Inl e
      | Inr (ubla, versioning, lifecycle, soft, labels) \<Rightarrow>
          Inr \<lparr>baLocation = get0 params ''location'', baUniformBucketLevelAccess = or_else ubla False,
               baVersioningEnabled = or_else versioning False, baLifecycle = or_else lifecycle None,
               baSoftDeletePolicy = soft, baLabels = or_else labels []\<rparr>)"

definition updateForDrift :: "smap \<Rightarrow> BucketAttrs \<Rightarrow> goerr + BucketAttrsToUpdate option" where
  "updateForDrift params attrs =
     (case managed_values params of
        Inl e \<Rightarrow> Inl e
      | Inr (ubla, versioning, lifecycle, soft, labels) \<Rightarrow>
          let current = or_else (baSoftDeletePolicy attrs) 0;
              dirty = (ubla \<noteq> None \<and> ubla \<noteq> Some (baUniformBucketLevelAccess attrs) \<or>
                versioning \<noteq> None \<and> versioning \<noteq> Some (baVersioningEnabled attrs) \<or>
                lifecycle \<noteq> None \<and> lifecycle \<noteq> Some (baLifecycle attrs) \<or>
                soft \<noteq> None \<and> soft \<noteq> Some current \<or>
                list_ex (\<lambda>(k, v). get0 (baLabels attrs) k \<noteq> v) (or_else labels []))
          in Inr (if \<not> dirty then None
                  else Some \<lparr>buUniformBucketLevelAccess = ubla, buVersioningEnabled = versioning, buLifecycle = lifecycle,
                             buSoftDeletePolicy = soft, buSetLabels = copy_into [] (or_else labels [])\<rparr>))"

text \<open>\<open>strings.ToLower\<close> on ASCII, which locations are; \<open>strings.EqualFold\<close> of two strings one of which is ASCII.\<close>

definition ascii_lower :: "char \<Rightarrow> char" where
  "ascii_lower c = (if is_upper c then char_of (byte c + 32) else c)"

definition EqualFold :: "string \<Rightarrow> string \<Rightarrow> bool" where
  "EqualFold s t \<longleftrightarrow> foldName s = foldName t"

definition locationEndpoint :: "string \<Rightarrow> string \<times> string" where
  "locationEndpoint location = (
     let l = map ascii_lower location in
     if Contains l ''-'' then (''storage.'' @ l @ ''.rep.googleapis.com'', l) else (globalEndpoint, []))"


section \<open>The validation contract\<close>

interpretation gcs: driver_validation "gcs_ValidateParameters cfg" "gcs_ValidateUpdateParameters cfg"
  gcs_ValidateAccessParameters gcs_ValidateResourceName
proof
  fix p q old new :: smap and n :: string
  show "set p = set q \<Longrightarrow> gcs_ValidateParameters cfg p = None \<longleftrightarrow> gcs_ValidateParameters cfg q = None"
    unfolding gcs_ValidateParameters_def by (rule range_check_order)
  show "gcs_ValidateUpdateParameters cfg old new = None \<Longrightarrow> gcs_ValidateParameters cfg new = None"
    by (simp add: gcs_ValidateUpdateParameters_def split: option.splits)
  show "\<lbrakk>gcs_ValidateParameters cfg p = None; map_of old = map_of p\<rbrakk> \<Longrightarrow> gcs_ValidateUpdateParameters cfg old p = None"
    by (simp add: gcs_ValidateUpdateParameters_def get0_cong [of old p] Let_def)
  show "gcs_ValidateAccessParameters p = None \<longleftrightarrow> p = []"
    by (simp add: gcs_ValidateAccessParameters_def)
  show "gcs_ValidateResourceName n = None \<Longrightarrow> n \<noteq> []"
    by (auto simp: gcs_ValidateResourceName_def)
qed

end
