(* ===== verification/Gcs_Driver.thy ===== *)
theory Gcs_Driver
  imports Gcs_Params Go_Crypto
begin

text \<open>
  \<open>pkg/drivers/gcs/driver.go\<close> and \<open>serviceaccount.go\<close>: the methods of the Google Cloud Storage
  driver. The storage client, the IAM service and the clock are third-party or outside code: their
  calls are the fields of \<open>gcs_client\<close> and \<open>iam_service\<close>, functions of the outside world. A bucket
  policy is of an unknown type \<open>'p\<close> with the two functions the driver applies to it. The trace
  lists the calls with their answers. The driver keeps no memory.
\<close>

section \<open>The services\<close>

text \<open>The \<open>n\<close>-th call of an object iterator's \<open>Next\<close>; \<open>Deleted\<close> is \<open>None\<close> for the zero time of a live generation.\<close>

record ObjectAttrs =
  oaName :: string
  oaGeneration :: int
  oaDeleted :: "time option"

datatype next_result = Done | NextErr goerr | Next ObjectAttrs

record target =
  tgKey :: string
  tgGen :: int
  tgLive :: bool

text \<open>
  \<open>gsSchedule\<close> is the order in which the workers of an \<open>errgroup\<close> finish; a call that finishes
  after the first error may have been cancelled, which is one of the answers it can get.
\<close>

record ('w, 'p) gcs_client =
  gsAttrs :: "string \<Rightarrow> 'w \<Rightarrow> (goerr + BucketAttrs) \<times> 'w"
  gsNext :: "string \<Rightarrow> bool \<Rightarrow> nat \<Rightarrow> 'w \<Rightarrow> next_result \<times> 'w"
  gsCreate :: "string \<Rightarrow> string \<Rightarrow> BucketAttrs \<Rightarrow> 'w \<Rightarrow> goerr option \<times> 'w"
  gsUpdate :: "string \<Rightarrow> BucketAttrsToUpdate \<Rightarrow> 'w \<Rightarrow> goerr option \<times> 'w"
  gsDelete :: "string \<Rightarrow> 'w \<Rightarrow> goerr option \<times> 'w"
  gsSchedule :: "target list \<Rightarrow> 'w \<Rightarrow> target list \<times> 'w"
  gsDeleteObject :: "string \<Rightarrow> string \<Rightarrow> int \<Rightarrow> 'w \<Rightarrow> goerr option \<times> 'w"
  gsPolicy :: "string \<Rightarrow> 'w \<Rightarrow> (goerr + 'p) \<times> 'w"
  gsSetPolicy :: "string \<Rightarrow> 'p \<Rightarrow> 'w \<Rightarrow> goerr option \<times> 'w"
  gsHasRole :: "'p \<Rightarrow> string \<Rightarrow> string \<Rightarrow> bool"
  gsAdd :: "'p \<Rightarrow> string \<Rightarrow> string \<Rightarrow> 'p"
  gsNow :: "'w \<Rightarrow> time \<times> 'w"

record ServiceAccount =
  acctEmail :: string
  acctDescription :: string

record ServiceAccountKey =
  keyName :: string
  keyValidBeforeTime :: string

record 'w iam_service =
  imGet :: "string \<Rightarrow> 'w \<Rightarrow> (goerr + ServiceAccount) \<times> 'w"
  imCreate :: "string \<Rightarrow> string \<Rightarrow> string \<Rightarrow> string \<Rightarrow> 'w \<Rightarrow> (goerr + ServiceAccount) \<times> 'w"
  imDelete :: "string \<Rightarrow> 'w \<Rightarrow> goerr option \<times> 'w"
  imKeysList :: "string \<Rightarrow> 'w \<Rightarrow> (goerr + ServiceAccountKey list) \<times> 'w"
  imKeysCreate :: "string \<Rightarrow> 'w \<Rightarrow> (goerr + string \<times> string) \<times> 'w"
  imKeysDelete :: "string \<Rightarrow> 'w \<Rightarrow> goerr option \<times> 'w"

text \<open>The driver: \<open>gdIam\<close> is nil when the backend has service accounts disabled.\<close>

record ('w, 'p) gcs_state =
  gdCfg :: gcs_config
  gdClient :: "('w, 'p) gcs_client"
  gdIam :: "'w iam_service option"

datatype 'p gcs_event =
    GotAttrs string "goerr + BucketAttrs"
  | GotNext string bool nat next_result
  | GCreated string string BucketAttrs "goerr option"
  | GUpdated string BucketAttrsToUpdate "goerr option"
  | GDeleted string "goerr option"
  | GObjectDeleted string string int "goerr option"
  | GotPolicy string "goerr + 'p"
  | PolicySet string 'p "goerr option"
  | GotAccount string "goerr + ServiceAccount"
  | AccountCreated string string string string "goerr + ServiceAccount"
  | AccountDeleted string "goerr option"
  | KeysListed string "goerr + ServiceAccountKey list"
  | KeyCreated string "goerr + string \<times> string"
  | KeyDeleted string "goerr option"
  | ClockRead time

type_synonym ('w, 'p, 'a) gprog = "('w, 'p gcs_event, unit, 'a) prog"


section \<open>Inspection\<close>

definition gcs_not_accessible :: "string \<Rightarrow> goerr \<Rightarrow> goerr" where
  "gcs_not_accessible name e =
     Wrapf ''gcs: bucket %q is not accessible with this backend's credentials (name likely taken by another project): %w'' [AStr name] e"

definition gcs_InspectBuckety :: "('w, 'p) gcs_state \<Rightarrow> string \<Rightarrow> ('w, 'p, goerr + Inspection) gprog" where
  "gcs_InspectBuckety D name = do {
     a \<leftarrow> call (gsAttrs (gdClient D) name) (GotAttrs name);
     case a of
       Inl e \<Rightarrow>
         ret (if ErrBucketNotExist e then Inr \<lparr>Exists = False, Empty = False\<rparr>
              else if gcs_isForbidden e then Inl (gcs_not_accessible name e)
              else Inl (Wrapf ''gcs: get bucket %q: %w'' [AStr name] e))
     | Inr _ \<Rightarrow> do {
         n \<leftarrow> call (gsNext (gdClient D) name False 0) (GotNext name False 0);
         ret (case n of
                Done \<Rightarrow> Inr \<lparr>Exists = True, Empty = True\<rparr>
              | Next _ \<Rightarrow> Inr \<lparr>Exists = True, Empty = False\<rparr>
              | NextErr e \<Rightarrow>
                  if gcs_isForbidden e then Inr \<lparr>Exists = True, Empty = False\<rparr>
                  else Inl (Wrapf ''gcs: list bucket %q: %w'' [AStr name] e)) } }"


section \<open>Buckets\<close>

text \<open>The second half of \<open>reconcileExisting\<close>, after the location.\<close>

definition reconcile_attrs :: "('w, 'p) gcs_state \<Rightarrow> BucketAttrs \<Rightarrow> EnsureRequest \<Rightarrow> ('w, 'p, goerr option) gprog" where
  "reconcile_attrs D attrs req =
     (case updateForDrift (erParameters req) attrs of
        Inl e \<Rightarrow> ret (Some (Wrapf ''gcs: bucket %q: %w'' [AStr (erName req)] e))
      | Inr u \<Rightarrow>
     (case u of
        None \<Rightarrow> ret None
      | Some update \<Rightarrow> do {
          x \<leftarrow> call (gsUpdate (gdClient D) (erName req) update) (GUpdated (erName req) update);
          ret (map_option (Wrapf ''gcs: update bucket %q: %w'' [AStr (erName req)]) x) }))"

definition wrong_location :: "smap \<Rightarrow> BucketAttrs \<Rightarrow> string option" where
  "wrong_location params attrs =
     (case map_of params ''location'' of
        Some want \<Rightarrow> if \<not> EqualFold want (baLocation attrs) then Some want else None
      | None \<Rightarrow> None)"

definition reconcileExisting :: "('w, 'p) gcs_state \<Rightarrow> BucketAttrs \<Rightarrow> EnsureRequest \<Rightarrow> ('w, 'p, goerr option) gprog" where
  "reconcileExisting D attrs req =
     (case wrong_location (erParameters req) attrs of
        Some want \<Rightarrow>
          ret (Some (ErrParameterDrift (Sprintf ''bucket %q is in location %q but parameters.location wants %q; GCS buckets cannot move in place''
                [AStr (erName req), AStr (baLocation attrs), AStr want])))
      | None \<Rightarrow> reconcile_attrs D attrs req)"

definition ensureBucket :: "('w, 'p) gcs_state \<Rightarrow> EnsureRequest \<Rightarrow> ('w, 'p, goerr option) gprog" where
  "ensureBucket D req = (
     let name = erName req; project = gcProject (gdCfg D) in do {
     a \<leftarrow> call (gsAttrs (gdClient D) name) (GotAttrs name);
     case a of
       Inr attrs \<Rightarrow> reconcileExisting D attrs req
     | Inl e \<Rightarrow>
         if ErrBucketNotExist e then
           (case attrsForCreate (erParameters req) of
              Inl aerr \<Rightarrow> ret (Some (Wrapf ''gcs: bucket %q: %w'' [AStr name] aerr))
            | Inr createAttrs \<Rightarrow> do {
                c \<leftarrow> call (gsCreate (gdClient D) name project createAttrs) (GCreated name project createAttrs);
                case c of
                  None \<Rightarrow> ret None
                | Some cerr \<Rightarrow>
                    if gcs_isConflict cerr then do {
                      a \<leftarrow> call (gsAttrs (gdClient D) name) (GotAttrs name);
                      case a of
                        Inr attrs \<Rightarrow> reconcileExisting D attrs req
                      | Inl _ \<Rightarrow>
                          ret (Some (Wrapf ''gcs: bucket %q exists but is not accessible with this backend's credentials (name likely taken by another project): %w''
                                [AStr name] cerr)) }
                    else ret (Some (Wrapf ''gcs: create bucket %q: %w'' [AStr name] cerr)) })
         else if gcs_isForbidden e then ret (Some (gcs_not_accessible name e))
         else ret (Some (Wrapf ''gcs: get bucket %q: %w'' [AStr name] e)) })"


section \<open>Service accounts\<close>

definition saBucketRole :: string where
  "saBucketRole = ''roles/storage.objectAdmin''"

record saMarker =
  smManagedBy :: string
  smBucket :: string

text \<open>
  \<open>d.cfg.ServiceAccounts.Project\<close>: every caller has checked that the IAM service exists, which
  \<open>factory\<close> creates only with this part of the configuration (\<open>gcs_factory_built\<close>).
\<close>

definition sa_project :: "('w, 'p) gcs_state \<Rightarrow> string" where
  "sa_project D = (case gcServiceAccounts (gdCfg D) of Some c \<Rightarrow> sacProject c | None \<Rightarrow> [])"

definition saEmail :: "('w, 'p) gcs_state \<Rightarrow> string \<Rightarrow> string" where
  "saEmail D shortName = shortName @ ''@'' @ sa_project D @ ''.iam.gserviceaccount.com''"

definition saResource :: "('w, 'p) gcs_state \<Rightarrow> string \<Rightarrow> string" where
  "saResource D email = ''projects/'' @ sa_project D @ ''/serviceAccounts/'' @ email"

text \<open>\<open>json.Marshal\<close> and \<open>json.Unmarshal\<close> of \<open>saMarker\<close>.\<close>

definition marshal_marker :: "saMarker \<Rightarrow> string" where
  "marshal_marker m = ''{'' @ json_string ''managedBy'' @ '':'' @ json_string (smManagedBy m) @ '','' @
     json_string ''bucket'' @ '':'' @ json_string (smBucket m) @ ''}''"

definition unmarshal_marker :: "string \<Rightarrow> saMarker option" where
  "unmarshal_marker s = Option.bind (json_Unmarshal s) (\<lambda>v. decode_struct [''managedBy'', ''bucket''] False
     (\<lambda>f. if f = ''managedBy'' then store decode_string smManagedBy smManagedBy_update else store decode_string smBucket smBucket_update)
     v \<lparr>smManagedBy = [], smBucket = []\<rparr>)"

definition verifySAMarker :: "ServiceAccount \<Rightarrow> string \<Rightarrow> goerr option" where
  "verifySAMarker sa bucket =
     (if unmarshal_marker (acctDescription sa) = Some \<lparr>smManagedBy = ''buckety'', smBucket = bucket\<rparr> then None
      else Some (Errorf (Sprintf ''gcs: service account %q exists but was not created by buckety for bucket %q; refusing to touch it - choose another parameters.serviceAccount''
             [AStr (acctEmail sa), AStr bucket])))"

definition error_message :: "goerr \<Rightarrow> string" where
  "error_message e = (case root_cause e of BackendError _ _ m \<Rightarrow> m | _ \<Rightarrow> [])"

definition isMemberNotPropagated :: "goerr \<Rightarrow> bool" where
  "isMemberNotPropagated e \<longleftrightarrow> gapiCode e 400 \<and> Contains (error_message e) ''does not exist''"

definition ensureBucketBinding :: "('w, 'p) gcs_state \<Rightarrow> string \<Rightarrow> string \<Rightarrow> ('w, 'p, goerr option) gprog" where
  "ensureBucketBinding D bucket email = (
     let member = ''serviceAccount:'' @ email in do {
     p \<leftarrow> call (gsPolicy (gdClient D) bucket) (GotPolicy bucket);
     case p of
       Inl e \<Rightarrow> ret (Some (Wrapf ''gcs: read IAM policy of bucket %q (needs storage.buckets.getIamPolicy): %w'' [AStr bucket] e))
     | Inr policy \<Rightarrow>
         if gsHasRole (gdClient D) policy member saBucketRole then ret None
         else (
           let policy' = gsAdd (gdClient D) policy member saBucketRole in do {
           x \<leftarrow> call (gsSetPolicy (gdClient D) bucket policy') (PolicySet bucket policy');
           ret (case x of
                  None \<Rightarrow> None
                | Some e \<Rightarrow>
                    Some (if gcs_isForbidden e then
                            Wrapf ''gcs: grant %s to %s on bucket %q (needs storage.buckets.setIamPolicy): %w'' [AStr saBucketRole, AStr member, AStr bucket] e
                          else if isMemberNotPropagated e then
                            ErrProvisioningInProgress (Sprintf ''service account %s was just created and is not yet bindable on bucket %q; IAM propagation takes a few seconds''
                              [AStr email, AStr bucket])
                          else Wrapf ''gcs: grant %s to %s on bucket %q: %w'' [AStr saBucketRole, AStr member, AStr bucket] e)) }) })"

definition sa_disabled :: "string \<Rightarrow> goerr" where
  "sa_disabled bucket = Errorf (Sprintf ''gcs: bucket %q declares parameters.serviceAccount but this backend has serviceAccounts disabled'' [AStr bucket])"

text \<open>The account found, or created with the marker; after a conflict, the one found then.\<close>

definition find_or_create :: "('w, 'p) gcs_state \<Rightarrow> 'w iam_service \<Rightarrow> string \<Rightarrow> string \<Rightarrow> ('w, 'p, goerr + ServiceAccount) gprog" where
  "find_or_create D iam shortName bucket = (
     let email = saEmail D shortName; resource = saResource D email; parent = ''projects/'' @ sa_project D;
         create_failed = Wrapf ''gcs: create service account %q (needs roles/iam.serviceAccountAdmin on project %q): %w'' [AStr email, AStr (sa_project D)]
     in do {
     g \<leftarrow> call (imGet iam resource) (GotAccount resource);
     case g of
       Inr sa \<Rightarrow> ret (Inr sa)
     | Inl e \<Rightarrow>
         if \<not> gcs_isNotFound e then ret (Inl (Wrapf ''gcs: get service account %q: %w'' [AStr email] e))
         else (
           let display = ''buckety bucket '' @ bucket; marker = marshal_marker \<lparr>smManagedBy = ''buckety'', smBucket = bucket\<rparr> in do {
           c \<leftarrow> call (imCreate iam parent shortName display marker) (AccountCreated parent shortName display marker);
           case c of
             Inr sa \<Rightarrow> ret (Inr sa)
           | Inl cerr \<Rightarrow>
               if \<not> gcs_isConflict cerr then ret (Inl (create_failed cerr))
               else do {
                 g \<leftarrow> call (imGet iam resource) (GotAccount resource);
                 ret (case g of
                        Inr sa \<Rightarrow> Inr sa
                      | Inl e \<Rightarrow>
                          Inl (if gcs_isNotFound e then
                                 Errorf (Sprintf ''gcs: service account ID %q is reserved by a recently deleted account; GCP holds deleted SA names for ~30 days. Wait out the window, undelete it if its numeric unique ID is known (gcloud iam service-accounts undelete), or use a different parameters.serviceAccount''
                                   [AStr email])
                               else create_failed e)) } }) })"

definition ensureServiceAccount :: "('w, 'p) gcs_state \<Rightarrow> string \<Rightarrow> string \<Rightarrow> ('w, 'p, goerr option) gprog" where
  "ensureServiceAccount D shortName bucket =
     (case gdIam D of
        None \<Rightarrow> ret (Some (sa_disabled bucket))
      | Some iam \<Rightarrow> do {
          r \<leftarrow> find_or_create D iam shortName bucket;
          case r of
            Inl e \<Rightarrow> ret (Some e)
          | Inr sa \<Rightarrow>
              (case verifySAMarker sa bucket of
                 Some e \<Rightarrow> ret (Some e)
               | None \<Rightarrow> ensureBucketBinding D bucket (saEmail D shortName)) })"

definition gcs_EnsureBuckety :: "('w, 'p) gcs_state \<Rightarrow> EnsureRequest \<Rightarrow> ('w, 'p, goerr option) gprog" where
  "gcs_EnsureBuckety D req = do {
     x \<leftarrow> ensureBucket D req;
     case x of
       Some e \<Rightarrow> ret (Some e)
     | None \<Rightarrow> (
         let sa = get0 (erParameters req) ''serviceAccount'' in
         if sa \<noteq> [] then ensureServiceAccount D sa (erName req) else ret None) }"

definition deleteServiceAccount :: "('w, 'p) gcs_state \<Rightarrow> 'w iam_service \<Rightarrow> string \<Rightarrow> string \<Rightarrow> ('w, 'p, goerr option) gprog" where
  "deleteServiceAccount D iam shortName bucket = (
     let resource = saResource D (saEmail D shortName) in do {
     g \<leftarrow> call (imGet iam resource) (GotAccount resource);
     case g of
       Inl e \<Rightarrow> ret (if gcs_isNotFound e then None else Some (Wrapf ''gcs: get service account for deletion: %w'' [] e))
     | Inr sa \<Rightarrow>
         if verifySAMarker sa bucket \<noteq> None then ret None
         else do {
           x \<leftarrow> call (imDelete iam resource) (AccountDeleted resource);
           ret (case x of
                  None \<Rightarrow> None
                | Some e \<Rightarrow> if gcs_isNotFound e then None else Some (Wrapf ''gcs: delete service account %q: %w'' [AStr (acctEmail sa)] e)) } })"


section \<open>Deletion\<close>

definition emptyDeleteSliceSize :: nat where
  "emptyDeleteSliceSize = 256"

text \<open>The two ways \<open>emptyBucketSlice\<close> fails: \<open>errNoListPermission\<close> and every other error.\<close>

datatype slice_error = NoListPermission goerr | SliceFailed goerr

text \<open>The listing loop: at most \<open>k\<close> more calls of \<open>Next\<close>, the targets so far in \<open>acc\<close>.\<close>

fun list_targets :: "('w, 'p) gcs_state \<Rightarrow> string \<Rightarrow> nat \<Rightarrow> target list \<Rightarrow> ('w, 'p, slice_error + target list) gprog" where
  "list_targets D name 0 acc = ret (Inr acc)"
| "list_targets D name (Suc k) acc = do {
     n \<leftarrow> call (gsNext (gdClient D) name True (length acc)) (GotNext name True (length acc));
     case n of
       Done \<Rightarrow> ret (Inr acc)
     | NextErr e \<Rightarrow> ret (Inl (if gcs_isForbidden e then NoListPermission e else SliceFailed e))
     | Next a \<Rightarrow> list_targets D name k (acc @ [\<lparr>tgKey = oaName a, tgGen = oaGeneration a, tgLive = (oaDeleted a = None)\<rparr>]) }"

definition delete_target :: "('w, 'p) gcs_state \<Rightarrow> string \<Rightarrow> target \<Rightarrow> ('w, 'p, goerr option) gprog" where
  "delete_target D name t = do {
     x \<leftarrow> call (gsDeleteObject (gdClient D) name (tgKey t) (tgGen t)) (GObjectDeleted name (tgKey t) (tgGen t));
     ret (case x of
            None \<Rightarrow> None
          | Some e \<Rightarrow>
              if ErrObjectNotExist e then None
              else if gcs_isForbidden e then
                Some (Wrapf ''object %q (generation %d) refuses deletion - likely under a hold or retention placed by the data plane; release it to let the Buckety go: %w''
                       [AStr (tgKey t), AInt (tgGen t)] e)
              else Some (Wrapf ''delete object %q: %w'' [AStr (tgKey t)] e)) }"

text \<open>The worker group: every target's call, in the order they finish; \<open>Wait\<close> returns the first error.\<close>

fun run_workers :: "('w, 'p) gcs_state \<Rightarrow> string \<Rightarrow> target list \<Rightarrow> ('w, 'p, goerr option) gprog" where
  "run_workers D name [] = ret None"
| "run_workers D name (t # ts) = do {
     x \<leftarrow> delete_target D name t;
     y \<leftarrow> run_workers D name ts;
     ret (case x of Some e \<Rightarrow> Some e | None \<Rightarrow> y) }"

definition gcs_emptyBucketSlice :: "('w, 'p) gcs_state \<Rightarrow> string \<Rightarrow> ('w, 'p, slice_error + nat \<times> nat) gprog" where
  "gcs_emptyBucketSlice D name = do {
     l \<leftarrow> list_targets D name emptyDeleteSliceSize [];
     case l of
       Inl e \<Rightarrow> ret (Inl e)
     | Inr targets \<Rightarrow>
         if targets = [] then ret (Inr (0, 0))
         else do {
           order \<leftarrow> ext (gsSchedule (gdClient D) targets);
           x \<leftarrow> run_workers D name order;
           ret (case x of
                  Some e \<Rightarrow> Inl (SliceFailed e)
                | None \<Rightarrow> Inr (length (filter tgLive targets), length targets)) } }"

text \<open>The bucket's own deletion, after an emptying pass that listed \<open>listed\<close> generations.\<close>

definition delete_empty :: "('w, 'p) gcs_state \<Rightarrow> string \<Rightarrow> bool \<Rightarrow> nat \<Rightarrow> ('w, 'p, goerr option) gprog" where
  "delete_empty D name noList listed = do {
     x \<leftarrow> call (gsDelete (gdClient D) name) (GDeleted name);
     ret (case x of
            None \<Rightarrow> None
          | Some e \<Rightarrow>
              if ErrBucketNotExist e \<or> gcs_isNotFound e then None
              else if gcs_isConflict e then
                if noList then
                  Some (Errorf (Sprintf ''gcs: bucket %q is not empty and the controller's credentials lack storage.objects.list, so it cannot be emptied; grant storage.objects.list + storage.objects.delete (retentionPolicy=Delete is recursive) or drain the bucket out of band''
                         [AStr name]))
                else Some (ErrDeletionInProgress (Sprintf ''bucket %q: still not empty after emptying pass'' [AStr name]) (listed = 0))
              else Some (Wrapf ''gcs: delete bucket %q: %w'' [AStr name] e)) }"

definition deleteBucket :: "('w, 'p) gcs_state \<Rightarrow> string \<Rightarrow> ('w, 'p, goerr option) gprog" where
  "deleteBucket D name = do {
     d \<leftarrow> gcs_emptyBucketSlice D name;
     case d of
       Inl se \<Rightarrow>
         (case se of
            NoListPermission _ \<Rightarrow> delete_empty D name True 0
          | SliceFailed e \<Rightarrow>
              ret (if ErrBucketNotExist e \<or> gcs_isNotFound e then None
                   else Some (Wrapf ''gcs: empty bucket %q for deletion: %w'' [AStr name] e)))
     | Inr (live, listed) \<Rightarrow>
         if live > 0 then
           ret (Some (ErrDeletionInProgress (Sprintf ''bucket %q: deleted %d objects, checking for more'' [AStr name, AInt (int live)]) False))
         else delete_empty D name False listed }"

definition gcs_DeleteBuckety :: "('w, 'p) gcs_state \<Rightarrow> DeleteRequest \<Rightarrow> ('w, 'p, goerr option) gprog" where
  "gcs_DeleteBuckety D req = do {
     x \<leftarrow> deleteBucket D (drName req);
     case x of
       Some e \<Rightarrow> ret (Some e)
     | None \<Rightarrow> (
         let sa = get0 (drParameters req) ''serviceAccount'' in
         case gdIam D of
           None \<Rightarrow> ret None
         | Some iam \<Rightarrow> if sa \<noteq> [] then deleteServiceAccount D iam sa (drName req) else ret None) }"


section \<open>Access\<close>

text \<open>The two fields read of a key document.\<close>

record key_json =
  kjClientEmail :: string
  kjPrivateKeyID :: string

definition unmarshal_key :: "string \<Rightarrow> key_json option" where
  "unmarshal_key s = Option.bind (json_Unmarshal s) (\<lambda>v. decode_struct [''client_email'', ''private_key_id''] False
     (\<lambda>f. if f = ''client_email'' then store decode_string kjClientEmail kjClientEmail_update
          else store decode_string kjPrivateKeyID kjPrivateKeyID_update)
     v \<lparr>kjClientEmail = [], kjPrivateKeyID = []\<rparr>)"

definition keyExpired :: "time \<Rightarrow> ServiceAccountKey \<Rightarrow> bool" where
  "keyExpired now key =
     (if keyValidBeforeTime key = [] then False
      else case parse_RFC3339 (keyValidBeforeTime key) of None \<Rightarrow> False | Some t \<Rightarrow> now > t)"

definition HasSuffix :: "string \<Rightarrow> string \<Rightarrow> bool" where
  "HasSuffix s p \<longleftrightarrow> length p \<le> length s \<and> drop (length s - length p) s = p"

text \<open>\<open>s[strings.LastIndex(s, "/")+1:]\<close>\<close>

definition after_slash :: "string \<Rightarrow> string" where
  "after_slash s = rev (takeWhile (\<lambda>c. c \<noteq> CHR ''/'') (rev s))"

text \<open>The key of the existing Secret that names this account, if it parses.\<close>

definition carried_key :: "smap option \<Rightarrow> string \<Rightarrow> (string \<times> string) option" where
  "carried_key existing email =
     (case map_of (items existing) ''serviceAccountKey'' of
        None \<Rightarrow> None
      | Some raw \<Rightarrow>
          (case unmarshal_key raw of
             None \<Rightarrow> None
           | Some k \<Rightarrow> if kjClientEmail k = email \<and> kjPrivateKeyID k \<noteq> [] then Some (raw, kjPrivateKeyID k) else None))"

text \<open>Minting, once no usable key was found: the ownership marker first.\<close>

definition mint_key :: "('w, 'p) gcs_state \<Rightarrow> 'w iam_service \<Rightarrow> string \<Rightarrow> string \<Rightarrow> ('w, 'p, goerr + string \<times> string \<times> bool) gprog" where
  "mint_key D iam email bucket = (
     let resource = saResource D email in do {
     g \<leftarrow> call (imGet iam resource) (GotAccount resource);
     case g of
       Inl e \<Rightarrow> ret (Inl (Wrapf ''gcs: get service account %q before minting a key: %w'' [AStr email] e))
     | Inr sa \<Rightarrow>
    (case verifySAMarker sa bucket of
       Some e \<Rightarrow> ret (Inl e)
     | None \<Rightarrow> do {
         k \<leftarrow> call (imKeysCreate iam resource) (KeyCreated resource);
         ret (case k of
                Inl e \<Rightarrow> Inl (Wrapf ''gcs: create key for %q (needs roles/iam.serviceAccountKeyAdmin; the org policy constraints/iam.disableServiceAccountKeyCreation blocks user-managed keys entirely): %w'' [AStr email] e)
              | Inr (name, privateKeyData) \<Rightarrow>
                  (case base64_DecodeString privateKeyData of
                     None \<Rightarrow> Inl (Wrapf ''gcs: decode created key for %q: %w'' [AStr email] (Errorf (Lit ''illegal base64 data'')))
                   | Some keyJSON \<Rightarrow> Inr (keyJSON, after_slash name, True))) }) })"

definition ensureAccessKey ::
  "('w, 'p) gcs_state \<Rightarrow> 'w iam_service \<Rightarrow> string \<Rightarrow> string \<Rightarrow> smap option \<Rightarrow> ('w, 'p, goerr + string \<times> string \<times> bool) gprog" where
  "ensureAccessKey D iam email bucket existing = (
     let resource = saResource D email in
     case carried_key existing email of
       None \<Rightarrow> mint_key D iam email bucket
     | Some (raw, keyID) \<Rightarrow> do {
         l \<leftarrow> call (imKeysList iam resource) (KeysListed resource);
         case l of
           Inl e \<Rightarrow> ret (Inl (Wrapf ''gcs: list keys of %q: %w'' [AStr email] e))
         | Inr keys \<Rightarrow>
             (case find (\<lambda>key. HasSuffix (keyName key) (''/keys/'' @ keyID)) keys of
                None \<Rightarrow> ret (Inr (raw, keyID, False))
              | Some key \<Rightarrow> do {
                  now \<leftarrow> call (gsNow (gdClient D)) ClockRead;
                  if keyExpired now key then mint_key D iam email bucket else ret (Inr (raw, keyID, False)) }) })"

text \<open>\<open>hmac\<close> is on unless the parameter parses as false.\<close>

definition include_hmac :: "smap \<Rightarrow> bool" where
  "include_hmac params =
     (case map_of params ''hmac'' of None \<Rightarrow> True | Some v \<Rightarrow> (case ParseBool v of Some b \<Rightarrow> b | None \<Rightarrow> True))"

definition grant_data :: "gcs_config \<Rightarrow> GrantRequest \<Rightarrow> string \<Rightarrow> string \<Rightarrow> smap" where
  "grant_data cfg req endpoint region =
     [(''endpoint'', endpoint), (''bucket'', grBucketyName req), (''project'', gcProject cfg)] @
     (if include_hmac (grBucketyParameters req)
      then [(''accessKeyID'', gcAccessKeyID cfg), (''secretAccessKey'', gcSecretAccessKey cfg)] else []) @
     (if region \<noteq> [] then [(''region'', region)] else [])"

text \<open>The rest of \<open>GrantAccess\<close>, once endpoint and region are known.\<close>

definition grant_keys :: "('w, 'p) gcs_state \<Rightarrow> GrantRequest \<Rightarrow> string \<Rightarrow> string \<Rightarrow> ('w, 'p, goerr + GrantResult) gprog" where
  "grant_keys D req endpoint region = (
     let data = grant_data (gdCfg D) req endpoint region; sa = get0 (grBucketyParameters req) ''serviceAccount'' in
     if sa = [] then
       ret (Inr \<lparr>gtSecretData = data, gtPrincipal = ''gcs-static'', gtScoped = False, gtRevocable = False, gtMinted = False\<rparr>)
     else case gdIam D of
         None \<Rightarrow> ret (Inl (sa_disabled (grBucketyName req)))
       | Some iam \<Rightarrow> (
           let email = saEmail D sa in do {
           k \<leftarrow> ensureAccessKey D iam email (grBucketyName req) (grExistingSecretData req);
           ret (case k of
                  Inl e \<Rightarrow> Inl e
                | Inr (keyJSON, keyID, fresh) \<Rightarrow>
                    Inr \<lparr>gtSecretData = data @ [(''serviceAccountKey'', keyJSON), (''serviceAccountEmail'', email), (''serviceAccountKeyId'', keyID)],
                         gtPrincipal = saResource D email @ ''/keys/'' @ keyID, gtScoped = False, gtRevocable = True, gtMinted = fresh\<rparr>) }))"

definition gcs_GrantAccess :: "('w, 'p) gcs_state \<Rightarrow> GrantRequest \<Rightarrow> ('w, 'p, goerr + GrantResult) gprog" where
  "gcs_GrantAccess D req =
     (if gcEndpoint (gdCfg D) \<noteq> [] then grant_keys D req (gcEndpoint (gdCfg D)) (gcRegion (gdCfg D))
      else do {
        a \<leftarrow> call (gsAttrs (gdClient D) (grBucketyName req)) (GotAttrs (grBucketyName req));
        case a of
          Inl e \<Rightarrow> ret (Inl (Wrapf ''gcs: resolve endpoint for bucket %q: %w'' [AStr (grBucketyName req)] e))
        | Inr attrs \<Rightarrow>
            (case locationEndpoint (baLocation attrs) of
               (endpoint, region) \<Rightarrow>
                 grant_keys D req endpoint (if gcRegion (gdCfg D) \<noteq> [] then gcRegion (gdCfg D) else region)) })"

definition gcs_RevokeAccess :: "('w, 'p) gcs_state \<Rightarrow> string \<Rightarrow> ('w, 'p, goerr option) gprog" where
  "gcs_RevokeAccess D pr =
     (if \<not> Contains pr ''/keys/'' then ret None
      else case gdIam D of
          None \<Rightarrow> ret (Some (Errorf (Sprintf ''gcs: principal %q is a service account key but this backend has serviceAccounts disabled; re-enable it in the backend config so the key can be revoked'' [AStr pr])))
        | Some iam \<Rightarrow> do {
            x \<leftarrow> call (imKeysDelete iam pr) (KeyDeleted pr);
            ret (case x of
                   None \<Rightarrow> None
                 | Some e \<Rightarrow> if gcs_isNotFound e then None else Some (Wrapf ''gcs: delete service account key %q: %w'' [AStr pr] e)) })"


section \<open>The driver\<close>

type_synonym ('w, 'p) gcsworld = "('w, 'p gcs_event, unit) sys"

definition gcs_driver :: "('w, 'p) gcs_state \<Rightarrow> ('w, 'p) gcsworld Driver" where
  "gcs_driver D =
     \<lparr>dName = gcs_DriverName, dVersion = gcs_version,
      dInspectBuckety = (\<lambda>name. run_state (gcs_InspectBuckety D name)),
      dEnsureBuckety = (\<lambda>req w. case run_state (gcs_EnsureBuckety D req) w of (err, w') \<Rightarrow> (([], err), w')),
      dDeleteBuckety = (\<lambda>req. run_state (gcs_DeleteBuckety D req)),
      dGrantAccess = (\<lambda>req. run_state (gcs_GrantAccess D req)),
      dRevokeAccess = (\<lambda>p. run_state (gcs_RevokeAccess D p)),
      dValidateParameters = gcs_ValidateParameters (gdCfg D),
      dValidateUpdateParameters = gcs_ValidateUpdateParameters (gdCfg D),
      dValidateAccessParameters = gcs_ValidateAccessParameters,
      dValidateResourceName = gcs_ValidateResourceName,
      dTemplatedParameters = Some (gcs_TemplatedParameters (gdCfg D)), dForgetBuckety = None\<rparr>"

text \<open>\<open>newClient\<close> is \<open>storage.NewClient\<close>; \<open>newIam\<close> is \<open>iam.NewService\<close> with the endpoint option, if any, and without authentication if asked.\<close>

definition new_state ::
  "(string \<Rightarrow> goerr + gcs_config) \<Rightarrow> (gcs_config \<Rightarrow> goerr + gcs_config) \<Rightarrow> (goerr + ('w, 'p) gcs_client) \<Rightarrow>
   (string option \<Rightarrow> bool \<Rightarrow> goerr + 'w iam_service) \<Rightarrow> string \<Rightarrow> goerr + ('w, 'p) gcs_state" where
  "new_state unmarshal envsubst newClient newIam raw = (
     let missing = (\<lambda>f. Inl (Errorf (Sprintf ''gcs config: missing required field %q'' [AStr f]))) in
     case unmarshal raw of
       Inl e \<Rightarrow> Inl (Wrapf ''gcs config: %w'' [] e)
     | Inr c0 \<Rightarrow>
    (case envsubst c0 of
       Inl e \<Rightarrow> Inl (Wrapf ''gcs config: %w'' [] e)
     | Inr c \<Rightarrow>
         if gcProject c = [] then missing ''project''
         else if gcAccessKeyID c = [] then missing ''accessKeyID''
         else if gcSecretAccessKey c = [] then missing ''secretAccessKey''
         else if Contains (gcEndpoint c) ''://'' then
           Inl (Errorf (Sprintf ''gcs config: endpoint %q must be a bare host without scheme; consumers choose the scheme'' [AStr (gcEndpoint c)]))
         else
    (case newClient of
       Inl e \<Rightarrow> Inl (Wrapf ''gcs config: client init (is GOOGLE_APPLICATION_CREDENTIALS set?): %w'' [] e)
     | Inr cl \<Rightarrow>
    (case gcServiceAccounts c of
       None \<Rightarrow> Inr \<lparr>gdCfg = c, gdClient = cl, gdIam = None\<rparr>
     | Some sa \<Rightarrow>
         if sacProject sa = [] then
           Inl (Errorf (Sprintf ''gcs config: serviceAccounts: missing required field %q (a dedicated identity project, separate from the bucket project, is strongly recommended)'' [AStr ''project'']))
         else if sacInsecure sa \<and> sacEndpoint sa = [] then
           Inl (Errorf (Lit ''gcs config: serviceAccounts.insecure requires serviceAccounts.endpoint (it disables authentication towards that endpoint; emulators and tests only)''))
         else
    (case newIam (if sacEndpoint sa \<noteq> [] then Some (sacEndpoint sa) else None) (sacInsecure sa) of
       Inl e \<Rightarrow> Inl (Wrapf ''gcs config: IAM client init for serviceAccounts: %w'' [] e)
     | Inr svc \<Rightarrow> Inr \<lparr>gdCfg = c, gdClient = cl, gdIam = Some svc\<rparr>)))))"

definition gcs_factory ::
  "(string \<Rightarrow> goerr + gcs_config) \<Rightarrow> (gcs_config \<Rightarrow> goerr + gcs_config) \<Rightarrow> (goerr + ('w, 'p) gcs_client) \<Rightarrow>
   (string option \<Rightarrow> bool \<Rightarrow> goerr + 'w iam_service) \<Rightarrow> ('w, 'p) gcsworld Factory" where
  "gcs_factory unmarshal envsubst newClient newIam raw = map_sum id gcs_driver (new_state unmarshal envsubst newClient newIam raw)"

definition gcs_init :: "('w, 'p) gcsworld Factory \<Rightarrow> ('w, 'p) gcsworld registry \<Rightarrow> goerr + ('w, 'p) gcsworld registry" where
  "gcs_init factory reg = Register gcs_DriverName gcs_version factory reg"

lemma gcs_driver_ok: "driver_ok (gcs_driver D)"
  using gcs.driver_validation_axioms by (simp add: gcs_driver_def)

lemma gcs_factory_ok: "gcs_factory unmarshal envsubst newClient newIam raw = Inr d \<Longrightarrow> driver_ok d"
  using gcs_driver_ok by (cases "new_state unmarshal envsubst newClient newIam raw") (auto simp: gcs_factory_def)

text \<open>The IAM service exists exactly when the configuration locates service accounts.\<close>

lemma gcs_factory_built:
  "new_state unmarshal envsubst newClient newIam raw = Inr D \<Longrightarrow>
   (gdIam D = None \<longleftrightarrow> gcServiceAccounts (gdCfg D) = None) \<and> (gdIam D \<noteq> None \<longrightarrow> sa_project D \<noteq> []) \<and> gcProject (gdCfg D) \<noteq> []"
  by (auto simp: new_state_def sa_project_def Let_def split: sum.splits if_splits option.splits)

end
