(* ===== verification/Json_Documents.thy ===== *)
theory Json_Documents
  imports Go_Json "HOL-Library.List_Lexorder" "HOL-Library.Char_ord"
begin

text \<open>
  \<open>encoding/json\<close> on values of type \<open>interface{}\<close>: decoding into one (a later key of an object wins,
  a number becomes a \<open>float64\<close>), and \<open>Marshal\<close> and \<open>MarshalIndent\<close> of one. A Go map is an association
  list in the order of its keys, so that equal maps are equal values; \<open>Marshal\<close> prints them in
  this order. A \<open>float64\<close> is the text it prints as; \<open>ff\<close>, a parameter, maps the text of a number to the
  text the nearest \<open>float64\<close> prints as, or to none when it is out of range. The round trips:
  a document that is printed, on one line or indented, and read again is the same document.
\<close>

section \<open>Maps\<close>

type_synonym doc = "(string \<times> json) list"

fun map_set :: "string \<Rightarrow> json \<Rightarrow> doc \<Rightarrow> doc" where
  "map_set k v [] = [(k, v)]"
| "map_set k v ((k', v') # m) =
     (if k = k' then (k, v) # m else if k < k' then (k, v) # (k', v') # m else (k', v') # map_set k v m)"

definition map_delete :: "string \<Rightarrow> doc \<Rightarrow> doc" where
  "map_delete k m = filter (\<lambda>p. fst p \<noteq> k) m"

text \<open>A map literal; its entries in the order of the text.\<close>

definition go_map :: "doc \<Rightarrow> doc" where
  "go_map kvs = fold (\<lambda>(k, v). map_set k v) kvs []"

definition in_order :: "doc \<Rightarrow> bool" where
  "in_order m = sorted_wrt (<) (map fst m)"

lemma map_of_map_set: "map_of (map_set k v m) = (map_of m)(k \<mapsto> v)"
  by (induction k v m rule: map_set.induct) (auto simp: fun_eq_iff)

lemma set_map_set: "set (map_set k v m) \<subseteq> insert (k, v) (set m)"
  by (induction k v m rule: map_set.induct) auto

lemma keys_map_set: "fst ` set (map_set k v m) = insert k (fst ` set m)"
  by (induction k v m rule: map_set.induct) auto

lemma in_order_map_set: "in_order m \<Longrightarrow> in_order (map_set k v m)"
proof (induction k v m rule: map_set.induct)
  case (2 k v k' v' m)
  then have "\<forall>x \<in> fst ` set m. k' < x" "in_order m" by (auto simp: in_order_def)
  with 2 show ?case
    using keys_map_set [of k v m] by (auto simp: in_order_def intro: less_trans)
qed (simp add: in_order_def)

lemma map_set_last: "\<forall>x \<in> fst ` set m. x < k \<Longrightarrow> map_set k v m = m @ [(k, v)]"
  by (induction k v m rule: map_set.induct) (auto dest: less_asym)

lemma in_order_delete: "in_order m \<Longrightarrow> in_order (map_delete k m)"
  unfolding in_order_def map_delete_def by (induction m) auto

lemma in_order_Nil [simp]: "in_order []"
  by (simp add: in_order_def)

lemma go_map_induct: "\<lbrakk>P []; \<And>k v m. \<lbrakk>(k, v) \<in> set kvs; P m\<rbrakk> \<Longrightarrow> P (map_set k v m)\<rbrakk> \<Longrightarrow> P (go_map kvs)"
  unfolding go_map_def by (rule fold_invariant [where Q = "\<lambda>x. x \<in> set kvs"]) auto


section \<open>Decoding\<close>

fun interface_of :: "(string \<Rightarrow> string option) \<Rightarrow> json \<Rightarrow> json option"
  and elems_of :: "(string \<Rightarrow> string option) \<Rightarrow> json list \<Rightarrow> json list option"
  and members_of :: "(string \<Rightarrow> string option) \<Rightarrow> doc \<Rightarrow> doc \<Rightarrow> doc option" where
  "interface_of ff JNull = Some JNull"
| "interface_of ff (JBool b) = Some (JBool b)"
| "interface_of ff (JNum s) = map_option JNum (ff s)"
| "interface_of ff (JStr s) = Some (JStr s)"
| "interface_of ff (JArr es) = map_option JArr (elems_of ff es)"
| "interface_of ff (JObj ms) = map_option JObj (members_of ff ms [])"
| "elems_of ff [] = Some []"
| "elems_of ff (e # es) = (case interface_of ff e of None \<Rightarrow> None | Some x \<Rightarrow> map_option (Cons x) (elems_of ff es))"
| "members_of ff [] m = Some m"
| "members_of ff ((k, v) # ms) m = (case interface_of ff v of None \<Rightarrow> None | Some x \<Rightarrow> members_of ff ms (map_set k x m))"

text \<open>\<open>Unmarshal\<close> into a variable of type \<open>map[string]interface{}\<close>; \<open>JNull\<close> is the nil map.\<close>

definition decode_doc :: "(string \<Rightarrow> string option) \<Rightarrow> json \<Rightarrow> json option" where
  "decode_doc ff v = (case v of JObj _ \<Rightarrow> interface_of ff v | JNull \<Rightarrow> Some JNull | _ \<Rightarrow> None)"

text \<open>The values decoding gives: maps in order, numbers as they print.\<close>

fun go_value :: "(string \<Rightarrow> string option) \<Rightarrow> json \<Rightarrow> bool" where
  "go_value ff (JNum s) \<longleftrightarrow> ff s = Some s"
| "go_value ff (JArr es) \<longleftrightarrow> list_all (go_value ff) es"
| "go_value ff (JObj ms) \<longleftrightarrow> in_order ms \<and> list_all (\<lambda>p. go_value ff (snd p)) ms"
| "go_value ff _ \<longleftrightarrow> True"

text \<open>Printing a \<open>float64\<close> and reading it again gives the same \<open>float64\<close>.\<close>

definition float_text :: "(string \<Rightarrow> string option) \<Rightarrow> bool" where
  "float_text ff \<longleftrightarrow> (\<forall>s t. ff s = Some t \<longrightarrow> ff t = Some t)"

lemma go_value_map_set: "\<lbrakk>go_value ff (JObj m); go_value ff v\<rbrakk> \<Longrightarrow> go_value ff (JObj (map_set k v m))"
  using set_map_set [of k v m] by (auto simp: in_order_map_set list_all_iff)

lemma interface_of_go_value:
  "\<lbrakk>interface_of ff v = Some x; float_text ff\<rbrakk> \<Longrightarrow> go_value ff x"
  "\<lbrakk>elems_of ff es = Some xs; float_text ff\<rbrakk> \<Longrightarrow> list_all (go_value ff) xs"
  "\<lbrakk>members_of ff ms m = Some m'; go_value ff (JObj m); float_text ff\<rbrakk> \<Longrightarrow> go_value ff (JObj m')"
proof (induction ff v and ff es and ff ms m arbitrary: x and xs and m' rule: interface_of_elems_of_members_of.induct)
  case (3 ff s)
  then show ?case by (auto simp: float_text_def)
qed (auto split: option.splits simp del: go_value.simps(3) intro: go_value_map_set simp: go_value.simps(3) [of _ "[]"])

lemma members_of_id:
  assumes "\<And>p. p \<in> set ms \<Longrightarrow> interface_of ff (snd p) = Some (snd p)" and "in_order (m @ ms)"
  shows "members_of ff ms m = Some (m @ ms)"
  using assms
proof (induction ms arbitrary: m)
  case (Cons p ms)
  obtain k v where p: "p = (k, v)" by force
  have "map_set k v m = m @ [(k, v)]"
    using Cons.prems(2) by (intro map_set_last) (auto simp: in_order_def p sorted_wrt_append)
  with Cons.IH [of "m @ [(k, v)]"] Cons.prems(1) [of "(k, v)"] Cons.prems show ?case by (simp add: p)
qed simp

lemma interface_of_id: "go_value ff v \<Longrightarrow> interface_of ff v = Some v"
proof (induction v)
  case (JArr es)
  then have "\<forall>e \<in> set es. interface_of ff e = Some e" by (auto simp: list_all_iff)
  then have "elems_of ff es = Some es" by (induction es) auto
  then show ?case by simp
next
  case (JObj ms)
  then have "interface_of ff (snd p) = Some (snd p)" if "p \<in> set ms" for p
    using that by (cases p) (fastforce simp: list_all_iff)
  from members_of_id [OF this, of ms "[]"] JObj.prems show ?case by simp
qed auto


section \<open>Encoding\<close>

text \<open>\<open>br d\<close> is what stands before an item at depth \<open>d\<close>, \<open>col\<close> what stands between a key and its value.\<close>

fun encode :: "(nat \<Rightarrow> string) \<Rightarrow> string \<Rightarrow> nat \<Rightarrow> json \<Rightarrow> string" where
  "encode br col d JNull = ''null''"
| "encode br col d (JBool b) = (if b then ''true'' else ''false'')"
| "encode br col d (JNum s) = s"
| "encode br col d (JStr s) = json_string s"
| "encode br col d (JArr es) =
     (if es = [] then ''[]''
      else ''['' @ br (Suc d) @ Join (map (encode br col (Suc d)) es) ('','' @ br (Suc d)) @ br d @ '']'')"
| "encode br col d (JObj ms) =
     (if ms = [] then ''{}''
      else ''{'' @ br (Suc d) @ Join (map (\<lambda>p. json_string (fst p) @ col @ encode br col (Suc d) (snd p)) ms) ('','' @ br (Suc d)) @
        br d @ ''}'')"

fun nesting :: "json \<Rightarrow> nat" where
  "nesting (JArr es) = Suc (fold max (map nesting es) 0)"
| "nesting (JObj ms) = Suc (fold max (map (\<lambda>p. nesting (snd p)) ms) 0)"
| "nesting _ = 0"

definition json_Marshal :: "json \<Rightarrow> string" where
  "json_Marshal v = encode (\<lambda>_. []) '':'' 0 v"

text \<open>\<open>json.MarshalIndent(v, "", "  ")\<close>, which scans what \<open>Marshal\<close> printed and so has the scanner's nesting limit.\<close>

definition indent :: "nat \<Rightarrow> string" where
  "indent d = CHR 0x0A # replicate (2 * d) (CHR '' '')"

definition json_MarshalIndent :: "json \<Rightarrow> string option" where
  "json_MarshalIndent v = (if nesting v > maxNestingDepth then None else Some (encode indent '': '' 0 v))"


section \<open>Reading what was printed\<close>

text \<open>
  A document that reads back: strings of ASCII bytes (other text is printed with its invalid bytes
  replaced) and numbers in JSON's syntax.
\<close>

definition num_text :: "string \<Rightarrow> bool" where
  "num_text s \<longleftrightarrow> parse_number s = Some (s, [])"

fun printable :: "json \<Rightarrow> bool" where
  "printable (JNum s) \<longleftrightarrow> num_text s"
| "printable (JStr s) \<longleftrightarrow> ascii s"
| "printable (JArr es) \<longleftrightarrow> list_all printable es"
| "printable (JObj ms) \<longleftrightarrow> list_all (\<lambda>p. ascii (fst p) \<and> printable (snd p)) ms"
| "printable _ \<longleftrightarrow> True"

text \<open>What may stand after a value.\<close>

definition ends :: "string \<Rightarrow> bool" where
  "ends r \<longleftrightarrow> r = [] \<or> hd r \<in> set '',]}'' \<or> json_space (hd r)"

lemma ends_char: "ends (c # r) \<Longrightarrow> \<not> is_digit c \<and> c \<notin> set ''.eE''"
  by (auto simp: ends_def json_space_def byte_def char_class_defs)

lemma parse_digits_before:
  assumes "parse_digits s = Some (a, r)" and "ends t"
  shows "parse_digits (s @ t) = Some (a, r @ t)"
proof -
  have t: "takeWhile is_digit t = []" "dropWhile is_digit t = t" using ends_char assms(2) by (cases t; auto)+
  from assms(1) have s: "a = takeWhile is_digit s" "r = dropWhile is_digit s" "a \<noteq> []" by (auto simp: parse_digits_def split: if_splits)
  show ?thesis
  proof (cases "\<forall>x \<in> set s. is_digit x")
    case True
    then have "takeWhile is_digit s = s" "dropWhile is_digit s = []" by (simp_all add: takeWhile_eq_all_conv)
    with True s t show ?thesis by (simp add: parse_digits_def)
  next
    case False
    then obtain x where "x \<in> set s" "\<not> is_digit x" by blast
    with s show ?thesis by (simp add: parse_digits_def)
  qed
qed

lemma parse_part_before:
  assumes "parse_part cs sg s = Some (a, r)" and "ends t" and "set cs \<subseteq> set ''.eE''"
  shows "parse_part cs sg (s @ t) = Some (a, r @ t)"
proof (cases s)
  case Nil
  with assms show ?thesis using ends_char [of "hd t" "tl t"] by (cases t) (auto simp: parse_part_def)
next
  case (Cons c u)
  show ?thesis
  proof (cases "c \<in> set cs")
    case True
    define g where "g = (if u \<noteq> [] \<and> hd u \<in> set sg then [hd u] else [])"
    from True assms(1) Cons obtain d where d: "parse_digits (drop (length g) u) = Some (d, r)" "a = c # g @ d"
      by (auto simp: parse_part_def Let_def g_def)
    then have "u \<noteq> []" by (auto simp: parse_digits_def split: if_splits)
    then have "drop (length g) (u @ t) = drop (length g) u @ t" "(if u @ t \<noteq> [] \<and> hd (u @ t) \<in> set sg then [hd (u @ t)] else []) = g"
      by (cases u; simp add: g_def)+
    with d(2) True Cons parse_digits_before [OF d(1) assms(2)] show ?thesis
      by (simp add: parse_part_def Let_def)
  qed (use assms Cons in \<open>auto simp: parse_part_def\<close>)
qed

lemma parse_number_before:
  assumes "num_text s" and "ends t"
  shows "parse_number (s @ t) = Some (s, t)"
proof -
  define g where "g = (if s \<noteq> [] \<and> hd s = CHR ''-'' then ''-'' else [])"
  from assms(1) obtain i f e r1 r2 where n: "parse_int_part (drop (length g) s) = Some (i, r1)"
    "parse_part ''.'' [] r1 = Some (f, r2)" "parse_part ''eE'' ''+-'' r2 = Some (e, [])" "s = g @ i @ f @ e"
    unfolding num_text_def parse_number_def Let_def g_def [symmetric] by (auto simp: Option.bind_eq_Some_conv)
  have i: "parse_int_part (drop (length g) s @ t) = Some (i, r1 @ t)"
    using n(1) parse_digits_before [OF _ assms(2), of "drop (length g) s"]
    by (auto simp: parse_int_part_def split: list.splits if_splits)
  have s: "s \<noteq> []" using n(1) by (auto simp: parse_int_part_def)
  have "(if s @ t \<noteq> [] \<and> hd (s @ t) = CHR ''-'' then ''-'' else []) = g" using s by (simp add: g_def)
  moreover have "drop (length g) (s @ t) = drop (length g) s @ t" using s by (cases s) (simp_all add: g_def)
  moreover note parse_part_before [OF n(2) assms(2)] parse_part_before [OF n(3) assms(2)]
  ultimately show ?thesis using i n(4) by (simp add: parse_number_def)
qed

text \<open>A layout: only white space between the tokens.\<close>

definition layout :: "(nat \<Rightarrow> string) \<Rightarrow> string \<Rightarrow> bool" where
  "layout br col \<longleftrightarrow> (\<forall>d. list_all json_space (br d)) \<and> (\<exists>ws. col = CHR '':'' # ws \<and> list_all json_space ws)"

lemma skip_space_before: "list_all json_space ws \<Longrightarrow> skip_space (ws @ s) = skip_space s"
  by (induction ws) (auto simp: skip_space_def)

lemma skip_space_stop: "\<not> json_space c \<Longrightarrow> skip_space (c # s) = c # s"
  by (simp add: skip_space_def)

lemma expect_before: "list_all json_space ws \<Longrightarrow> expect c (ws @ s) = expect c s"
  by (simp add: expect_def skip_space_before)

lemma expect_head: "\<not> json_space x \<Longrightarrow> expect c (x # s) = (if x = c then Some s else None)"
  by (simp add: expect_def skip_space_stop)

lemma parse_value_before: "list_all json_space ws \<Longrightarrow> parse_value n d (ws @ s) = parse_value n d s"
  by (cases n) (simp_all add: parse_value.simps skip_space_before)

lemma marks_no_space: "c \<in> set (dquote # ''{}[],:-nft'') \<or> is_digit c \<Longrightarrow> \<not> json_space c"
  by (auto simp: json_space_def byte_def char_class_defs)

text \<open>\<open>reads_as d s v\<close>: with enough fuel, inside \<open>d\<close> containers, \<open>s\<close> is read as \<open>v\<close>, whatever ends it.\<close>

definition reads_as :: "nat \<Rightarrow> string \<Rightarrow> json \<Rightarrow> bool" where
  "reads_as d s v \<longleftrightarrow> (\<forall>t. ends t \<longrightarrow> (\<exists>N. \<forall>n \<ge> N. parse_value n d (s @ t) = Some (v, t)))"

lemma enough: "(\<And>n. N \<le> n \<Longrightarrow> P (Suc n)) \<Longrightarrow> \<exists>N. \<forall>n \<ge> N. P n"
  by (metis Suc_le_D Suc_le_mono)

lemma reads_asI: "(\<And>t n. ends t \<Longrightarrow> parse_value (Suc n) d (s @ t) = Some (v, t)) \<Longrightarrow> reads_as d s v"
  unfolding reads_as_def by (metis Suc_le_D)

lemma reads_asD: "\<lbrakk>reads_as d s v; ends t\<rbrakk> \<Longrightarrow> \<exists>N. \<forall>n \<ge> N. parse_value n d (s @ t) = Some (v, t)"
  by (simp add: reads_as_def)

lemma reads_num: "num_text s \<Longrightarrow> reads_as d s (JNum s)"
proof (rule reads_asI)
  fix t n assume s: "num_text s" and t: "ends t"
  from s obtain c r where c: "s = c # r" "c = CHR ''-'' \<or> is_digit c"
    by (cases s) (auto simp: num_text_def parse_number_def parse_int_part_def parse_digits_def Let_def char_class_defs split: if_splits)
  then have "c \<noteq> CHR ''n''" "c \<noteq> CHR ''t''" "c \<noteq> CHR ''f''" "c \<noteq> dquote" "c \<noteq> CHR ''{''" "c \<noteq> CHR ''[''" by (auto simp: char_class_defs)
  moreover have "\<not> json_space c" using c(2) by (intro marks_no_space) auto
  then have "skip_space (s @ t) = c # r @ t" using c(1) by (simp add: skip_space_stop)
  ultimately show "parse_value (Suc n) d (s @ t) = Some (JNum s, t)"
    using parse_number_before [OF s t] c by (simp add: parse_value.simps parse_literal_def HasPrefix_def)
qed

lemma reads_str: "ascii s \<Longrightarrow> reads_as d (json_string s) (JStr s)"
  by (rule reads_asI) (simp add: parse_value.simps json_string_def skip_space_stop marks_no_space parse_json_escape)

lemma reads_word: "reads_as d ''null'' JNull" "reads_as d ''true'' (JBool True)" "reads_as d ''false'' (JBool False)"
  by (rule reads_asI, simp add: parse_value.simps skip_space_stop marks_no_space parse_literal_def HasPrefix_def)+

lemma ends_before: "\<lbrakk>list_all json_space ws; ends s\<rbrakk> \<Longrightarrow> ends (ws @ s)"
  by (cases ws) (auto simp: ends_def)

lemma ends_mark: "c \<in> set '',]}'' \<Longrightarrow> ends (c # s)"
  by (simp add: ends_def)

lemma ends_comma: "ends ('','' @ s)"
  by (simp add: ends_mark)

lemma parse_elems_text:
  assumes "\<And>e. e \<in> set es \<Longrightarrow> reads_as d (enc e) e" and "es \<noteq> []"
    and ws: "list_all json_space ws" "list_all json_space ws'"
  shows "\<exists>N. \<forall>n \<ge> N. parse_elems n d (Join (map enc es) ('','' @ ws) @ ws' @ '']'' @ t) = Some (es, t)"
  using assms(2,1)
proof (induction es rule: list_nonempty_induct)
  case (single e)
  have "ends (ws' @ '']'' @ t)" by (rule ends_before [OF ws(2)]) (simp add: ends_mark)
  with single [of e] obtain N where N: "\<forall>n \<ge> N. parse_value n d (enc e @ ws' @ '']'' @ t) = Some (e, ws' @ '']'' @ t)"
    by (auto dest: reads_asD)
  have "parse_elems (Suc n) d (enc e @ ws' @ '']'' @ t) = Some ([e], t)" if "n \<ge> N" for n
    using N that by (simp add: parse_elems.simps expect_before [OF ws(2)] expect_head marks_no_space)
  then show ?case unfolding list.map Join.simps by (rule enough)
next
  case (cons e es)
  let ?u = "Join (map enc es) ('','' @ ws) @ ws' @ '']'' @ t"
  have j: "Join (map enc (e # es)) ('','' @ ws) @ ws' @ '']'' @ t = enc e @ '','' @ ws @ ?u"
    using cons.hyps by (cases es) simp_all
  have "reads_as d (enc e) e" using cons.prems by simp
  from reads_asD [OF this ends_comma] obtain N where N: "\<forall>n \<ge> N. parse_value n d (enc e @ '','' @ ws @ ?u) = Some (e, '','' @ ws @ ?u)"
    by blast
  from cons obtain N' where N': "\<forall>n \<ge> N'. parse_elems n d ?u = Some (es, t)" by (meson list.set_intros(2))
  have sp: "parse_elems n d (ws @ ?u) = parse_elems n d ?u" for n
    by (cases n) (simp_all add: parse_elems.simps parse_value_before [OF ws(1)])
  have "parse_elems (Suc n) d (enc e @ '','' @ ws @ ?u) = Some (e # es, t)" if "n \<ge> max N N'" for n
    using N N' that sp [of n] by (simp add: parse_elems.simps expect_head marks_no_space)
  then show ?case unfolding j by (rule enough)
qed

lemma parse_members_text:
  assumes "\<And>p. p \<in> set ms \<Longrightarrow> ascii (fst p) \<and> reads_as d (enc (snd p)) (snd p)" and "ms \<noteq> []"
    and ws: "list_all json_space ws" "list_all json_space ws'" "list_all json_space ws''"
  shows "\<exists>N. \<forall>n \<ge> N. parse_members n d
    (Join (map (\<lambda>p. json_string (fst p) @ ('':'' @ ws'') @ enc (snd p)) ms) ('','' @ ws) @ ws' @ ''}'' @ t) = Some (ms, t)"
  using assms(2,1)
proof (induction ms rule: list_nonempty_induct)
  case (single p)
  have "ends (ws' @ ''}'' @ t)" by (rule ends_before [OF ws(2)]) (simp add: ends_mark)
  with single [of p] obtain N where N: "\<forall>n \<ge> N. parse_value n d (enc (snd p) @ ws' @ ''}'' @ t) = Some (snd p, ws' @ ''}'' @ t)"
    by (auto dest: reads_asD)
  have "parse_members (Suc n) d ((json_string (fst p) @ ('':'' @ ws'') @ enc (snd p)) @ ws' @ ''}'' @ t) = Some ([p], t)" if "n \<ge> N" for n
    using N that single [of p]
    by (simp add: parse_members.simps json_string_def expect_before [OF ws(2)] expect_head marks_no_space parse_json_escape
        parse_value_before [OF ws(3)])
  then show ?case unfolding list.map Join.simps by (rule enough)
next
  case (cons p ms)
  let ?u = "Join (map (\<lambda>p. json_string (fst p) @ ('':'' @ ws'') @ enc (snd p)) ms) ('','' @ ws) @ ws' @ ''}'' @ t"
  have j: "Join (map (\<lambda>p. json_string (fst p) @ ('':'' @ ws'') @ enc (snd p)) (p # ms)) ('','' @ ws) @ ws' @ ''}'' @ t =
      (json_string (fst p) @ ('':'' @ ws'') @ enc (snd p)) @ '','' @ ws @ ?u"
    using cons.hyps by (cases ms) simp_all
  have "reads_as d (enc (snd p)) (snd p)" using cons.prems by simp
  from reads_asD [OF this ends_comma] obtain N where N: "\<forall>n \<ge> N. parse_value n d (enc (snd p) @ '','' @ ws @ ?u) = Some (snd p, '','' @ ws @ ?u)"
    by blast
  from cons obtain N' where N': "\<forall>n \<ge> N'. parse_members n d ?u = Some (ms, t)" by (meson list.set_intros(2))
  have sp: "parse_members n d (ws @ ?u) = parse_members n d ?u" for n
    by (cases n) (simp_all add: parse_members.simps expect_before [OF ws(1)])
  have "parse_members (Suc n) d ((json_string (fst p) @ ('':'' @ ws'') @ enc (snd p)) @ '','' @ ws @ ?u) = Some (p # ms, t)" if "n \<ge> max N N'" for n
    using N N' that sp [of n] cons.prems(1) [of p]
    by (simp add: parse_members.simps json_string_def expect_head marks_no_space parse_json_escape parse_value_before [OF ws(3)])
  then show ?case unfolding j by (rule enough)
qed

lemma reads_arr:
  assumes "\<And>e. e \<in> set es \<Longrightarrow> reads_as (Suc d) (enc e) e" and "d < maxNestingDepth" and "es \<noteq> []"
    and ws: "list_all json_space ws" "list_all json_space ws'" "list_all json_space ws''"
  shows "reads_as d (''['' @ ws'' @ Join (map enc es) ('','' @ ws) @ ws' @ '']'') (JArr es)"
  unfolding reads_as_def
proof (intro allI impI)
  fix t :: string
  let ?u = "Join (map enc es) ('','' @ ws) @ ws' @ '']'' @ t"
  from parse_elems_text [OF assms(1,3) ws(1,2)] obtain N where N: "\<forall>n \<ge> N. parse_elems n (Suc d) ?u = Some (es, t)" by blast
  have sp: "parse_elems n (Suc d) (ws'' @ ?u) = parse_elems n (Suc d) ?u" for n
    by (cases n) (simp_all add: parse_elems.simps parse_value_before [OF ws(3)])
  have no: "expect (CHR '']'') (ws'' @ ?u) = None"
  proof (rule ccontr)
    assume "expect (CHR '']'') (ws'' @ ?u) \<noteq> None"
    then obtain r where "skip_space ?u = CHR '']'' # r"
      by (auto simp: skip_space_before [OF ws(3)] expect_def split: list.splits if_splits)
    moreover have "parse_literal (CHR '']'' # r) = None"
      by (simp add: parse_literal_def parse_number_def parse_int_part_def parse_digits_def HasPrefix_def char_class_defs)
    ultimately have "parse_value n (Suc d) ?u = None" for n
      by (cases n) (simp_all only: parse_value.simps list.case, simp_all)
    then have "parse_elems (Suc N) (Suc d) ?u = None" by (simp add: parse_elems.simps)
    with N show False by simp
  qed
  have "parse_value (Suc n) d ((''['' @ ws'' @ Join (map enc es) ('','' @ ws) @ ws' @ '']'') @ t) = Some (JArr es, t)" if "n \<ge> N" for n
    using N that no sp [of n] assms(2) by (simp add: parse_value.simps skip_space_stop marks_no_space)
  then show "\<exists>N. \<forall>n \<ge> N. parse_value n d ((''['' @ ws'' @ Join (map enc es) ('','' @ ws) @ ws' @ '']'') @ t) = Some (JArr es, t)"
    by (rule enough)
qed

lemma reads_obj:
  assumes "\<And>p. p \<in> set ms \<Longrightarrow> ascii (fst p) \<and> reads_as (Suc d) (enc (snd p)) (snd p)" and "d < maxNestingDepth" and "ms \<noteq> []"
    and ws: "list_all json_space ws" "list_all json_space ws'" "list_all json_space ws''" and col: "col = CHR '':'' # wc" "list_all json_space wc"
  shows "reads_as d (''{'' @ ws'' @ Join (map (\<lambda>p. json_string (fst p) @ col @ enc (snd p)) ms) ('','' @ ws) @ ws' @ ''}'') (JObj ms)"
  unfolding reads_as_def
proof (intro allI impI)
  fix t :: string
  let ?j = "Join (map (\<lambda>p. json_string (fst p) @ col @ enc (snd p)) ms) ('','' @ ws)"
  let ?u = "?j @ ws' @ ''}'' @ t"
  from parse_members_text [OF assms(1,3) ws(1,2) col(2)] obtain N where N: "\<forall>n \<ge> N. parse_members n (Suc d) ?u = Some (ms, t)"
    unfolding col by auto
  have sp: "parse_members n (Suc d) (ws'' @ ?u) = parse_members n (Suc d) ?u" for n
    by (cases n) (simp_all add: parse_members.simps expect_before [OF ws(3)])
  have no: "expect (CHR ''}'') (ws'' @ ?u) = None"
  proof (rule ccontr)
    assume "expect (CHR ''}'') (ws'' @ ?u) \<noteq> None"
    then have "expect dquote ?u = None"
      by (auto simp: skip_space_before [OF ws(3)] expect_def split: list.splits if_splits)
    then have "parse_members (Suc N) (Suc d) ?u = None" by (simp add: parse_members.simps)
    with N show False by simp
  qed
  have "parse_value (Suc n) d ((''{'' @ ws'' @ ?j @ ws' @ ''}'') @ t) = Some (JObj ms, t)" if "n \<ge> N" for n
    using N that no sp [of n] assms(2) by (simp add: parse_value.simps skip_space_stop marks_no_space)
  then show "\<exists>N. \<forall>n \<ge> N. parse_value n d ((''{'' @ ws'' @ ?j @ ws' @ ''}'') @ t) = Some (JObj ms, t)"
    by (rule enough)
qed

lemma nesting_members: "e \<in> set es \<Longrightarrow> nesting e < nesting (JArr es)" "p \<in> set ms \<Longrightarrow> nesting (snd p) < nesting (JObj ms)"
  by (auto simp: less_Suc_eq_le Max.set_eq_fold [symmetric] intro!: Max_ge)

lemma reads_encode:
  assumes "layout br col"
  shows "\<lbrakk>printable v; d0 + nesting v \<le> maxNestingDepth\<rbrakk> \<Longrightarrow> reads_as d0 (encode br col d v) v"
proof (induction v arbitrary: d0 d)
  case (JArr es)
  have e: "reads_as (Suc d0) (encode br col (Suc d) e) e" if "e \<in> set es" for e
    using JArr.prems nesting_members(1) [OF that] that by (intro JArr.IH) (auto simp: list_all_iff)
  have d: "d0 < maxNestingDepth" using JArr.prems by simp
  have br: "list_all json_space (br x)" for x using assms by (simp add: layout_def)
  have "reads_as d0 ''[]'' (JArr [])"
    by (rule reads_asI) (use d in \<open>simp add: parse_value.simps skip_space_stop marks_no_space expect_head\<close>)
  then show ?case
    using reads_arr [of es d0 "encode br col (Suc d)", OF e d _ br br br] by (cases "es = []") simp_all
next
  case (JObj ms)
  from assms obtain wc where col: "col = CHR '':'' # wc" "list_all json_space wc" and br: "list_all json_space (br x)" for x
    unfolding layout_def by blast
  have p: "ascii (fst p) \<and> reads_as (Suc d0) (encode br col (Suc d) (snd p)) (snd p)" if "p \<in> set ms" for p
    using JObj.prems nesting_members(2) [OF that] that
    by (intro conjI JObj.IH [OF that]) (auto simp: list_all_iff snds.simps)
  have d: "d0 < maxNestingDepth" using JObj.prems by simp
  have "reads_as d0 ''{}'' (JObj [])"
    by (rule reads_asI) (use d in \<open>simp add: parse_value.simps skip_space_stop marks_no_space expect_head\<close>)
  then show ?case
    using reads_obj [of ms d0 "encode br col (Suc d)", OF p d _ br br br col] by (cases "ms = []") simp_all
qed (auto intro: reads_num reads_str reads_word)

lemma layouts: "layout (\<lambda>_. []) '':''" "layout indent '': ''"
  by (simp_all add: layout_def indent_def list_all_iff json_space_def byte_def)

lemma reads_whole:
  assumes "reads_as 0 s v" and "list_all json_space ws"
  shows "json_Unmarshal (s @ ws) = Some v"
proof -
  have "ends ws" using assms(2) by (cases ws) (auto simp: ends_def)
  from reads_asD [OF assms(1) this] obtain N where "\<forall>n \<ge> N. parse_value n 0 (s @ ws) = Some (v, ws)" by blast
  then have "parse_value (2 * length (s @ ws) + 2 + N) 0 (s @ ws) = Some (v, ws)" by simp
  then have "parse_first (s @ ws) = Some (v, ws)"
    using parse_fuel [of "s @ ws" "2 * length (s @ ws) + 2" N 0] by (simp add: parse_first_def)
  then show ?thesis using skip_space_before [OF assms(2), of "[]"] by (simp add: json_Unmarshal_def skip_space_def)
qed

lemma Unmarshal_Marshal:
  "\<lbrakk>printable v; nesting v \<le> maxNestingDepth\<rbrakk> \<Longrightarrow> json_Unmarshal (json_Marshal v) = Some v"
  using reads_whole [OF reads_encode [OF layouts(1), of v 0 0], of "[]"] by (simp add: json_Marshal_def)

lemma Unmarshal_MarshalIndent:
  assumes "printable v" and "json_MarshalIndent v = Some s" and "list_all json_space ws"
  shows "json_Unmarshal (s @ ws) = Some v"
  using assms reads_whole [OF reads_encode [OF layouts(2), of v 0 0] assms(3)]
  by (auto simp: json_MarshalIndent_def split: if_splits)

end
