(* ===== verification/Gcs_Safety.thy ===== *)
theory Gcs_Safety
  imports Gcs_Driver Json_Documents "HOL-Library.Multiset"
begin

text \<open>
  What holds of the gcs driver: the ownership marker written into a service account is the one
  the checks accept, no account is bound, keyed or deleted without it, a key is only replaced on
  evidence, the Secret has exactly the entries it should, drift is repaired by an update that
  converges unless the lifecycle spells out an empty list, and teardown proceeds in bounded
  slices, comes to an end and takes the account only after the bucket.
\<close>

section \<open>The ownership marker\<close>

lemma marker_roundtrip:
  assumes "ascii (smManagedBy m)" "ascii (smBucket m)"
  shows "unmarshal_marker (marshal_marker m) = Some m"
proof -
  let ?v = "JObj [(''managedBy'', JStr (smManagedBy m)), (''bucket'', JStr (smBucket m))]"
  have "marshal_marker m = json_Marshal ?v"
    by (simp add: marshal_marker_def json_Marshal_def)
  moreover have "printable ?v" "nesting ?v \<le> maxNestingDepth"
    using assms by (simp_all add: ascii_def byte_def maxNestingDepth_def)
  ultimately have "json_Unmarshal (marshal_marker m) = Some ?v" by (simp only: Unmarshal_Marshal)
  then show ?thesis
    by (simp add: unmarshal_marker_def decode_struct_def field_of_def store_def decode_string_def)
qed

text \<open>Every name \<open>ValidateResourceName\<close> accepts is ASCII.\<close>

lemma class_ascii: "is_lower c \<or> is_digit c \<or> c \<in> set ''._-'' \<Longrightarrow> byte c < 0x80"
  by (auto simp: char_class_defs byte_def)

lemma valid_name_ascii: "gcs_ValidateResourceName n = None \<Longrightarrow> ascii n"
proof -
  assume "gcs_ValidateResourceName n = None"
  then have "gcs_bucketNameRE n" by (simp add: gcs_ValidateResourceName_def split: if_splits)
  then have "\<forall>c \<in> set n. is_lower c \<or> is_digit c \<or> c \<in> set ''._-''" unfolding gcs_bucketNameRE_def list_all_iff by blast
  then show "ascii n" unfolding ascii_def list_all_iff using class_ascii by blast
qed

text \<open>
  The marker names one bucket. An account created for a bucket with an admissible name passes the
  ownership check for that bucket and for no other, through the JSON encoding into the
  account's description and back.
\<close>

theorem sa_marker_exact:
  assumes "gcs_ValidateResourceName b = None"
    and "acctDescription sa = marshal_marker \<lparr>smManagedBy = ''buckety'', smBucket = b\<rparr>"
  shows "verifySAMarker sa b' = None \<longleftrightarrow> b' = b"
proof -
  have "ascii ''buckety''" by (simp add: ascii_def byte_def)
  with marker_roundtrip [of "\<lparr>smManagedBy = ''buckety'', smBucket = b\<rparr>"] valid_name_ascii [OF assms(1)] assms(2)
  show ?thesis by (auto simp: verifySAMarker_def)
qed

theorem sa_marker_exact_witness:
  "let sa = \<lparr>acctEmail = ''a@p'', acctDescription = marshal_marker \<lparr>smManagedBy = ''buckety'', smBucket = ''logs-prod''\<rparr>\<rparr> in
   verifySAMarker sa ''logs-prod'' = None \<and> verifySAMarker sa ''logs-test'' \<noteq> None"
proof -
  have n: "gcs_ValidateResourceName ''logs-prod'' = None" by code_simp
  let ?sa = "\<lparr>acctEmail = ''a@p'', acctDescription = marshal_marker \<lparr>smManagedBy = ''buckety'', smBucket = ''logs-prod''\<rparr>\<rparr>"
  from sa_marker_exact [OF n, of ?sa "''logs-prod''"] sa_marker_exact [OF n, of ?sa "''logs-test''"] show ?thesis by (simp add: Let_def)
qed


section \<open>The boundary between buckets\<close>

text \<open>What an event shows of the account \<open>sa\<close>: the answer for its own resource, or of its creation under its name.\<close>

fun account_of :: "('w, 'p) gcs_state \<Rightarrow> string \<Rightarrow> 'p gcs_event \<Rightarrow> ServiceAccount option" where
  "account_of D sa (GotAccount res r) =
     (if res = saResource D (saEmail D sa) then case r of Inr a \<Rightarrow> Some a | Inl _ \<Rightarrow> None else None)"
| "account_of D sa (AccountCreated parent n d m r) =
     (if parent = ''projects/'' @ sa_project D \<and> n = sa then case r of Inr a \<Rightarrow> Some a | Inl _ \<Rightarrow> None else None)"
| "account_of D sa e = None"

text \<open>The account \<open>sa\<close> as seen last, and whether its description is the marker of the bucket.\<close>

fun latest_account :: "('w, 'p) gcs_state \<Rightarrow> string \<Rightarrow> 'p gcs_event list \<Rightarrow> ServiceAccount option" where
  "latest_account D sa [] = None"
| "latest_account D sa (e # h) = (case latest_account D sa h of Some a \<Rightarrow> Some a | None \<Rightarrow> account_of D sa e)"

definition owned :: "('w, 'p) gcs_state \<Rightarrow> string \<Rightarrow> string \<Rightarrow> 'p gcs_event list \<Rightarrow> bool" where
  "owned D sa bucket h \<longleftrightarrow>
     (\<exists>a. latest_account D sa h = Some a \<and> unmarshal_marker (acctDescription a) = Some \<lparr>smManagedBy = ''buckety'', smBucket = bucket\<rparr>)"

lemma latest_account_append [simp]:
  "latest_account D sa (h @ l) = (case latest_account D sa l of Some a \<Rightarrow> Some a | None \<Rightarrow> latest_account D sa h)"
  by (induction h) (auto split: option.splits)

lemma verified_marker:
  "verifySAMarker a bucket = None \<longleftrightarrow> unmarshal_marker (acctDescription a) = Some \<lparr>smManagedBy = ''buckety'', smBucket = bucket\<rparr>"
  by (simp add: verifySAMarker_def)

text \<open>
  What a call of the driver may do for the bucket \<open>b\<close> with the account \<open>sa\<close>: set the policy it
  read on \<open>b\<close>, with the one binding added; create a key of that account, or delete it; and only
  after seeing its marker in that account's own description. Key deletion is \<open>RevokeAccess\<close>'s alone.
\<close>

fun sa_rule :: "('w, 'p) gcs_state \<Rightarrow> string \<Rightarrow> string \<Rightarrow> 'p gcs_event list \<Rightarrow> 'p gcs_event \<Rightarrow> bool" where
  "sa_rule D sa b h (PolicySet n p' r) =
     (n = b \<and> owned D sa b h \<and> (\<exists>p. last h = GotPolicy b (Inr p) \<and> \<not> gsHasRole (gdClient D) p (''serviceAccount:'' @ saEmail D sa) saBucketRole \<and>
        p' = gsAdd (gdClient D) p (''serviceAccount:'' @ saEmail D sa) saBucketRole))"
| "sa_rule D sa b h (KeyCreated res r) = (res = saResource D (saEmail D sa) \<and> owned D sa b h)"
| "sa_rule D sa b h (AccountDeleted res r) = (res = saResource D (saEmail D sa) \<and> owned D sa b h)"
| "sa_rule D sa b h (AccountCreated parent n d m r) =
     (parent = ''projects/'' @ sa_project D \<and> n = sa \<and> m = marshal_marker \<lparr>smManagedBy = ''buckety'', smBucket = b\<rparr> \<and>
      (\<exists>e. last h = GotAccount (saResource D (saEmail D sa)) (Inl e) \<and> gcs_isNotFound e))"
| "sa_rule D sa b h (KeyDeleted n r) = False"
| "sa_rule D sa b h e = True"

lemma reconcileExisting_rule: "keeps (sa_rule D sa b) h (reconcileExisting D attrs req) (\<lambda>_ _. True)"
  unfolding reconcileExisting_def reconcile_attrs_def by (intro keeps_rules) auto

lemma ensureBucket_rule: "keeps (sa_rule D sa b) h (ensureBucket D req) (\<lambda>_ _. True)"
  unfolding ensureBucket_def by (intro keeps_rules reconcileExisting_rule) auto

lemma find_or_create_rule:
  "keeps (sa_rule D sa b) h (find_or_create D iam sa b) (\<lambda>r h'. case r of Inr a \<Rightarrow> latest_account D sa h' = Some a | Inl _ \<Rightarrow> True)"
  unfolding find_or_create_def by (intro keeps_rules) (auto split: sum.splits)

lemma ensureBucketBinding_rule:
  "owned D sa b h \<Longrightarrow> keeps (sa_rule D sa b) h (ensureBucketBinding D b (saEmail D sa)) (\<lambda>_ _. True)"
  unfolding ensureBucketBinding_def by (intro keeps_rules) (auto simp: owned_def verified_marker)

lemma ensureServiceAccount_rule: "keeps (sa_rule D sa b) h (ensureServiceAccount D sa b) (\<lambda>_ _. True)"
  unfolding ensureServiceAccount_def
  by (intro keeps_rules keeps_mono [OF find_or_create_rule] ensureBucketBinding_rule) (auto simp: owned_def verified_marker)

lemma list_targets_rule: "keeps (sa_rule D sa b) h (list_targets D n k acc) (\<lambda>_ _. True)"
  by (induction D n k acc arbitrary: h rule: list_targets.induct)
     (auto intro!: keeps_rules split: next_result.splits)

lemma run_workers_rule: "keeps (sa_rule D sa b) h (run_workers D n ts) (\<lambda>_ _. True)"
proof (induction D n ts arbitrary: h rule: run_workers.induct)
  case (2 D name t ts)
  show ?case
    unfolding run_workers.simps delete_target_def by (intro keeps_rules keeps_mono [OF "2.IH"]) auto
qed (auto intro: keeps_rules)

lemma deleteBucket_rule: "keeps (sa_rule D sa b) h (deleteBucket D n) (\<lambda>_ _. True)"
proof -
  have e: "keeps (sa_rule D sa b) h (delete_empty D n x y) (\<lambda>_ _. True)" for h x y
    unfolding delete_empty_def by (intro keeps_rules) auto
  have s: "keeps (sa_rule D sa b) h (gcs_emptyBucketSlice D n) (\<lambda>_ _. True)" for h
    unfolding gcs_emptyBucketSlice_def
    by (intro keeps_rules keeps_mono [OF list_targets_rule] keeps_mono [OF run_workers_rule]) auto
  show ?thesis
    unfolding deleteBucket_def
    by (intro keeps_rules keeps_mono [OF s]) (auto intro!: keeps_rules e split: slice_error.splits)
qed

lemma mint_key_rule: "keeps (sa_rule D sa b) h (mint_key D iam (saEmail D sa) b) (\<lambda>_ _. True)"
  unfolding mint_key_def by (intro keeps_rules) (auto simp: owned_def verified_marker)

lemma ensureAccessKey_rule: "keeps (sa_rule D sa b) h (ensureAccessKey D iam (saEmail D sa) b ex) (\<lambda>_ _. True)"
  unfolding ensureAccessKey_def by (intro keeps_rules mint_key_rule) auto

text \<open>
  C14. The ownership boundary. Whatever the services answer, in \<open>EnsureBuckety\<close>, \<open>GrantAccess\<close> and
  \<open>DeleteBuckety\<close> the driver binds, mints keys for or deletes only the account named by the
  bucket's parameter, in the configured identity project, and only when the latest answer for
  that very account has a description that decodes to the marker of exactly this bucket; the policy it writes is the one just
  read plus that one binding; an account is created only when none was found, with the marker.
\<close>

theorem service_account_boundary:
  "guarded (sa_rule D (get0 (erParameters req) ''serviceAccount'') (erName req)) [] (pass_log (gcs_EnsureBuckety D req) s) \<and>
   guarded (sa_rule D (get0 (grBucketyParameters gr) ''serviceAccount'') (grBucketyName gr)) [] (pass_log (gcs_GrantAccess D gr) s) \<and>
   guarded (sa_rule D (get0 (drParameters dr) ''serviceAccount'') (drName dr)) [] (pass_log (gcs_DeleteBuckety D dr) s)"
proof (intro conjI)
  have "keeps (sa_rule D (get0 (erParameters req) ''serviceAccount'') (erName req)) [] (gcs_EnsureBuckety D req) (\<lambda>_ _. True)"
    unfolding gcs_EnsureBuckety_def Let_def
    by (intro keeps_rules keeps_mono [OF ensureBucket_rule] ensureServiceAccount_rule) auto
  from keepsD [OF this] show "guarded (sa_rule D (get0 (erParameters req) ''serviceAccount'') (erName req)) [] (pass_log (gcs_EnsureBuckety D req) s)"
    by blast
  have "keeps (sa_rule D (get0 (grBucketyParameters gr) ''serviceAccount'') (grBucketyName gr)) h (grant_keys D gr x y) (\<lambda>_ _. True)" for h x y
    unfolding grant_keys_def Let_def
    by (intro keeps_rules keeps_mono [OF ensureAccessKey_rule]) auto
  then have "keeps (sa_rule D (get0 (grBucketyParameters gr) ''serviceAccount'') (grBucketyName gr)) [] (gcs_GrantAccess D gr) (\<lambda>_ _. True)"
    unfolding gcs_GrantAccess_def by (intro keeps_rules) auto
  from keepsD [OF this] show "guarded (sa_rule D (get0 (grBucketyParameters gr) ''serviceAccount'') (grBucketyName gr)) [] (pass_log (gcs_GrantAccess D gr) s)"
    by blast
  have "keeps (sa_rule D (get0 (drParameters dr) ''serviceAccount'') (drName dr)) h
      (deleteServiceAccount D iam (get0 (drParameters dr) ''serviceAccount'') (drName dr)) (\<lambda>_ _. True)" for h iam
    unfolding deleteServiceAccount_def Let_def by (intro keeps_rules) (auto simp: owned_def verified_marker)
  then have "keeps (sa_rule D (get0 (drParameters dr) ''serviceAccount'') (drName dr)) [] (gcs_DeleteBuckety D dr) (\<lambda>_ _. True)"
    unfolding gcs_DeleteBuckety_def Let_def by (intro keeps_rules keeps_mono [OF deleteBucket_rule]) auto
  from keepsD [OF this] show "guarded (sa_rule D (get0 (drParameters dr) ''serviceAccount'') (drName dr)) [] (pass_log (gcs_DeleteBuckety D dr) s)"
    by blast
qed


section \<open>Keys\<close>

text \<open>
  When \<open>GrantAccess\<close> may create a key: the Secret carries none for this account, or the listing
  shows the one it carries with an expiry that the clock has passed.
\<close>

definition shown_expired :: "string \<Rightarrow> string \<Rightarrow> 'p gcs_event list \<Rightarrow> bool" where
  "shown_expired resource keyID h =
     (\<exists>keys key now. KeysListed resource (Inr keys) \<in> set h \<and> ClockRead now \<in> set h \<and>
        find (\<lambda>key. HasSuffix (keyName key) (''/keys/'' @ keyID)) keys = Some key \<and> keyExpired now key)"

definition may_mint :: "('w, 'p) gcs_state \<Rightarrow> string \<Rightarrow> smap option \<Rightarrow> 'p gcs_event list \<Rightarrow> bool" where
  "may_mint D email existing h =
     (case carried_key existing email of None \<Rightarrow> True | Some (raw, keyID) \<Rightarrow> shown_expired (saResource D email) keyID h)"

fun mint_rule :: "('w, 'p) gcs_state \<Rightarrow> string \<Rightarrow> smap option \<Rightarrow> 'p gcs_event list \<Rightarrow> 'p gcs_event \<Rightarrow> bool" where
  "mint_rule D email existing h (KeyCreated res r) = (res = saResource D email \<and> may_mint D email existing h)"
| "mint_rule D email existing h (KeyDeleted n r) = False"
| "mint_rule D email existing h e = True"

fun created_key :: "'p gcs_event \<Rightarrow> bool" where
  "created_key (KeyCreated res r) = (case r of Inr _ \<Rightarrow> True | Inl _ \<Rightarrow> False)"
| "created_key e = False"

text \<open>What a key answer means: fresh exactly when one was created, otherwise the Secret's own.\<close>

definition key_answer :: "string \<Rightarrow> smap option \<Rightarrow> goerr + string \<times> string \<times> bool \<Rightarrow> 'p gcs_event list \<Rightarrow> bool" where
  "key_answer email existing r h =
     (case r of
        Inl _ \<Rightarrow> True
      | Inr (keyJSON, keyID, fresh) \<Rightarrow>
          fresh = list_ex created_key h \<and> (if fresh then True else carried_key existing email = Some (keyJSON, keyID)))"

lemma mint_key_answer:
  assumes "may_mint D email existing h" "\<not> list_ex created_key h"
  shows "keeps (mint_rule D email existing) h (mint_key D iam email bucket) (key_answer email existing)"
proof -
  have m: "may_mint D email existing (h @ [e])" for e
    using assms(1) by (auto simp: may_mint_def shown_expired_def split: option.splits)
  show ?thesis
    unfolding mint_key_def by (intro keeps_rules) (use assms m in \<open>auto simp: key_answer_def split: sum.splits option.splits\<close>)
qed

lemma ensureAccessKey_answer:
  assumes "\<not> list_ex created_key h"
  shows "keeps (mint_rule D email existing) h (ensureAccessKey D iam email bucket existing) (key_answer email existing)"
  unfolding ensureAccessKey_def Let_def
  by (intro keeps_rules mint_key_answer) (use assms in \<open>auto simp: may_mint_def shown_expired_def key_answer_def\<close>)

text \<open>What a grant answers with a service account \<open>sa\<close>, after the calls \<open>h\<close>.\<close>

definition grant_answer :: "('w, 'p) gcs_state \<Rightarrow> GrantRequest \<Rightarrow> goerr + GrantResult \<Rightarrow> 'p gcs_event list \<Rightarrow> bool" where
  "grant_answer D gr out h = (
     let sa = get0 (grBucketyParameters gr) ''serviceAccount''; email = saEmail D sa in
     case out of
       Inl _ \<Rightarrow> True
     | Inr g \<Rightarrow>
         gtMinted g = list_ex created_key h \<and>
         (if sa = [] then \<not> gtRevocable g \<and> \<not> gtMinted g
          else gtRevocable g \<and> gtPrincipal g = saResource D email @ ''/keys/'' @ get0 (gtSecretData g) ''serviceAccountKeyId'' \<and>
            (if gtMinted g then True
             else carried_key (grExistingSecretData gr) email =
               Some (get0 (gtSecretData g) ''serviceAccountKey'', get0 (gtSecretData g) ''serviceAccountKeyId''))))"

lemma grant_data_no_key:
  "map_of (grant_data cfg req x y) ''serviceAccountKey'' = None" "map_of (grant_data cfg req x y) ''serviceAccountKeyId'' = None"
  by (simp_all add: grant_data_def)

lemma grant_keys_answer:
  assumes "\<not> list_ex created_key h"
  shows "keeps (mint_rule D (saEmail D (get0 (grBucketyParameters gr) ''serviceAccount'')) (grExistingSecretData gr)) h
    (grant_keys D gr x y) (grant_answer D gr)"
  unfolding grant_keys_def Let_def
  by (intro keeps_rules keeps_mono [OF ensureAccessKey_answer])
     (use assms in \<open>auto simp: grant_answer_def key_answer_def get0_def [of "_ @ _"] grant_data_no_key map_add_def list_ex_iff
       split: sum.splits\<close>)

text \<open>
  C15. A key is replaced on evidence. A grant creates a key only when the Secret carries no usable
  one for this account, or when the listing shows the carried key and the clock has passed its
  expiry. A key the listing lacks is kept, so a key deleted on the server is not minted anew, which
  the specification and the comment on the method say it would be. The answer is marked minted exactly when a key was
  created; otherwise the Secret keeps its key and key id, and the principal, which is what a
  later revocation deletes, names that key. A grant never deletes a key.
\<close>

theorem key_replaced_on_evidence:
  "guarded (mint_rule D (saEmail D (get0 (grBucketyParameters gr) ''serviceAccount'')) (grExistingSecretData gr)) []
     (pass_log (gcs_GrantAccess D gr) s) \<and>
   grant_answer D gr (pass_out (gcs_GrantAccess D gr) s) (pass_log (gcs_GrantAccess D gr) s)"
proof -
  have "keeps (mint_rule D (saEmail D (get0 (grBucketyParameters gr) ''serviceAccount'')) (grExistingSecretData gr)) []
      (gcs_GrantAccess D gr) (grant_answer D gr)"
    unfolding gcs_GrantAccess_def
    by (intro keeps_rules grant_keys_answer) (auto simp: grant_answer_def)
  from keepsD [OF this] show ?thesis by blast
qed


section \<open>The Secret\<close>

text \<open>
  The data of a grant, entry by entry. The shared pair is off for a bucket whose \<open>hmac\<close> parameter is
  one of the spellings of false; endpoint and region are the configured ones, or follow from
  the location the service answered for the bucket; the key is the one the Secret carries or
  the one a call just created.
\<close>

definition hmac_off :: "smap \<Rightarrow> bool" where
  "hmac_off params \<longleftrightarrow> map_of params ''hmac'' \<in> Some ` {''0'', ''f'', ''F'', ''FALSE'', ''false'', ''False''}"

definition coordinates :: "gcs_config \<Rightarrow> string \<Rightarrow> 'p gcs_event list \<Rightarrow> string \<Rightarrow> string \<Rightarrow> bool" where
  "coordinates cfg bucket h endpoint region \<longleftrightarrow>
     (if gcEndpoint cfg \<noteq> [] then endpoint = gcEndpoint cfg \<and> region = gcRegion cfg
      else \<exists>attrs. GotAttrs bucket (Inr attrs) \<in> set h \<and>
        (let l = map ascii_lower (baLocation attrs) in
         if CHR ''-'' \<in> set l
         then endpoint = ''storage.'' @ l @ ''.rep.googleapis.com'' \<and> region = (if gcRegion cfg = [] then l else gcRegion cfg)
         else endpoint = ''storage.googleapis.com'' \<and> region = gcRegion cfg))"

definition delivered_key :: "('w, 'p) gcs_state \<Rightarrow> string \<Rightarrow> smap option \<Rightarrow> 'p gcs_event list \<Rightarrow> string \<Rightarrow> string \<Rightarrow> bool" where
  "delivered_key D email existing h key keyID \<longleftrightarrow>
     carried_key existing email = Some (key, keyID) \<or>
     (\<exists>name data. KeyCreated (saResource D email) (Inr (name, data)) \<in> set h \<and>
        base64_DecodeString data = Some key \<and> keyID = after_slash name)"

definition entry_when :: "bool \<Rightarrow> string \<Rightarrow> string \<Rightarrow> (string \<rightharpoonup> string)" where
  "entry_when c k v = (if c then [k \<mapsto> v] else Map.empty)"

definition secret_shape :: "('w, 'p) gcs_state \<Rightarrow> GrantRequest \<Rightarrow> smap \<Rightarrow> 'p gcs_event list \<Rightarrow> bool" where
  "secret_shape D gr data h \<longleftrightarrow> (
     let cfg = gdCfg D; params = grBucketyParameters gr; sa = get0 params ''serviceAccount''; email = saEmail D sa in
     wf_map data \<and>
     (\<exists>endpoint region key keyID.
        coordinates cfg (grBucketyName gr) h endpoint region \<and> endpoint \<noteq> [] \<and>
        (sa \<noteq> [] \<longrightarrow> delivered_key D email (grExistingSecretData gr) h key keyID) \<and>
        map_of data =
          [''endpoint'' \<mapsto> endpoint, ''bucket'' \<mapsto> grBucketyName gr, ''project'' \<mapsto> gcProject cfg] ++
          entry_when (region \<noteq> []) ''region'' region ++
          entry_when (\<not> hmac_off params) ''accessKeyID'' (gcAccessKeyID cfg) ++
          entry_when (\<not> hmac_off params) ''secretAccessKey'' (gcSecretAccessKey cfg) ++
          entry_when (sa \<noteq> []) ''serviceAccountKey'' key ++
          entry_when (sa \<noteq> []) ''serviceAccountEmail'' email ++
          entry_when (sa \<noteq> []) ''serviceAccountKeyId'' keyID))"

lemma hmac_off_parsed: "include_hmac params \<longleftrightarrow> \<not> hmac_off params"
  by (auto simp: include_hmac_def hmac_off_def ParseBool_def split: option.splits)

lemma locationEndpoint_nonempty: "locationEndpoint l = (e, r) \<Longrightarrow> e \<noteq> []"
  by (auto simp: locationEndpoint_def globalEndpoint_def Let_def split: if_splits)

lemma location_coordinates:
  assumes "gcEndpoint cfg = []" "GotAttrs b (Inr attrs) \<in> set h" "locationEndpoint (baLocation attrs) = (endpoint, region)"
  shows "coordinates cfg b h endpoint (if gcRegion cfg \<noteq> [] then gcRegion cfg else region)"
proof -
  have c: "Contains l ''-'' \<longleftrightarrow> CHR ''-'' \<in> set l" for l by (induction l) (auto simp: HasPrefix_def)
  show ?thesis
    using assms by (auto simp: coordinates_def locationEndpoint_def globalEndpoint_def c Let_def intro!: exI [of _ attrs] split: if_splits)
qed

text \<open>What a key answer delivers, and that events seen before stay seen.\<close>

definition key_delivered :: "('w, 'p) gcs_state \<Rightarrow> string \<Rightarrow> smap option \<Rightarrow> goerr + string \<times> string \<times> bool \<Rightarrow> 'p gcs_event list \<Rightarrow> bool" where
  "key_delivered D email existing r h = (case r of Inl _ \<Rightarrow> True | Inr (key, keyID, fresh) \<Rightarrow> delivered_key D email existing h key keyID)"

lemma mint_key_delivered: "keeps (\<lambda>_ _. True) h (mint_key D iam email bucket) (key_delivered D email existing)"
  unfolding mint_key_def by (intro keeps_rules) (auto simp: key_delivered_def delivered_key_def split: sum.splits option.splits)

lemma ensureAccessKey_delivered: "keeps (\<lambda>_ _. True) h (ensureAccessKey D iam email bucket existing) (key_delivered D email existing)"
  unfolding ensureAccessKey_def Let_def
  by (intro keeps_rules mint_key_delivered) (auto simp: key_delivered_def delivered_key_def)

lemma coordinates_later: "coordinates cfg b h endpoint region \<Longrightarrow> coordinates cfg b (h @ l) endpoint region"
  by (auto simp: coordinates_def Let_def split: if_splits)

lemma grant_data_map:
  "map_of (grant_data cfg gr endpoint region) =
     [''endpoint'' \<mapsto> endpoint, ''bucket'' \<mapsto> grBucketyName gr, ''project'' \<mapsto> gcProject cfg] ++
     entry_when (region \<noteq> []) ''region'' region ++
     entry_when (\<not> hmac_off (grBucketyParameters gr)) ''accessKeyID'' (gcAccessKeyID cfg) ++
     entry_when (\<not> hmac_off (grBucketyParameters gr)) ''secretAccessKey'' (gcSecretAccessKey cfg)"
  by (auto simp: grant_data_def entry_when_def hmac_off_parsed fun_eq_iff)

lemma grant_data_wf: "wf_map (grant_data cfg gr endpoint region)"
  by (auto simp: grant_data_def)

lemma grant_keys_shape:
  assumes "coordinates (gdCfg D) (grBucketyName gr) h endpoint region" "endpoint \<noteq> []"
  shows "keeps (\<lambda>_ _. True) h (grant_keys D gr endpoint region)
    (\<lambda>r h'. case r of Inl _ \<Rightarrow> True | Inr g \<Rightarrow> secret_shape D gr (gtSecretData g) h')"
proof -
  let ?sa = "get0 (grBucketyParameters gr) ''serviceAccount''" and ?data = "grant_data (gdCfg D) gr endpoint region"
  have none: "secret_shape D gr ?data h" if "?sa = []"
    using assms that by (auto simp: secret_shape_def grant_data_map grant_data_wf entry_when_def [of False] Let_def)
  have key: "secret_shape D gr (?data @ [(''serviceAccountKey'', k), (''serviceAccountEmail'', saEmail D ?sa), (''serviceAccountKeyId'', i)]) (h @ l)"
    if "?sa \<noteq> []" "delivered_key D (saEmail D ?sa) (grExistingSecretData gr) (h @ l) k i" for k i l
  proof -
    have w: "wf_map (?data @ [(''serviceAccountKey'', k), (''serviceAccountEmail'', saEmail D ?sa), (''serviceAccountKeyId'', i)])"
      by (auto simp: grant_data_def)
    have m: "map_of (?data @ [(''serviceAccountKey'', k), (''serviceAccountEmail'', saEmail D ?sa), (''serviceAccountKeyId'', i)]) =
        map_of ?data ++ entry_when True ''serviceAccountKey'' k ++ entry_when True ''serviceAccountEmail'' (saEmail D ?sa) ++ entry_when True ''serviceAccountKeyId'' i"
      by (auto simp: grant_data_def entry_when_def fun_eq_iff)
    from that coordinates_later [OF assms(1), of l] assms(2) show ?thesis
      unfolding secret_shape_def Let_def m grant_data_map using w
      by (intro conjI exI [of _ endpoint] exI [of _ region] exI [of _ k] exI [of _ i]) simp_all
  qed
  show ?thesis
    unfolding grant_keys_def Let_def
    by (intro keeps_rules keeps_mono [OF keeps_extends [OF ensureAccessKey_delivered]])
       (use none key in \<open>auto simp: key_delivered_def split: sum.splits\<close>)
qed

text \<open>
  C36. The Secret, entry by entry. Whatever the services answer, the data of a successful grant has
  exactly these entries. Endpoint and region are the configured ones, or those of the location the
  service answered for this bucket: the in-region host and the lower-case region where the
  location has a dash, the global host without a region otherwise, a configured region taking
  precedence. Bucket and project are the bucket's. The backend-wide key pair is present unless
  the bucket's \<open>hmac\<close> parameter spells false, so a bucket that opts out never leaks it. The account's
  key, email and key id are present exactly when the bucket declares an account, and the key is the
  one its Secret carried or one that this grant created.
\<close>

theorem gcs_secret_shape:
  "case pass_out (gcs_GrantAccess D gr) s of
     Inl _ \<Rightarrow> True
   | Inr g \<Rightarrow> secret_shape D gr (gtSecretData g) (pass_log (gcs_GrantAccess D gr) s)"
proof -
  have c: "coordinates (gdCfg D) (grBucketyName gr) h (gcEndpoint (gdCfg D)) (gcRegion (gdCfg D))" if "gcEndpoint (gdCfg D) \<noteq> []" for h :: "'b gcs_event list"
    using that by (simp add: coordinates_def)
  have "keeps (\<lambda>_ _. True) [] (gcs_GrantAccess D gr) (\<lambda>r h. case r of Inl _ \<Rightarrow> True | Inr g \<Rightarrow> secret_shape D gr (gtSecretData g) h)"
    unfolding gcs_GrantAccess_def
    by (intro keeps_rules grant_keys_shape location_coordinates) (auto intro: c dest: locationEndpoint_nonempty)
  from keepsD [OF this, of s] show ?thesis by simp
qed


section \<open>Drift\<close>

text \<open>
  What the parameters ask of a bucket, read directly; a parameter that is not set asks for nothing.
\<close>

definition asks :: "smap \<Rightarrow> string \<Rightarrow> (string \<Rightarrow> bool) \<Rightarrow> bool" where
  "asks params k P = (case map_of params k of None \<Rightarrow> True | Some v \<Rightarrow> P v)"

definition satisfies :: "smap \<Rightarrow> BucketAttrs \<Rightarrow> bool" where
  "satisfies params a \<longleftrightarrow>
     asks params ''uniformBucketLevelAccess'' (\<lambda>v. ParseBool v = Some (baUniformBucketLevelAccess a)) \<and>
     asks params ''versioning'' (\<lambda>v. ParseBool v = Some (baVersioningEnabled a)) \<and>
     asks params ''lifecycle'' (\<lambda>v. gcs_parseLifecycle v = Inr (baLifecycle a)) \<and>
     asks params ''softDeleteRetentionSeconds'' (\<lambda>v. parseSoftDeleteRetention v = Inr (or_else (baSoftDeletePolicy a) 0)) \<and>
     asks params ''labels'' (\<lambda>v. case parseLabels v of Inl _ \<Rightarrow> False | Inr want \<Rightarrow> \<forall>(k, x) \<in> set want. get0 (baLabels a) k = x)"




text \<open>The lifecycle the parameters ask for spells out no empty list.\<close>

definition empty_lists :: "gcs_rule \<Rightarrow> bool" where
  "empty_lists r \<longleftrightarrow> glMatchesPrefix r = Some [] \<or> glMatchesSuffix r = Some [] \<or> glMatchesStorageClasses r = Some []"





lemma parse_bool_Inr: "parse_bool v = Inr b \<longleftrightarrow> ParseBool v = Some b"
  by (simp add: parse_bool_def split: option.split)


lemma managed_Inr:
  "managed_param params k parse = Inr x \<longleftrightarrow> (case map_of params k of None \<Rightarrow> x = None | Some v \<Rightarrow> \<exists>y. parse v = Inr y \<and> x = Some y)"
  by (auto simp: managed_param_def split: option.splits sum.splits)

lemma managed_values_Inr:
  "managed_values params = Inr (ubla, versioning, lifecycle, soft, labels) \<longleftrightarrow>
     managed_param params ''uniformBucketLevelAccess'' parse_bool = Inr ubla \<and> managed_param params ''versioning'' parse_bool = Inr versioning \<and>
     managed_param params ''lifecycle'' gcs_parseLifecycle = Inr lifecycle \<and>
     managed_param params ''softDeleteRetentionSeconds'' parseSoftDeleteRetention = Inr soft \<and> managed_param params ''labels'' parseLabels = Inr labels"
  by (auto simp: managed_values_def split: sum.splits)

lemma valid_parameter_parses:
  assumes "gcs_ValidateParameters cfg params = None" "map_of params k = Some v"
  shows "k = ''uniformBucketLevelAccess'' \<or> k = ''versioning'' \<Longrightarrow> \<exists>b. parse_bool v = Inr b"
    and "k = ''lifecycle'' \<Longrightarrow> \<exists>lc. gcs_parseLifecycle v = Inr lc"
    and "k = ''softDeleteRetentionSeconds'' \<Longrightarrow> \<exists>d. parseSoftDeleteRetention v = Inr d"
    and "k = ''labels'' \<Longrightarrow> \<exists>ls. parseLabels v = Inr ls"
proof -
  have c: "gcs_check_parameter cfg k v = None"
    using assms by (auto simp: gcs_ValidateParameters_def range_check_None dest: map_of_SomeD)
  show "k = ''uniformBucketLevelAccess'' \<or> k = ''versioning'' \<Longrightarrow> \<exists>b. parse_bool v = Inr b"
    using c by (auto simp: gcs_check_parameter_def parse_bool_Inr Let_def split: if_splits)
  show "k = ''lifecycle'' \<Longrightarrow> \<exists>lc. gcs_parseLifecycle v = Inr lc"
    using c by (simp add: gcs_check_parameter_def Let_def split: sum.splits)
  show "k = ''softDeleteRetentionSeconds'' \<Longrightarrow> \<exists>d. parseSoftDeleteRetention v = Inr d"
    using c by (simp add: gcs_check_parameter_def Let_def split: sum.splits)
  show "k = ''labels'' \<Longrightarrow> \<exists>ls. parseLabels v = Inr ls"
    using c by (simp add: gcs_check_parameter_def Let_def split: sum.splits)
qed

lemma managed_exists:
  "(\<And>v. map_of params k = Some v \<Longrightarrow> \<exists>y. parse v = Inr y) \<Longrightarrow> \<exists>x. managed_param params k parse = Inr x"
  by (cases "map_of params k") (auto simp: managed_param_def)

lemma valid_managed:
  assumes "gcs_ValidateParameters cfg params = None"
  obtains ubla versioning lifecycle soft labels where "managed_values params = Inr (ubla, versioning, lifecycle, soft, labels)"
proof -
  note v = valid_parameter_parses [OF assms]
  obtain ubla where 1: "managed_param params ''uniformBucketLevelAccess'' parse_bool = Inr ubla"
    using managed_exists [of params "''uniformBucketLevelAccess''" parse_bool] v(1) by blast
  obtain versioning where 2: "managed_param params ''versioning'' parse_bool = Inr versioning"
    using managed_exists [of params "''versioning''" parse_bool] v(1) by blast
  obtain lifecycle where 3: "managed_param params ''lifecycle'' gcs_parseLifecycle = Inr lifecycle"
    using managed_exists [of params "''lifecycle''" gcs_parseLifecycle] v(2) by blast
  obtain soft where 4: "managed_param params ''softDeleteRetentionSeconds'' parseSoftDeleteRetention = Inr soft"
    using managed_exists [of params "''softDeleteRetentionSeconds''" parseSoftDeleteRetention] v(3) by blast
  obtain labels where 5: "managed_param params ''labels'' parseLabels = Inr labels"
    using managed_exists [of params "''labels''" parseLabels] v(4) by blast
  show ?thesis by (rule that) (simp add: managed_values_Inr 1 2 3 4 5)
qed

text \<open>The five parameters one at a time: parsed values against the reading of the parameter.\<close>

lemma asks_managed:
  "managed_param params k parse = Inr x \<Longrightarrow> asks params k P = (case x of None \<Rightarrow> True | Some y \<Rightarrow> \<exists>v. map_of params k = Some v \<and> parse v = Inr y \<and> P v)"
  by (auto simp: managed_Inr asks_def split: option.splits)

definition wanted :: "bool option \<times> bool option \<times> Lifecycle option \<times> duration option \<times> smap option \<Rightarrow> BucketAttrs \<Rightarrow> bool" where
  "wanted m a = (case m of (ubla, versioning, lifecycle, soft, labels) \<Rightarrow>
     ubla \<in> {None, Some (baUniformBucketLevelAccess a)} \<and> versioning \<in> {None, Some (baVersioningEnabled a)} \<and>
     lifecycle \<in> {None, Some (baLifecycle a)} \<and> soft \<in> {None, Some (or_else (baSoftDeletePolicy a) 0)} \<and>
     (\<forall>(k, x) \<in> set (or_else labels []). get0 (baLabels a) k = x))"

lemma satisfies_wanted:
  assumes "managed_values params = Inr m"
  shows "satisfies params a \<longleftrightarrow> wanted m a"
proof -
  obtain ubla versioning lifecycle soft labels where m: "m = (ubla, versioning, lifecycle, soft, labels)" by (cases m)
  note g = assms [unfolded m managed_values_Inr]
  have bool: "asks params k (\<lambda>v. ParseBool v = Some b) \<longleftrightarrow> x \<in> {None, Some b}" if "managed_param params k parse_bool = Inr x" for k x b
    using that by (auto simp: managed_Inr asks_def parse_bool_Inr split: option.splits)
  have val: "asks params k (\<lambda>v. parse v = Inr b) \<longleftrightarrow> x \<in> {None, Some b}" if "managed_param params k parse = Inr x" for k x b and parse :: "string \<Rightarrow> goerr + Lifecycle"
    using that by (auto simp: managed_Inr asks_def split: option.splits)
  have dur: "asks params k (\<lambda>v. parse v = Inr b) \<longleftrightarrow> x \<in> {None, Some b}" if "managed_param params k parse = Inr x" for k x b and parse :: "string \<Rightarrow> goerr + duration"
    using that by (auto simp: managed_Inr asks_def split: option.splits)
  have lab: "asks params ''labels'' (\<lambda>v. case parseLabels v of Inl _ \<Rightarrow> False | Inr want \<Rightarrow> \<forall>(k, x) \<in> set want. get0 (baLabels a) k = x) \<longleftrightarrow>
      (\<forall>(k, x) \<in> set (or_else labels []). get0 (baLabels a) k = x)"
    using g by (auto simp: managed_Inr asks_def or_else_def split: option.splits)
  from g show ?thesis unfolding satisfies_def wanted_def m prod.case by (simp only: bool val dur lab)
qed

lemma differs: "(x \<noteq> None \<and> x \<noteq> Some b) = (x \<notin> {None, Some b})"
  by auto

lemma label_differs: "list_ex (\<lambda>(k, v). get0 m k \<noteq> v) l = (\<not> (\<forall>(k, x) \<in> set l. get0 m k = x))"
  unfolding list_ex_iff by (simp add: case_prod_unfold)

lemma updateForDrift_wanted:
  assumes "managed_values params = Inr m"
  shows "updateForDrift params a = Inr (if wanted m a then None else
    (case m of (ubla, versioning, lifecycle, soft, labels) \<Rightarrow>
       Some \<lparr>buUniformBucketLevelAccess = ubla, buVersioningEnabled = versioning, buLifecycle = lifecycle, buSoftDeletePolicy = soft,
             buSetLabels = copy_into [] (or_else labels [])\<rparr>))"
proof -
  obtain ubla versioning lifecycle soft labels where m: "m = (ubla, versioning, lifecycle, soft, labels)" by (cases m)
  have "ubla \<noteq> None \<and> ubla \<noteq> Some (baUniformBucketLevelAccess a) \<or> versioning \<noteq> None \<and> versioning \<noteq> Some (baVersioningEnabled a) \<or>
      lifecycle \<noteq> None \<and> lifecycle \<noteq> Some (baLifecycle a) \<or> soft \<noteq> None \<and> soft \<noteq> Some (or_else (baSoftDeletePolicy a) 0) \<or>
      list_ex (\<lambda>(k, v). get0 (baLabels a) k \<noteq> v) (or_else labels []) \<longleftrightarrow> \<not> wanted m a"
    unfolding wanted_def m prod.case by (simp only: differs label_differs de_Morgan_conj)
  then show ?thesis unfolding updateForDrift_def assms m Let_def sum.case prod.case by simp
qed

lemma get0_copy_into: "wf_map src \<Longrightarrow> get0 (copy_into dst src) k = (case map_of src k of Some v \<Rightarrow> v | None \<Rightarrow> get0 dst k)"
  by (simp add: get0_def map_of_copy_into map_add_def split: option.split)








text \<open>JSON text with backquotes for quotation marks, for the examples.\<close>

definition quoted :: "string \<Rightarrow> string" where
  "quoted s = map (\<lambda>c. if c = CHR 0x60 then dquote else c) s"

definition demo_gcs_attrs :: BucketAttrs where
  "demo_gcs_attrs = \<lparr>baLocation = ''EU'', baUniformBucketLevelAccess = False, baVersioningEnabled = False, baLifecycle = None,
     baSoftDeletePolicy = Some (604800 * Second), baLabels = [(''team'', ''a''), (''env'', ''prod'')]\<rparr>"


definition demo_gcs_config :: gcs_config where
  "demo_gcs_config = \<lparr>gcProject = ''p'', gcEndpoint = [], gcRegion = [], gcAccessKeyID = ''k'', gcSecretAccessKey = ''s'',
     gcServiceAccounts = Some \<lparr>sacProject = ''ids'', sacEndpoint = [], sacInsecure = False\<rparr>\<rparr>"






section \<open>Teardown\<close>

text \<open>The bucket is known to be gone: its deletion succeeded, or an answer said that it does not exist.\<close>

fun says_gone :: "string \<Rightarrow> 'p gcs_event \<Rightarrow> bool" where
  "says_gone b (GDeleted n r) = (n = b \<and> (case r of None \<Rightarrow> True | Some e \<Rightarrow> ErrBucketNotExist e \<or> gcs_isNotFound e))"
| "says_gone b (GotNext n v i r) = (n = b \<and> (case r of NextErr e \<Rightarrow> ErrBucketNotExist e \<or> gcs_isNotFound e | _ \<Rightarrow> False))"
| "says_gone b (GObjectDeleted n k g r) = (n = b \<and> (case r of Some e \<Rightarrow> ErrBucketNotExist e \<or> gcs_isNotFound e | None \<Rightarrow> False))"
| "says_gone b e = False"

fun listed_live :: "'p gcs_event \<Rightarrow> bool" where
  "listed_live (GotNext n v i (Next a)) = (oaDeleted a = None)"
| "listed_live e = False"

fun listing_refused :: "'p gcs_event \<Rightarrow> bool" where
  "listing_refused (GotNext n v i (NextErr e)) = gcs_isForbidden e"
| "listing_refused e = False"

fun is_object_delete :: "'p gcs_event \<Rightarrow> bool" where
  "is_object_delete (GObjectDeleted n k g r) = True"
| "is_object_delete e = False"

text \<open>What \<open>DeleteBuckety\<close> may do after the calls \<open>h\<close> of the same pass.\<close>

fun teardown_rule :: "('w, 'p) gcs_state \<Rightarrow> string \<Rightarrow> string \<Rightarrow> 'p gcs_event list \<Rightarrow> 'p gcs_event \<Rightarrow> bool" where
  "teardown_rule D sa b h (GObjectDeleted n k g r) = (n = b \<and> (\<exists>i a. GotNext b True i (Next a) \<in> set h \<and> oaName a = k \<and> oaGeneration a = g))"
| "teardown_rule D sa b h (GDeleted n r) = (n = b \<and> (list_ex listed_live h \<longrightarrow> list_ex listing_refused h))"
| "teardown_rule D sa b h (GotNext n v i r) = (n = b \<and> v)"
| "teardown_rule D sa b h (GotAccount res r) = (res = saResource D (saEmail D sa) \<and> list_ex (says_gone b) h)"
| "teardown_rule D sa b h (AccountDeleted res r) =
     (res = saResource D (saEmail D sa) \<and> list_ex (says_gone b) h \<and> owned D sa b h)"
| "teardown_rule D sa b h e = False"

definition listed_target :: "string \<Rightarrow> 'p gcs_event list \<Rightarrow> target \<Rightarrow> bool" where
  "listed_target b h t \<longleftrightarrow> (\<exists>i a. GotNext b True i (Next a) \<in> set h \<and> tgKey t = oaName a \<and> tgGen t = oaGeneration a)"

definition only_listed :: "'p gcs_event list \<Rightarrow> bool" where
  "only_listed h = list_all (\<lambda>e. \<not> is_object_delete e) h"

lemma list_targets_teardown:
  assumes "list_all (listed_target b h) acc" "list_ex listed_live h \<longleftrightarrow> list_ex tgLive acc" "only_listed h" "length acc + k \<le> N"
  shows "keeps (teardown_rule D sa b) h (list_targets D b k acc) (\<lambda>r h'. only_listed h' \<and>
    (case r of
       Inl (NoListPermission _) \<Rightarrow> list_ex listing_refused h'
     | Inl (SliceFailed e) \<Rightarrow> ErrBucketNotExist e \<or> gcs_isNotFound e \<longrightarrow> list_ex (says_gone b) h'
     | Inr ts \<Rightarrow> list_all (listed_target b h') ts \<and> (list_ex listed_live h' \<longleftrightarrow> list_ex tgLive ts) \<and> length ts \<le> N))"
  using assms
proof (induction k arbitrary: h acc)
  case 0
  then show ?case by (auto intro!: keeps_rules)
next
  case (Suc k)
  have mono: "listed_target b (h @ [e]) t" if "listed_target b h t" for e t using that by (auto simp: listed_target_def)
  have new: "listed_target b (h @ [GotNext b True i (Next x)]) \<lparr>tgKey = oaName x, tgGen = oaGeneration x, tgLive = l\<rparr>" for i x l
    by (auto simp: listed_target_def)
  show ?case
    unfolding list_targets.simps
  proof (intro keeps_rules)
    fix a :: next_result
    show "keeps (teardown_rule D sa b) (h @ [GotNext b True (length acc) a])
        (case a of Done \<Rightarrow> ret (Inr acc) | NextErr e \<Rightarrow> ret (Inl (if gcs_isForbidden e then NoListPermission e else SliceFailed e))
         | Next a \<Rightarrow> list_targets D b k (acc @ [\<lparr>tgKey = oaName a, tgGen = oaGeneration a, tgLive = oaDeleted a = None\<rparr>]))
        (\<lambda>r h'. only_listed h' \<and>
          (case r of Inl (NoListPermission _) \<Rightarrow> list_ex listing_refused h'
           | Inl (SliceFailed e) \<Rightarrow> ErrBucketNotExist e \<or> gcs_isNotFound e \<longrightarrow> list_ex (says_gone b) h'
           | Inr ts \<Rightarrow> list_all (listed_target b h') ts \<and> (list_ex listed_live h' \<longleftrightarrow> list_ex tgLive ts) \<and> length ts \<le> N))"
    proof (cases a)
      case (Next x)
      show ?thesis
        unfolding Next next_result.case
        by (rule keeps_mono [OF Suc.IH])
           (use Suc.prems mono new in \<open>auto simp: list_all_iff only_listed_def split: sum.splits slice_error.splits\<close>)
    qed (use Suc.prems mono in \<open>auto simp: only_listed_def list_all_iff intro!: keeps_rules\<close>)
  qed auto
qed


lemma bucket_errors_wrapped:
  "ErrBucketNotExist (Wrapf f args e) = ErrBucketNotExist e" "gcs_isNotFound (Wrapf f args e) = gcs_isNotFound e"
  by (simp_all add: ErrBucketNotExist_def sentinel_def gcs_isNotFound_def gapiCode_def)

lemma delete_target_teardown:
  assumes "listed_target b h t"
  shows "keeps (teardown_rule D sa b) h (delete_target D b t) (\<lambda>r h'. \<exists>x. h' = h @ [GObjectDeleted b (tgKey t) (tgGen t) x] \<and>
    (case r of None \<Rightarrow> True | Some e \<Rightarrow> ErrBucketNotExist e \<or> gcs_isNotFound e \<longrightarrow> says_gone b (GObjectDeleted b (tgKey t) (tgGen t) x :: 'p gcs_event)))"
  unfolding delete_target_def
  by (intro keeps_rules) (use assms in \<open>fastforce simp: listed_target_def\<close>, auto simp: bucket_errors_wrapped split: option.splits)

lemma run_workers_teardown:
  assumes "list_all (listed_target b h) ts"
  shows "keeps (teardown_rule D sa b) h (run_workers D b ts) (\<lambda>r h'.
    length (filter is_object_delete h') = length (filter is_object_delete h) + length ts \<and>
    (list_ex listed_live h' \<longleftrightarrow> list_ex listed_live h) \<and>
    (case r of None \<Rightarrow> True | Some e \<Rightarrow> ErrBucketNotExist e \<or> gcs_isNotFound e \<longrightarrow> list_ex (says_gone b) h'))"
  using assms
proof (induction ts arbitrary: h)
  case Nil
  then show ?case by (auto intro!: keeps_rules)
next
  case (Cons t ts)
  have mono: "list_all (listed_target b (h @ [e])) ts" for e using Cons.prems by (auto simp: listed_target_def list_all_iff) blast
  have t: "listed_target b h t" using Cons.prems by simp
  show ?case
    unfolding run_workers.simps
    by (rule keeps_bind, rule keeps_mono [OF delete_target_teardown [OF t]], elim exE conjE, hypsubst,
        rule keeps_bind, rule keeps_mono [OF keeps_extends [OF Cons.IH [OF mono]]], rule keeps_ret)
       (auto split: option.splits)
qed


text \<open>The workers run every target once, in some order.\<close>

definition schedules_all :: "('w, 'p) gcs_client \<Rightarrow> bool" where
  "schedules_all C \<longleftrightarrow> (\<forall>ts w. mset (fst (gsSchedule C ts w)) = mset ts)"

definition slice_answer :: "string \<Rightarrow> slice_error + nat \<times> nat \<Rightarrow> 'p gcs_event list \<Rightarrow> bool" where
  "slice_answer b r h \<longleftrightarrow> length (filter is_object_delete h) \<le> emptyDeleteSliceSize \<and>
     (case r of
        Inl (NoListPermission _) \<Rightarrow> list_ex listing_refused h
      | Inl (SliceFailed e) \<Rightarrow> ErrBucketNotExist e \<or> gcs_isNotFound e \<longrightarrow> list_ex (says_gone b) h
      | Inr (live, listed) \<Rightarrow> live = 0 \<longrightarrow> \<not> list_ex listed_live h)"

lemma only_listed_none: "only_listed h \<Longrightarrow> filter is_object_delete h = []"
  by (simp add: only_listed_def list_all_iff filter_empty_conv)

lemma emptyBucketSlice_teardown:
  fixes D :: "('w, 'p) gcs_state"
  assumes "schedules_all (gdClient D)"
  shows "keeps (teardown_rule D sa b) [] (gcs_emptyBucketSlice D b) (slice_answer b)"
  unfolding gcs_emptyBucketSlice_def
proof (rule keeps_bind, rule keeps_mono [OF list_targets_teardown [where N = emptyDeleteSliceSize]])
  fix l and h' :: "'p gcs_event list"
  assume l: "only_listed h' \<and> (case l of Inl (NoListPermission _) \<Rightarrow> list_ex listing_refused h'
    | Inl (SliceFailed e) \<Rightarrow> ErrBucketNotExist e \<or> gcs_isNotFound e \<longrightarrow> list_ex (says_gone b) h'
    | Inr ts \<Rightarrow> list_all (listed_target b h') ts \<and> list_ex listed_live h' = list_ex tgLive ts \<and> length ts \<le> emptyDeleteSliceSize)"
  show "keeps (teardown_rule D sa b) h' (case l of Inl e \<Rightarrow> ret (Inl e) | Inr targets \<Rightarrow> if targets = [] then ret (Inr (0, 0))
     else do { order \<leftarrow> ext (gsSchedule (gdClient D) targets); x \<leftarrow> run_workers D b order;
       ret (case x of Some e \<Rightarrow> Inl (SliceFailed e) | None \<Rightarrow> Inr (length (filter tgLive targets), length targets)) }) (slice_answer b)"
  proof (cases l)
    case (Inl e)
    with l show ?thesis by (auto simp: slice_answer_def only_listed_none intro!: keeps_rules split: slice_error.splits)
  next
    case (Inr ts)
    have lv: "(length (filter tgLive ts) = 0) = (\<not> list_ex tgLive ts)" by (auto simp: list_ex_iff filter_empty_conv)
    have wk: "keeps (teardown_rule D sa b) h' (run_workers D b order) (\<lambda>x h''. keeps (teardown_rule D sa b) h''
        (ret (case x of Some e \<Rightarrow> Inl (SliceFailed e) | None \<Rightarrow> Inr (length (filter tgLive ts), length ts))) (slice_answer b))"
      if "\<exists>w. fst (gsSchedule (gdClient D) ts w) = order" for order
    proof -
      have m: "mset order = mset ts" using that assms by (auto simp: schedules_all_def)
      then have "set order = set ts" "length order = length ts" by (rule mset_eq_setD, rule mset_eq_length)
      with l Inr have t: "list_all (listed_target b h') order" "length order \<le> emptyDeleteSliceSize" by (auto simp: list_all_iff)
      show ?thesis
        by (rule keeps_mono [OF run_workers_teardown [OF t(1)]], rule keeps_ret)
           (use l Inr t(2) lv in \<open>auto simp: slice_answer_def only_listed_none split: option.splits\<close>)
    qed
    show ?thesis
      unfolding Inr sum.case
      by (intro keeps_if keeps_bind keeps_ext_answer keeps_ret)
         (use l Inr wk in \<open>auto simp: slice_answer_def only_listed_none\<close>)
  qed
qed (auto simp: only_listed_def)

lemma deleteBucket_teardown:
  assumes "schedules_all (gdClient D)"
  shows "keeps (teardown_rule D sa b) [] (deleteBucket D b) (\<lambda>r h.
    length (filter is_object_delete h) \<le> emptyDeleteSliceSize \<and> (r = None \<longrightarrow> list_ex (says_gone b) h))"
proof -
  have e: "keeps (teardown_rule D sa b) h (delete_empty D b nl k) (\<lambda>r h'.
      length (filter is_object_delete h') \<le> emptyDeleteSliceSize \<and> (r = None \<longrightarrow> list_ex (says_gone b) h'))"
    if "length (filter is_object_delete h) \<le> emptyDeleteSliceSize" "list_ex listed_live h \<longrightarrow> list_ex listing_refused h" for h nl k
    unfolding delete_empty_def by (intro keeps_rules) (use that in \<open>auto split: option.splits if_splits\<close>)
  show ?thesis
    unfolding deleteBucket_def
    by (rule keeps_bind, rule keeps_mono [OF emptyBucketSlice_teardown [OF assms]])
       (auto simp: slice_answer_def bucket_errors_wrapped intro!: e keeps_rules split: sum.splits slice_error.splits prod.splits)
qed

text \<open>
  C16. Teardown in order. A pass of \<open>DeleteBuckety\<close> deletes at most 256 object generations, each of
  which this pass listed; it deletes the bucket only when the listing showed no live object
  (or could not be read); it looks for the service account only after an answer that the
  bucket is gone, and deletes it only when that account carries the bucket's marker. It answers success
  only when the bucket is gone.
\<close>

theorem gcs_teardown_order:
  assumes "schedules_all (gdClient D)"
  shows "let l = pass_log (gcs_DeleteBuckety D req) s in
    guarded (teardown_rule D (get0 (drParameters req) ''serviceAccount'') (drName req)) [] l \<and> length (filter is_object_delete l) \<le> 256 \<and>
    (pass_out (gcs_DeleteBuckety D req) s = None \<longrightarrow> list_ex (says_gone (drName req)) l)"
proof -
  have d: "keeps (teardown_rule D sa b) h (deleteServiceAccount D iam sa b) (\<lambda>r h'.
      length (filter is_object_delete h') \<le> emptyDeleteSliceSize \<and> list_ex (says_gone b) h')"
    if "length (filter is_object_delete h) \<le> emptyDeleteSliceSize" "list_ex (says_gone b) h" for h iam sa b
    unfolding deleteServiceAccount_def Let_def by (intro keeps_rules) (use that in \<open>auto simp: owned_def verified_marker\<close>)
  have "keeps (teardown_rule D (get0 (drParameters req) ''serviceAccount'') (drName req)) [] (gcs_DeleteBuckety D req) (\<lambda>r h.
      length (filter is_object_delete h) \<le> emptyDeleteSliceSize \<and> (r = None \<longrightarrow> list_ex (says_gone (drName req)) h))"
    unfolding gcs_DeleteBuckety_def Let_def
    by (intro keeps_rules keeps_mono [OF deleteBucket_teardown [OF assms]] keeps_mono [OF d]) auto
  from keepsD [OF this, of s] show ?thesis by (simp add: Let_def emptyDeleteSliceSize_def)
qed


text \<open>A service with one bucket; the world is the list of its object generations. Workers finish in reverse order.\<close>

definition demo_gcs_client :: "(ObjectAttrs list, string list) gcs_client" where
  "demo_gcs_client =
     \<lparr>gsAttrs = (\<lambda>_ w. (Inr demo_gcs_attrs, w)), gsNext = (\<lambda>_ _ n w. (if n < length w then Next (w ! n) else Done, w)),
      gsCreate = (\<lambda>_ _ _ w. (None, w)), gsUpdate = (\<lambda>_ _ w. (None, w)),
      gsDelete = (\<lambda>_ w. (if w = [] then None else Some (BackendError [] 409 ''not empty''), w)),
      gsSchedule = (\<lambda>ts w. (rev ts, w)),
      gsDeleteObject = (\<lambda>_ k g w. (None, filter (\<lambda>a. (oaName a, oaGeneration a) \<noteq> (k, g)) w)),
      gsPolicy = (\<lambda>_ w. (Inr [], w)), gsSetPolicy = (\<lambda>_ _ w. (None, w)), gsHasRole = (\<lambda>p m _. m \<in> set p), gsAdd = (\<lambda>p m _. m # p),
      gsNow = (\<lambda>w. (0, w))\<rparr>"

definition demo_gcs :: "(ObjectAttrs list, string list) gcs_state" where
  "demo_gcs = \<lparr>gdCfg = demo_gcs_config, gdClient = demo_gcs_client, gdIam = None\<rparr>"

definition demo_gcs_objects :: "ObjectAttrs list" where
  "demo_gcs_objects = [\<lparr>oaName = ''a'', oaGeneration = 1, oaDeleted = Some 5\<rparr>, \<lparr>oaName = ''a'', oaGeneration = 2, oaDeleted = None\<rparr>]"

theorem gcs_teardown_order_witness:
  "let req = \<lparr>drName = ''b'', drParameters = []\<rparr>; l = pass_log (gcs_DeleteBuckety demo_gcs req) \<lparr>world = demo_gcs_objects, trace = [], memory = ()\<rparr> in
   guarded (teardown_rule demo_gcs [] ''b'') [] l \<and> length (filter is_object_delete l) \<le> 256"
proof -
  have "schedules_all (gdClient demo_gcs)" by (simp add: schedules_all_def demo_gcs_def demo_gcs_client_def)
  from gcs_teardown_order [OF this, of "\<lparr>drName = ''b'', drParameters = []\<rparr>" "\<lparr>world = demo_gcs_objects, trace = [], memory = ()\<rparr>"]
  show ?thesis by (simp add: Let_def get0_def)
qed


section \<open>Teardown ends\<close>

definition generation :: "ObjectAttrs \<Rightarrow> string \<times> int" where
  "generation a = (oaName a, oaGeneration a)"

text \<open>
  A bucket nobody else writes to: \<open>contents\<close> lists its generations, a listing shows them in order,
  a deletion removes the generation named, and the bucket's deletion is refused while there are
  any.
\<close>

definition quiet_bucket :: "('w, 'p) gcs_client \<Rightarrow> string \<Rightarrow> ('w \<Rightarrow> ObjectAttrs list) \<Rightarrow> bool" where
  "quiet_bucket C b contents \<longleftrightarrow> (\<forall>w.
     (\<forall>n. gsNext C b True n w = (if n < length (contents w) then Next (contents w ! n) else Done, w)) \<and>
     (\<forall>ts. mset (fst (gsSchedule C ts w)) = mset ts \<and> contents (snd (gsSchedule C ts w)) = contents w) \<and>
     (\<forall>k g. fst (gsDeleteObject C b k g w) = None \<and>
        contents (snd (gsDeleteObject C b k g w)) = filter (\<lambda>a. generation a \<noteq> (k, g)) (contents w)) \<and>
     contents (snd (gsDelete C b w)) = contents w \<and>
     (case fst (gsDelete C b w) of
        None \<Rightarrow> contents w = []
      | Some e \<Rightarrow> contents w \<noteq> [] \<and> gcs_isConflict e \<and> \<not> ErrBucketNotExist e))"

definition target_of :: "ObjectAttrs \<Rightarrow> target" where
  "target_of a = \<lparr>tgKey = oaName a, tgGen = oaGeneration a, tgLive = (oaDeleted a = None)\<rparr>"

lemma list_targets_quiet:
  assumes "quiet_bucket (gdClient D) b contents" "length acc \<le> length (contents (world s))"
  shows "\<exists>s'. run_state (list_targets D b k acc) s = (Inr (acc @ map target_of (take k (drop (length acc) (contents (world s))))), s') \<and> world s' = world s"
  using assms(2)
proof (induction k arbitrary: acc s)
  case (Suc k)
  let ?c = "contents (world s)"
  have n: "gsNext (gdClient D) b True (length acc) (world s) = (if length acc < length ?c then Next (?c ! length acc) else Done, world s)"
    using assms(1) by (simp add: quiet_bucket_def)
  show ?case
  proof (cases "length acc < length ?c")
    case True
    let ?t = "target_of (?c ! length acc)" and ?s = "s\<lparr>trace := trace s @ [GotNext b True (length acc) (Next (?c ! length acc))]\<rparr>"
    have "take (Suc k) (drop (length acc) ?c) = ?c ! length acc # take k (drop (Suc (length acc)) ?c)"
      using True by (metis Cons_nth_drop_Suc take_Suc_Cons)
    with Suc.IH [of "acc @ [?t]" ?s] Suc.prems True n show ?thesis
      by (simp add: call_def ext_def emit_def target_of_def)
  qed (use n Suc.prems in \<open>auto simp: call_def ext_def emit_def\<close>)
qed simp

lemma quiet_delete:
  assumes "quiet_bucket C b contents"
  obtains w' where "gsDeleteObject C b k g w = (None, w')" "contents w' = filter (\<lambda>a. generation a \<noteq> (k, g)) (contents w)"
proof -
  from assms have "fst (gsDeleteObject C b k g w) = None \<and>
      contents (snd (gsDeleteObject C b k g w)) = filter (\<lambda>a. generation a \<noteq> (k, g)) (contents w)"
    unfolding quiet_bucket_def by blast
  then show ?thesis by (intro that [of "snd (gsDeleteObject C b k g w)"]) (simp_all add: prod_eq_iff)
qed

lemma run_workers_quiet:
  assumes "quiet_bucket (gdClient D) b contents"
  shows "\<exists>s'. run_state (run_workers D b ts) s = (None, s') \<and>
    contents (world s') = filter (\<lambda>a. generation a \<notin> (\<lambda>t. (tgKey t, tgGen t)) ` set ts) (contents (world s))"
proof (induction ts arbitrary: s)
  case (Cons t ts)
  from quiet_delete [OF assms] obtain w where w: "gsDeleteObject (gdClient D) b (tgKey t) (tgGen t) (world s) = (None, w)"
    "contents w = filter (\<lambda>a. generation a \<noteq> (tgKey t, tgGen t)) (contents (world s))" .
  let ?s = "s\<lparr>world := w, trace := trace s @ [GObjectDeleted b (tgKey t) (tgGen t) None]\<rparr>"
  from Cons.IH [of ?s] obtain s' where s': "run_state (run_workers D b ts) ?s = (None, s')"
    "contents (world s') = filter (\<lambda>a. generation a \<notin> (\<lambda>t. (tgKey t, tgGen t)) ` set ts) (contents w)" by auto
  have "run_state (run_workers D b (t # ts)) s = (None, s')"
    using s'(1) by (simp add: delete_target_def call_def ext_def emit_def w(1))
  moreover have "contents (world s') = filter (\<lambda>a. generation a \<notin> (\<lambda>t. (tgKey t, tgGen t)) ` set (t # ts)) (contents (world s))"
    unfolding s'(2) w(2) by (simp add: conj_commute)
  ultimately show ?case by blast
qed simp


lemma filter_not_taken:
  assumes "distinct (map f xs)"
  shows "filter (\<lambda>a. f a \<notin> f ` set (take k xs)) xs = drop k xs"
proof -
  have d: "f ` set (take k xs) \<inter> f ` set (drop k xs) = {}"
  proof -
    have "distinct (map f (take k xs) @ map f (drop k xs))" using assms by (metis append_take_drop_id map_append)
    then show ?thesis by simp
  qed
  have "filter (\<lambda>a. f a \<notin> f ` set (take k xs)) (take k xs) = []" by (simp add: filter_empty_conv)
  moreover have "filter (\<lambda>a. f a \<notin> f ` set (take k xs)) (drop k xs) = drop k xs" unfolding filter_id_conv using d by blast
  ultimately show ?thesis by (metis append_Nil append_take_drop_id filter_append)
qed

text \<open>One emptying pass on a quiet bucket removes the first slice of its contents.\<close>

lemma slice_quiet:
  assumes q: "quiet_bucket (gdClient D) b contents" and d: "distinct (map generation (contents (world s)))"
  shows "\<exists>s'. run_state (gcs_emptyBucketSlice D b) s =
      (Inr (length (filter (\<lambda>a. oaDeleted a = None) (take emptyDeleteSliceSize (contents (world s)))), length (take emptyDeleteSliceSize (contents (world s)))), s') \<and>
    contents (world s') = drop emptyDeleteSliceSize (contents (world s))"
proof -
  let ?c = "contents (world s)" and ?n = emptyDeleteSliceSize
  let ?ts = "map target_of (take ?n ?c)"
  from list_targets_quiet [OF q, of "[]" s ?n] obtain s1 where s1: "run_state (list_targets D b ?n []) s = (Inr ?ts, s1)" "world s1 = world s" by auto
  show ?thesis
  proof (cases "?ts = []")
    case True
    then have "?c = []" by (cases ?c) (auto simp: emptyDeleteSliceSize_def)
    with s1 show ?thesis by (simp add: gcs_emptyBucketSlice_def)
  next
    case False
    obtain order w where o: "gsSchedule (gdClient D) ?ts (world s) = (order, w)" by fastforce
    with q have m: "mset order = mset ?ts" "contents w = ?c" unfolding quiet_bucket_def by (metis fst_conv, metis snd_conv)
    from run_workers_quiet [OF q, of order "s1\<lparr>world := w\<rparr>"] obtain s2 where
      s2: "run_state (run_workers D b order) (s1\<lparr>world := w\<rparr>) = (None, s2)"
        "contents (world s2) = filter (\<lambda>a. generation a \<notin> (\<lambda>t. (tgKey t, tgGen t)) ` set order) ?c" using m(2) by auto
    have "(\<lambda>t. (tgKey t, tgGen t)) ` set order = generation ` set (take ?n ?c)"
      using mset_eq_setD [OF m(1)] by (auto simp: target_of_def generation_def image_image)
    with s2(2) filter_not_taken [OF d, of ?n] have c: "contents (world s2) = drop ?n ?c" by simp
    have l: "length (filter tgLive ?ts) = length (filter (\<lambda>a. oaDeleted a = None) (take ?n ?c))"
      by (simp add: filter_map comp_def target_of_def)
    have "run_state (gcs_emptyBucketSlice D b) s = (Inr (length (filter tgLive ?ts), length ?ts), s2)"
      using False s1 s2(1) o by (simp add: gcs_emptyBucketSlice_def ext_def)
    with c l show ?thesis by simp
  qed
qed

text \<open>
  The identity goes without trouble: the bucket declares no service account, or the backend has none,
  or the IAM service answers for the account (found or not) and its deletion, leaving the bucket alone.
\<close>

definition identity_removable :: "('w, 'p) gcs_state \<Rightarrow> DeleteRequest \<Rightarrow> ('w \<Rightarrow> ObjectAttrs list) \<Rightarrow> bool" where
  "identity_removable D dr contents = (
     let sa = get0 (drParameters dr) ''serviceAccount''; resource = saResource D (saEmail D sa) in
     sa = [] \<or>
     (case gdIam D of
        None \<Rightarrow> True
      | Some iam \<Rightarrow> \<forall>w.
          (case imGet iam resource w of (r, w') \<Rightarrow> contents w' = contents w \<and> (case r of Inl e \<Rightarrow> gcs_isNotFound e | Inr _ \<Rightarrow> True)) \<and>
          (case imDelete iam resource w of (r, w') \<Rightarrow> contents w' = contents w \<and> (case r of Some e \<Rightarrow> gcs_isNotFound e | None \<Rightarrow> True))))"

lemma deleteServiceAccount_quiet:
  assumes "identity_removable D dr contents" "gdIam D = Some iam" "get0 (drParameters dr) ''serviceAccount'' = sa" "sa \<noteq> []"
  shows "\<exists>s'. run_state (deleteServiceAccount D iam sa b) s = (None, s') \<and> contents (world s') = contents (world s)"
proof -
  let ?res = "saResource D (saEmail D sa)"
  obtain g w where g: "imGet iam ?res (world s) = (g, w)" by fastforce
  obtain x w' where x: "imDelete iam ?res w = (x, w')" by fastforce
  have all: "(case imGet iam ?res v of (r, v') \<Rightarrow> contents v' = contents v \<and> (case r of Inl e \<Rightarrow> gcs_isNotFound e | Inr _ \<Rightarrow> True)) \<and>
      (case imDelete iam ?res v of (r, v') \<Rightarrow> contents v' = contents v \<and> (case r of Some e \<Rightarrow> gcs_isNotFound e | None \<Rightarrow> True))" for v
    using assms by (simp add: identity_removable_def Let_def)
  have "contents w = contents (world s)" "case g of Inl e \<Rightarrow> gcs_isNotFound e | Inr _ \<Rightarrow> True"
    "contents w' = contents w" "case x of Some e \<Rightarrow> gcs_isNotFound e | None \<Rightarrow> True"
    using all [of "world s"] all [of w] g x by simp_all
  with g x show ?thesis
    by (auto simp: deleteServiceAccount_def Let_def call_def ext_def emit_def split: sum.splits option.splits)
qed

text \<open>One pass of deletion: it ends, or the contents shrink and the answer is that it goes on.\<close>

lemma delete_pass_quiet:
  assumes q: "quiet_bucket (gdClient D) (drName req) contents" and d: "distinct (map generation (contents (world s)))"
    and sa: "identity_removable D req contents"
  shows "\<exists>r s'. run_state (gcs_DeleteBuckety D req) s = (r, s') \<and> contents (world s') = drop emptyDeleteSliceSize (contents (world s)) \<and>
    (r = None \<or> (\<exists>p. r = Some (ErrDeletionInProgress p False)) \<and> contents (world s) \<noteq> [])"
proof -
  let ?b = "drName req" and ?c = "contents (world s)" and ?n = emptyDeleteSliceSize
  let ?live = "length (filter (\<lambda>a. oaDeleted a = None) (take ?n ?c))"
  from slice_quiet [OF q d] obtain s1 where s1: "run_state (gcs_emptyBucketSlice D ?b) s = (Inr (?live, length (take ?n ?c)), s1)"
    "contents (world s1) = drop ?n ?c" by blast
  obtain x w where x: "gsDelete (gdClient D) ?b (world s1) = (x, w)" by fastforce
  have xw: "contents w = drop ?n ?c" "case x of None \<Rightarrow> drop ?n ?c = [] | Some e \<Rightarrow> drop ?n ?c \<noteq> [] \<and> gcs_isConflict e \<and> \<not> ErrBucketNotExist e"
    using q [unfolded quiet_bucket_def, rule_format, of "world s1"] x s1(2) by (auto split: option.split_asm option.split)
  have nf: "gcs_isConflict e \<Longrightarrow> \<not> gcs_isNotFound e" for e
    by (auto simp: gcs_isConflict_def gcs_isNotFound_def gapiCode_def split: goerr.splits)
  show ?thesis
  proof (cases "?live > 0")
    case True
    then have "?c \<noteq> []" by auto
    with True s1 show ?thesis by (simp add: gcs_DeleteBuckety_def deleteBucket_def)
  next
    case False
    show ?thesis
    proof (cases x)
      case None
      let ?s2 = "s1\<lparr>world := w, trace := trace s1 @ [GDeleted ?b None]\<rparr>"
      have d: "run_state (deleteBucket D ?b) s = (None, ?s2)"
        using None False s1 x by (simp add: deleteBucket_def delete_empty_def call_def ext_def emit_def)
      show ?thesis
      proof (cases "get0 (drParameters req) ''serviceAccount'' = [] \<or> gdIam D = None")
        case True
        with d xw(1) show ?thesis by (auto simp: gcs_DeleteBuckety_def Let_def split: option.splits)
      next
        case False
        then obtain iam where iam: "gdIam D = Some iam" "get0 (drParameters req) ''serviceAccount'' \<noteq> []" by blast
        from deleteServiceAccount_quiet [OF sa iam(1) refl iam(2), of ?b ?s2] d xw(1) iam show ?thesis
          by (auto simp: gcs_DeleteBuckety_def Let_def)
      qed
    next
      case (Some e)
      with xw have "?c \<noteq> []" "gcs_isConflict e" "\<not> ErrBucketNotExist e" "\<not> gcs_isNotFound e" using nf by auto
      moreover have "min (length ?c) ?n \<noteq> 0" using \<open>?c \<noteq> []\<close> by (simp add: emptyDeleteSliceSize_def)
      ultimately show ?thesis
        using Some False s1 x xw by (auto simp: gcs_DeleteBuckety_def deleteBucket_def delete_empty_def call_def ext_def emit_def)
    qed
  qed
qed


lemma gcs_slice_progress:
  assumes "quiet_bucket (gdClient D) (drName req) contents" and d: "distinct (map generation (contents (world s)))"
    and "identity_removable D req contents"
  shows "case run_state (gcs_DeleteBuckety D req) s of (r, s') \<Rightarrow> r = None \<or> (\<exists>q. r = Some (ErrDeletionInProgress q False)) \<and>
      distinct (map generation (contents (world s'))) \<and> (length (contents (world s')) + 255) div 256 < (length (contents (world s)) + 255) div 256"
proof -
  from delete_pass_quiet [OF assms] obtain r s' where r: "run_state (gcs_DeleteBuckety D req) s = (r, s')"
    "contents (world s') = drop emptyDeleteSliceSize (contents (world s))"
    "r = None \<or> (\<exists>p. r = Some (ErrDeletionInProgress p False)) \<and> contents (world s) \<noteq> []" by blast
  have "distinct (map generation (contents (world s')))" using d by (simp add: r(2) drop_map [symmetric])
  moreover have "(length (contents (world s')) + 255) div 256 < (length (contents (world s)) + 255) div 256" if "contents (world s) \<noteq> []"
  proof -
    have "(n - 256 + 255) div 256 < (n + 255) div 256" if "0 < n" for n :: nat using that by (cases "n \<le> 256") auto
    from this [of "length (contents (world s))"] that show ?thesis by (simp add: r(2) emptyDeleteSliceSize_def)
  qed
  ultimately show ?thesis using r(1,3) by auto
qed

text \<open>
  Teardown ends. On a bucket nobody else writes to, live and archived generations alike, and whose
  service account, if any, the IAM service lets go,
  \<open>DeleteBuckety\<close> called again and again as the controller does removes the bucket after at most
  one pass more than there are slices of 256; until then every pass answers
  \<open>ErrDeletionInProgress\<close> without the stalled mark, so the controller requeues promptly.
\<close>

theorem gcs_teardown_ends:
  fixes D :: "('w, 'p) gcs_state"
  assumes "quiet_bucket (gdClient D) (drName req) contents" and "distinct (map generation (contents (world s)))"
    and "identity_removable D req contents"
  shows "\<exists>k \<le> (length (contents (world s)) + 255) div 256.
    pass_out (gcs_DeleteBuckety D req) (after_passes (gcs_DeleteBuckety D req) k s) = None \<and>
    (\<forall>i < k. \<exists>p. pass_out (gcs_DeleteBuckety D req) (after_passes (gcs_DeleteBuckety D req) i s) = Some (ErrDeletionInProgress p False))"
  unfolding pass_out_def
  by (rule deletion_passes_end [where I = "\<lambda>s. distinct (map generation (contents (world s)))" and m = "\<lambda>s. (length (contents (world s)) + 255) div 256"])
     (rule assms(2), rule gcs_slice_progress [OF assms(1) _ assms(3)])

theorem gcs_teardown_ends_witness:
  "let req = \<lparr>drName = ''b'', drParameters = []\<rparr>; s = \<lparr>world = demo_gcs_objects, trace = [], memory = ()\<rparr> in
   \<exists>k \<le> 1. pass_out (gcs_DeleteBuckety demo_gcs req) (after_passes (gcs_DeleteBuckety demo_gcs req) k s) = None"
proof -
  let ?req = "\<lparr>drName = ''b'', drParameters = []\<rparr>" and ?s = "\<lparr>world = demo_gcs_objects, trace = [], memory = ()\<rparr>"
  have 1: "quiet_bucket (gdClient demo_gcs) (drName ?req) (\<lambda>w. w)"
    by (auto simp: quiet_bucket_def demo_gcs_def demo_gcs_client_def generation_def gcs_isConflict_def gapiCode_def ErrBucketNotExist_def sentinel_def)
  have 2: "distinct (map generation (world ?s))" by (simp add: demo_gcs_objects_def generation_def)
  have 3: "identity_removable demo_gcs ?req (\<lambda>w. w)" by (simp add: identity_removable_def get0_def)
  have "(length (world ?s) + 255) div 256 = 1" by (simp add: demo_gcs_objects_def)
  with gcs_teardown_ends [OF 1 2 3] show ?thesis unfolding Let_def by metis
qed


section \<open>Bounds of the soft-delete window\<close>

text \<open>
  The soft-delete window. An accepted value is zero or a window of 7 to 90 days, and the duration
  sent is exactly that many seconds: the 64-bit product never wraps. A value outside is refused.
\<close>

theorem soft_delete_window:
  "(case parseSoftDeleteRetention v of
      Inr d \<Rightarrow> (\<exists>secs. ParseInt v 64 = NumOk secs \<and> d = secs * 1000000000 \<and> secs \<in> {0} \<union> {604800..7776000})
    | Inl _ \<Rightarrow> \<not> (\<exists>secs. ParseInt v 64 = NumOk secs \<and> secs \<in> {0} \<union> {604800..7776000}))"
proof (cases "ParseInt v 64")
  case (NumOk secs)
  show ?thesis
  proof (cases "secs \<in> {0} \<union> {604800..7776000}")
    case True
    then have "to_int 64 (secs * 1000000000) = secs * 1000000000" by (auto simp: to_int_def)
    with True show ?thesis by (auto simp: parseSoftDeleteRetention_def NumOk week_def ninetyDays_def Second_def)
  next
    case False
    then show ?thesis by (auto simp: parseSoftDeleteRetention_def NumOk week_def ninetyDays_def)
  qed
qed (simp_all add: parseSoftDeleteRetention_def)


section \<open>An update that never settles\<close>

text \<open>
  C40. A lifecycle with an empty list never settles. The JSON API omits empty lists, so a bucket read
  back has none (the hypothesis on the attributes); a document that spells one out is accepted, and
  as the comparison tells an empty slice from a nil one, every pass finds drift and sends the
  update again.
\<close>

theorem empty_list_never_settles:
  assumes "gcs_ValidateParameters cfg params = None" and "map_of params ''lifecycle'' = Some doc"
    and "gcs_parseLifecycle doc = Inr (Some rules)" and "\<exists>r \<in> set rules. empty_lists r"
    and "case baLifecycle a of None \<Rightarrow> True | Some rs \<Rightarrow> list_all (\<lambda>r. \<not> empty_lists r) rs"
  shows "\<exists>u. updateForDrift params a = Inr (Some u)"
proof -
  have "\<not> satisfies params a"
  proof
    assume "satisfies params a"
    then have "baLifecycle a = Some rules" using assms(2,3) by (simp add: satisfies_def asks_def)
    with assms(4,5) show False by (auto simp: list_all_iff)
  qed
  moreover obtain m where m: "managed_values params = Inr m" using valid_managed [OF assms(1)] by metis
  ultimately show ?thesis by (cases m) (simp add: updateForDrift_wanted [OF m] satisfies_wanted [OF m])
qed

theorem empty_list_never_settles_witness:
  "let doc = quoted ''{`rule`: [{`action`: {`type`: `Delete`}, `condition`: {`age`: 30, `matchesPrefix`: []}}]}'' in
   \<exists>u. updateForDrift [(''lifecycle'', doc)] demo_gcs_attrs = Inr (Some u)"
proof -
  let ?doc = "quoted ''{`rule`: [{`action`: {`type`: `Delete`}, `condition`: {`age`: 30, `matchesPrefix`: []}}]}''"
  have "case gcs_parseLifecycle ?doc of Inr (Some rules) \<Rightarrow> list_ex empty_lists rules | _ \<Rightarrow> False" by code_simp
  then obtain rules where r: "gcs_parseLifecycle ?doc = Inr (Some rules)" "\<exists>r \<in> set rules. empty_lists r"
    by (auto simp: list_ex_iff split: sum.splits option.splits)
  have v: "gcs_ValidateParameters demo_gcs_config [(''lifecycle'', ?doc)] = None"
    by (simp add: gcs_ValidateParameters_def gcs_check_parameter_def r(1))
  from empty_list_never_settles [OF v _ r, of demo_gcs_attrs] show ?thesis by (simp add: Let_def demo_gcs_attrs_def)
qed


section \<open>Inspection\<close>

fun gcs_evidence :: "string \<Rightarrow> Inspection \<Rightarrow> 'p gcs_event list \<Rightarrow> bool" where
  "gcs_evidence name i [GotAttrs n (Inl e)] = (n = name \<and> \<not> Exists i \<and> \<not> Empty i \<and> ErrBucketNotExist e)"
| "gcs_evidence name i [GotAttrs n (Inr _), GotNext n' v k r] =
     (n = name \<and> n' = name \<and> Exists i \<and>
      (case r of Done \<Rightarrow> Empty i | Next _ \<Rightarrow> \<not> Empty i | NextErr e \<Rightarrow> \<not> Empty i \<and> gcs_isForbidden e))"
| "gcs_evidence name i l = False"

text \<open>Empty on evidence: as for s3, the answer rests on the calls made, all of them reads.\<close>

lemma gcs_empty_on_evidence:
  "case pass_out (gcs_InspectBuckety D name) s of
     Inl _ \<Rightarrow> True
   | Inr i \<Rightarrow> gcs_evidence name i (pass_log (gcs_InspectBuckety D name) s)"
proof -
  have "keeps (\<lambda>_ _. True) [] (gcs_InspectBuckety D name) (\<lambda>r l. case r of Inl _ \<Rightarrow> True | Inr i \<Rightarrow> gcs_evidence name i l)"
    unfolding gcs_InspectBuckety_def by (intro keeps_rules) (auto split: next_result.splits sum.splits)
  from keepsD [OF this, of s] show ?thesis by simp
qed

end
