(* ===== verification/Driver_Journals.thy ===== *)
theory Driver_Journals
  imports Backend_Watch Kadm_Safety Mysql_Safety S3_Safety Gcs_Safety
begin

text \<open>
  What each shipped driver destroys on its backend. A driver's trace is its journal of the calls it
  made of the service; \<open>careful\<close> says that of its operations only \<open>DeleteBuckety\<close> destroys a
  resource or its content, and only the one it was asked for. All four drivers are careful.
\<close>

section \<open>What the drivers destroy\<close>

text \<open>The resources an entry of a driver's trace destroys, content or container.\<close>

fun topics_destroyed :: "kevent \<Rightarrow> string set" where
  "topics_destroyed (TopicDeleted n _) = {n}"
| "topics_destroyed _ = {}"

fun databases_destroyed :: "myevent \<Rightarrow> string set" where
  "databases_destroyed (Executed q _ _) = {n. q = dropDatabaseSQL n}"
| "databases_destroyed _ = {}"

fun s3_buckets_destroyed :: "s3event \<Rightarrow> string set" where
  "s3_buckets_destroyed (BucketDeleted n _) = {n}"
| "s3_buckets_destroyed (ObjectsDeleted n _ _) = {n}"
| "s3_buckets_destroyed _ = {}"

fun gcs_buckets_destroyed :: "'p gcs_event \<Rightarrow> string set" where
  "gcs_buckets_destroyed (GDeleted n _) = {n}"
| "gcs_buckets_destroyed (GObjectDeleted n _ _ _) = {n}"
| "gcs_buckets_destroyed _ = {}"

text \<open>A driver of which only \<open>DeleteBuckety\<close> destroys anything, and only what it names.\<close>

definition careful :: "('w \<Rightarrow> 'v list) \<Rightarrow> ('v \<Rightarrow> string set) \<Rightarrow> 'w Driver \<Rightarrow> bool" where
  "careful journal destroyed d \<longleftrightarrow>
     (\<forall>n. destroys_at_most {} journal destroyed (dInspectBuckety d n)) \<and>
     (\<forall>er. destroys_at_most {} journal destroyed (dEnsureBuckety d er)) \<and>
     (\<forall>dr. destroys_at_most {drName dr} journal destroyed (dDeleteBuckety d dr)) \<and>
     (\<forall>gr. destroys_at_most {} journal destroyed (dGrantAccess d gr)) \<and>
     (\<forall>p. destroys_at_most {} journal destroyed (dRevokeAccess d p)) \<and>
     (\<forall>ns n. destroys_at_most {} journal destroyed (ForgetBuckety d ns n))"

abbreviation spares :: "string set \<Rightarrow> ('e \<Rightarrow> string set) \<Rightarrow> ('w, 'e, 'm, 'a) prog \<Rightarrow> bool" where
  "spares N destroyed p \<equiv> (\<forall>h. keeps (\<lambda>_ e. destroyed e \<subseteq> N) h p (\<lambda>_ _. True))"

lemma spares_run:
  fixes p :: "('w, 'e, 'm, 'a) prog"
  assumes k: "spares N destroyed p"
  shows "destroys_at_most N trace destroyed (run_state p)"
  unfolding destroys_at_most_def
proof (intro allI)
  fix s :: "('w, 'e, 'm) sys"
  have g: "guarded (\<lambda>_ e. destroyed e \<subseteq> N) h l \<Longrightarrow> \<forall>e \<in> set l. destroyed e \<subseteq> N" for h l
    by (induction l arbitrary: h) auto
  have "pass (memory s) p (\<lambda>_ l _. guarded (\<lambda>_ e. destroyed e \<subseteq> N) [] l \<and> True)"
    using keeps_pass [OF k [THEN spec, of "[]"], of "memory s"] by simp
  then show "\<exists>l. trace (snd (run_state p s)) = trace s @ l \<and> (\<forall>e \<in> set l. destroyed e \<subseteq> N)"
    unfolding pass_def using g by (fastforce split: prod.splits)
qed

lemma destroys_nothing: "destroys_at_most N journal destroyed (\<lambda>w. (a, w))"
  by (simp add: destroys_at_most_def)

lemma destroys_forget:
  "dForgetBuckety d = None \<Longrightarrow> destroys_at_most N journal destroyed (ForgetBuckety d ns n)"
  "\<lbrakk>dForgetBuckety d = Some f; destroys_at_most N journal destroyed (f ns n)\<rbrakk> \<Longrightarrow> destroys_at_most N journal destroyed (ForgetBuckety d ns n)"
  by (simp_all add: destroys_at_most_def ForgetBuckety_def)

lemma destroys_repacked:
  "destroys_at_most N journal destroyed f \<Longrightarrow> destroys_at_most N journal destroyed (\<lambda>w. case f w of (a, w') \<Rightarrow> (g a, w'))"
  by (simp add: destroys_at_most_def case_prod_unfold)

lemma kadm_careful: "careful trace topics_destroyed (kadm_driver cfg B pf)"
proof -
  have i: "spares {} topics_destroyed (kadm_InspectBuckety B n)" for n
    unfolding kadm_InspectBuckety_def topicExists_def by (intro allI keeps_rules) auto
  have e: "spares {} topics_destroyed (kadm_EnsureBuckety B pf er)" for er
    unfolding kadm_EnsureBuckety_def describeTopic_def createTopic_def alignTopic_def align_partitions_def align_configs_def
      modify_accepted_def modify_export_def Let_def
    by (intro allI keeps_rules) auto
  have d: "spares {drName dr} topics_destroyed (kadm_DeleteBuckety B dr)" for dr
    unfolding kadm_DeleteBuckety_def modify_accepted_def by (intro allI keeps_rules) auto
  have f: "spares {} topics_destroyed (modify_export (kadm_ForgetBuckety ns n))" for ns n
    unfolding modify_export_def by (intro allI keeps_rules) auto
  show ?thesis
    unfolding careful_def kadm_driver_def
    by (auto intro: destroys_nothing destroys_forget spares_run [OF i] spares_run [OF e] spares_run [OF d] spares_run [OF f])
qed

lemma tame_drops_nothing: "tame cfg e \<Longrightarrow> databases_destroyed e = {}"
  by (induction rule: tame.induct)
     (auto simp: createDatabaseSQL_def dropDatabaseSQL_def createUserSQL_def alterUserSQL_def dropUserSQL_def grantSQL_def revokeSQL_def
        revokeGrantOptionSQL_def split: sum.splits)

lemma quoteIdent_inj: "quoteIdent a = quoteIdent b \<longleftrightarrow> a = b"
  by (metis read_quoteIdent [of "[]"] list.distinct(1) option.inject prod.inject)

lemma mysql_careful: "careful trace databases_destroyed (mysql_driver cfg E)"
proof -
  have t: "spares {} databases_destroyed p" if "inside cfg p" for p :: "('a, 'b) myprog"
    using that by (blast intro: keeps_weaken dest: tame_drops_nothing)
  have d: "spares {drName dr} databases_destroyed (mysql_DeleteBuckety cfg E dr)" for dr
    by (intro allI keeps_weaken [OF inside_DeleteBuckety [THEN spec]]) (auto simp: dropDatabaseSQL_def quoteIdent_inj)
  show ?thesis
    unfolding careful_def mysql_driver_def
    by (auto intro!: destroys_nothing destroys_forget destroys_repacked [where g = "Pair []"] spares_run [OF d] spares_run [OF t]
          inside_InspectBuckety inside_EnsureBuckety inside_GrantAccess inside_RevokeAccess)
qed

lemma s3_careful: "careful trace s3_buckets_destroyed (s3_driver cfg S)"
proof -
  have i: "spares {} s3_buckets_destroyed (s3_InspectBuckety S n)" for n
    unfolding s3_InspectBuckety_def by (intro allI keeps_rules) auto
  have e: "spares {} s3_buckets_destroyed (s3_EnsureBuckety cfg S er)" for er
    unfolding s3_EnsureBuckety_def createBucket_def reconcileVersioning_def reconcileLifecycle_def apply_lifecycle_def Let_def
    by (intro allI keeps_rules) auto
  have d: "spares {drName dr} s3_buckets_destroyed (s3_DeleteBuckety S dr)" for dr
    unfolding s3_DeleteBuckety_def emptyBucketSlice_def delete_listed_def listVersionsPage_def Let_def
    by (intro allI keeps_rules) auto
  show ?thesis
    unfolding careful_def s3_driver_def
    by (auto intro: destroys_nothing destroys_forget destroys_repacked spares_run [OF i] spares_run [OF e] spares_run [OF d])
qed

lemma gcs_careful: "careful trace gcs_buckets_destroyed (gcs_driver D)"
proof -
  have i: "spares {} gcs_buckets_destroyed (gcs_InspectBuckety D n)" for n
    unfolding gcs_InspectBuckety_def by (intro allI keeps_rules) (auto intro!: keeps_rules split: next_result.splits)
  have e: "spares {} gcs_buckets_destroyed (gcs_EnsureBuckety D er)" for er
    unfolding gcs_EnsureBuckety_def ensureBucket_def reconcileExisting_def reconcile_attrs_def ensureServiceAccount_def find_or_create_def
      ensureBucketBinding_def Let_def
    by (intro allI keeps_rules) auto
  have lt: "spares N gcs_buckets_destroyed (list_targets D n k acc)" for n k acc N
    by (induction k arbitrary: acc) (auto intro!: keeps_rules split: next_result.splits)
  have rw: "spares {n} gcs_buckets_destroyed (run_workers D n ts)" for n ts
  proof (induction ts)
    case (Cons t ts)
    then show ?case unfolding run_workers.simps delete_target_def by (intro allI keeps_rules keeps_mono [OF Cons.IH [THEN spec]]) auto
  qed (auto intro: keeps_rules)
  have b: "spares {n} gcs_buckets_destroyed (deleteBucket D n)" for n
    unfolding deleteBucket_def gcs_emptyBucketSlice_def delete_empty_def
    by (intro allI keeps_rules keeps_mono [OF lt [THEN spec]] keeps_mono [OF rw [THEN spec]])
       (auto intro!: keeps_rules split: slice_error.splits)
  have d: "spares {drName dr} gcs_buckets_destroyed (gcs_DeleteBuckety D dr)" for dr
    unfolding gcs_DeleteBuckety_def deleteServiceAccount_def Let_def
    by (intro allI keeps_rules keeps_mono [OF b [THEN spec]]) auto
  have g: "spares {} gcs_buckets_destroyed (gcs_GrantAccess D gr)" for gr
    unfolding gcs_GrantAccess_def grant_keys_def ensureAccessKey_def mint_key_def Let_def by (intro allI keeps_rules) auto
  have r: "spares {} gcs_buckets_destroyed (gcs_RevokeAccess D pr)" for pr
    unfolding gcs_RevokeAccess_def Let_def by (intro allI keeps_rules) auto
  show ?thesis
    unfolding careful_def gcs_driver_def
    by (auto intro: destroys_nothing destroys_forget destroys_repacked spares_run [OF i] spares_run [OF e] spares_run [OF d]
          spares_run [OF g] spares_run [OF r])
qed

end
