(* ===== verification/Shipped_Drivers.thy ===== *)
theory Shipped_Drivers
  imports Kadm_Driver Mysql_Driver S3_Driver Gcs_Driver
begin

text \<open>
  The drivers the program registers, in one registry. Each driver theory has a world of its own
  (its service, memory and trace); in the controller they live side by side. \<open>lift_driver\<close> runs a
  driver on its part of a larger world, and registration of the lifted factories gives a
  registry all of whose drivers keep the validation contract.
\<close>

section \<open>Drivers on a part of the world\<close>

definition on_part :: "('w \<Rightarrow> 'v) \<Rightarrow> ('v \<Rightarrow> 'w \<Rightarrow> 'w) \<Rightarrow> ('v \<Rightarrow> 'a \<times> 'v) \<Rightarrow> 'w \<Rightarrow> 'a \<times> 'w" where
  "on_part get put f w = (case f (get w) of (a, v) \<Rightarrow> (a, put v w))"

definition lift_driver :: "('w \<Rightarrow> 'v) \<Rightarrow> ('v \<Rightarrow> 'w \<Rightarrow> 'w) \<Rightarrow> 'v Driver \<Rightarrow> 'w Driver" where
  "lift_driver get put d =
     \<lparr>dName = dName d, dVersion = dVersion d,
      dInspectBuckety = (\<lambda>n. on_part get put (dInspectBuckety d n)),
      dEnsureBuckety = (\<lambda>r. on_part get put (dEnsureBuckety d r)),
      dDeleteBuckety = (\<lambda>r. on_part get put (dDeleteBuckety d r)),
      dGrantAccess = (\<lambda>r. on_part get put (dGrantAccess d r)),
      dRevokeAccess = (\<lambda>p. on_part get put (dRevokeAccess d p)),
      dValidateParameters = dValidateParameters d, dValidateUpdateParameters = dValidateUpdateParameters d,
      dValidateAccessParameters = dValidateAccessParameters d, dValidateResourceName = dValidateResourceName d,
      dTemplatedParameters = dTemplatedParameters d,
      dForgetBuckety = map_option (\<lambda>f ns n. on_part get put (f ns n)) (dForgetBuckety d)\<rparr>"

definition lift_factory :: "('w \<Rightarrow> 'v) \<Rightarrow> ('v \<Rightarrow> 'w \<Rightarrow> 'w) \<Rightarrow> 'v Factory \<Rightarrow> 'w Factory" where
  "lift_factory get put f raw = map_sum id (lift_driver get put) (f raw)"

lemma lift_driver_ok: "driver_ok (lift_driver get put d) \<longleftrightarrow> driver_ok d"
  by (simp add: lift_driver_def)

definition factory_ok :: "'w Factory \<Rightarrow> bool" where
  "factory_ok f \<longleftrightarrow> (\<forall>raw d. f raw = Inr d \<longrightarrow> driver_ok d)"

lemma lift_factory_ok: "factory_ok f \<Longrightarrow> factory_ok (lift_factory get put f)"
  unfolding factory_ok_def
proof (intro allI impI)
  fix raw d assume "\<forall>raw d. f raw = Inr d \<longrightarrow> driver_ok d" "lift_factory get put f raw = Inr d"
  then show "driver_ok d" by (cases "f raw") (auto simp: lift_factory_def lift_driver_ok)
qed

lemma factory_okI: "(\<And>raw d. f raw = Inr d \<Longrightarrow> driver_ok d) \<Longrightarrow> factory_ok f"
  by (simp add: factory_ok_def)

lemma shipped_factories_ok:
  "factory_ok (kadm_factory u1 s1 c1 pf)" "factory_ok (mysql_factory u2 s2 frac readFile certPool conn)" "factory_ok (s3_factory u3 s3 c3)"
  "factory_ok (gcs_factory u4 s4 c4 iam)"
  by (rule factory_okI, erule kadm_factory_ok, rule factory_okI, erule mysql_factory_ok, rule factory_okI, erule s3_factory_ok,
      rule factory_okI, erule gcs_factory_ok)


section \<open>Registries that keep the contract\<close>

text \<open>A registry all of whose factories build drivers that keep the validation contract.\<close>

definition contract_registry :: "'w registry \<Rightarrow> bool" where
  "contract_registry reg \<longleftrightarrow> (\<forall>name f raw d. Lookup_factory reg name = Some f \<longrightarrow> f raw = Inr d \<longrightarrow> driver_ok d)"

lemma contract_registry_empty: "contract_registry empty_registry"
  by (simp add: contract_registry_def empty_registry_def Lookup_factory_def)

lemma contract_registry_Register:
  "\<lbrakk>contract_registry reg; Register name v f reg = Inr reg'; factory_ok f\<rbrakk> \<Longrightarrow> contract_registry reg'"
  unfolding contract_registry_def factory_ok_def by (metis Register_lookup option.inject)

text \<open>The worlds side by side, with the API server's, and registration of the four factories one after the other.\<close>

record ('a, 'k, 'f, 'm, 's, 'g, 'p) shipped_world =
  swApi :: 'a
  swKadm :: "('k, 'f) kworld"
  swMysql :: "'m myworld"
  swS3 :: "'s s3world"
  swGcs :: "('g, 'p) gcsworld"

abbreviation on_kadm where
  "on_kadm \<equiv> lift_driver swKadm (\<lambda>v. swKadm_update (\<lambda>_. v))"
abbreviation on_mysql where
  "on_mysql \<equiv> lift_driver swMysql (\<lambda>v. swMysql_update (\<lambda>_. v))"
abbreviation on_s3 where
  "on_s3 \<equiv> lift_driver swS3 (\<lambda>v. swS3_update (\<lambda>_. v))"
abbreviation on_gcs where
  "on_gcs \<equiv> lift_driver swGcs (\<lambda>v. swGcs_update (\<lambda>_. v))"

definition register_all :: "(string \<times> string \<times> 'w Factory) list \<Rightarrow> 'w registry \<Rightarrow> goerr + 'w registry" where
  "register_all fs reg = foldl (\<lambda>r (n, v, f). case r of Inl e \<Rightarrow> Inl e | Inr reg \<Rightarrow> Register n v f reg) (Inr reg) fs"

definition shipped ::
  "('k, 'f) kworld Factory \<Rightarrow> 'm myworld Factory \<Rightarrow> 's s3world Factory \<Rightarrow> ('g, 'p) gcsworld Factory \<Rightarrow>
   (string \<times> string \<times> ('a, 'k, 'f, 'm, 's, 'g, 'p) shipped_world Factory) list" where
  "shipped kf mf sf gf =
     [(gcs_DriverName, gcs_version, lift_factory swGcs (\<lambda>v. swGcs_update (\<lambda>_. v)) gf),
      (kadm_DriverName, kadm_version, lift_factory swKadm (\<lambda>v. swKadm_update (\<lambda>_. v)) kf),
      (mysql_DriverName, mysql_version, lift_factory swMysql (\<lambda>v. swMysql_update (\<lambda>_. v)) mf),
      (s3_DriverName, s3_version, lift_factory swS3 (\<lambda>v. swS3_update (\<lambda>_. v)) sf)]"

lemma register_all_contract:
  "\<lbrakk>contract_registry reg; register_all fs reg = Inr reg'; \<forall>(n, v, f) \<in> set fs. factory_ok f\<rbrakk> \<Longrightarrow> contract_registry reg'"
proof (induction fs arbitrary: reg)
  case Nil
  then show ?case by (simp add: register_all_def)
next
  case (Cons x fs)
  obtain n v f where x: "x = (n, v, f)" by (cases x)
  have stuck: "foldl (\<lambda>r (n, v, f). case r of Inl e \<Rightarrow> Inl e | Inr reg \<Rightarrow> Register n v f reg) (Inl e) fs = Inl e" for e
    by (induction fs) auto
  from Cons.prems(2) obtain r where r: "Register n v f reg = Inr r" "register_all fs r = Inr reg'"
    by (cases "Register n v f reg") (auto simp: register_all_def x stuck)
  have "contract_registry r" using Cons.prems(1,3) r(1) x by (auto intro: contract_registry_Register)
  then show ?case using Cons.IH r(2) Cons.prems(3) by simp
qed

lemma driver_names_distinct: "distinct [gcs_DriverName, kadm_DriverName, mysql_DriverName, s3_DriverName]"
  by code_simp

lemma shipped_registers: "\<exists>reg. register_all (shipped kf mf sf gf) empty_registry = Inr reg"
  using driver_names_distinct by (auto simp: register_all_def shipped_def Register_def empty_registry_def)

lemma shipped_contract:
  assumes "register_all (shipped (kadm_factory u1 s1 c1 pf) (mysql_factory u2 s2 frac readFile certPool conn) (s3_factory u3 s3 c3)
      (gcs_factory u4 s4 c4 iam)) empty_registry = Inr reg"
  shows "contract_registry reg"
  by (rule register_all_contract [OF contract_registry_empty assms]) (simp add: shipped_def lift_factory_ok shipped_factories_ok)

end
