(* ===== verification/Program_Entry.thy ===== *)
theory Program_Entry
  imports Shipped_Drivers Backend_Config Go_Time Api_Types
begin

text \<open>
  \<open>cmd/buckety/main.go\<close>: the command line, the manager's options and the start-up sequence. Go's
  \<open>flag\<close> package is modelled as far as the program uses it; flags that imported packages register
  are a list of names whose values are strings. controller-runtime is third-party: its calls are
  the fields of \<open>runtime_api\<close>, functions of the outside world. The process ends with an exit code.
\<close>

section \<open>Flags\<close>

record leaseTiming =
  ltDuration :: duration
  ltRenewDeadline :: duration
  ltRetryPeriod :: duration

definition defaultReconcileTimeout :: duration where
  "defaultReconcileTimeout = 2 * Minute"

definition defaultLease :: leaseTiming where
  "defaultLease = \<lparr>ltDuration = 60 * Second, ltRenewDeadline = 40 * Second, ltRetryPeriod = 15 * Second\<rparr>"

record options =
  opConfigDir :: string
  opPeriodicRecheck :: duration
  opReconcileTimeout :: duration
  opMetricsAddr :: string
  opHealthAddr :: string
  opEnableWebhook :: bool
  opWebhookPort :: int
  opCertDir :: string
  opLeaderElect :: bool
  opLease :: leaseTiming
  opPrintVersion :: bool

definition default_options :: options where
  "default_options =
     \<lparr>opConfigDir = ''/etc/buckety'', opPeriodicRecheck = 5 * Minute, opReconcileTimeout = defaultReconcileTimeout,
      opMetricsAddr = '':8080'', opHealthAddr = '':8081'', opEnableWebhook = True, opWebhookPort = 9443,
      opCertDir = ''/var/run/buckety/webhook-tls'', opLeaderElect = True, opLease = defaultLease, opPrintVersion = False\<rparr>"

text \<open>
  \<open>strconv.ParseInt(s, 0, 64)\<close>, which \<open>flag.Int\<close> uses: the base from the prefix; underscores only
  between digits or after a base prefix.
\<close>

definition digit_value :: "char \<Rightarrow> int option" where
  "digit_value c =
     (if is_digit c then Some (of_char c - 48)
      else if is_lower c then Some (of_char c - 87)
      else if is_upper c then Some (of_char c - 55)
      else None)"

fun scan_base :: "int \<Rightarrow> string \<Rightarrow> int \<Rightarrow> int option" where
  "scan_base b [] n = Some n"
| "scan_base b (c # s) n =
     (case digit_value c of
        None \<Rightarrow> None
      | Some d \<Rightarrow> if d \<ge> b \<or> n * b + d > 2 ^ 64 - 1 then None else scan_base b s (n * b + d))"

definition base_of :: "string \<Rightarrow> int \<times> nat" where
  "base_of s =
     (if s = [] \<or> hd s \<noteq> CHR ''0'' then (10, 0)
      else if length s \<ge> 3 \<and> s ! 1 \<in> set ''bB'' then (2, 2)
      else if length s \<ge> 3 \<and> s ! 1 \<in> set ''oO'' then (8, 2)
      else if length s \<ge> 3 \<and> s ! 1 \<in> set ''xX'' then (16, 2)
      else (8, 1))"

text \<open>Every underscore stands between two digits, a base prefix counting as one.\<close>

definition underscoreOK :: "string \<Rightarrow> bool" where
  "underscoreOK s =
     list_all (\<lambda>i. s ! i = CHR ''_'' \<longrightarrow> 0 < i \<and> Suc i < length s \<and> s ! (i - 1) \<noteq> CHR ''_'' \<and> s ! Suc i \<noteq> CHR ''_'') [0..<length s]"

definition ParseUint0 :: "string \<Rightarrow> int option" where
  "ParseUint0 s = (
     let (b, k) = base_of s; ds = drop k s in
     if s = [] \<or> (CHR ''_'' \<in> set ds \<and> \<not> underscoreOK s) then None
     else scan_base b (filter (\<lambda>c. c \<noteq> CHR ''_'') ds) 0)"

definition ParseInt0 :: "string \<Rightarrow> int option" where
  "ParseInt0 s = (
     let neg = HasPrefix s ''-''; u = (if s \<noteq> [] \<and> hd s \<in> set ''+-'' then tl s else s) in
     case ParseUint0 u of
       None \<Rightarrow> None
     | Some n \<Rightarrow> if neg then (if n > 2 ^ 63 then None else Some (- n)) else (if n \<ge> 2 ^ 63 then None else Some n))"

text \<open>The flags of \<open>main\<close>: whether a flag is boolean, and how its value is set; \<open>None\<close> is an invalid value.\<close>

type_synonym setter = "string \<Rightarrow> options \<Rightarrow> options option"

definition flags :: "(int \<Rightarrow> int \<Rightarrow> int \<Rightarrow> int) \<Rightarrow> (string \<times> bool \<times> setter) list" where
  "flags frac = (
     let str = (\<lambda>put v o'. Some (put (\<lambda>_. v) o'));
         dur = (\<lambda>put v o'. map_option (\<lambda>d. put (\<lambda>_. d) o') (ParseDuration frac v));
         bool = (\<lambda>put v o'. map_option (\<lambda>b. put (\<lambda>_. b) o') (ParseBool v));
         lease = (\<lambda>put f. opLease_update (put f))
     in [(''c'', False, str opConfigDir_update), (''periodic-recheck'', False, dur opPeriodicRecheck_update),
         (''reconcile-timeout'', False, dur opReconcileTimeout_update), (''metrics-addr'', False, str opMetricsAddr_update),
         (''health-addr'', False, str opHealthAddr_update), (''enable-webhook'', True, bool opEnableWebhook_update),
         (''webhook-port'', False, \<lambda>v o'. map_option (\<lambda>n. o'\<lparr>opWebhookPort := n\<rparr>) (ParseInt0 v)),
         (''cert-dir'', False, str opCertDir_update), (''leader-elect'', True, bool opLeaderElect_update),
         (''leader-elect-lease-duration'', False, dur (lease ltDuration_update)),
         (''leader-elect-renew-deadline'', False, dur (lease ltRenewDeadline_update)),
         (''leader-elect-retry-period'', False, dur (lease ltRetryPeriod_update)),
         (''version'', True, bool opPrintVersion_update)])"

datatype 'a parsed = Parsed 'a | HelpWanted | BadUsage

text \<open>One flag: its name and, after \<open>=\<close>, its value. The search for \<open>=\<close> starts at the second byte.\<close>

definition split_flag :: "string \<Rightarrow> string \<times> string option" where
  "split_flag s =
     (case IndexByte (tl s) (CHR ''='') of
        None \<Rightarrow> (s, None)
      | Some i \<Rightarrow> (take (Suc i) s, Some (drop (i + 2) s)))"

text \<open>\<open>flag.Parse\<close> from the remaining arguments; it stops at the first that is no flag. \<open>others\<close> are flags of imported packages.\<close>

fun flag_Parse :: "(string \<times> bool \<times> setter) list \<Rightarrow> string list \<Rightarrow> string list \<Rightarrow> options \<Rightarrow> options parsed" where
  "flag_Parse fs others [] o' = Parsed o'"
| "flag_Parse fs others (s # args) o' =
     (if length s < 2 \<or> hd s \<noteq> CHR ''-'' then Parsed o'
      else if s = ''--'' then Parsed o'
      else let name = (if s ! 1 = CHR ''-'' then drop 2 s else drop 1 s) in
        if name = [] \<or> hd name = CHR ''-'' \<or> hd name = CHR ''='' then BadUsage
        else case split_flag name of (n, v) \<Rightarrow>
          (case map_of fs n of
             Some (isBool, put) \<Rightarrow>
               (case v of
                  Some x \<Rightarrow> (case put x o' of None \<Rightarrow> BadUsage | Some o'' \<Rightarrow> flag_Parse fs others args o'')
                | None \<Rightarrow>
                    if isBool then (case put ''true'' o' of None \<Rightarrow> BadUsage | Some o'' \<Rightarrow> flag_Parse fs others args o'')
                    else (case args of
                        [] \<Rightarrow> BadUsage
                      | x # rest \<Rightarrow> (case put x o' of None \<Rightarrow> BadUsage | Some o'' \<Rightarrow> flag_Parse fs others rest o'')))
           | None \<Rightarrow>
               if n \<in> set others then
                 (case v of
                    Some _ \<Rightarrow> flag_Parse fs others args o'
                  | None \<Rightarrow> (case args of [] \<Rightarrow> BadUsage | _ # rest \<Rightarrow> flag_Parse fs others rest o'))
               else if n = ''help'' \<or> n = ''h'' then HelpWanted
               else BadUsage))"


section \<open>The manager\<close>

text \<open>The scheme is the list of the API groups added to it.\<close>

record manager_options =
  moScheme :: "string list"
  moMetricsAddr :: string
  moHealthAddr :: string
  moLeaderElection :: bool
  moLeaderElectionID :: string
  moLease :: leaseTiming
  moReleaseOnCancel :: bool
  moReconciliationTimeout :: duration
  moSecretSelector :: smap
  moWebhookServer :: "(int \<times> string) option"

definition managerOptions :: "string list \<Rightarrow> string \<Rightarrow> string \<Rightarrow> bool \<Rightarrow> leaseTiming \<Rightarrow> duration \<Rightarrow> manager_options" where
  "managerOptions scheme metricsAddr healthAddr leaderElect lease reconcileTimeout =
     \<lparr>moScheme = scheme, moMetricsAddr = metricsAddr, moHealthAddr = healthAddr, moLeaderElection = leaderElect,
      moLeaderElectionID = ''buckety-controller-leader'', moLease = lease, moReleaseOnCancel = True,
      moReconciliationTimeout = reconcileTimeout, moSecretSelector = [(LabelOwnedSecret, ''true'')], moWebhookServer = None\<rparr>"

text \<open>
  What the manager hands to a reconciler, and the fields \<open>main\<close> sets on both of them:
  \<open>Live\<close> is the reader that bypasses the cache.
\<close>

datatype mgr_handle = GetClient | GetScheme | GetAPIReader | GetEventRecorderFor string

record 'd reconciler_fields =
  rfClient :: mgr_handle
  rfScheme :: mgr_handle
  rfConfig :: "'d Loaded"
  rfRecheck :: duration
  rfRecorder :: mgr_handle
  rfLive :: mgr_handle

datatype checker = Ping | StartedChecker

text \<open>
  \<open>raReadConfig\<close> reads and decodes the file of the configuration directory, \<open>Load\<close> does the rest;
  \<open>raGetConfig\<close> is \<open>ctrl.GetConfigOrDie\<close>, which exits with code 1 when it finds none.
\<close>

record 'w runtime_api =
  raAddToScheme :: "string \<Rightarrow> 'w \<Rightarrow> goerr option \<times> 'w"
  raReadConfig :: "string \<Rightarrow> 'w \<Rightarrow> (goerr + rawBackend list) \<times> 'w"
  raGetConfig :: "'w \<Rightarrow> goerr option \<times> 'w"
  raNewManager :: "manager_options \<Rightarrow> 'w \<Rightarrow> goerr option \<times> 'w"
  raSetupController :: "string \<Rightarrow> 'w \<Rightarrow> goerr option \<times> 'w"
  raAddHealthzCheck :: "string \<Rightarrow> checker \<Rightarrow> 'w \<Rightarrow> goerr option \<times> 'w"
  raAddReadyzCheck :: "string \<Rightarrow> checker \<Rightarrow> 'w \<Rightarrow> goerr option \<times> 'w"
  raRegisterWebhook :: "'w \<Rightarrow> unit \<times> 'w"
  raStart :: "'w \<Rightarrow> goerr option \<times> 'w"

datatype 'd start_event =
    Printed string
  | SchemeAdded string "goerr option"
  | ConfigRead string "goerr + rawBackend list"
  | KubeConfigFound "goerr option"
  | ManagerBuilt manager_options "goerr option"
  | ControllerSetUp string "'d reconciler_fields" "goerr option"
  | HealthzAdded string checker "goerr option"
  | ReadyzAdded string checker "goerr option"
  | WebhookRegistered "'d Loaded"
  | Started "goerr option"

type_synonym ('w, 'd) startprog = "('w, 'd start_event, unit, int) prog"

definition backendNames :: "'w Loaded \<Rightarrow> string list" where
  "backendNames l = map fst l"

definition version_lines :: "string \<Rightarrow> 'd registry \<Rightarrow> string list" where
  "version_lines version reg =
     (''buckety '' @ version) # map (\<lambda>n. ''driver '' @ n @ '' '' @ get0 (Versions reg) n) (sort (Names reg))"

definition printVersions :: "string \<Rightarrow> 'd registry \<Rightarrow> ('w, 'd start_event, unit, unit) prog" where
  "printVersions version reg = each (\<lambda>l. emit (Printed l)) (version_lines version reg)"

text \<open>\<open>if err := step; err != nil { os.Exit(1) }\<close>, then the rest.\<close>

definition or_exit :: "('w \<Rightarrow> goerr option \<times> 'w) \<Rightarrow> (goerr option \<Rightarrow> 'd start_event) \<Rightarrow> ('w, 'd) startprog \<Rightarrow> ('w, 'd) startprog" where
  "or_exit f ev p = do {
     x \<leftarrow> call f ev;
     case x of Some _ \<Rightarrow> ret 1 | None \<Rightarrow> p }"

text \<open>From the manager's construction to its end, and the whole of \<open>main\<close>. A panic exits with code 2.\<close>

definition run_manager :: "'w runtime_api \<Rightarrow> options \<Rightarrow> string list \<Rightarrow> 'd Loaded \<Rightarrow> ('w, 'd) startprog" where
  "run_manager A o' scheme loaded = (
     let base = managerOptions scheme (opMetricsAddr o') (opHealthAddr o') (opLeaderElect o') (opLease o') (opReconcileTimeout o');
         mgrOpts = (if opEnableWebhook o' then base\<lparr>moWebhookServer := Some (opWebhookPort o', opCertDir o')\<rparr> else base);
         bucketyctrl = \<lparr>rfClient = GetClient, rfScheme = GetScheme, rfConfig = loaded, rfRecheck = opPeriodicRecheck o',
           rfRecorder = GetEventRecorderFor ''buckety-controller'', rfLive = GetAPIReader\<rparr>;
         accessctrl = \<lparr>rfClient = GetClient, rfScheme = GetScheme, rfConfig = loaded, rfRecheck = opPeriodicRecheck o',
           rfRecorder = GetEventRecorderFor ''buckety-controller'', rfLive = GetAPIReader\<rparr>;
         start = or_exit (raStart A) Started (ret 0)
     in or_exit (raGetConfig A) KubeConfigFound
       (or_exit (raNewManager A mgrOpts) (ManagerBuilt mgrOpts)
       (or_exit (raSetupController A ''buckety'') (ControllerSetUp ''buckety'' bucketyctrl)
       (or_exit (raSetupController A ''bucketyaccess'') (ControllerSetUp ''bucketyaccess'' accessctrl)
       (or_exit (raAddHealthzCheck A ''ping'' Ping) (HealthzAdded ''ping'' Ping)
       (or_exit (raAddReadyzCheck A ''ping'' Ping) (ReadyzAdded ''ping'' Ping)
       (if opEnableWebhook o' then do {
          call (raRegisterWebhook A) (\<lambda>_. WebhookRegistered loaded);
          or_exit (raAddReadyzCheck A ''webhook'' StartedChecker) (ReadyzAdded ''webhook'' StartedChecker) start }
        else start)))))))"

definition program_main ::
  "(int \<Rightarrow> int \<Rightarrow> int \<Rightarrow> int) \<Rightarrow> string list \<Rightarrow> string \<Rightarrow> 'd registry \<Rightarrow> (string \<Rightarrow> goerr + smap) \<Rightarrow> 'w runtime_api \<Rightarrow> string list \<Rightarrow> ('w, 'd) startprog" where
  "program_main frac others version reg unmarshal A args =
     (case flag_Parse (flags frac) others args default_options of
        HelpWanted \<Rightarrow> ret 0
      | BadUsage \<Rightarrow> ret 2
      | Parsed o' \<Rightarrow>
          if opPrintVersion o' then do { printVersions version reg; ret 0 }
          else do {
            a \<leftarrow> call (raAddToScheme A ''clientgo'') (SchemeAdded ''clientgo'');
            case a of
              Some _ \<Rightarrow> ret 2
            | None \<Rightarrow> do {
                b \<leftarrow> call (raAddToScheme A ''buckety'') (SchemeAdded ''buckety'');
                case b of
                  Some _ \<Rightarrow> ret 2
                | None \<Rightarrow> do {
                    raw \<leftarrow> call (raReadConfig A (opConfigDir o')) (ConfigRead (opConfigDir o'));
                    case Load reg unmarshal raw of
                      Inl _ \<Rightarrow> ret 1
                    | Inr loaded \<Rightarrow> run_manager A o' [''clientgo'', ''buckety''] loaded } } })"


section \<open>What start-up guarantees\<close>

text \<open>The calls of a start-up in which nothing failed, before the manager runs.\<close>

definition wiring :: "options \<Rightarrow> 'd Loaded \<Rightarrow> 'd reconciler_fields" where
  "wiring o' loaded =
     \<lparr>rfClient = GetClient, rfScheme = GetScheme, rfConfig = loaded, rfRecheck = opPeriodicRecheck o',
      rfRecorder = GetEventRecorderFor ''buckety-controller'', rfLive = GetAPIReader\<rparr>"

definition expected_options :: "options \<Rightarrow> manager_options" where
  "expected_options o' =
     \<lparr>moScheme = [''clientgo'', ''buckety''], moMetricsAddr = opMetricsAddr o', moHealthAddr = opHealthAddr o',
      moLeaderElection = opLeaderElect o', moLeaderElectionID = ''buckety-controller-leader'', moLease = opLease o',
      moReleaseOnCancel = True, moReconciliationTimeout = opReconcileTimeout o',
      moSecretSelector = [(''buckety.yolean.se/owned'', ''true'')],
      moWebhookServer = (if opEnableWebhook o' then Some (opWebhookPort o', opCertDir o') else None)\<rparr>"

definition startup_log :: "options \<Rightarrow> goerr + rawBackend list \<Rightarrow> 'd Loaded \<Rightarrow> 'd start_event list" where
  "startup_log o' raw loaded =
     [SchemeAdded ''clientgo'' None, SchemeAdded ''buckety'' None, ConfigRead (opConfigDir o') raw,
      KubeConfigFound None, ManagerBuilt (expected_options o') None,
      ControllerSetUp ''buckety'' (wiring o' loaded) None, ControllerSetUp ''bucketyaccess'' (wiring o' loaded) None,
      HealthzAdded ''ping'' Ping None, ReadyzAdded ''ping'' Ping None] @
     (if opEnableWebhook o' then [WebhookRegistered loaded, ReadyzAdded ''webhook'' StartedChecker None] else [])"

text \<open>The event of a step that failed, for the steps that can.\<close>

fun failing :: "goerr \<Rightarrow> 'd start_event \<Rightarrow> 'd start_event option" where
  "failing e (SchemeAdded n r) = Some (SchemeAdded n (Some e))"
| "failing e (KubeConfigFound r) = Some (KubeConfigFound (Some e))"
| "failing e (ManagerBuilt m r) = Some (ManagerBuilt m (Some e))"
| "failing e (ControllerSetUp n f r) = Some (ControllerSetUp n f (Some e))"
| "failing e (HealthzAdded n c r) = Some (HealthzAdded n c (Some e))"
| "failing e (ReadyzAdded n c r) = Some (ReadyzAdded n c (Some e))"
| "failing e _ = None"

text \<open>
  What a run with parsed options does: it ends at the first failing step, with code 2 from the panic
  of \<open>utilruntime.Must\<close> and code 1 from every other; or all steps succeed and the manager runs.
\<close>

definition run_ok :: "'d registry \<Rightarrow> (string \<Rightarrow> goerr + smap) \<Rightarrow> options \<Rightarrow> int \<Rightarrow> 'd start_event list \<Rightarrow> bool" where
  "run_ok reg unmarshal o' code l \<longleftrightarrow>
     (\<exists>e. l = [SchemeAdded ''clientgo'' (Some e)] \<and> code = 2) \<or>
     (\<exists>e. l = [SchemeAdded ''clientgo'' None, SchemeAdded ''buckety'' (Some e)] \<and> code = 2) \<or>
     (\<exists>raw e. Load reg unmarshal raw = Inl e \<and>
        l = [SchemeAdded ''clientgo'' None, SchemeAdded ''buckety'' None, ConfigRead (opConfigDir o') raw] \<and> code = 1) \<or>
     (\<exists>raw loaded. Load reg unmarshal raw = Inr loaded \<and>
        ((\<exists>i e ev. 3 \<le> i \<and> i < length (startup_log o' raw loaded) \<and> failing e (startup_log o' raw loaded ! i) = Some ev \<and>
            l = take i (startup_log o' raw loaded) @ [ev] \<and> code = 1) \<or>
         (\<exists>r. l = startup_log o' raw loaded @ [Started r] \<and> code = (case r of None \<Rightarrow> 0 | Some _ \<Rightarrow> 1))))"

lemma or_exit_keeps:
  assumes "\<And>x. C h (ev x)" and "\<And>e. R 1 (h @ [ev (Some e)])" and "keeps C (h @ [ev None]) p R"
  shows "keeps C h (or_exit f ev p) R"
  unfolding or_exit_def by (intro keeps_rules) (use assms in \<open>auto intro!: keeps_rules\<close>)

text \<open>One step of the sequence: it stops the run with code 1, or the log is one event longer.\<close>

lemma run_step:
  assumes "Load reg unmarshal raw = Inr loaded" "3 \<le> i" "i < length (startup_log o' raw loaded)"
    and "startup_log o' raw loaded ! i = ev None" "\<And>e. failing e (ev None) = Some (ev (Some e))"
    and "keeps (\<lambda>_ _. True) (take (Suc i) (startup_log o' raw loaded)) p (run_ok reg unmarshal o')"
  shows "keeps (\<lambda>_ _. True) (take i (startup_log o' raw loaded)) (or_exit f ev p) (run_ok reg unmarshal o')"
proof (rule or_exit_keeps)
  show "run_ok reg unmarshal o' 1 (take i (startup_log o' raw loaded) @ [ev (Some e)])" for e
  proof -
    have "failing e (startup_log o' raw loaded ! i) = Some (ev (Some e))" using assms(4,5) by simp
    with assms(1-3) show ?thesis unfolding run_ok_def by blast
  qed
  show "keeps (\<lambda>_ _. True) (take i (startup_log o' raw loaded) @ [ev None]) p (run_ok reg unmarshal o')"
    using assms(6) by (simp add: take_Suc_conv_app_nth [OF assms(3)] assms(4))
qed simp

lemma run_start:
  assumes "Load reg unmarshal raw = Inr loaded" "n = length (startup_log o' raw loaded)"
  shows "keeps (\<lambda>_ _. True) (take n (startup_log o' raw loaded)) (or_exit (raStart A) Started (ret 0)) (run_ok reg unmarshal o')"
proof (intro or_exit_keeps keeps_ret)
  have "run_ok reg unmarshal o' (case r of None \<Rightarrow> 0 | Some _ \<Rightarrow> 1) (take n (startup_log o' raw loaded) @ [Started r])" for r
    using assms unfolding run_ok_def by fastforce
  from this [of "Some _"] this [of None]
  show "run_ok reg unmarshal o' 1 (take n (startup_log o' raw loaded) @ [Started (Some e)])"
    and "run_ok reg unmarshal o' 0 (take n (startup_log o' raw loaded) @ [Started None])" for e by simp_all
qed simp

lemma run_manager_ok:
  assumes "Load reg unmarshal raw = Inr loaded"
  shows "keeps (\<lambda>_ _. True) [SchemeAdded ''clientgo'' None, SchemeAdded ''buckety'' None, ConfigRead (opConfigDir o') raw]
    (run_manager A o' [''clientgo'', ''buckety''] loaded) (run_ok reg unmarshal o')"
proof -
  let ?L = "startup_log o' raw loaded"
  have h: "[SchemeAdded ''clientgo'' None, SchemeAdded ''buckety'' None, ConfigRead (opConfigDir o') raw] = take 3 ?L"
    by (simp add: startup_log_def)
  let ?check = "or_exit (raAddReadyzCheck A ''webhook'' StartedChecker) (ReadyzAdded ''webhook'' StartedChecker)"
    and ?start = "or_exit (raStart A) Started (ret 0)"
  note step = run_step [OF assms]
  have 9: "Suc (Suc (Suc (Suc (Suc (Suc 3))))) = (9 :: nat)" by simp
  have tail: "keeps (\<lambda>_ _. True) (take 9 ?L)
      (if opEnableWebhook o' then do { call (raRegisterWebhook A) (\<lambda>_. WebhookRegistered loaded); ?check ?start } else ?start) (run_ok reg unmarshal o')"
  proof (cases "opEnableWebhook o'")
    case True
    then have l: "length ?L = 11" "?L ! 10 = ReadyzAdded ''webhook'' StartedChecker None" "take 9 ?L @ [WebhookRegistered loaded] = take 10 ?L"
      by (simp_all add: startup_log_def)
    have "keeps (\<lambda>_ _. True) (take 10 ?L) (?check ?start) (run_ok reg unmarshal o')"
      by (rule step) (use l run_start [OF assms, of 11 o' A] in simp_all)
    with True l(3) show ?thesis by (auto intro!: keeps_rules)
  next
    case False
    then have "9 = length ?L" by (simp add: startup_log_def)
    with False run_start [OF assms, of 9 o' A] show ?thesis by simp
  qed
  show ?thesis
    unfolding h run_manager_def Let_def
    by (rule step, simp, simp add: startup_log_def,
        simp add: startup_log_def wiring_def expected_options_def managerOptions_def LabelOwnedSecret_def, simp)+
       (unfold 9, rule tail)
qed

text \<open>
  C18. A running manager is fully wired. Whatever the arguments and whatever fails, a run is one of
  these. It asks for help or versions: code 0, nothing but the version lines. The command line is
  wrong: code 2, no call. A step fails: the calls are exactly those before it and itself, with code
  2 for the two panics of the scheme and code 1 for every other step, the loading of the
  configuration included. Or no step fails, and only then the manager is started: after the
  configuration loaded, with the options of the flags; with both reconcilers set up on that
  configuration, the manager's client, scheme, event recorder and uncached reader and the flag's
  re-check cadence; with the health checks registered and, with the webhook enabled, the webhook
  registered on the same configuration and its own readiness check added; exactly these calls, in
  this order. The code is then 0 or 1, as the manager ended without or with an error.
\<close>

theorem started_fully_wired:
  "let p = program_main frac others version reg unmarshal A args; code = pass_out p s; l = pass_log p s in
   case flag_Parse (flags frac) others args default_options of
     HelpWanted \<Rightarrow> code = 0 \<and> l = []
   | BadUsage \<Rightarrow> code = 2 \<and> l = []
   | Parsed o' \<Rightarrow>
       if opPrintVersion o' then code = 0 \<and> l = map Printed (version_lines version reg)
       else run_ok reg unmarshal o' code l"
proof -
  have pr: "keeps (\<lambda>_ _. True) h (each (\<lambda>l. emit (Printed l)) ls) (\<lambda>_ h'. h' = h @ map Printed ls)" for h :: "'b start_event list" and ls
  proof (induction ls arbitrary: h)
    case (Cons l ls)
    show ?case unfolding each.simps by (intro keeps_rules keeps_mono [OF Cons.IH]) simp_all
  qed (simp add: keeps_ret)
  let ?P = "program_main frac others version reg unmarshal A args"
  show ?thesis
  proof (cases "flag_Parse (flags frac) others args default_options")
    case (Parsed o')
    have "keeps (\<lambda>_ _. True) [] ?P (\<lambda>code l. if opPrintVersion o' then code = 0 \<and> l = map Printed (version_lines version reg)
        else run_ok reg unmarshal o' code l)"
      unfolding program_main_def printVersions_def Parsed parsed.case
      by (intro keeps_rules keeps_mono [OF pr]) (auto simp: run_ok_def intro: keeps_mono [OF run_manager_ok])
    from keepsD [OF this, of s] show ?thesis by (simp add: Parsed Let_def)
  qed (simp_all add: program_main_def Let_def pass_run_defs)
qed

text \<open>The binary's driver set: the version lines list the four drivers, by name.\<close>

lemma shipped_version_lines:
  "register_all (shipped kf mf sf gf) empty_registry = Inr reg \<Longrightarrow>
   version_lines v reg = [''buckety '' @ v, ''driver gcs 0.2.0'', ''driver kadm 0.1.0'', ''driver mysql 0.1.0'', ''driver s3 0.1.0'']"
proof -
  assume r: "register_all (shipped kf mf sf gf) empty_registry = Inr reg"
  have n: "gcs_DriverName = ''gcs''" "kadm_DriverName = ''kadm''" "mysql_DriverName = ''mysql''" "s3_DriverName = ''s3''"
    by (simp_all add: gcs_DriverName_def kadm_DriverName_def mysql_DriverName_def s3_DriverName_def)
  have s: "sort [''gcs'', ''kadm'', ''mysql'', ''s3''] = [''gcs'', ''kadm'', ''mysql'', ''s3'']" by code_simp
  have "reg = \<lparr>factories = map (\<lambda>(n, v, f). (n, f)) (shipped kf mf sf gf), versions = map (\<lambda>(n, v, f). (n, v)) (shipped kf mf sf gf)\<rparr>"
    using r by (auto simp: register_all_def shipped_def Register_def empty_registry_def n)
  then have "Names reg = [''gcs'', ''kadm'', ''mysql'', ''s3'']"
    "Versions reg = [(''gcs'', gcs_version), (''kadm'', kadm_version), (''mysql'', mysql_version), (''s3'', s3_version)]"
    by (simp_all add: Names_def Versions_def shipped_def n)
  then show ?thesis
    by (simp add: version_lines_def s get0_def gcs_version_def kadm_version_def mysql_version_def s3_version_def)
qed

text \<open>The default lease timing meets what leader election requires: lease longer than the renew
  deadline, the deadline longer than a retry period with its jitter of a fifth.\<close>

lemma default_lease_admissible:
  "ltRenewDeadline defaultLease < ltDuration defaultLease \<and> 6 * ltRetryPeriod defaultLease < 5 * ltRenewDeadline defaultLease \<and> 0 < ltRetryPeriod defaultLease"
  by (simp add: defaultLease_def Second_def)

end
