(* ===== verification/Running_System.thy ===== *)
theory Running_System
  imports Driver_Journals Program_Entry
begin

text \<open>
  The reconcilers on the shipped drivers. A controller is wired to backends built by the four
  drivers, each on its part of the world, with the API server on another. \<open>watched_journal\<close> is
  interpreted for each driver's journal, so that what reaches a broker, a database server or an
  object store during a pass is tied to what the pass decided.
\<close>

section \<open>The wiring\<close>

text \<open>The drivers the four packages build, with what they hold.\<close>

datatype ('k, 'f, 'm, 's, 'g, 'p) built =
    BuiltKadm kadm_config "'k broker" "string \<Rightarrow> 'f option"
  | BuiltMysql mysql_config "'m mysql_env"
  | BuiltS3 s3_config "'s s3_client"
  | BuiltGcs "('g, 'p) gcs_state"

fun driver_of :: "('k, 'f, 'm, 's, 'g, 'p) built \<Rightarrow> ('a, 'k, 'f, 'm, 's, 'g, 'p) shipped_world Driver" where
  "driver_of (BuiltKadm cfg B pf) = on_kadm (kadm_driver cfg B pf)"
| "driver_of (BuiltMysql cfg E) = on_mysql (mysql_driver cfg E)"
| "driver_of (BuiltS3 cfg S) = on_s3 (s3_driver cfg S)"
| "driver_of (BuiltGcs D) = on_gcs (gcs_driver D)"

record ('k, 'f, 'm, 's, 'g, 'p) built_backend =
  bbName :: string
  bbDriver :: "('k, 'f, 'm, 's, 'g, 'p) built"
  bbDefaults :: smap
  bbParameters :: smap

definition backend_of :: "('k, 'f, 'm, 's, 'g, 'p) built_backend \<Rightarrow> ('a, 'k, 'f, 'm, 's, 'g, 'p) shipped_world Backend" where
  "backend_of b = \<lparr>beName = bbName b, beDriver = driver_of (bbDriver b), beDefaults = bbDefaults b, beParameters = bbParameters b\<rparr>"

abbreviation on_api :: "('a \<Rightarrow> 'b \<times> 'a) \<Rightarrow> ('a, 'k, 'f, 'm, 's, 'g, 'p) shipped_world \<Rightarrow> 'b \<times> ('a, 'k, 'f, 'm, 's, 'g, 'p) shipped_world" where
  "on_api \<equiv> on_part swApi (\<lambda>v. swApi_update (\<lambda>_. v))"

definition api_reader :: "'a reader \<Rightarrow> ('a, 'k, 'f, 'm, 's, 'g, 'p) shipped_world reader" where
  "api_reader r =
     \<lparr>rdGetBuckety = (\<lambda>k. on_api (rdGetBuckety r k)), rdGetAccess = (\<lambda>k. on_api (rdGetAccess r k)),
      rdListAccesses = (\<lambda>ns. on_api (rdListAccesses r ns)), rdGetSecret = (\<lambda>k. on_api (rdGetSecret r k))\<rparr>"

definition api_client :: "'a client \<Rightarrow> ('a, 'k, 'f, 'm, 's, 'g, 'p) shipped_world client" where
  "api_client c =
     \<lparr>rdGetBuckety = (\<lambda>k. on_api (rdGetBuckety c k)), rdGetAccess = (\<lambda>k. on_api (rdGetAccess c k)),
      rdListAccesses = (\<lambda>ns. on_api (rdListAccesses c ns)), rdGetSecret = (\<lambda>k. on_api (rdGetSecret c k)),
      clPatchBuckety = (\<lambda>b b'. on_api (clPatchBuckety c b b')), clUpdateBuckety = (\<lambda>b. on_api (clUpdateBuckety c b)),
      clStatusUpdateBuckety = (\<lambda>b. on_api (clStatusUpdateBuckety c b)),
      clStatusPatchBuckety = (\<lambda>b b'. on_api (clStatusPatchBuckety c b b')),
      clCreateAccess = (\<lambda>a. on_api (clCreateAccess c a)), clDeleteAccess = (\<lambda>a. on_api (clDeleteAccess c a)),
      clUpdateAccess = (\<lambda>a. on_api (clUpdateAccess c a)), clPatchAccess = (\<lambda>a a'. on_api (clPatchAccess c a a')),
      clStatusPatchAccess = (\<lambda>a a'. on_api (clStatusPatchAccess c a a')),
      clCreateSecret = (\<lambda>s. on_api (clCreateSecret c s)), clUpdateSecret = (\<lambda>s. on_api (clUpdateSecret c s))\<rparr>"

text \<open>A reconciler with the API server, clock and random source of \<open>A\<close>, configured with the backends \<open>bs\<close>.\<close>

definition wired :: "'a env \<Rightarrow> ('k, 'f, 'm, 's, 'g, 'p) built_backend list \<Rightarrow> ('a, 'k, 'f, 'm, 's, 'g, 'p) shipped_world env" where
  "wired A bs =
     \<lparr>eKube = eKube A, eClient = api_client (eClient A), eLive = map_option api_reader (eLive A),
      eConfig = map (\<lambda>b. (bbName b, backend_of b)) bs, eRecheck = eRecheck A, eRecorder = eRecorder A,
      eNow = on_api (eNow A), eRandFloat = on_api (eRandFloat A), eRandInt = (\<lambda>n. on_api (eRandInt A n))\<rparr>"

lemma factories_build:
  "kadm_factory u1 s1 c1 pf raw = Inr d1 \<Longrightarrow> \<exists>cfg B. d1 = kadm_driver cfg B pf"
  "mysql_factory u2 s2 fr readFile certPool conn raw = Inr d2 \<Longrightarrow> \<exists>cfg E. d2 = mysql_driver cfg E"
  "s3_factory u3 s3 c3 raw = Inr d3 \<Longrightarrow> \<exists>cfg S. d3 = s3_driver cfg S"
  "gcs_factory u4 s4 c4 iam raw = Inr d4 \<Longrightarrow> \<exists>D. d4 = gcs_driver D"
  by (auto simp: kadm_factory_def mysql_factory_def mysql_newDriver_def s3_factory_def gcs_factory_def Let_def map_sum_def
      split: sum.splits if_splits option.splits)

lemma lift_factory_Inr: "lift_factory get put f raw = Inr d \<Longrightarrow> \<exists>d0. f raw = Inr d0 \<and> d = lift_driver get put d0"
  by (cases "f raw") (auto simp: lift_factory_def)

lemma shipped_builds:
  assumes "register_all (shipped (kadm_factory u1 s1 c1 pf) (mysql_factory u2 s2 fr readFile certPool conn) (s3_factory u3 s3 c3)
      (gcs_factory u4 s4 c4 iam)) empty_registry = Inr reg"
    and "Lookup_factory reg name = Some f" and "f raw = Inr d"
  shows "\<exists>x. d = driver_of x"
proof -
  have n: "gcs_DriverName = ''gcs''" "kadm_DriverName = ''kadm''" "mysql_DriverName = ''mysql''" "s3_DriverName = ''s3''"
    by (simp_all add: gcs_DriverName_def kadm_DriverName_def mysql_DriverName_def s3_DriverName_def)
  have "factories reg = map (\<lambda>(n, v, f). (n, f)) (shipped (kadm_factory u1 s1 c1 pf) (mysql_factory u2 s2 fr readFile certPool conn)
      (s3_factory u3 s3 c3) (gcs_factory u4 s4 c4 iam))"
    using assms(1) by (auto simp: register_all_def shipped_def Register_def empty_registry_def n)
  with assms(2) have "f \<in> {lift_factory swGcs (\<lambda>v. swGcs_update (\<lambda>_. v)) (gcs_factory u4 s4 c4 iam),
      lift_factory swKadm (\<lambda>v. swKadm_update (\<lambda>_. v)) (kadm_factory u1 s1 c1 pf),
      lift_factory swMysql (\<lambda>v. swMysql_update (\<lambda>_. v)) (mysql_factory u2 s2 fr readFile certPool conn),
      lift_factory swS3 (\<lambda>v. swS3_update (\<lambda>_. v)) (s3_factory u3 s3 c3)}"
    by (auto simp: Lookup_factory_def shipped_def split: if_splits)
  with assms(3) show ?thesis
    by (auto dest!: lift_factory_Inr factories_build) (metis driver_of.simps)+
qed

lemma update_subset: "set (AList.update k v al) \<subseteq> insert (k, v) (set al)"
  by (induction al) auto

lemma load_backends_entries:
  assumes "load_backends reg unmarshal i bs out = Inr cfg"
    and "\<And>name f raw d. \<lbrakk>Lookup_factory reg name = Some f; f raw = Inr d\<rbrakk> \<Longrightarrow> \<exists>x. d = driver_of x"
    and "\<forall>e \<in> set out. \<exists>b. e = (bbName b, backend_of b)"
  shows "\<forall>e \<in> set cfg. \<exists>b. e = (bbName b, backend_of b)"
  using assms
proof (induction reg unmarshal i bs out rule: load_backends.induct [case_names Nil Cons])
  case (Cons reg unmarshal i b bs out)
  from Cons.prems(1) obtain be where be: "load_backend reg unmarshal i b = Inr be"
    "load_backends reg unmarshal (Suc i) bs (AList.update (rbName b) be out) = Inr cfg"
    by (auto split: sum.splits)
  have "\<exists>b'. (rbName b, be) = (bbName b', backend_of b')"
  proof (rule load_backend_Inr [OF be(1)])
    fix f drv parameters
    assume f: "Lookup_factory reg (rbDriver b) = Some f" "f (rbConfig b) = Inr drv"
      and e: "be = \<lparr>beName = rbName b, beDriver = drv, beDefaults = rbDefaults b, beParameters = parameters\<rparr>"
    from Cons.prems(2) [OF f] obtain x where "drv = driver_of x" by blast
    with e show ?thesis
      by (intro exI [of _ "\<lparr>bbName = rbName b, bbDriver = x, bbDefaults = rbDefaults b, bbParameters = parameters\<rparr>"])
         (simp add: backend_of_def)
  qed
  then have "\<forall>e \<in> insert (rbName b, be) (set out). \<exists>b. e = (bbName b, backend_of b)"
    using Cons.prems(3) by simp
  then have "\<forall>e \<in> set (AList.update (rbName b) be out). \<exists>b. e = (bbName b, backend_of b)"
    by (rule bspec [THEN ballI]) (rule subsetD [OF update_subset])
  from Cons.IH [OF be(1,2) _ this] Cons.prems(2) show ?case by blast
qed simp

text \<open>Every configuration the program loads with its four drivers is one of these.\<close>

lemma loaded_wired:
  assumes "register_all (shipped (kadm_factory u1 s1 c1 pf) (mysql_factory u2 s2 fr readFile certPool conn) (s3_factory u3 s3 c3)
      (gcs_factory u4 s4 c4 iam)) empty_registry = Inr reg"
    and "Load reg unmarshal src = Inr cfg"
  shows "\<exists>bs. cfg = eConfig (wired A bs)"
proof -
  from assms(2) obtain raw where "load_backends reg unmarshal 0 raw [] = Inr cfg"
    by (auto simp: Load_def split: sum.splits option.splits)
  from load_backends_entries [OF this shipped_builds [OF assms(1)]]
  have "\<forall>e \<in> set cfg. \<exists>b. e = (bbName b, backend_of b)" by simp
  then have "\<exists>bs. cfg = map (\<lambda>b. (bbName b, backend_of b)) bs"
    by (rule ex_map_conv [THEN iffD2])
  then show ?thesis by (simp add: wired_def)
qed


section \<open>The journals of a wired controller\<close>

definition untouched :: "('w \<Rightarrow> 'v list) \<Rightarrow> 'w Driver \<Rightarrow> bool" where
  "untouched journal d \<longleftrightarrow>
     (\<forall>n. apart journal (dInspectBuckety d n)) \<and> (\<forall>er. apart journal (dEnsureBuckety d er)) \<and> (\<forall>dr. apart journal (dDeleteBuckety d dr)) \<and>
     (\<forall>gr. apart journal (dGrantAccess d gr)) \<and> (\<forall>p. apart journal (dRevokeAccess d p)) \<and> (\<forall>ns n. apart journal (ForgetBuckety d ns n))"

lemma on_part_apart: "(\<And>v w. journal (put v w) = journal w) \<Longrightarrow> apart journal (on_part get put f)"
  by (simp add: apart_def on_part_def split: prod.splits)

lemma on_part_destroys:
  assumes "\<And>v w. get (put v w) = v" and "destroys_at_most N trace destroyed f"
  shows "destroys_at_most N (\<lambda>w. trace (get w)) destroyed (on_part get put f)"
  unfolding destroys_at_most_def
proof
  fix w
  from assms(2) obtain l where "trace (snd (f (get w))) = trace (get w) @ l" "\<forall>e \<in> set l. destroyed e \<subseteq> N"
    unfolding destroys_at_most_def by blast
  then show "\<exists>l. trace (get (snd (on_part get put f w))) = trace (get w) @ l \<and> (\<forall>e \<in> set l. destroyed e \<subseteq> N)"
    by (simp add: on_part_def case_prod_unfold assms(1))
qed

lemma lifted_forget:
  "ForgetBuckety (lift_driver get put d) ns n = (case dForgetBuckety d of Some f \<Rightarrow> on_part get put (f ns n) | None \<Rightarrow> Pair ())"
  by (auto simp: ForgetBuckety_def lift_driver_def fun_eq_iff split: option.splits)

lemma lifted_untouched:
  assumes "\<And>v w. journal (put v w) = journal w"
  shows "untouched journal (lift_driver get put d)"
  unfolding untouched_def lifted_forget
  by (auto simp: lift_driver_def apart_def on_part_def assms split: prod.splits option.splits)

lemma lifted_careful:
  assumes "\<And>v w. get (put v w) = v" and "careful trace destroyed d"
  shows "careful (\<lambda>w. trace (get w)) destroyed (lift_driver get put d)"
proof -
  have "destroys_at_most {} trace destroyed (f ns n)" if "dForgetBuckety d = Some f" for f ns n
    using assms(2) that by (auto simp: careful_def ForgetBuckety_def destroys_at_most_def)
  then have "destroys_at_most {} (\<lambda>w. trace (get w)) destroyed (ForgetBuckety (lift_driver get put d) ns n)" for ns n
    by (auto simp: lifted_forget destroys_at_most_def [of _ _ _ "Pair ()"] intro: on_part_destroys [where get = get and put = put, OF assms(1)] split: option.splits)
  then show ?thesis
    using assms(2) unfolding careful_def by (auto simp: lift_driver_def intro: on_part_destroys [where get = get and put = put, OF assms(1)])
qed

lemma wired_apart:
  assumes "\<And>v w. view (swApi_update (\<lambda>_. v) w) = view w"
  shows "outside_apart view (wired A bs)"
proof -
  have api: "apart view (on_api f)" for f by (rule on_part_apart) (rule assms)
  show ?thesis
    by (simp add: outside_apart_def reads_apart_def writes_apart_def wired_def liveReader_def api_client_def api_reader_def reader.defs api
        split: option.splits)
qed

lemma watched_wired:
  assumes "\<And>v w. journal (swApi_update (\<lambda>_. v) w) = journal w"
    and "\<And>x d. d = driver_of x \<Longrightarrow> if dName d = kind then careful journal destroyed d else untouched journal d"
  shows "watched_journal (wired A bs) journal destroyed kind"
proof
  show "outside_apart journal (wired A bs)" by (rule wired_apart) (rule assms(1))
  fix be assume "be \<in> snd ` set (eConfig (wired A bs))"
  then obtain x where x: "beDriver be = driver_of x" by (auto simp: wired_def backend_of_def)
  note c = assms(2) [OF x]
  show "destroys_at_most {} journal destroyed (dInspectBuckety (beDriver be) n)" for n
    using c by (auto simp: careful_def untouched_def intro: apart_destroys split: if_splits)
  show "destroys_at_most {} journal destroyed (dEnsureBuckety (beDriver be) er)" for er
    using c by (auto simp: careful_def untouched_def intro: apart_destroys split: if_splits)
  show "destroys_at_most (if dName (beDriver be) = kind then {drName dr} else {}) journal destroyed (dDeleteBuckety (beDriver be) dr)" for dr
    using c by (cases "dName (beDriver be) = kind") (simp_all add: careful_def untouched_def apart_destroys)
  show "destroys_at_most {} journal destroyed (dGrantAccess (beDriver be) gr)" for gr
    using c by (auto simp: careful_def untouched_def intro: apart_destroys split: if_splits)
  show "destroys_at_most {} journal destroyed (dRevokeAccess (beDriver be) p)" for p
    using c by (auto simp: careful_def untouched_def intro: apart_destroys split: if_splits)
  show "destroys_at_most {} journal destroyed (ForgetBuckety (beDriver be) ns n)" for ns n
    using c by (auto simp: careful_def untouched_def intro: apart_destroys split: if_splits)
qed

lemma driver_names:
  "dName (lift_driver get put d) = dName d" "dName (kadm_driver cfg1 B pf) = ''kadm''" "dName (mysql_driver cfg2 E) = ''mysql''"
  "dName (s3_driver cfg3 S) = ''s3''" "dName (gcs_driver D) = ''gcs''"
  by (simp_all add: lift_driver_def kadm_driver_def mysql_driver_def s3_driver_def gcs_driver_def
      kadm_DriverName_def mysql_DriverName_def s3_DriverName_def gcs_DriverName_def)

lemmas driver_journal = driver_names lifted_careful lifted_untouched kadm_careful mysql_careful s3_careful gcs_careful

interpretation kadm_journal: watched_journal "wired A bs" "\<lambda>w. trace (swKadm w)" topics_destroyed "''kadm''"
  by (rule watched_wired, simp, hypsubst, case_tac x, simp_all add: driver_journal)

interpretation mysql_journal: watched_journal "wired A bs" "\<lambda>w. trace (swMysql w)" databases_destroyed "''mysql''"
  by (rule watched_wired, simp, hypsubst, case_tac x, simp_all add: driver_journal)

interpretation s3_journal: watched_journal "wired A bs" "\<lambda>w. trace (swS3 w)" s3_buckets_destroyed "''s3''"
  by (rule watched_wired, simp, hypsubst, case_tac x, simp_all add: driver_journal)

interpretation gcs_journal: watched_journal "wired A bs" "\<lambda>w. trace (swGcs w)" gcs_buckets_destroyed "''gcs''"
  by (rule watched_wired, simp, hypsubst, case_tac x, simp_all add: driver_journal)


section \<open>Destruction\<close>

text \<open>
  What a pass over \<open>bky\<close> must have seen for the resource \<open>n\<close> of a backend of the driver \<open>kind\<close> to be
  destroyed: the object is being deleted, its policy says to delete, it was not adopted, \<open>n\<close> is its
  stamped resource, its backend runs this driver and is the one that stamped it, the pass called
  \<open>DeleteBuckety\<close> for it, and before that read a list of accesses none of which refers to it.
\<close>

definition licensed :: "'w env \<Rightarrow> Buckety \<Rightarrow> event list \<Rightarrow> string \<Rightarrow> string \<Rightarrow> bool" where
  "licensed E bky l kind n \<longleftrightarrow>
     being_deleted (bMeta bky) \<and> bsRetentionPolicy (bSpec bky) = RetentionDelete \<and> stProvenance (bStatus bky) \<noteq> ProvenanceAdopted \<and>
     n = stBackendResourceName (bStatus bky) \<and> n \<noteq> [] \<and>
     (\<exists>be. Lookup (eConfig E) (bsBackend (bSpec bky)) = Some be \<and> dName (beDriver be) = kind \<and>
        (stDriver (bStatus bky) = [] \<or> stDriver (bStatus bky) = kind) \<and>
        (\<exists>pre dr r post items. l = pre @ Deleted (beName be) dr r # post \<and> drName dr = n \<and>
           ListedAccesses (eLive E \<noteq> None) (Namespace (bMeta bky)) (Inr items) \<in> set pre \<and>
           (\<forall>a \<in> set items. asBucketyRef (aSpec a) \<noteq> Name (bMeta bky))))"

lemma deleted_licensed:
  assumes "reads_buckety E req s bky" and "resolve_backend E bky = Inr be" and "dName (beDriver be) = kind"
    and "Deleted (beName be) dr r \<in> set (pass_log (Reconcile E req) s)"
  shows "licensed E bky (pass_log (Reconcile E req) s) kind (drName dr)"
proof -
  from split_list [OF assms(4)] obtain pre post where l: "pass_log (Reconcile E req) s = pre @ Deleted (beName be) dr r # post" by blast
  from Reconcile_event [OF assms(1) l] assms(2,3) show ?thesis
    unfolding licensed_def l
    by (auto simp: deletes_backend_def no_access_seen_def resolve_backend_Inr list_all_iff refers_to_def split: if_splits)
qed

text \<open>The new entries of a journal, and that each destroys only what satisfies \<open>P\<close>.\<close>

definition journal_adds :: "'v list \<Rightarrow> 'v list \<Rightarrow> ('v \<Rightarrow> string set) \<Rightarrow> (string \<Rightarrow> bool) \<Rightarrow> bool" where
  "journal_adds old new destroyed P \<longleftrightarrow> (\<exists>l. new = old @ l \<and> (\<forall>e \<in> set l. \<forall>n \<in> destroyed e. P n))"

lemma licensed_adds:
  assumes "reads_buckety E req s bky"
    and "\<exists>l. new = old @ l \<and> (\<forall>e \<in> set l. \<forall>n \<in> destroyed e. \<exists>be dr r. resolve_backend E bky = Inr be \<and>
      dName (beDriver be) = kind \<and> Deleted (beName be) dr r \<in> set (pass_log (Reconcile E req) s) \<and> drName dr = n)"
  shows "journal_adds old new destroyed (licensed E bky (pass_log (Reconcile E req) s) kind)"
proof -
  from assms(2) obtain l where l: "new = old @ l" "\<forall>e \<in> set l. \<forall>n \<in> destroyed e. \<exists>be dr r. resolve_backend E bky = Inr be \<and>
      dName (beDriver be) = kind \<and> Deleted (beName be) dr r \<in> set (pass_log (Reconcile E req) s) \<and> drName dr = n" by blast
  have "licensed E bky (pass_log (Reconcile E req) s) kind n" if "e \<in> set l" "n \<in> destroyed e" for e n
  proof -
    from l(2) that obtain be dr r where "resolve_backend E bky = Inr be" "dName (beDriver be) = kind"
      "Deleted (beName be) dr r \<in> set (pass_log (Reconcile E req) s)" and n: "drName dr = n" by blast
    from deleted_licensed [OF assms(1) this(1-3)] show ?thesis by (simp only: n)
  qed
  with l(1) show ?thesis unfolding journal_adds_def by blast
qed

definition journals_add ::
  "('a, 'k, 'f, 'm, 's, 'g, 'p) shipped_world \<Rightarrow> ('a, 'k, 'f, 'm, 's, 'g, 'p) shipped_world \<Rightarrow> (string \<Rightarrow> string \<Rightarrow> bool) \<Rightarrow> bool" where
  "journals_add w w' P \<longleftrightarrow>
     journal_adds (trace (swKadm w)) (trace (swKadm w')) topics_destroyed (P ''kadm'') \<and>
     journal_adds (trace (swMysql w)) (trace (swMysql w')) databases_destroyed (P ''mysql'') \<and>
     journal_adds (trace (swS3 w)) (trace (swS3 w')) s3_buckets_destroyed (P ''s3'') \<and>
     journal_adds (trace (swGcs w)) (trace (swGcs w')) gcs_buckets_destroyed (P ''gcs'')"

text \<open>
  Nothing is destroyed without licence, end to end. Take a controller wired to any backends of the
  four drivers, and whatever the API server and the services answer. What a pass over a Buckety
  adds to the drivers' journals (a topic deleted, a database dropped, objects or buckets removed)
  destroys only the stamped resource of that Buckety, on a backend that runs the driver that stamped
  it, and only when the Buckety is being deleted under retentionPolicy Delete, was not adopted, and
  the pass had before read a live list with no access to it. A pass over a Buckety that cannot be
  read, and every pass over a BucketyAccess, destroys nothing.
\<close>

theorem destruction_licensed:
  "(\<forall>bky. reads_buckety (wired A bs) req s bky \<longrightarrow>
      journals_add (world s) (world (snd (run_state (Reconcile (wired A bs) req) s)))
        (licensed (wired A bs) bky (pass_log (Reconcile (wired A bs) req) s))) \<and>
   ((\<nexists>bky. reads_buckety (wired A bs) req s bky) \<longrightarrow>
      journals_add (world s) (world (snd (run_state (Reconcile (wired A bs) req) s))) (\<lambda>_ _. False)) \<and>
   journals_add (world s) (world (snd (run_state (access_Reconcile (wired A bs) req) s))) (\<lambda>_ _. False)"
proof (intro conjI allI impI)
  fix bky assume r: "reads_buckety (wired A bs) req s bky"
  note j = licensed_adds [OF r]
  show "journals_add (world s) (world (snd (run_state (Reconcile (wired A bs) req) s)))
        (licensed (wired A bs) bky (pass_log (Reconcile (wired A bs) req) s))"
    unfolding journals_add_def
    by (intro conjI j kadm_journal.Reconcile_explained mysql_journal.Reconcile_explained s3_journal.Reconcile_explained
          gcs_journal.Reconcile_explained r)
next
  have j: "journal_adds old new destroyed (\<lambda>_. False)" if "\<exists>l. new = old @ l \<and> (\<forall>e \<in> set l. destroyed e = {})"
    for old new :: "'v list" and destroyed
    using that unfolding journal_adds_def by blast
  show "journals_add (world s) (world (snd (run_state (access_Reconcile (wired A bs) req) s))) (\<lambda>_ _. False)"
    unfolding journals_add_def
    by (intro conjI j kadm_journal.access_Reconcile_explained mysql_journal.access_Reconcile_explained
          s3_journal.access_Reconcile_explained gcs_journal.access_Reconcile_explained)
  assume "\<nexists>bky. reads_buckety (wired A bs) req s bky"
  then show "journals_add (world s) (world (snd (run_state (Reconcile (wired A bs) req) s))) (\<lambda>_ _. False)"
    unfolding journals_add_def
    by (intro conjI j kadm_journal.absent_explained mysql_journal.absent_explained s3_journal.absent_explained gcs_journal.absent_explained)
qed

text \<open>A topic behind the kadm driver, and a Buckety of it that is being deleted.\<close>

definition demo_doomed :: Buckety where
  "demo_doomed = (let b = demo_buckety (Some 1) RetentionDelete ''b'' ProvenanceCreated in b\<lparr>bStatus := (bStatus b)\<lparr>stDriver := ''kadm''\<rparr>\<rparr>)"

definition demo_api :: "unit env" where
  "demo_api = demo_env (demo_client (Some demo_doomed) None [] None) inert_driver"

definition demo_backends :: "(unit, int, unit, unit, unit, unit) built_backend list" where
  "demo_backends = [\<lparr>bbName = ''objs'', bbDriver = BuiltKadm \<lparr>kcSeedBrokers = [''k:9092''], kcClientID = []\<rparr> demo_broker (\<lambda>_. None),
     bbDefaults = [], bbParameters = []\<rparr>]"

definition demo_wired :: "(unit, unit, int, unit, unit, unit, unit) shipped_world env" where
  "demo_wired = wired demo_api demo_backends"

definition demo_start :: "((unit, unit, int, unit, unit, unit, unit) shipped_world, event, ctrl_memory) sys" where
  "demo_start =
     \<lparr>world = \<lparr>swApi = (), swKadm = \<lparr>world = (), trace = [], memory = \<lparr>kmAccepted = Map.empty, kmExport = empty_export\<rparr>\<rparr>,
        swMysql = \<lparr>world = (), trace = [], memory = \<lparr>mmVerified = Map.empty, mmBreaker = closed_breaker\<rparr>\<rparr>,
        swS3 = \<lparr>world = (), trace = [], memory = ()\<rparr>, swGcs = \<lparr>world = (), trace = [], memory = ()\<rparr>\<rparr>,
      trace = [], memory = \<lparr>mStartup = {}, mDeletions = Map.empty\<rparr>\<rparr>"

lemma demo_reads_doomed: "reads_buckety demo_wired demo_key demo_start demo_doomed"
  by (simp add: demo_wired_def demo_api_def wired_def api_client_def on_part_def demo_client_def demo_start_def reader.defs)

lemma demo_destroys:
  "map topics_destroyed (trace (swKadm (world (snd (run_state (Reconcile demo_wired demo_key) demo_start))))) = [{''b''}]"
  by code_simp

lemma only_entry: "map f xs = [y] \<Longrightarrow> \<exists>e \<in> set xs. f e = y"
  by (cases xs) auto

theorem destruction_licensed_witness:
  "let w = world (snd (run_state (Reconcile demo_wired demo_key) demo_start)) in
   (\<exists>e \<in> set (trace (swKadm w)). topics_destroyed e = {''b''}) \<and>
   licensed demo_wired demo_doomed (pass_log (Reconcile demo_wired demo_key) demo_start) ''kadm'' ''b''"
proof -
  define w where "w = world (snd (run_state (Reconcile demo_wired demo_key) demo_start))"
  have "journals_add (world demo_start) w (licensed demo_wired demo_doomed (pass_log (Reconcile demo_wired demo_key) demo_start))"
    unfolding w_def
    by (rule destruction_licensed [of demo_api demo_backends demo_key demo_start, folded demo_wired_def, THEN conjunct1, THEN spec, THEN mp,
          OF demo_reads_doomed])
  moreover have "trace (swKadm (world demo_start)) = []" by (simp add: demo_start_def)
  moreover obtain e where e: "e \<in> set (trace (swKadm w))" "topics_destroyed e = {''b''}"
    using only_entry [OF demo_destroys] unfolding w_def by blast
  ultimately have "licensed demo_wired demo_doomed (pass_log (Reconcile demo_wired demo_key) demo_start) ''kadm'' ''b''"
    unfolding journals_add_def journal_adds_def by (metis append_Nil insertI1)
  with e show ?thesis unfolding Let_def w_def by blast
qed

end
