(* ===== verification/Controller_Runs.thy ===== *)
theory Controller_Runs
  imports Running_System
begin

text \<open>
  The running process. \<open>step\<close> is one event in the life of the controller: a pass of either reconciler over
  some key, a change made by someone else (users, the API server, the services), or a restart, which
  loses the memory of both reconcilers and of the drivers and may come up with another
  configuration. \<open>runs\<close> are the sequences of such events. What one pass guarantees is lifted to all of
  them by rule induction; the memory the Buckety reconciler keeps between passes stays within its
  bounds in every state a run reaches. A pass is one step: while it runs the other actors are the
  answers of its calls, which are arbitrary.
\<close>

section \<open>Steps\<close>

record ('a, 'k, 'f, 'm, 's, 'g, 'p) process =
  pBackends :: "('k, 'f, 'm, 's, 'g, 'p) built_backend list"
  pWorld :: "('a, 'k, 'f, 'm, 's, 'g, 'p) shipped_world"
  pBuckety :: ctrl_memory
  pAccess :: ctrl_memory

datatype act = BucketyPass nsname | AccessPass nsname | Others | Restart

definition fresh_memory :: ctrl_memory where
  "fresh_memory = \<lparr>mStartup = {}, mDeletions = Map.empty\<rparr>"

text \<open>The environment of a pass and the state it starts in.\<close>

definition env_of :: "'a env \<Rightarrow> ('a, 'k, 'f, 'm, 's, 'g, 'p) process \<Rightarrow> ('a, 'k, 'f, 'm, 's, 'g, 'p) shipped_world env" where
  "env_of A p = wired A (pBackends p)"

definition entry :: "('a, 'k, 'f, 'm, 's, 'g, 'p) process \<Rightarrow> ctrl_memory \<Rightarrow> (('a, 'k, 'f, 'm, 's, 'g, 'p) shipped_world, event, ctrl_memory) sys" where
  "entry p m = \<lparr>world = pWorld p, trace = [], memory = m\<rparr>"

definition same_journals :: "('a, 'k, 'f, 'm, 's, 'g, 'p) shipped_world \<Rightarrow> ('a, 'k, 'f, 'm, 's, 'g, 'p) shipped_world \<Rightarrow> bool" where
  "same_journals w w' \<longleftrightarrow> trace (swKadm w') = trace (swKadm w) \<and> trace (swMysql w') = trace (swMysql w) \<and>
     trace (swS3 w') = trace (swS3 w) \<and> trace (swGcs w') = trace (swGcs w)"

inductive step :: "'a env \<Rightarrow> ('a, 'k, 'f, 'm, 's, 'g, 'p) process \<Rightarrow> act \<Rightarrow> ('a, 'k, 'f, 'm, 's, 'g, 'p) process \<Rightarrow> bool" for A where
  buckety: "run_state (Reconcile (env_of A p) req) (entry p (pBuckety p)) = (out, s) \<Longrightarrow>
    step A p (BucketyPass req) (p\<lparr>pWorld := world s, pBuckety := memory s\<rparr>)"
| access: "run_state (access_Reconcile (env_of A p) req) (entry p (pAccess p)) = (out, s) \<Longrightarrow>
    step A p (AccessPass req) (p\<lparr>pWorld := world s, pAccess := memory s\<rparr>)"
| others: "same_journals (pWorld p) w \<Longrightarrow> step A p Others (p\<lparr>pWorld := w\<rparr>)"
| restart: "same_journals (pWorld p) w \<Longrightarrow>
    step A p Restart \<lparr>pBackends = bs, pWorld = w, pBuckety = fresh_memory, pAccess = fresh_memory\<rparr>"

inductive_cases step_bucketyE: "step A p (BucketyPass req) q"
inductive_cases stepE: "step A p a q"

inductive runs :: "'a env \<Rightarrow> ('a, 'k, 'f, 'm, 's, 'g, 'p) process \<Rightarrow> act list \<Rightarrow> ('a, 'k, 'f, 'm, 's, 'g, 'p) process \<Rightarrow> bool" for A p where
  none: "runs A p [] p"
| more: "\<lbrakk>runs A p l q; step A q a r\<rbrakk> \<Longrightarrow> runs A p (l @ [a]) r"


section \<open>Memory\<close>

named_theorems minds_rules \<open>rules of \<open>minds\<close>\<close>

text \<open>\<open>minds I p\<close>: \<open>p\<close> keeps the invariant \<open>I\<close> of the memory.\<close>

definition minds :: "('m \<Rightarrow> bool) \<Rightarrow> ('w, 'e, 'm, 'a) prog \<Rightarrow> bool" where
  "minds I p \<longleftrightarrow> (\<forall>m. I m \<longrightarrow> pass m p (\<lambda>_ _ m'. I m'))"

lemma mindsD: "\<lbrakk>minds I p; I (memory s)\<rbrakk> \<Longrightarrow> I (memory (snd (run_state p s)))"
  using passD [of s p "\<lambda>_ _ m'. I m'"] by (simp add: minds_def pass_mem_def)

lemma minds_ret [minds_rules]: "minds I (ret a)" and minds_ext [minds_rules]: "minds I (ext f)"
  and minds_emit [minds_rules]: "minds I (emit e)" and minds_call [minds_rules]: "minds I (call f ev)"
  unfolding minds_def by (auto intro: pass_rules)

lemma minds_bind: "\<lbrakk>minds I p; \<And>a. minds I (f a)\<rbrakk> \<Longrightarrow> minds I (State_Monad.bind p f)"
  unfolding minds_def by (intro allI impI pass_bind) (blast intro: pass_mono)

lemma minds_memory: "(\<And>m. I m \<Longrightarrow> minds I (f m)) \<Longrightarrow> minds I (State_Monad.bind get_memory f)"
  unfolding minds_def by (intro allI impI pass_bind pass_get_memory) simp

lemma minds_put: "I m \<Longrightarrow> minds I (put_memory m)"
  unfolding minds_def by (auto intro: pass_rules)

lemma minds_if [minds_rules]: "\<lbrakk>b \<Longrightarrow> minds I p; \<not> b \<Longrightarrow> minds I q\<rbrakk> \<Longrightarrow> minds I (if b then p else q)"
  by simp

lemma minds_option [minds_rules]:
  "\<lbrakk>x = None \<Longrightarrow> minds I p; \<And>y. x = Some y \<Longrightarrow> minds I (q y)\<rbrakk> \<Longrightarrow> minds I (case x of None \<Rightarrow> p | Some y \<Rightarrow> q y)"
  by (cases x) auto

lemma minds_sum [minds_rules]:
  "\<lbrakk>\<And>e. x = Inl e \<Longrightarrow> minds I (p e); \<And>y. x = Inr y \<Longrightarrow> minds I (q y)\<rbrakk> \<Longrightarrow> minds I (case x of Inl e \<Rightarrow> p e | Inr y \<Rightarrow> q y)"
  by (cases x) auto

lemma minds_prod [minds_rules]: "(\<And>a b. x = (a, b) \<Longrightarrow> minds I (p a b)) \<Longrightarrow> minds I (case x of (a, b) \<Rightarrow> p a b)"
  by (cases x) auto

lemma minds_list [minds_rules]:
  "\<lbrakk>x = [] \<Longrightarrow> minds I p; \<And>y ys. x = y # ys \<Longrightarrow> minds I (q y ys)\<rbrakk> \<Longrightarrow> minds I (case x of [] \<Rightarrow> p | y # ys \<Rightarrow> q y ys)"
  by (cases x) auto

lemma minds_let [minds_rules]: "(\<And>y. y = x \<Longrightarrow> minds I (p y)) \<Longrightarrow> minds I (let y = x in p y)"
  by simp

lemma minds_each: "(\<And>x. x \<in> set xs \<Longrightarrow> minds I (f x)) \<Longrightarrow> minds I (each f xs)"
  by (induction xs) (auto intro: minds_ret minds_bind)

lemma minds_update:
  "\<lbrakk>\<And>m. I m \<Longrightarrow> I (f m); \<And>x. minds I (q x)\<rbrakk> \<Longrightarrow> minds I (do { m \<leftarrow> get_memory; x \<leftarrow> put_memory (f m); q x })"
  by (intro minds_memory minds_bind minds_put)

text \<open>The delays the Buckety reconciler remembers are those of the schedule: two seconds to two minutes.\<close>

abbreviation paced :: "ctrl_memory \<Rightarrow> bool" where
  "paced m \<equiv> backoff_ok (mDeletions m)"

lemma paced_startup [minds_rules]: "minds paced (startup_Defer E key ready)" "minds paced (startup_Forget key)"
  unfolding startup_Defer_def startup_Forget_def
  by (intro minds_memory minds_bind minds_rules minds_put; simp)+

lemma paced_forget [minds_rules]:
  "(\<And>x. minds paced (q x)) \<Longrightarrow> minds paced (do { m \<leftarrow> get_memory; x \<leftarrow> put_memory (m\<lparr>mDeletions := backoff_forget (mDeletions m) uid\<rparr>); q x })"
  by (rule minds_update) (simp_all add: backoff_forget_ok)

lemma paced_next [minds_rules]:
  assumes "\<And>d. minds paced (q d)"
  shows "minds paced (do { m \<leftarrow> get_memory; let (d, dl) = backoff_next (mDeletions m) uid stalled; x \<leftarrow> put_memory (m\<lparr>mDeletions := dl\<rparr>); q d })"
  by (rule minds_memory) (auto intro!: minds_bind minds_put assms dest: backoff_next_ok split: prod.split)

lemma minds_helpers [minds_rules]:
  "minds I (status_Event E obj base typ st reason evType evReason msg)"
  "minds I (record_Event E obj evType reason msg)"
  "minds I (now E)" "minds I (cadence_Recheck E)"
  unfolding status_Event_def record_Event_def now_def cadence_Recheck_def
  by (intro minds_rules minds_bind)+

lemma minds_conditions [minds_rules]: "minds I (set_cond E b typ st reason msg)"
  unfolding set_cond_def by (intro minds_rules minds_bind)

lemma minds_surface [minds_rules]:
  "minds I (surface E b base typ st reason msg evType)" "minds I (patchStatus E b base)"
  unfolding surface_def patchStatus_def by (intro minds_rules minds_bind)+

lemma minds_reports [minds_rules]:
  "minds I (surfaceCondition E b base typ st reason msg)"
  "minds I (surfaceBackendUnavailable E b base reason msg)"
  "minds I (surface_bad_parameters E b base reason e)"
  "minds I (refuse_adoption E b base be n)"
  "minds I (recordDrift E b)"
  "minds I (remove_finalizer_and_update E b)"
  "minds I (revoke_implicit E b base a)" "minds I (reconcileImplicitAccess E b)"
  unfolding surfaceCondition_def surfaceBackendUnavailable_def surface_bad_parameters_def refuse_adoption_def
    recordDrift_def forgetDrift_def remove_finalizer_and_update_def revoke_implicit_def reconcileImplicitAccess_def
  by (intro minds_rules minds_bind)+

lemma paced_delete [minds_rules]: "minds paced (delete_backend_resource E b base be)"
  unfolding delete_backend_resource_def
  by (intro minds_rules minds_bind)

lemma paced_teardown [minds_rules]: "minds paced (reconcileDelete E b avail)"
  unfolding reconcileDelete_def reconcile_teardown_def by (intro minds_rules minds_bind)

lemma paced_stamped [minds_rules]: "minds paced (reconcile_stamped E b base be)"
  unfolding reconcile_stamped_def ensure_backend_def finish_pass_def reportChange_def
  by (intro minds_rules minds_bind minds_each)

lemma paced_body [minds_rules]: "minds paced (reconcile_body E req b)"
  unfolding reconcile_body_def stamp_sticky_def by (intro minds_rules minds_bind)

lemma paced_Reconcile: "minds paced (Reconcile E req)"
  unfolding Reconcile_def forgetDrift_def forget_backends_def by (intro minds_rules minds_bind minds_each)

lemma fresh_paced [simp]: "paced fresh_memory"
  by (simp add: fresh_memory_def backoff_ok_def)

lemma step_paced: "\<lbrakk>step A p a q; paced (pBuckety p)\<rbrakk> \<Longrightarrow> paced (pBuckety q)"
  using mindsD [OF paced_Reconcile, of "entry p (pBuckety p)"] by (auto simp: entry_def elim!: stepE) (metis snd_conv)


section \<open>Journals\<close>

lemma journal_adds_none: "journal_adds j j destroyed P"
  by (simp add: journal_adds_def)

lemma journal_adds_mono: "\<lbrakk>journal_adds j j' destroyed P; \<And>n. P n \<Longrightarrow> Q n\<rbrakk> \<Longrightarrow> journal_adds j j' destroyed Q"
  unfolding journal_adds_def by blast

lemma journal_adds_trans:
  "\<lbrakk>journal_adds j j' destroyed P; journal_adds j' j'' destroyed P\<rbrakk> \<Longrightarrow> journal_adds j j'' destroyed P"
  unfolding journal_adds_def by (metis Un_iff append.assoc set_append)

lemma journals_add_none: "same_journals w w' \<Longrightarrow> journals_add w w' P"
  by (simp add: journals_add_def same_journals_def journal_adds_none)

lemma journals_add_mono: "\<lbrakk>journals_add w w' P; \<And>kind n. P kind n \<Longrightarrow> Q kind n\<rbrakk> \<Longrightarrow> journals_add w w' Q"
  unfolding journals_add_def by (blast intro: journal_adds_mono)

lemma journals_add_trans: "\<lbrakk>journals_add w w' P; journals_add w' w'' P\<rbrakk> \<Longrightarrow> journals_add w w'' P"
  unfolding journals_add_def by (blast intro: journal_adds_trans)

text \<open>A pass over a Buckety of the process \<open>p\<close> that licenses the destruction of \<open>n\<close>.\<close>

definition licensing_pass :: "'a env \<Rightarrow> ('a, 'k, 'f, 'm, 's, 'g, 'p) process \<Rightarrow> act \<Rightarrow> string \<Rightarrow> string \<Rightarrow> bool" where
  "licensing_pass A p a kind n \<longleftrightarrow>
     (\<exists>req bky. a = BucketyPass req \<and> reads_buckety (env_of A p) req (entry p (pBuckety p)) bky \<and>
        licensed (env_of A p) bky (pass_log (Reconcile (env_of A p) req) (entry p (pBuckety p))) kind n)"

lemma step_licensed:
  assumes "step A p a q"
  shows "journals_add (pWorld p) (pWorld q) (licensing_pass A p a)"
  using assms
proof (cases rule: step.cases)
  case (buckety req out s)
  let ?E = "wired A (pBackends p)" and ?s = "entry p (pBuckety p)"
  have w: "pWorld q = world (snd (run_state (Reconcile ?E req) ?s))" "pWorld p = world ?s"
    using buckety by (simp_all add: env_of_def entry_def)
  show ?thesis
  proof (cases "\<exists>bky. reads_buckety ?E req ?s bky")
    case True
    then obtain bky where bky: "reads_buckety ?E req ?s bky" by blast
    from destruction_licensed [of A "pBackends p" req ?s, THEN conjunct1] bky
    have "journals_add (pWorld p) (pWorld q) (licensed ?E bky (pass_log (Reconcile ?E req) ?s))" unfolding w by blast
    then show ?thesis
      by (rule journals_add_mono) (use buckety(1) bky in \<open>auto simp: licensing_pass_def env_of_def\<close>)
  next
    case False
    with destruction_licensed [of A "pBackends p" req ?s] show ?thesis
      unfolding w by (blast intro: journals_add_mono)
  qed
next
  case (access req out s)
  then have "pWorld q = world (snd (run_state (access_Reconcile (wired A (pBackends p)) req) (entry p (pAccess p))))"
    "pWorld p = world (entry p (pAccess p))"
    by (simp_all add: env_of_def entry_def)
  with destruction_licensed [of A "pBackends p" req "entry p (pAccess p)"] show ?thesis
    by (auto intro: journals_add_mono)
qed (auto intro: journals_add_none)


section \<open>Properties\<close>

text \<open>
  C2. Nothing is destroyed without licence, in any run. Take a controller wired to any backends of the
  four drivers, and any sequence of passes of its reconcilers, changes made by others and restarts,
  the configuration changing at a restart as it may, whatever the API server and the services
  answer. Every topic deleted, database dropped or bucket emptied and removed in the course of it is
  the work of a pass over a Buckety in that sequence, which read the Buckety as being deleted under
  retentionPolicy Delete and not adopted, with that resource stamped on it, on a backend that runs
  the driver that stamped it, and which before had read a live list with no access to it. The memory
  that paces the teardowns stays within its bounds along the way. Database users and service
  accounts are not counted here.
\<close>

theorem run_destruction_licensed:
  assumes "runs A p l q"
  shows "journals_add (pWorld p) (pWorld q) (\<lambda>kind n. \<exists>l1 a l2 p1. l = l1 @ a # l2 \<and> runs A p l1 p1 \<and> licensing_pass A p1 a kind n) \<and>
    (backoff_ok (mDeletions (pBuckety p)) \<longrightarrow> backoff_ok (mDeletions (pBuckety q)))"
  using assms
proof (induction rule: runs.induct)
  case none
  then show ?case by (simp add: journals_add_none same_journals_def)
next
  case (more l q a r)
  let ?P = "\<lambda>l kind n. \<exists>l1 a l2 p1. l = l1 @ a # l2 \<and> runs A p l1 p1 \<and> licensing_pass A p1 a kind n"
  from more.IH have "journals_add (pWorld p) (pWorld q) (?P (l @ [a]))"
    by (elim conjE, elim journals_add_mono) (metis append.assoc append_Cons)
  moreover have "journals_add (pWorld q) (pWorld r) (?P (l @ [a]))"
    by (rule journals_add_mono [OF step_licensed [OF more.hyps(2)]]) (use more.hyps(1) in blast)
  ultimately have "journals_add (pWorld p) (pWorld r) (?P (l @ [a]))" by (rule journals_add_trans)
  with more.IH step_paced [OF more.hyps(2)] show ?case by blast
qed

text \<open>A process that restarts with a topic behind the kadm driver and then passes over its Buckety.\<close>

definition demo_process :: "(unit, int, unit, unit, unit, unit) built_backend list \<Rightarrow> (unit, unit, int, unit, unit, unit, unit) process" where
  "demo_process bs = \<lparr>pBackends = bs, pWorld = world demo_start, pBuckety = fresh_memory, pAccess = fresh_memory\<rparr>"

definition demo_end :: "(unit, unit, int, unit, unit, unit, unit) process" where
  "demo_end = (let s = snd (run_state (Reconcile demo_wired demo_key) demo_start) in
     (demo_process demo_backends)\<lparr>pWorld := world s, pBuckety := memory s\<rparr>)"

lemma demo_runs: "runs demo_api (demo_process []) ([] @ [Restart] @ [BucketyPass demo_key]) demo_end"
proof -
  have e: "env_of demo_api (demo_process demo_backends) = demo_wired" "entry (demo_process demo_backends) fresh_memory = demo_start"
    by (simp_all add: env_of_def entry_def demo_process_def demo_wired_def demo_start_def fresh_memory_def)
  have "step demo_api (demo_process []) Restart (demo_process demo_backends)"
    using step.restart [of "demo_process []" "world demo_start" demo_api demo_backends] by (simp add: demo_process_def same_journals_def)
  moreover have "pBuckety (demo_process demo_backends) = fresh_memory" by (simp add: demo_process_def)
  then have "step demo_api (demo_process demo_backends) (BucketyPass demo_key) demo_end"
    using step.buckety [of demo_api "demo_process demo_backends" demo_key] unfolding demo_end_def Let_def
    by (metis e prod.collapse)
  ultimately show ?thesis
    unfolding append_assoc [symmetric] by (blast intro: runs.intros)
qed

theorem run_destruction_licensed_witness:
  "runs demo_api (demo_process []) [Restart, BucketyPass demo_key] demo_end \<and>
   (\<exists>e \<in> set (trace (swKadm (pWorld demo_end))). topics_destroyed e = {''b''}) \<and>
   (\<exists>l1 a l2 p1. [Restart, BucketyPass demo_key] = l1 @ a # l2 \<and> runs demo_api (demo_process []) l1 p1 \<and>
      licensing_pass demo_api p1 a ''kadm'' ''b'')"
proof -
  have r: "runs demo_api (demo_process []) [Restart, BucketyPass demo_key] demo_end" using demo_runs by simp
  have j: "trace (swKadm (pWorld (demo_process []))) = []" by (simp add: demo_process_def demo_start_def)
  have "map topics_destroyed (trace (swKadm (pWorld demo_end))) = [{''b''}]"
    using demo_destroys by (simp add: demo_end_def Let_def)
  from only_entry [OF this] obtain e where e: "e \<in> set (trace (swKadm (pWorld demo_end)))" "topics_destroyed e = {''b''}" by blast
  let ?P = "\<lambda>kind n. \<exists>l1 a l2 p1. [Restart, BucketyPass demo_key] = l1 @ a # l2 \<and> runs demo_api (demo_process []) l1 p1 \<and>
      licensing_pass demo_api p1 a kind n"
  have "journals_add (pWorld (demo_process [])) (pWorld demo_end) ?P"
    by (rule run_destruction_licensed [OF r, THEN conjunct1])
  then have "journal_adds [] (trace (swKadm (pWorld demo_end))) topics_destroyed (?P ''kadm'')"
    unfolding journals_add_def j by (rule conjunct1)
  then have "\<forall>e \<in> set (trace (swKadm (pWorld demo_end))). \<forall>n \<in> topics_destroyed e. ?P ''kadm'' n"
    unfolding journal_adds_def append_Nil by blast
  from bspec [OF this e(1)] have "?P ''kadm'' ''b''" unfolding e(2) by (rule bspec) simp
  with r e show ?thesis by blast
qed

end
