(* ===== verification/Buckety_Progress.thy ===== *)
theory Buckety_Progress
  imports Buckety_Safety
begin

text \<open>
  What a pass over a Buckety achieves when the outside world cooperates: a first pass stamps,
  deals with the default access and reports Ready, and a pass over a settled Buckety writes
  nothing. The safety theory says what a pass may do; these say what it does.
\<close>

section \<open>Status writes\<close>

definition patch_accepted :: "'w env \<Rightarrow> bool" where
  "patch_accepted E \<longleftrightarrow> (\<forall>base b w. \<exists>b'. fst (clStatusPatchBuckety (eClient E) base b w) = Inr b')"

definition changes_status :: "'w env \<Rightarrow> Buckety \<Rightarrow> Buckety \<Rightarrow> bool" where
  "changes_status E b base \<longleftrightarrow> ChangedBeyondMessages (DeepEqual_bstatus (eKube E)) stConditions
     (\<lambda>cs s. s\<lparr>stConditions := cs\<rparr>) (bStatus base) (bStatus (with_kept_times E b base))"

lemma pass_patchStatus_unchanged:
  "\<lbrakk>\<not> changes_status E b base; Q (None, with_kept_times E b base) [] m\<rbrakk> \<Longrightarrow> pass m (patchStatus E b base) Q"
  unfolding patchStatus_def Let_def with_kept_times_def [symmetric] changes_status_def
  by (intro pass_rules) auto

lemma pass_patchStatus_accepted:
  assumes "patch_accepted E" and "changes_status E b base"
    and "\<And>b'. Q (None, b') [BucketyStatusPatched base (with_kept_times E b base) None] m"
  shows "pass m (patchStatus E b base) Q"
proof -
  have "fst (clStatusPatchBuckety (eClient E) base x w) \<noteq> Inl e" for x w e
    using assms(1) unfolding patch_accepted_def by (metis sum.distinct(1))
  then show ?thesis
    unfolding patchStatus_def Let_def with_kept_times_def [symmetric]
    by (intro pass_rules) (use assms(2,3) in \<open>auto simp: changes_status_def err_of_def split: sum.splits\<close>)
qed

lemma pass_set_cond [pass_rules]:
  "(\<And>t. Q (set_conditions (status_Set (eKube E) t (conds b) typ st reason msg (Generation (bMeta b))) b) [] m)
   \<Longrightarrow> pass m (set_cond E b typ st reason msg) Q"
  unfolding set_cond_def by (intro pass_rules) auto

lemma changes_status_iff:
  assumes "kube_api (eKube E)"
  shows "changes_status E b base \<longleftrightarrow>
    (bStatus base)\<lparr>stConditions := withoutMessages (conds base)\<rparr> \<noteq>
    (bStatus b)\<lparr>stConditions := withoutMessages (KeepTransitionTimes (eKube E) (conds base) (conds b))\<rparr>"
  by (simp add: changes_status_def ChangedBeyondMessages_def kube_api.deep_equal_bstatus [OF assms]
      with_kept_times_def set_conditions_def)

lemma changes_status_sticky:
  assumes "kube_api (eKube E)" and "stBackend (bStatus b) \<noteq> stBackend (bStatus base)"
  shows "changes_status E b base"
  unfolding changes_status_iff [OF assms(1)]
proof
  assume "(bStatus base)\<lparr>stConditions := withoutMessages (conds base)\<rparr> =
    (bStatus b)\<lparr>stConditions := withoutMessages (KeepTransitionTimes (eKube E) (conds base) (conds b))\<rparr>"
  from arg_cong [OF this, of stBackend] assms(2) show False by simp
qed


section \<open>The first pass\<close>

text \<open>
  What a pass owes the access the spec asks for by default: the implicit one, by its label, among
  those that refer to the Buckety; explicit ones take precedence over it.
\<close>

datatype access_action = Nothing_due | Create_due DefaultAccess | Withdraw_due BucketyAccess | Role_due BucketyAccess string

definition wanted_role :: "DefaultAccess \<Rightarrow> string" where
  "wanted_role da = (if daRole da = [] then ''ReadWrite'' else daRole da)"

definition access_action :: "Buckety \<Rightarrow> BucketyAccess list \<Rightarrow> access_action" where
  "access_action bky items = (
     let mine = filter (refers_to bky) items; implicit = filter is_implicit mine; explicit = filter (\<lambda>a. \<not> is_implicit a) mine in
     case bsDefaultAccess (bSpec bky) of
       None \<Rightarrow> if implicit = [] then Nothing_due else Withdraw_due (last implicit)
     | Some da \<Rightarrow>
         if implicit = [] then (if explicit = [] then Create_due da else Nothing_due)
         else if explicit \<noteq> [] \<or> asCredentialsSecretName (aSpec (last implicit)) \<noteq> daCredentialsSecretName da then Withdraw_due (last implicit)
         else if asRole (aSpec (last implicit)) \<noteq> wanted_role da then Role_due (last implicit) (wanted_role da)
         else Nothing_due)"

definition access_met :: "kube \<Rightarrow> Buckety \<Rightarrow> access_action \<Rightarrow> event list \<Rightarrow> bool" where
  "access_met K bky act l =
     (case act of
        Nothing_due \<Rightarrow> True
      | Create_due da \<Rightarrow> \<exists>a. AccessCreated a None \<in> set l \<and> key_of (aMeta a) = key_of (bMeta bky) \<and> refers_to bky a \<and> is_implicit a \<and>
          IsControlledBy K (aMeta a) (bMeta bky) \<and>
          asCredentialsSecretName (aSpec a) = daCredentialsSecretName da \<and> asRole (aSpec a) = wanted_role da
      | Withdraw_due i \<Rightarrow> AccessDeleted i None \<in> set l
      | Role_due i r \<Rightarrow> AccessUpdated (i\<lparr>aSpec := (aSpec i)\<lparr>asRole := r\<rparr>\<rparr>) None \<in> set l)"

lemma access_met_more: "\<lbrakk>access_met K b act l; set l \<subseteq> set l'\<rbrakk> \<Longrightarrow> access_met K b act l'"
  by (cases act) (auto simp: access_met_def)

lemma access_action_same: "\<lbrakk>bMeta b = bMeta b'; bSpec b = bSpec b'\<rbrakk> \<Longrightarrow> access_action b = access_action b' \<and> access_met K b = access_met K b'"
  by (auto simp: access_action_def access_met_def refers_to_def fun_eq_iff split: access_action.splits)

lemma scan_accesses_filters:
  "scan_accesses name items = (
     let mine = filter (\<lambda>a. asBucketyRef (aSpec a) = name) items; implicit = filter is_implicit mine in
     (if implicit = [] then None else Some (last implicit), filter (\<lambda>a. \<not> is_implicit a) mine \<noteq> []))"
  by (induction items rule: rev_induct) (auto simp: scan_accesses_def [of _ "[]"] scan_accesses_snoc Let_def)

text \<open>The API server lists the accesses and accepts the writes to the implicit one.\<close>

definition accesses_served :: "'w env \<Rightarrow> Buckety \<Rightarrow> bool" where
  "accesses_served E bky \<longleftrightarrow>
     (\<forall>w. \<exists>items. fst (rdListAccesses (reader.truncate (eClient E)) (Namespace (bMeta bky)) w) = Inr items) \<and>
     (\<forall>da. bsDefaultAccess (bSpec bky) = Some da \<longrightarrow>
        (\<exists>m. SetControllerReference (eKube E) (bMeta bky) (aMeta (new_implicit_access bky da)) = Inr m)) \<and>
     (\<forall>a w. \<exists>a'. fst (clCreateAccess (eClient E) a w) = Inr a') \<and> (\<forall>a w. \<exists>a'. fst (clUpdateAccess (eClient E) a w) = Inr a') \<and>
     (\<forall>a w. fst (clDeleteAccess (eClient E) a w) = None)"

lemma accesses_served_same: "\<lbrakk>accesses_served E b'; same_object b b'\<rbrakk> \<Longrightarrow> accesses_served E b"
  using same_objectD [of b b'] by (simp add: accesses_served_def new_implicit_access_def)

definition access_dealt :: "kube \<Rightarrow> Buckety \<Rightarrow> event list \<Rightarrow> bool" where
  "access_dealt K bky l \<longleftrightarrow> (\<exists>items. ListedAccesses False (Namespace (bMeta bky)) (Inr items) \<in> set l \<and>
     access_met K bky (access_action bky items) l)"

lemma implicit_created:
  assumes "kube_api K" "SetControllerReference K (bMeta b) (aMeta (new_implicit_access b da)) = Inr m"
  shows "access_met K b (Create_due da) (l @ [AccessCreated ((new_implicit_access b da)\<lparr>aMeta := m\<rparr>) None])"
proof -
  from kube_api.set_controller [OF assms] obtain rs where "IsControlledBy K m (bMeta b)" "m = (aMeta (new_implicit_access b da))\<lparr>OwnerReferences := rs\<rparr>"
    by blast
  then show ?thesis
    by (auto simp: access_met_def new_implicit_access_def key_of_def refers_to_def is_implicit_def wanted_role_def get0_def enum_defs)
qed

text \<open>The handler is the action its listing asks for.\<close>

lemma implicit_access_unfold:
  "reconcileImplicitAccess E b = do {
     l \<leftarrow> call (rdListAccesses (reader.truncate (eClient E)) (Namespace (bMeta b))) (ListedAccesses False (Namespace (bMeta b)));
     case l of
       Inl e \<Rightarrow> ret (Some e)
     | Inr items \<Rightarrow>
         (case access_action b items of
            Nothing_due \<Rightarrow> ret None
          | Create_due da \<Rightarrow>
              (case SetControllerReference (eKube E) (bMeta b) (aMeta (new_implicit_access b da)) of
                 Inl e \<Rightarrow> ret (Some e)
               | Inr m \<Rightarrow> do {
                   r \<leftarrow> call (clCreateAccess (eClient E) ((new_implicit_access b da)\<lparr>aMeta := m\<rparr>)) (\<lambda>r. AccessCreated ((new_implicit_access b da)\<lparr>aMeta := m\<rparr>) (err_of r));
                   ret (IgnoreAlreadyExists (err_of r)) })
          | Withdraw_due i \<Rightarrow> do { r \<leftarrow> call (clDeleteAccess (eClient E) i) (AccessDeleted i); ret (IgnoreNotFound r) }
          | Role_due i role \<Rightarrow> do {
              r \<leftarrow> call (clUpdateAccess (eClient E) (i\<lparr>aSpec := (aSpec i)\<lparr>asRole := role\<rparr>\<rparr>)) (\<lambda>r. AccessUpdated (i\<lparr>aSpec := (aSpec i)\<lparr>asRole := role\<rparr>\<rparr>) (err_of r));
              ret (err_of r) }) }"
  unfolding reconcileImplicitAccess_def scan_accesses_filters access_action_def refers_to_def [abs_def] wanted_role_def
  by (intro arg_cong2 [where f = State_Monad.bind] refl ext) (auto simp: Let_def enum_defs split: sum.splits option.splits)

lemma pass_reconcileImplicitAccess_met:
  assumes K: "kube_api (eKube E)" and s: "accesses_served E b"
  shows "pass m (reconcileImplicitAccess E b) (\<lambda>r l m'. r = None \<and> m' = m \<and> access_dealt (eKube E) b l)"
proof -
  have c: "err_of (fst (clCreateAccess (eClient E) a w)) = None" "err_of (fst (clUpdateAccess (eClient E) a w)) = None" for a w
    using s unfolding accesses_served_def err_of_def by (metis sum.case(2))+
  have d: "fst (clDeleteAccess (eClient E) a w) = None" for a w using s unfolding accesses_served_def by metis
  have l: "\<exists>w. fst (rdListAccesses (reader.truncate (eClient E)) (Namespace (bMeta b)) w) = r \<Longrightarrow> \<exists>items. r = Inr items" for r
    using s unfolding accesses_served_def by metis
  have o: "\<exists>m. SetControllerReference (eKube E) (bMeta b) (aMeta (new_implicit_access b da)) = Inr m" if "access_action b items = Create_due da" for items da
    using s that by (auto simp: accesses_served_def access_action_def Let_def split: option.splits if_splits)
  have act: "pass m (case access_action b items of
        Nothing_due \<Rightarrow> ret None
      | Create_due da \<Rightarrow>
          (case SetControllerReference (eKube E) (bMeta b) (aMeta (new_implicit_access b da)) of
             Inl e \<Rightarrow> ret (Some e)
           | Inr m \<Rightarrow> do {
               r \<leftarrow> call (clCreateAccess (eClient E) ((new_implicit_access b da)\<lparr>aMeta := m\<rparr>)) (\<lambda>r. AccessCreated ((new_implicit_access b da)\<lparr>aMeta := m\<rparr>) (err_of r));
               ret (IgnoreAlreadyExists (err_of r)) })
      | Withdraw_due i \<Rightarrow> do { r \<leftarrow> call (clDeleteAccess (eClient E) i) (AccessDeleted i); ret (IgnoreNotFound r) }
      | Role_due i role \<Rightarrow> do {
          r \<leftarrow> call (clUpdateAccess (eClient E) (i\<lparr>aSpec := (aSpec i)\<lparr>asRole := role\<rparr>\<rparr>)) (\<lambda>r. AccessUpdated (i\<lparr>aSpec := (aSpec i)\<lparr>asRole := role\<rparr>\<rparr>) (err_of r));
          ret (err_of r) })
      (\<lambda>r l m'. r = None \<and> m' = m \<and> access_met (eKube E) b (access_action b items) l)" for items
  proof (cases "access_action b items")
    case (Create_due da)
    with o obtain om where "SetControllerReference (eKube E) (bMeta b) (aMeta (new_implicit_access b da)) = Inr om" by blast
    with implicit_created [OF K this, of "[]"] Create_due show ?thesis
      by (auto simp: c IgnoreAlreadyExists_def intro!: pass_bind pass_call pass_ret)
  qed (auto simp: access_met_def c d IgnoreNotFound_def intro!: pass_bind pass_call pass_ret)
  show ?thesis
    unfolding implicit_access_unfold
    by (rule pass_bind, rule pass_call, drule l, elim exE, simp only: sum.case, rule pass_mono [OF act])
       (auto simp: access_dealt_def intro!: exI elim: access_met_more)
qed

text \<open>No action is due: the accesses listed are as the spec asks.\<close>

definition accesses_settled :: "'w env \<Rightarrow> Buckety \<Rightarrow> bool" where
  "accesses_settled E bky \<longleftrightarrow>
     (\<forall>w. \<exists>items. fst (rdListAccesses (reader.truncate (eClient E)) (Namespace (bMeta bky)) w) = Inr items \<and>
        access_action bky items = Nothing_due)"

lemma pass_reconcileImplicitAccess_idle:
  assumes "accesses_settled E b" and "\<And>ns r. Q None [ListedAccesses False ns r] m"
  shows "pass m (reconcileImplicitAccess E b) Q"
proof -
  have answer: "\<exists>items. r = Inr items \<and> access_action b items = Nothing_due"
    if "\<exists>w. fst (rdListAccesses (reader.truncate (eClient E)) (Namespace (bMeta b)) w) = r" for r
    using that assms(1) unfolding accesses_settled_def by metis
  show ?thesis
    unfolding implicit_access_unfold by (rule pass_bind, rule pass_call, drule answer) (auto intro!: pass_ret assms(2))
qed

text \<open>The pass ended without error and wrote \<open>b0\<close>, with Ready=True and its generation observed, and dealt with the default access.\<close>

definition reported :: "'w env \<Rightarrow> Buckety \<Rightarrow> Buckety \<Rightarrow> outcome \<times> Buckety \<Rightarrow> event list \<Rightarrow> bool" where
  "reported E base b0 r l \<longleftrightarrow> snd (fst r) = None \<and> access_dealt (eKube E) b0 l \<and>
     (\<exists>b. BucketyStatusPatched base b None \<in> set l \<and> same_object b b0 \<and>
        IsStatusConditionTrue (eKube E) (conds b) ''Ready'' \<and>
        stObservedGeneration (bStatus b) = Generation (bMeta b))"

lemma access_dealt_more: "\<lbrakk>access_dealt K b l; bMeta b = bMeta b0; bSpec b = bSpec b0; set l \<subseteq> set l'\<rbrakk> \<Longrightarrow> access_dealt K b0 l'"
  using access_action_same [of b b0 K] by (auto simp: access_dealt_def intro: access_met_more)

lemma pass_reported:
  assumes "pass m p (\<lambda>r l _. reported E base b r l)" and "same_object b b0" and "\<And>l. set l \<subseteq> set (f l)"
  shows "pass m p (\<lambda>r l _. reported E base b0 r (f l))"
  by (rule pass_mono [OF assms(1)])
     (use assms(2,3) access_dealt_more in \<open>fastforce simp: reported_def same_object_def\<close>)

lemma is_true_with_kept_times:
  "kube_api (eKube E) \<Longrightarrow> IsStatusConditionTrue (eKube E) (conds (with_kept_times E b base)) t =
     IsStatusConditionTrue (eKube E) (conds b) t"
  by (simp add: with_kept_times_def is_true_keep)

lemma pass_finish_pass_ready:
  assumes K: "kube_api (eKube E)" and "patch_accepted E" and "accesses_served E b"
    and new: "stBackend (bStatus b) \<noteq> stBackend (bStatus base)"
  shows "pass m (finish_pass E b base) (\<lambda>r l _. reported E base b r l)"
  unfolding finish_pass_def Let_def
  by (rule pass_bind, rule pass_mono [OF pass_reconcileImplicitAccess_met [OF K assms(3)]], elim conjE, hypsubst, unfold option.case,
      intro pass_bind pass_status_Event pass_set_cond pass_patchStatus_accepted
        pass_case_option pass_case_prod pass_cadence_Recheck pass_ret changes_status_sticky)
     (use assms in \<open>auto simp: reported_def is_true_with_kept_times kube_api.is_true_status_Set elim!: access_dealt_more\<close>)

lemma pass_report_changes:
  assumes "\<And>l. only_events l \<Longrightarrow> Q () l m"
  shows "pass m (each (reportChange E b) cs) Q"
proof (rule pass_mono)
  show "pass m (each (reportChange E b) cs) (\<lambda>_ l m'. list_all is_KubeEvent l \<and> m' = m)"
    by (rule pass_each [where I = "\<lambda>m'. m' = m"])
       (auto simp: reportChange_def only_events_def intro!: pass_record_Event)
qed (use assms in \<open>auto simp: only_events_def\<close>)

lemma pass_ensure_backend_ready:
  assumes "kube_api (eKube E)" and "patch_accepted E" and "accesses_served E b"
    and "\<forall>r w. snd (fst (dEnsureBuckety (beDriver be) r w)) = None"
    and "stBackend (bStatus b) \<noteq> stBackend (bStatus base)"
  shows "pass m (ensure_backend E b base be ps) (\<lambda>r l _. reported E base b r l)"
proof -
  have ok: "fst (dEnsureBuckety (beDriver be) r w) \<noteq> (cs, Some e)" for r w cs e
    using assms(4) by (metis option.distinct(1) snd_conv)
  have finish: "pass m' (finish_pass E b' base) (\<lambda>r l _. reported E base b r (f l))"
    if "same_object b' b" "\<And>l. set l \<subseteq> set (f l)" for b' m' f
    by (rule pass_reported [OF pass_finish_pass_ready that])
       (use assms that(1) accesses_served_same same_objectD [OF that(1)] in auto)
  show ?thesis
    unfolding ensure_backend_def Let_def
    by (intro pass_bind pass_set_cond pass_call pass_case_prod pass_report_changes pass_now pass_case_option finish)
       (use ok in auto)
qed

lemma pass_reconcile_stamped_ready:
  assumes "kube_api (eKube E)" and "patch_accepted E" and "accesses_served E b"
    and "\<forall>r w. snd (fst (dEnsureBuckety (beDriver be) r w)) = None"
    and "stBackend (bStatus b) \<noteq> stBackend (bStatus base)"
    and "stDriverMajor (bStatus b) = num_value (majorOf (dVersion (beDriver be)))"
    and "ResolvedParameters be (Name (bMeta b)) (Namespace (bMeta b)) (bsParameters (bSpec b)) = Inr ps"
    and "dValidateParameters (beDriver be) ps = None"
  shows "pass m (reconcile_stamped E b base be) (\<lambda>r l _. reported E base b r l)"
proof -
  let ?b = "remove_cond E (remove_cond E (b\<lparr>bStatus := (bStatus b)\<lparr>stDriverBuildVersion := dVersion (beDriver be)\<rparr>\<rparr>)
    ''DriverVersionIncompatible'') ''BackendUnavailable''"
  have b: "same_object ?b b" by simp
  have "accesses_served E ?b" by (rule accesses_served_same [OF assms(3) b])
  then have "pass m (ensure_backend E ?b base be ps) (\<lambda>r l _. reported E base b r l)"
    by (intro pass_reported [where f = "\<lambda>l. l", OF pass_ensure_backend_ready])
       (use assms b same_objectD [OF b] in auto)
  with assms(6-8) b same_objectD [OF b] show ?thesis
    by (simp add: reconcile_stamped_def Let_def)
qed

lemma stamped_simps [simp]:
  "bMeta (stamped b be n p) = bMeta b" "bSpec (stamped b be n p) = bSpec b"
  "stBackend (bStatus (stamped b be n p)) = beName be"
  "stDriverMajor (bStatus (stamped b be n p)) = num_value (majorOf (dVersion (beDriver be)))"
  by (simp_all add: stamped_def)

lemma pass_stamp_sticky_ready:
  assumes "kube_api (eKube E)" and "patch_accepted E" and "accesses_served E bky"
    and "\<forall>r w. snd (fst (dEnsureBuckety (beDriver be) r w)) = None"
    and "stBackend (bStatus bky) = []" and "beName be \<noteq> []"
    and "ResolveName be (bsName (bSpec bky)) (Name (bMeta bky)) (Namespace (bMeta bky)) (Labels (bMeta bky)) = Inr n"
    and "dValidateResourceName (beDriver be) n = None"
    and "\<forall>w. fst (dInspectBuckety (beDriver be) n w) = Inr insp"
    and "decideProvenance insp (bsAdoption (bSpec bky)) \<noteq> []"
    and "\<forall>b w. fst (clStatusUpdateBuckety (eClient E) b w) = Inr b"
    and "ResolvedParameters be (Name (bMeta bky)) (Namespace (bMeta bky)) (bsParameters (bSpec bky)) = Inr ps"
    and "dValidateParameters (beDriver be) ps = None"
  shows "pass m (stamp_sticky E bky bky be) (\<lambda>r l _.
    reported E bky (stamped bky be n (decideProvenance insp (bsAdoption (bSpec bky)))) r l)"
proof -
  have "accesses_served E (stamped bky be n p)" for p
    using assms(3) by (simp add: accesses_served_def new_implicit_access_def)
  then have rest: "pass m' (reconcile_stamped E (stamped bky be n p) bky be)
      (\<lambda>r l _. reported E bky (stamped bky be n p) r (f l))"
    if "\<And>l. set l \<subseteq> set (f l)" for m' f p
    by (intro pass_reported [OF pass_reconcile_stamped_ready]) (use assms that in auto)
  have "pass m (do {
      i \<leftarrow> call (dInspectBuckety (beDriver be) n) (Inspected (beName be) n); k i }) Q"
    if "pass m (k (Inr insp)) (\<lambda>r l'. Q r (Inspected (beName be) n (Inr insp) # l'))" for k Q
    using that assms(9) by (intro pass_bind pass_call) auto
  note inspect = this
  show ?thesis
    unfolding stamp_sticky_def Let_def assms(7,8) sum.case option.case
    by (intro inspect, unfold sum.case, intro pass_bind pass_call pass_case_sum pass_if pass_record_Event pass_ret)
       (use assms(10,11) in \<open>auto intro!: rest\<close>)
qed


section \<open>The settled pass\<close>

context kube_api
begin

lemma remove_absent: "FindStatusCondition K cs t = None \<Longrightarrow> RemoveStatusCondition K cs t = cs"
  by (auto simp: remove_condition find_condition find_None_iff filter_id_conv)

lemma remove_absent_set:
  "\<lbrakk>FindStatusCondition K cs t = None; t \<noteq> typ\<rbrakk> \<Longrightarrow>
   RemoveStatusCondition K (status_Set K t0 cs typ st why msg gen) t = status_Set K t0 cs typ st why msg gen"
  by (simp add: remove_absent find_status_Set_other)

text \<open>The condition writes of an uneventful pass leave every verdict as it was.\<close>

lemma settled_verdicts:
  assumes base: "distinct_types base"
    and r: "FindStatusCondition K base ''Reconciling'' = Some r" "cStatus r = ConditionFalse" "cReason r = ''Idle''" "cObservedGeneration r = gen"
    and c: "FindStatusCondition K base ''Ready'' = Some c" "cStatus c = ConditionTrue" "cReason c = ''EnsuredOnBackend''" "cObservedGeneration c = gen"
  shows "list_all2 same_verdict base
    (status_Set K t3 (status_Set K t2 (status_Set K t1 base ''Reconciling'' ConditionTrue why m1 gen)
       ''Reconciling'' ConditionFalse ''Idle'' m2 gen) ''Ready'' ConditionTrue ''EnsuredOnBackend'' m3 gen)"
proof -
  let ?one = "status_Set K t1 base ''Reconciling'' ConditionTrue why m1 gen"
  let ?two = "status_Set K t2 ?one ''Reconciling'' ConditionFalse ''Idle'' m2 gen"
  have d: "distinct_types ?one" "distinct_types ?two"
    by (simp_all add: status_Set_distinct base)
  obtain r' where r': "FindStatusCondition K ?one ''Reconciling'' = Some r'"
    using find_status_Set_same by blast
  have c': "FindStatusCondition K ?two ''Ready'' = Some c"
    by (simp add: find_status_Set_other c(1))
  let ?three = "status_Set K t3 ?two ''Ready'' ConditionTrue ''EnsuredOnBackend'' m3 gen"
  note steps =
    status_Set_same_verdict [OF base r(1), of ConditionTrue why gen t1 m1, unfolded list_all2_conv_all_nth]
    status_Set_same_verdict [OF d(1) r', of ConditionFalse "''Idle''" gen t2 m2, unfolded list_all2_conv_all_nth]
    status_Set_same_verdict [OF d(2) c', of ConditionTrue "''EnsuredOnBackend''" gen t3 m3, unfolded list_all2_conv_all_nth]
  show ?thesis
    unfolding list_all2_conv_all_nth
  proof (intro conjI allI impI)
    show "length base = length ?three" using steps by simp
    fix i assume i: "i < length base"
    with steps have at: "if cType (base ! i) = ''Reconciling'' then cType (?one ! i) = ''Reconciling'' else ?one ! i = base ! i"
      "if cType (?one ! i) = ''Reconciling'' then cType (?two ! i) = ''Reconciling'' \<and> cStatus (?two ! i) = ConditionFalse \<and>
         cReason (?two ! i) = ''Idle'' \<and> cObservedGeneration (?two ! i) = gen else ?two ! i = ?one ! i"
      "if cType (?two ! i) = ''Ready'' then cType (?three ! i) = ''Ready'' \<and> cStatus (?three ! i) = ConditionTrue \<and>
         cReason (?three ! i) = ''EnsuredOnBackend'' \<and> cObservedGeneration (?three ! i) = gen else ?three ! i = ?two ! i"
      by (auto split: if_splits)
    have "FindStatusCondition K base (cType (base ! i)) = Some (base ! i)"
      by (rule find_distinct [OF base]) (simp add: i)
    with r(1) c(1) have "cType (base ! i) = ''Reconciling'' \<Longrightarrow> base ! i = r" "cType (base ! i) = ''Ready'' \<Longrightarrow> base ! i = c"
      by simp_all
    with at r(2-4) c(2-4) show "same_verdict (base ! i) (?three ! i)"
      unfolding same_verdict_def
      by (cases "cType (base ! i) = ''Reconciling''"; cases "cType (base ! i) = ''Ready''") simp_all
  qed
qed

end

text \<open>A Buckety whose status already says everything a successful pass would say.\<close>

definition quiescent :: "kube \<Rightarrow> Buckety \<Rightarrow> 'w Backend \<Rightarrow> bool" where
  "quiescent K bky be \<longleftrightarrow> distinct_types (conds bky) \<and>
     (\<exists>r. FindStatusCondition K (conds bky) ''Reconciling'' = Some r \<and> cStatus r = ConditionFalse \<and>
        cReason r = ''Idle'' \<and> cObservedGeneration r = Generation (bMeta bky)) \<and>
     (\<exists>c. FindStatusCondition K (conds bky) ''Ready'' = Some c \<and> cStatus c = ConditionTrue \<and>
        cReason c = ''EnsuredOnBackend'' \<and> cObservedGeneration c = Generation (bMeta bky)) \<and>
     FindStatusCondition K (conds bky) ''DriverVersionIncompatible'' = None \<and>
     FindStatusCondition K (conds bky) ''BackendUnavailable'' = None \<and>
     FindStatusCondition K (conds bky) ''ParameterDrift'' = None \<and>
     stObservedGeneration (bStatus bky) = Generation (bMeta bky) \<and>
     stDriverBuildVersion (bStatus bky) = dVersion (beDriver be) \<and>
     stDriverMajor (bStatus bky) = num_value (majorOf (dVersion (beDriver be)))"

text \<open>What a pass may do without writing to the API server; a Kubernetes Event is a write.\<close>

fun writes :: "event \<Rightarrow> bool" where
  "writes (ListedAccesses _ _ _) = False"
| "writes (Ensured _ _ _) = False"
| "writes (DriftGauge _ _ _ _) = False"
| "writes (DriftForgotten _ _) = False"
| "writes _ = True"

abbreviation silent :: "event list \<Rightarrow> bool" where
  "silent l \<equiv> list_all (\<lambda>e. \<not> writes e) l"

lemma status_Event_gated: "\<not> event_due (eKube E) (eRecorder E) base typ st reason \<Longrightarrow> status_Event E obj base typ st reason evType evReason msg = ret ()"
  by (simp add: status_Event_def)

lemma quiescent_unchanged:
  assumes K: "kube_api (eKube E)" and q: "quiescent (eKube E) bky be"
    and b: "bStatus b = (bStatus bky)\<lparr>stConditions := status_Set (eKube E) t3 (status_Set (eKube E) t2
        (status_Set (eKube E) t1 (conds bky) ''Reconciling'' ConditionTrue why m1 (Generation (bMeta bky)))
        ''Reconciling'' ConditionFalse ''Idle'' m2 (Generation (bMeta bky)))
        ''Ready'' ConditionTrue ''EnsuredOnBackend'' m3 (Generation (bMeta bky)),
      stObservedGeneration := Generation (bMeta bky)\<rparr>"
  shows "\<not> changes_status E b bky"
proof -
  from q obtain r c where d: "distinct_types (conds bky)" and
    "FindStatusCondition (eKube E) (conds bky) ''Reconciling'' = Some r" "cStatus r = ConditionFalse"
    "cReason r = ''Idle''" "cObservedGeneration r = Generation (bMeta bky)"
    "FindStatusCondition (eKube E) (conds bky) ''Ready'' = Some c" "cStatus c = ConditionTrue"
    "cReason c = ''EnsuredOnBackend''" "cObservedGeneration c = Generation (bMeta bky)"
    and g: "stObservedGeneration (bStatus bky) = Generation (bMeta bky)"
    unfolding quiescent_def by blast
  from kube_api.keep_after_same_verdicts [OF K d kube_api.settled_verdicts [OF K this(1-9)]] g
  show ?thesis
    by (simp add: changes_status_iff [OF K] b)
qed

lemma pass_finish_pass_quiet:
  assumes K: "kube_api (eKube E)" and q: "quiescent (eKube E) bky be" and na: "accesses_settled E bky"
  shows "pass m (finish_pass E (set_conditions (status_Set (eKube E) t1 (conds bky) ''Reconciling'' ConditionTrue why m1
      (Generation (bMeta bky))) bky) bky) (\<lambda>r l _. silent l \<and> snd (fst r) = None)"
proof -
  have due: "\<not> event_due (eKube E) (eRecorder E) (conds bky) ''Ready'' ConditionTrue ''EnsuredOnBackend''"
    using q by (auto simp: quiescent_def event_due_def)
  have "accesses_settled E (set_conditions cs bky)" for cs
    using na by (simp add: accesses_settled_def access_action_def refers_to_def set_conditions_def)
  then show ?thesis
    unfolding finish_pass_def Let_def status_Event_gated [OF due]
    by (intro pass_bind pass_reconcileImplicitAccess_idle pass_set_cond
          pass_patchStatus_unchanged quiescent_unchanged [OF K q] pass_case_option pass_case_prod
          pass_cadence_Recheck pass_ret)
       (auto simp: set_conditions_def)
qed

lemma pass_reconcile_stamped_quiet:
  assumes K: "kube_api (eKube E)" and q: "quiescent (eKube E) bky be" and na: "accesses_settled E bky"
    and "\<forall>r w. fst (dEnsureBuckety (beDriver be) r w) = ([], None)"
    and "ResolvedParameters be (Name (bMeta bky)) (Namespace (bMeta bky)) (bsParameters (bSpec bky)) = Inr ps"
    and "dValidateParameters (beDriver be) ps = None"
  shows "pass m (reconcile_stamped E bky bky be) (\<lambda>r l _. silent l \<and> snd (fst r) = None)"
proof -
  have ok: "cs = [] \<and> e = None" if "\<exists>w. fst (dEnsureBuckety (beDriver be) r w) = (cs, e)" for r cs e
    using assms(4) that by (metis prod.inject)
  have absent: "FindStatusCondition (eKube E) (conds bky) t = None"
    if "t \<in> {''DriverVersionIncompatible'', ''BackendUnavailable'', ''ParameterDrift''}" for t
    using q that by (auto simp: quiescent_def)
  have same: "bky\<lparr>bStatus := (bStatus bky)\<lparr>stDriverBuildVersion := dVersion (beDriver be)\<rparr>\<rparr> = bky"
    using q by (simp add: quiescent_def)
  have removed: "remove_cond E bky t = bky"
    if "t \<in> {''DriverVersionIncompatible'', ''BackendUnavailable'', ''ParameterDrift''}" for t
    using kube_api.remove_absent [OF K absent [OF that]] by (simp add: remove_cond_def set_conditions_def)
  have drift: "remove_cond E (set_conditions (status_Set (eKube E) t (conds bky) ''Reconciling'' st why msg g) bky) ''ParameterDrift''
      = set_conditions (status_Set (eKube E) t (conds bky) ''Reconciling'' st why msg g) bky" for t st why msg g
    using kube_api.remove_absent_set [OF K absent, of "''ParameterDrift''" "''Reconciling''"]
    by (simp add: remove_cond_def set_conditions_def)
  have finish: "pass m' (finish_pass E (set_conditions (status_Set (eKube E) t (conds bky) ''Reconciling'' ConditionTrue why msg
      (Generation (bMeta bky))) bky) bky) (\<lambda>r l _. silent (f l) \<and> snd (fst r) = None)"
    if "\<And>l. silent l \<Longrightarrow> silent (f l)" for m' t why msg f
    by (rule pass_mono [OF pass_finish_pass_quiet [OF K q na]]) (use that in auto)
  have "pass m (ensure_backend E bky bky be ps) (\<lambda>r l _. silent l \<and> snd (fst r) = None)"
    unfolding ensure_backend_def Let_def drift
    by (intro pass_bind pass_set_cond pass_call pass_case_prod, unfold drift) (auto dest!: ok intro!: pass_rules finish)
  moreover have "stDriverMajor (bStatus bky) = num_value (majorOf (dVersion (beDriver be)))"
    using q by (simp add: quiescent_def)
  ultimately show ?thesis
    unfolding reconcile_stamped_def Let_def same by (simp add: removed assms(5,6))
qed


section \<open>Properties\<close>

lemma pass_recordDrift: "(\<And>e. \<not> writes e \<Longrightarrow> Q () [e] m) \<Longrightarrow> pass m (recordDrift E b) Q"
  unfolding recordDrift_def forgetDrift_def by (intro pass_rules) auto

text \<open>The rest of a pass after its read: the stages, then the gauge.\<close>

lemma pass_Reconcile_tail:
  assumes "reads_buckety E req s bky" and "pass (memory s) (reconcile_body E req bky) (\<lambda>r l _. P r l)"
  shows "\<exists>b l e. P (pass_out (Reconcile E req) s, b) l \<and> \<not> writes e \<and> pass_log (Reconcile E req) s = l @ [e]"
proof -
  have "pass (memory s) (do { (out, b) \<leftarrow> reconcile_body E req bky; recordDrift E b; ret out })
      (\<lambda>out l' _. \<exists>b l e. P (out, b) l \<and> \<not> writes e \<and> l' = l @ [e])"
  proof (rule pass_bind, rule pass_mono [OF assms(2)])
    fix r l and m' :: ctrl_memory
    assume P: "P r l"
    obtain out b where r: "r = (out, b)" by fastforce
    have "pass m' (do { recordDrift E b; ret out }) (\<lambda>out' l' _. \<exists>b l'' e. P (out', b) l'' \<and> \<not> writes e \<and> l @ l' = l'' @ [e])"
      by (intro pass_bind pass_recordDrift pass_ret) (use P r in auto)
    then show "pass m' (case r of (out, b) \<Rightarrow> do { recordDrift E b; ret out })
        (\<lambda>out' l' _. \<exists>b l'' e. P (out', b) l'' \<and> \<not> writes e \<and> l @ l' = l'' @ [e])"
      by (simp add: r)
  qed
  then show ?thesis
    unfolding Reconcile_def using assms(1)
    by (intro passD_ext [where a = "Inr bky" and
          Q = "\<lambda>out l' _. \<exists>b l e. P (out, b) l \<and> \<not> writes e \<and> l' = l @ [e]"]) simp_all
qed

text \<open>
  C21. A first pass provisions. On a live, unstamped Buckety that is not Ready yet, with its
  finalizer in place and an available backend: if the name resolves and is valid, the
  inspection passes the adoption gate, the stamping update is accepted, the resolved
  parameters are valid, \<open>EnsureBuckety\<close> succeeds, the accesses of the namespace are listed and
  writes of accesses and status patches are accepted, then one pass ends without error and has
  written a status with Ready=True, the observed generation and the sticky fields of this
  backend, name and provenance; and it has dealt with the default access as the listing asks:
  created it, controlled by the Buckety and with the role and Secret of the spec, when the spec
  declares one and no access refers to the Buckety; withdrawn it when the spec no longer declares
  it, an explicit access exists or the Secret's name changed; set its role when that changed.
\<close>

theorem first_pass_provisions:
  assumes "kube_api (eKube E)" and "reads_buckety E req s bky"
    and "\<not> being_deleted (bMeta bky)" and "ContainsFinalizer (eKube E) (bMeta bky) FinalizerCleanup"
    and "stBackend (bStatus bky) = []" and "\<not> IsStatusConditionTrue (eKube E) (stConditions (bStatus bky)) ''Ready''"
    and "resolve_backend E bky = Inr be" and "beName be \<noteq> []"
    and "ResolveName be (bsName (bSpec bky)) (Name (bMeta bky)) (Namespace (bMeta bky)) (Labels (bMeta bky)) = Inr n"
    and "dValidateResourceName (beDriver be) n = None"
    and "\<forall>w. fst (dInspectBuckety (beDriver be) n w) = Inr insp"
    and "decideProvenance insp (bsAdoption (bSpec bky)) \<noteq> []"
    and "\<forall>b w. fst (clStatusUpdateBuckety (eClient E) b w) = Inr b"
    and "ResolvedParameters be (Name (bMeta bky)) (Namespace (bMeta bky)) (bsParameters (bSpec bky)) = Inr ps"
    and "dValidateParameters (beDriver be) ps = None"
    and "\<forall>r w. snd (fst (dEnsureBuckety (beDriver be) r w)) = None"
    and "accesses_served E bky" and "patch_accepted E"
  shows "snd (pass_out (Reconcile E req) s) = None \<and>
    (\<exists>b. BucketyStatusPatched bky b None \<in> set (pass_log (Reconcile E req) s) \<and>
       sticky b = (beName be, dName (beDriver be), num_value (majorOf (dVersion (beDriver be))), n,
         decideProvenance insp (bsAdoption (bSpec bky))) \<and>
       IsStatusConditionTrue (eKube E) (stConditions (bStatus b)) ''Ready'' \<and>
       stObservedGeneration (bStatus b) = Generation (bMeta b)) \<and>
    (\<exists>items. ListedAccesses False (Namespace (bMeta bky)) (Inr items) \<in> set (pass_log (Reconcile E req) s) \<and>
       access_met (eKube E) bky (access_action bky items) (pass_log (Reconcile E req) s))"
proof -
  let ?b = "stamped bky be n (decideProvenance insp (bsAdoption (bSpec bky)))"
  have "pass (memory s) (reconcile_body E req bky) (\<lambda>r l _. reported E bky ?b r l)"
  proof -
    have "\<not> settled E bky (resolve_backend E bky)"
      using assms(6,7) by (simp add: settled_def)
    moreover have "pass m' (stamp_sticky E bky bky be) (\<lambda>r l _. reported E bky ?b r l)" for m'
      by (rule pass_stamp_sticky_ready) (use assms in auto)
    ultimately show ?thesis
      using assms(3-5,7) unfolding reconcile_body_def Let_def
      by (auto intro!: pass_bind pass_startup_Defer_unsettled)
  qed
  moreover have "sticky ?b = (beName be, dName (beDriver be), num_value (majorOf (dVersion (beDriver be))), n,
         decideProvenance insp (bsAdoption (bSpec bky)))"
    by (simp add: sticky_def stamped_def)
  moreover have "access_dealt (eKube E) bky (l @ [e])" if "access_dealt (eKube E) ?b l" for l e
    by (rule access_dealt_more [OF that]) auto
  ultimately show ?thesis
    using pass_Reconcile_tail [OF assms(2), of "\<lambda>r l. reported E bky ?b r l"]
    unfolding access_dealt_def [symmetric] by (fastforce simp: reported_def same_object_def)
qed

text \<open>A new Buckety that declares a default access.\<close>

definition demo_default :: Buckety where
  "demo_default = (let b = demo_buckety None RetentionDelete [] [] in
     b\<lparr>bSpec := (bSpec b)\<lparr>bsDefaultAccess := Some \<lparr>daRole = [], daCredentialsSecretName = ''creds''\<rparr>\<rparr>\<rparr>)"

theorem first_pass_provisions_witness:
  "let E = (demo_env (demo_client (Some demo_default) None [] None) inert_driver)\<lparr>eRecorder := True\<rparr>;
       l = pass_log (Reconcile E demo_key) demo_sys
   in snd (pass_out (Reconcile E demo_key) demo_sys) = None \<and>
      (\<exists>b. BucketyStatusPatched demo_default b None \<in> set l \<and>
         stBackendResourceName (bStatus b) = ''b'' \<and> stProvenance (bStatus b) = ProvenanceCreated \<and>
         IsStatusConditionTrue (eKube E) (stConditions (bStatus b)) ''Ready'') \<and>
      (\<exists>items. ListedAccesses False ''ns'' (Inr items) \<in> set l \<and> access_met (eKube E) demo_default (access_action demo_default items) l)"
proof -
  let ?bky = demo_default
  let ?E = "(demo_env (demo_client (Some ?bky) None [] None) inert_driver)\<lparr>eRecorder := True\<rparr>"
  have "snd (pass_out (Reconcile ?E demo_key) demo_sys) = None \<and>
    (\<exists>b. BucketyStatusPatched ?bky b None \<in> set (pass_log (Reconcile ?E demo_key) demo_sys) \<and>
       sticky b = (beName (demo_backend inert_driver), dName (beDriver (demo_backend inert_driver)),
         num_value (majorOf (dVersion (beDriver (demo_backend inert_driver)))), ''b'',
         decideProvenance \<lparr>Exists = False, Empty = False\<rparr> (bsAdoption (bSpec ?bky))) \<and>
       IsStatusConditionTrue (eKube ?E) (stConditions (bStatus b)) ''Ready'' \<and>
       stObservedGeneration (bStatus b) = Generation (bMeta b)) \<and>
    (\<exists>items. ListedAccesses False (Namespace (bMeta ?bky)) (Inr items) \<in> set (pass_log (Reconcile ?E demo_key) demo_sys) \<and>
       access_met (eKube ?E) ?bky (access_action ?bky items) (pass_log (Reconcile ?E demo_key) demo_sys))"
    by (rule first_pass_provisions [where ps = "[]"])
       (simp_all add: documented.kube_api_axioms, simp_all add: demo_default_def demo_defs documented_kube_def being_deleted_def
          resolve_backend_def Lookup_def ResolveName_def ResolvedParameters_def EffectiveParameters_def
          TemplatedParameters_def decideProvenance_def accesses_served_def new_implicit_access_def patch_accepted_def reader.defs enum_defs)
  moreover have "Namespace (bMeta demo_default) = ''ns''" by (simp add: demo_default_def demo_defs)
  ultimately show ?thesis
    by (auto simp: Let_def sticky_def decideProvenance_def demo_default_def demo_buckety_def)
qed

text \<open>
  C24. A settled Buckety is left alone. When the status already carries the verdicts of a
  successful pass under this driver build, the parameters are valid, \<open>EnsureBuckety\<close> succeeds and
  reports no changes, and the listed accesses leave nothing to create, withdraw or change, a pass
  ends without error and writes nothing to the API server, Kubernetes Events included, whatever
  the clock says: its only traces are the listing of the accesses, the driver call and the
  gauge.
\<close>

theorem settled_pass_writes_nothing:
  assumes "kube_api (eKube E)" and "reads_buckety E req s bky"
    and "\<not> being_deleted (bMeta bky)" and "ContainsFinalizer (eKube E) (bMeta bky) FinalizerCleanup"
    and "stBackend (bStatus bky) \<noteq> []" and "resolve_backend E bky = Inr be" and "quiescent (eKube E) bky be"
    and "ResolvedParameters be (Name (bMeta bky)) (Namespace (bMeta bky)) (bsParameters (bSpec bky)) = Inr ps"
    and "dValidateParameters (beDriver be) ps = None"
    and "\<forall>r w. fst (dEnsureBuckety (beDriver be) r w) = ([], None)"
    and "accesses_settled E bky"
  shows "snd (pass_out (Reconcile E req) s) = None \<and>
    (\<forall>e \<in> set (pass_log (Reconcile E req) s). \<not> writes e)"
proof -
  have stage: "pass m' (reconcile_stamped E bky bky be) (\<lambda>r l _. silent l \<and> snd (fst r) = None)" for m'
    by (rule pass_reconcile_stamped_quiet) (use assms in auto)
  have "pass (memory s) (reconcile_body E req bky) (\<lambda>r l _. silent l \<and> snd (fst r) = None)"
    using assms(3-6) stage unfolding reconcile_body_def Let_def startup_Defer_def
    by (auto intro!: pass_rules)
  from pass_Reconcile_tail [OF assms(2), of "\<lambda>r l. silent l \<and> snd (fst r) = None", OF this]
  show ?thesis by (auto simp: list_all_iff)
qed

theorem settled_pass_writes_nothing_witness:
  "let cond = (\<lambda>typ st why. \<lparr>cType = typ, cStatus = st, cReason = why, cMessage = Lit ''old'',
         cObservedGeneration = 1, cLastTransitionTime = 7\<rparr>);
       bky = set_conditions [cond ''Reconciling'' ConditionFalse ''Idle'', cond ''Ready'' ConditionTrue ''EnsuredOnBackend'']
         (demo_buckety None RetentionRetain ''r'' ProvenanceAdopted);
       E = (demo_env (demo_client (Some bky) None [] None) inert_driver)\<lparr>eRecorder := True\<rparr>
   in snd (pass_out (Reconcile E demo_key) demo_sys) = None \<and>
      (\<forall>e \<in> set (pass_log (Reconcile E demo_key) demo_sys). \<not> writes e)"
proof -
  let ?cond = "\<lambda>typ st why. \<lparr>cType = typ, cStatus = st, cReason = why, cMessage = Lit ''old'',
         cObservedGeneration = 1, cLastTransitionTime = 7\<rparr>"
  let ?bky = "set_conditions [?cond ''Reconciling'' ConditionFalse ''Idle'', ?cond ''Ready'' ConditionTrue ''EnsuredOnBackend'']
         (demo_buckety None RetentionRetain ''r'' ProvenanceAdopted)"
  let ?E = "(demo_env (demo_client (Some ?bky) None [] None) inert_driver)\<lparr>eRecorder := True\<rparr>"
  have major: "num_value (majorOf ''1.2.3'') = 1" by code_simp
  have "quiescent documented_kube ?bky (demo_backend inert_driver)"
    by (simp add: quiescent_def set_conditions_def documented_kube_def demo_buckety_def demo_meta_def demo_backend_def inert_driver_def major)
  then have "snd (pass_out (Reconcile ?E demo_key) demo_sys) = None \<and>
      (\<forall>e \<in> set (pass_log (Reconcile ?E demo_key) demo_sys). \<not> writes e)"
    by (intro settled_pass_writes_nothing [where be = "demo_backend inert_driver" and ps = "[]" and bky = ?bky])
       (simp_all add: documented.kube_api_axioms, simp_all add: demo_defs documented_kube_def being_deleted_def
          resolve_backend_def Lookup_def ResolvedParameters_def EffectiveParameters_def
          TemplatedParameters_def accesses_settled_def access_action_def reader.defs enum_defs)
  then show ?thesis by (simp add: Let_def)
qed

end
