(* ===== verification/Teardown_Progress.thy ===== *)
theory Teardown_Progress
  imports Buckety_Progress Running_System
begin

text \<open>
  Teardown on a real driver, to its end. A Buckety that is being deleted is reconciled again and
  again; each pass empties a slice of the bucket and asks to be run again, and the pass that finds
  the bucket gone releases the finalizer. The reconciler's passes are run on the s3 and gcs drivers
  over a bucket nobody else writes to.
\<close>

section \<open>Runs with a view of the world\<close>

definition leads :: "('w, 'e, 'm) sys \<Rightarrow> ('w, 'e, 'm, 'a) prog \<Rightarrow> ('a \<Rightarrow> ('w, 'e, 'm) sys \<Rightarrow> bool) \<Rightarrow> bool" where
  "leads s p Q \<longleftrightarrow> (case run_state p s of (a, s') \<Rightarrow> Q a s')"

lemma leads_ret: "Q a s \<Longrightarrow> leads s (ret a) Q"
  by (simp add: leads_def)

lemma leads_bind: "leads s p (\<lambda>a s'. leads s' (f a) Q) \<Longrightarrow> leads s (State_Monad.bind p f) Q"
  by (auto simp: leads_def split: prod.splits)

lemma leads_call: "(\<And>a w. f (world s) = (a, w) \<Longrightarrow> Q a (s\<lparr>world := w, trace := trace s @ [ev a]\<rparr>)) \<Longrightarrow> leads s (call f ev) Q"
  by (auto simp: leads_def call_def ext_def emit_def split: prod.splits)

lemma leads_ext: "(\<And>a w. f (world s) = (a, w) \<Longrightarrow> Q a (s\<lparr>world := w\<rparr>)) \<Longrightarrow> leads s (ext f) Q"
  by (auto simp: leads_def ext_def split: prod.splits)

lemma leads_memory: "Q (memory s) s \<Longrightarrow> leads s get_memory Q" "R () (s\<lparr>memory := m\<rparr>) \<Longrightarrow> leads s (put_memory m) R"
  by (simp_all add: leads_def get_memory_def put_memory_def)

text \<open>A stage whose answer the functional rules give, and that leaves the view alone.\<close>

lemma leads_kept:
  assumes "pass (memory s) p P" and "tracks (\<lambda>_ w. view w = view (world s)) p"
    and "\<And>a s' l. \<lbrakk>P a l (memory s'); trace s' = trace s @ l; view (world s') = view (world s)\<rbrakk> \<Longrightarrow> Q a s'"
  shows "leads s p Q"
proof -
  obtain a s' where r: "run_state p s = (a, s')" by fastforce
  from assms(1) r obtain l where "trace s' = trace s @ l" "P a l (memory s')" unfolding pass_def by fastforce
  moreover have "view (world s') = view (world s)" using tracksD [OF assms(2)] r by fastforce
  ultimately show ?thesis using r assms(3) by (simp add: leads_def)
qed

lemma leads_mono: "\<lbrakk>leads s p P; \<And>a s'. P a s' \<Longrightarrow> Q a s'\<rbrakk> \<Longrightarrow> leads s p Q"
  by (auto simp: leads_def)

text \<open>A call whose answer is known, followed by such a stage.\<close>

lemma leads_call_kept:
  assumes "f (world s) = (r, w)" and "pass (memory s) (k r) P" and "tracks (\<lambda>_ w'. view w' = view w) (k r)"
  shows "leads s (State_Monad.bind (call f ev) k)
    (\<lambda>a s'. view (world s') = view w \<and> (\<exists>l. trace s' = trace s @ ev r # l \<and> P a l (memory s')))"
  by (rule leads_bind, rule leads_call)
     (use assms in \<open>auto intro: leads_kept [where view = view and P = P]\<close>)


section \<open>One pass\<close>

text \<open>A Buckety whose deletion tears its resource down.\<close>

definition tearing_down :: "'w env \<Rightarrow> nsname \<Rightarrow> DeleteRequest \<Rightarrow> 'w Backend \<Rightarrow> Buckety \<Rightarrow> bool" where
  "tearing_down E req dr be bky \<longleftrightarrow> being_deleted (bMeta bky) \<and> bsRetentionPolicy (bSpec bky) = RetentionDelete \<and>
     stProvenance (bStatus bky) \<noteq> ProvenanceAdopted \<and> stBackendResourceName (bStatus bky) = drName dr \<and> drName dr \<noteq> [] \<and>
     Name (bMeta bky) = nsName req \<and> resolve_backend E bky = Inr be \<and>
     ResolvedParameters be (Name (bMeta bky)) (Namespace (bMeta bky)) (bsParameters (bSpec bky)) = Inr (drParameters dr)"

text \<open>The API server serves such a Buckety, lists no access to it and accepts the writes of its teardown.\<close>

definition serves_teardown :: "'w env \<Rightarrow> nsname \<Rightarrow> DeleteRequest \<Rightarrow> 'w Backend \<Rightarrow> bool" where
  "serves_teardown E req dr be \<longleftrightarrow>
     (\<forall>w. \<exists>bky. fst (rdGetBuckety (reader.truncate (eClient E)) req w) = Inr bky \<and> tearing_down E req dr be bky) \<and>
     (\<forall>ns w. \<exists>items. fst (rdListAccesses (liveReader E) ns w) = Inr items \<and> list_all (\<lambda>a. asBucketyRef (aSpec a) \<noteq> nsName req) items) \<and>
     patch_accepted E \<and> (\<forall>b w. \<exists>b'. fst (clUpdateBuckety (eClient E) b w) = Inr b')"

text \<open>The pass wrote the Buckety without its finalizer; or it asked to be run again shortly and did not.\<close>

definition releases :: "'w env \<Rightarrow> outcome \<Rightarrow> event list \<Rightarrow> bool" where
  "releases E out l \<longleftrightarrow> snd out = None \<and>
     (\<exists>bky. BucketyUpdated (bky\<lparr>bMeta := RemoveFinalizer (eKube E) (bMeta bky) FinalizerCleanup\<rparr>) None \<in> set l)"

definition asks_again :: "outcome \<Rightarrow> event list \<Rightarrow> bool" where
  "asks_again out l \<longleftrightarrow> out = (deletionRequeue, None) \<and> (\<forall>b r. BucketyUpdated b r \<notin> set l)"

definition verdict :: "'w env \<Rightarrow> goerr option \<Rightarrow> outcome \<Rightarrow> event list \<Rightarrow> bool" where
  "verdict E r out l = (if r = None then releases E out l else asks_again out l)"

lemma verdict_more:
  "\<lbrakk>verdict E r out l; \<And>b x. BucketyUpdated b x \<notin> set k\<rbrakk> \<Longrightarrow> verdict E r out (k @ l) \<and> verdict E r out (l @ k)"
  by (auto simp: verdict_def releases_def asks_again_def)

lemma verdict_gauge: "\<not> writes e \<Longrightarrow> verdict E r out l \<Longrightarrow> verdict E r out (l @ [e])"
  by (cases e) (auto dest: verdict_more [of E r out l "[e]"])

lemma tracked_view: "outside_apart view E \<Longrightarrow> tracked_outside E view (\<lambda>_ w. view w = v)"
  by unfold_locales simp_all

lemma pass_released:
  assumes "\<forall>b w. \<exists>b'. fst (clUpdateBuckety (eClient E) b w) = Inr b'"
    and "\<And>b'. Q ((0, None), b') [BucketyUpdated (bky\<lparr>bMeta := RemoveFinalizer (eKube E) (bMeta bky) FinalizerCleanup\<rparr>) None] m"
  shows "pass m (remove_finalizer_and_update E bky) Q"
proof -
  have "fst (clUpdateBuckety (eClient E) b w) \<noteq> Inl e" for b w e
    using assms(1) by (metis sum.distinct(1))
  then show ?thesis
    unfolding remove_finalizer_and_update_def Let_def
    by (intro pass_rules) (use assms(2) in \<open>auto simp: err_of_def split: sum.splits\<close>)
qed

lemma pass_patchStatus_ok:
  assumes "patch_accepted E" and "\<And>b' l. \<forall>x r. BucketyUpdated x r \<notin> set l \<Longrightarrow> Q (None, b') l m"
  shows "pass m (patchStatus E b base) Q"
proof (cases "changes_status E b base")
  case True
  then show ?thesis by (rule pass_patchStatus_accepted [OF assms(1)]) (simp add: assms(2))
next
  case False
  then show ?thesis by (rule pass_patchStatus_unchanged) (simp add: assms(2))
qed

lemma leads_delete:
  assumes A: "outside_apart view E" and ok: "patch_accepted E" "\<forall>b w. \<exists>b'. fst (clUpdateBuckety (eClient E) b w) = Inr b'"
    and t: "tearing_down E req dr be bky"
    and d: "dDeleteBuckety (beDriver be) dr (world s) = (r, w)" and r: "r = None \<or> (\<exists>q. r = Some (ErrDeletionInProgress q False))"
  shows "leads s (delete_backend_resource E bky bky be) (\<lambda>(out, b) s'. view (world s') = view w \<and>
    (\<exists>l. trace s' = trace s @ l \<and> verdict E r out l))"
proof -
  have dr: "\<lparr>drName = stBackendResourceName (bStatus bky), drParameters = drParameters dr\<rparr> = dr"
    "ResolvedParameters be (Name (bMeta bky)) (Namespace (bMeta bky)) (bsParameters (bSpec bky)) = Inr (drParameters dr)"
    using t unfolding tearing_down_def by (simp, blast)
  note k = tracked_outside.patchStatus_kept [OF tracked_view [OF A]] tracked_outside.set_cond_kept [OF tracked_view [OF A]]
    tracked_outside.helpers_kept [OF tracked_view [OF A]]
    tracked_outside.report_kept [OF tracked_view [OF A]]
  from r show ?thesis
  proof
    assume n: "r = None"
    show ?thesis
      unfolding delete_backend_resource_def dr sum.case Let_def
      by (rule leads_mono [OF leads_call_kept [where f = "dDeleteBuckety (beDriver be) dr" and s = s and view = view and P = "\<lambda>x l _. releases E (fst x) l", OF d]],
          unfold n option.case, intro pass_rules pass_released ok, auto simp: verdict_def releases_def intro!: tracks_rules k)
  next
    assume "\<exists>q. r = Some (ErrDeletionInProgress q False)"
    then obtain q where n: "r = Some (ErrDeletionInProgress q False)" by blast
    have p: "IsDeletionInProgress (ErrDeletionInProgress q False) = True" "IsDeletionStalled (ErrDeletionInProgress q False) = False"
      by (simp_all add: IsDeletionInProgress_def IsDeletionStalled_def)
    show ?thesis
      unfolding delete_backend_resource_def dr sum.case Let_def
      by (rule leads_mono [OF leads_call_kept [where f = "dDeleteBuckety (beDriver be) dr" and s = s and view = view and P = "\<lambda>x l _. asks_again (fst x) l", OF d]],
          unfold n option.case p if_True surface_def backoff_next_def, intro pass_rules pass_patchStatus_ok ok,
          auto simp: verdict_def asks_again_def dest: only_eventsD intro!: tracks_rules k)
  qed
qed

lemma leads_body:
  assumes A: "outside_apart view E" and sv: "serves_teardown E req dr be" and t: "tearing_down E req dr be bky"
    and step: "\<And>w. (fst (dDeleteBuckety (beDriver be) dr w), view (snd (dDeleteBuckety (beDriver be) dr w))) = step (view w)"
    and r: "step (view (world s)) = (r, v)" "r = None \<or> (\<exists>q. r = Some (ErrDeletionInProgress q False))"
  shows "leads s (reconcile_body E req bky) (\<lambda>(out, b) s'. view (world s') = v \<and> (\<exists>l. trace s' = trace s @ l \<and> verdict E r out l))"
proof -
  let ?ns = "Namespace (bMeta bky)"
  have b: "reconcile_body E req bky = reconcileDelete E bky (Inr be)"
    using t by (simp add: reconcile_body_def tearing_down_def)
  show ?thesis
    unfolding b reconcileDelete_def Let_def
  proof (rule leads_bind, rule leads_call, goal_cases)
    case (1 a w)
    note a = this
    with sv obtain items where items: "a = Inr items" "list_all (\<lambda>x. asBucketyRef (aSpec x) \<noteq> nsName req) items"
      unfolding serves_teardown_def by (metis fst_conv)
    have none: "blocking_names (Name (bMeta bky)) items = []"
      "filter (\<lambda>a. asBucketyRef (aSpec a) = Name (bMeta bky) \<and> is_implicit a) items = []"
      using items(2) t by (auto simp: blocking_names_def tearing_down_def list_all_iff filter_empty_conv)
    have w: "view w = view (world s)"
      using A a unfolding outside_apart_def reads_apart_def apart_def by (metis snd_conv)
    obtain w' where w': "dDeleteBuckety (beDriver be) dr w = (r, w')" "view w' = v"
      using step [of w] r(1) w by (cases "dDeleteBuckety (beDriver be) dr w") auto
    let ?s = "s\<lparr>world := w, trace := trace s @ [ListedAccesses (eLive E \<noteq> None) ?ns a]\<rparr>"
    have td: "reconcile_teardown E bky bky (Inr be) = delete_backend_resource E bky bky be"
      using t by (auto simp: reconcile_teardown_def tearing_down_def)
    have "leads ?s (delete_backend_resource E bky bky be) (\<lambda>(out, b) s'. view (world s') = v \<and> (\<exists>l. trace s' = trace s @ l \<and> verdict E r out l))"
      by (rule leads_mono [OF leads_delete [OF A _ _ t _ r(2)]], use sv w'(1) in \<open>simp_all add: serves_teardown_def\<close>)
         (use w'(2) in \<open>auto dest: verdict_more [where k = "[ListedAccesses (eLive E \<noteq> None) ?ns a]"]\<close>)
    then show ?case
      by (simp add: items(1) none td)
  qed
qed

text \<open>
  One pass, for a driver whose \<open>DeleteBuckety\<close> acts on the view as \<open>step\<close>: the view afterwards is
  the one the driver left, and the pass released the finalizer or asked to be run again.
\<close>

lemma teardown_pass:
  assumes A: "outside_apart view E" and sv: "serves_teardown E req dr be"
    and step: "\<And>w. (fst (dDeleteBuckety (beDriver be) dr w), view (snd (dDeleteBuckety (beDriver be) dr w))) = step (view w)"
    and r: "step (view (world s)) = (r, v)" "r = None \<or> (\<exists>q. r = Some (ErrDeletionInProgress q False))"
  shows "view (world (snd (run_state (Reconcile E req) s))) = v \<and>
    verdict E r (pass_out (Reconcile E req) s) (pass_log (Reconcile E req) s)"
proof -
  let ?Q = "\<lambda>out s'. view (world s') = v \<and> (\<exists>l. trace s' = trace s @ l \<and> verdict E r out l)"
  have "leads s (Reconcile E req) ?Q"
    unfolding Reconcile_def
  proof (rule leads_bind, rule leads_ext, goal_cases)
    case (1 g w)
    note g = this
    with sv obtain bky where bky: "g = Inr bky" "tearing_down E req dr be bky" unfolding serves_teardown_def by (metis fst_conv)
    have w: "view w = view (world s)"
      using A g unfolding outside_apart_def reads_apart_def apart_def by (metis snd_conv)
    have drift: "leads s' (do { recordDrift E b; ret out }) ?Q" if "view (world s') = v \<and> (\<exists>l. trace s' = trace s @ l \<and> verdict E r out l)" for s' b out
      by (rule leads_kept [where view = view and P = "\<lambda>x l _. x = out \<and> (\<exists>e. \<not> writes e \<and> l = [e])"],
          intro pass_bind pass_recordDrift pass_ret, simp, intro tracks_rules tracked_outside.report_kept [OF tracked_view [OF A]])
         (use that in \<open>auto simp: verdict_gauge\<close>)
    have "leads (s\<lparr>world := w\<rparr>) (do { (out, b) \<leftarrow> reconcile_body E req bky; recordDrift E b; ret out }) ?Q"
      by (rule leads_bind, rule leads_mono [OF leads_body [OF A sv bky(2) step, of _ r v]])
         (use r w drift in auto)
    then show ?case
      by (simp add: bky(1))
  qed
  then show ?thesis
    by (auto simp: leads_def pass_out_def pass_log_def split: prod.splits)
qed


section \<open>To the end\<close>

abbreviation released_at :: "'w env \<Rightarrow> nsname \<Rightarrow> ('w, event, ctrl_memory) sys \<Rightarrow> bool" where
  "released_at E req s \<equiv> releases E (pass_out (Reconcile E req) s) (pass_log (Reconcile E req) s)"

abbreviation again_at :: "'w env \<Rightarrow> nsname \<Rightarrow> ('w, event, ctrl_memory) sys \<Rightarrow> bool" where
  "again_at E req s \<equiv> asks_again (pass_out (Reconcile E req) s) (pass_log (Reconcile E req) s)"

text \<open>With a driver that makes progress at every call, the passes come to an end.\<close>

lemma teardown_completes:
  fixes E :: "'w env" and s :: "('w, event, ctrl_memory) sys"
  assumes A: "outside_apart view E" and sv: "serves_teardown E req dr be"
    and step: "\<And>w. (fst (dDeleteBuckety (beDriver be) dr w), view (snd (dDeleteBuckety (beDriver be) dr w))) = step (view w)"
    and I: "I (view (world s))"
    and progress: "\<And>v. I v \<Longrightarrow> case step v of (r, v') \<Rightarrow> r = None \<or> (\<exists>q. r = Some (ErrDeletionInProgress q False)) \<and> I v' \<and> m v' < (m v :: nat)"
  shows "\<exists>k \<le> m (view (world s)). released_at E req (after_passes (Reconcile E req) k s) \<and>
    (\<forall>i < k. again_at E req (after_passes (Reconcile E req) i s))"
proof (rule passes_end [where I = "\<lambda>s. I (view (world s))" and m = "\<lambda>s. m (view (world s))"])
  fix s :: "('w, event, ctrl_memory) sys" assume i: "I (view (world s))"
  obtain r v where v: "step (view (world s)) = (r, v)" by fastforce
  with progress [OF i] have p: "r = None \<or> (\<exists>q. r = Some (ErrDeletionInProgress q False)) \<and> I v \<and> m v < m (view (world s))" by simp
  from teardown_pass [OF A sv step v] p
  show "released_at E req s \<or> again_at E req s \<and> I (view (world (snd (run_state (Reconcile E req) s)))) \<and>
      m (view (world (snd (run_state (Reconcile E req) s)))) < m (view (world s))"
    by (auto simp: verdict_def)
qed (rule I)

lemma lifted_delete:
  "(\<And>v w. get (put v w) = v) \<Longrightarrow>
   (fst (dDeleteBuckety (lift_driver get put d) dr w), get (snd (dDeleteBuckety (lift_driver get put d) dr w))) = dDeleteBuckety d dr (get w)"
  by (simp add: lift_driver_def on_part_def split: prod.splits)

lemma s3_teardown_completes:
  assumes "serves_teardown (wired A bs) req dr be" and "beDriver be = on_s3 (s3_driver cfg S)"
    and "\<forall>w. quiet_step S (drName dr) remaining w"
  shows "\<exists>k \<le> remaining (world (swS3 (world s))).
    released_at (wired A bs) req (after_passes (Reconcile (wired A bs) req) k s) \<and>
    (\<forall>i < k. again_at (wired A bs) req (after_passes (Reconcile (wired A bs) req) i s))"
proof (rule teardown_completes [where view = swS3 and step = "run_state (s3_DeleteBuckety S dr)" and I = "\<lambda>_. True" and m = "\<lambda>v. remaining (world v)"])
  show "outside_apart swS3 (wired A bs)" by (rule wired_apart) simp
  show "serves_teardown (wired A bs) req dr be" by (rule assms(1))
  show "(fst (dDeleteBuckety (beDriver be) dr w), swS3 (snd (dDeleteBuckety (beDriver be) dr w))) = run_state (s3_DeleteBuckety S dr) (swS3 w)" for w
    using lifted_delete [of swS3 "\<lambda>v. swS3_update (\<lambda>_. v)" "s3_driver cfg S" dr w] by (simp add: assms(2) s3_driver_def)
  show "case run_state (s3_DeleteBuckety S dr) v of (r, v') \<Rightarrow>
      r = None \<or> (\<exists>q. r = Some (ErrDeletionInProgress q False)) \<and> True \<and> remaining (world v') < remaining (world v)" for v
    by (rule s3_slice_progress [OF assms(3)])
qed simp


section \<open>Properties\<close>

text \<open>
  C23. Teardown completes, end to end. A Buckety of a gcs bucket is being deleted under retentionPolicy
  Delete; nobody else writes to the bucket, no access refers to the Buckety, the API server
  accepts the status patches and the final update, and the bucket declares no service account, or
  the backend has none, or the IAM service answers for the account, found or not, and lets it be
  deleted where the marker allows it. Then, reconciled again and again, it loses its
  finalizer in a pass preceded by at most as many others as the bucket has slices of 256
  generations; each of those ends without error and asks to be run again after two seconds.
\<close>

theorem gcs_teardown_completes:
  assumes "serves_teardown (wired A bs) req dr be" and "beDriver be = on_gcs (gcs_driver D)"
    and "quiet_bucket (gdClient D) (drName dr) contents" and "distinct (map generation (contents (world (swGcs (world s)))))"
    and "identity_removable D dr contents"
  shows "\<exists>k \<le> (length (contents (world (swGcs (world s)))) + 255) div 256.
    released_at (wired A bs) req (after_passes (Reconcile (wired A bs) req) k s) \<and>
    (\<forall>i < k. again_at (wired A bs) req (after_passes (Reconcile (wired A bs) req) i s))"
proof (rule teardown_completes [where view = swGcs and step = "run_state (gcs_DeleteBuckety D dr)" and
      I = "\<lambda>v. distinct (map generation (contents (world v)))" and m = "\<lambda>v. (length (contents (world v)) + 255) div 256"])
  show "outside_apart swGcs (wired A bs)" by (rule wired_apart) simp
  show "serves_teardown (wired A bs) req dr be" by (rule assms(1))
  show "(fst (dDeleteBuckety (beDriver be) dr w), swGcs (snd (dDeleteBuckety (beDriver be) dr w))) = run_state (gcs_DeleteBuckety D dr) (swGcs w)" for w
    using lifted_delete [of swGcs "\<lambda>v. swGcs_update (\<lambda>_. v)" "gcs_driver D" dr w] by (simp add: assms(2) gcs_driver_def)
  show "distinct (map generation (contents (world (swGcs (world s)))))" by (rule assms(4))
  show "case run_state (gcs_DeleteBuckety D dr) v of (r, v') \<Rightarrow> r = None \<or> (\<exists>q. r = Some (ErrDeletionInProgress q False)) \<and>
      distinct (map generation (contents (world v'))) \<and> (length (contents (world v')) + 255) div 256 < (length (contents (world v)) + 255) div 256"
    if "distinct (map generation (contents (world v)))" for v
    by (rule gcs_slice_progress [OF assms(3) that assms(5)])
qed

text \<open>
  A bucket of two generations behind the gcs driver with an IAM service that holds one account of the
  bucket's, and a Buckety of it that is being deleted.
\<close>

definition demo_iam :: "ObjectAttrs list iam_service" where
  "demo_iam =
     \<lparr>imGet = (\<lambda>_ w. (Inr \<lparr>acctEmail = ''logs-writer@ids'', acctDescription = marshal_marker \<lparr>smManagedBy = ''buckety'', smBucket = ''b''\<rparr>\<rparr>, w)),
      imCreate = (\<lambda>_ _ _ _ w. (Inl (Errorf (Lit [])), w)), imDelete = (\<lambda>_ w. (None, w)), imKeysList = (\<lambda>_ w. (Inr [], w)),
      imKeysCreate = (\<lambda>_ w. (Inl (Errorf (Lit [])), w)), imKeysDelete = (\<lambda>_ w. (None, w))\<rparr>"

definition demo_gcs_sa :: "(ObjectAttrs list, string list) gcs_state" where
  "demo_gcs_sa = demo_gcs\<lparr>gdIam := Some demo_iam\<rparr>"

definition demo_leaving :: Buckety where
  "demo_leaving = (let b = demo_buckety (Some 1) RetentionDelete ''b'' ProvenanceCreated in
     b\<lparr>bSpec := (bSpec b)\<lparr>bsParameters := [(''serviceAccount'', ''logs-writer'')]\<rparr>, bStatus := (bStatus b)\<lparr>stDriver := ''gcs''\<rparr>\<rparr>)"

definition demo_gcs_backend :: "(unit, int, unit, unit, ObjectAttrs list, string list) built_backend" where
  "demo_gcs_backend = \<lparr>bbName = ''objs'', bbDriver = BuiltGcs demo_gcs_sa, bbDefaults = [], bbParameters = []\<rparr>"

definition demo_gcs_env :: "(unit, unit, int, unit, unit, ObjectAttrs list, string list) shipped_world env" where
  "demo_gcs_env = wired (demo_env (demo_client (Some demo_leaving) None [] None) inert_driver) [demo_gcs_backend]"

definition demo_gcs_sys :: "((unit, unit, int, unit, unit, ObjectAttrs list, string list) shipped_world, event, ctrl_memory) sys" where
  "demo_gcs_sys =
     \<lparr>world = \<lparr>swApi = (), swKadm = \<lparr>world = (), trace = [], memory = \<lparr>kmAccepted = Map.empty, kmExport = empty_export\<rparr>\<rparr>,
        swMysql = \<lparr>world = (), trace = [], memory = \<lparr>mmVerified = Map.empty, mmBreaker = closed_breaker\<rparr>\<rparr>,
        swS3 = \<lparr>world = (), trace = [], memory = ()\<rparr>, swGcs = \<lparr>world = demo_gcs_objects, trace = [], memory = ()\<rparr>\<rparr>,
      trace = [], memory = \<lparr>mStartup = {}, mDeletions = Map.empty\<rparr>\<rparr>"

lemma demo_serves: "serves_teardown demo_gcs_env demo_key \<lparr>drName = ''b'', drParameters = [(''serviceAccount'', ''logs-writer'')]\<rparr> (backend_of demo_gcs_backend)"
proof -
  have t: "TemplatedParameters (on_gcs (gcs_driver demo_gcs_sa)) = [''serviceAccount'']"
    by (simp add: TemplatedParameters_def lift_driver_def gcs_driver_def gcs_TemplatedParameters_def demo_gcs_sa_def demo_gcs_def demo_gcs_config_def)
  have k: "Resolve ''logs-writer'' (without_labels \<lparr>inName = ''b'', inNamespace = ''ns'', inLabels = [], inBackendDefaults = [], inNoLabels = False\<rparr>) =
      Inr ''logs-writer''"
    by code_simp
  have "tearing_down demo_gcs_env demo_key \<lparr>drName = ''b'', drParameters = [(''serviceAccount'', ''logs-writer'')]\<rparr> (backend_of demo_gcs_backend) demo_leaving"
    unfolding tearing_down_def
    by (simp add: demo_leaving_def demo_buckety_def demo_meta_def being_deleted_def demo_key_def resolve_backend_def demo_gcs_env_def wired_def Lookup_def
        demo_gcs_backend_def backend_of_def ResolvedParameters_def EffectiveParameters_def enum_defs Let_def driver_names ResolveParameters_def t k)
  then show ?thesis
    by (simp add: serves_teardown_def patch_accepted_def demo_gcs_env_def wired_def api_client_def api_reader_def liveReader_def on_part_def
        demo_client_def reader.defs)
qed

theorem gcs_teardown_completes_witness:
  "\<exists>k \<le> 1. released_at demo_gcs_env demo_key (after_passes (Reconcile demo_gcs_env demo_key) k demo_gcs_sys) \<and>
     (\<forall>i < k. again_at demo_gcs_env demo_key (after_passes (Reconcile demo_gcs_env demo_key) i demo_gcs_sys))"
proof -
  let ?dr = "\<lparr>drName = ''b'', drParameters = [(''serviceAccount'', ''logs-writer'')]\<rparr>"
  have 1: "beDriver (backend_of demo_gcs_backend) = on_gcs (gcs_driver demo_gcs_sa)" by (simp add: backend_of_def demo_gcs_backend_def)
  have 2: "quiet_bucket (gdClient demo_gcs_sa) (drName ?dr) (\<lambda>w. w)"
    by (auto simp: quiet_bucket_def demo_gcs_sa_def demo_gcs_def demo_gcs_client_def generation_def gcs_isConflict_def gapiCode_def ErrBucketNotExist_def sentinel_def)
  have 3: "distinct (map generation (world (swGcs (world demo_gcs_sys))))" by (simp add: demo_gcs_sys_def demo_gcs_objects_def generation_def)
  have 4: "identity_removable demo_gcs_sa ?dr (\<lambda>w. w)" by (simp add: identity_removable_def demo_gcs_sa_def demo_iam_def Let_def)
  have "(length (world (swGcs (world demo_gcs_sys))) + 255) div 256 = 1" by (simp add: demo_gcs_sys_def demo_gcs_objects_def)
  with gcs_teardown_completes [OF demo_serves [unfolded demo_gcs_env_def] 1 2 3 4] show ?thesis unfolding demo_gcs_env_def by simp
qed

end
