(* ===== verification/Access_Progress.thy ===== *)
theory Access_Progress
  imports Access_Safety
begin

text \<open>
  What a pass over a BucketyAccess achieves when the outside world cooperates: the Secret is
  delivered and the access reports Ready. The contract of \<open>Access_Safety\<close> says what such a status
  write rests on; these lemmas show that it happens.
\<close>

section \<open>Status writes\<close>

definition access_patch_accepted :: "'w env \<Rightarrow> bool" where
  "access_patch_accepted E \<longleftrightarrow> (\<forall>base b w. \<exists>b'. fst (clStatusPatchAccess (eClient E) base b w) = Inr b')"

definition secret_writes_accepted :: "'w env \<Rightarrow> bool" where
  "secret_writes_accepted E \<longleftrightarrow> (\<forall>x w. (\<exists>y. fst (clCreateSecret (eClient E) x w) = Inr y) \<and> (\<exists>y. fst (clUpdateSecret (eClient E) x w) = Inr y))"

text \<open>A status that gains Ready=True is a change, whatever else it carries.\<close>

lemma is_true_withoutMessages: "kube_api K \<Longrightarrow> IsStatusConditionTrue K (withoutMessages cs) t = IsStatusConditionTrue K cs t"
proof -
  assume K: "kube_api K"
  have "(\<exists>c. find (\<lambda>c. cType c = t) (withoutMessages cs) = Some c \<and> cStatus c = ConditionTrue) \<longleftrightarrow>
      (\<exists>c. find (\<lambda>c. cType c = t) cs = Some c \<and> cStatus c = ConditionTrue)"
    by (induction cs) (auto simp: withoutMessages_def)
  then show ?thesis by (simp add: kube_api.condition_true [OF K] kube_api.find_condition [OF K])
qed

lemma pass_patchStatus_ready:
  assumes K: "kube_api (eKube E)" and "access_patch_accepted E"
    and "\<not> IsStatusConditionTrue (eKube E) (aconds base) ''Ready''" and "IsStatusConditionTrue (eKube E) (aconds a) ''Ready''"
    and "Q None [AccessStatusPatched base (akept E a base) None] m"
  shows "pass m (patchStatus_access E a base) Q"
proof -
  have changed: "ChangedBeyondMessages (DeepEqual_astatus (eKube E)) atConditions (\<lambda>cs s. s\<lparr>atConditions := cs\<rparr>) (aStatus base) (aStatus (akept E a base))"
    unfolding ChangedBeyondMessages_def kube_api.deep_equal_astatus [OF K]
  proof
    assume "(aStatus base)\<lparr>atConditions := withoutMessages (aconds base)\<rparr> =
      (aStatus (akept E a base))\<lparr>atConditions := withoutMessages (aconds (akept E a base))\<rparr>"
    from arg_cong [OF this, of atConditions] have "withoutMessages (aconds base) = withoutMessages (aconds (akept E a base))" by simp
    then have "IsStatusConditionTrue (eKube E) (aconds base) ''Ready'' = IsStatusConditionTrue (eKube E) (aconds (akept E a base)) ''Ready''"
      using is_true_withoutMessages [OF K] by metis
    with assms(3,4) show False by (simp add: akept_def is_true_keep [OF K])
  qed
  have "fst (clStatusPatchAccess (eClient E) base x w) \<noteq> Inl e" for x w e
    using assms(2) unfolding access_patch_accepted_def by (metis sum.distinct(1))
  then show ?thesis
    unfolding patchStatus_access_def Let_def akept_def [symmetric]
    by (intro pass_rules) (use changed assms(5) in \<open>auto simp: err_of_def split: sum.splits\<close>)
qed

lemma pass_set_acond [pass_rules]:
  "(\<And>t. Q (set_aconditions (status_Set (eKube E) t (aconds a) typ st reason msg (Generation (aMeta a))) a) [] m)
   \<Longrightarrow> pass m (set_acond E a typ st reason msg) Q"
  unfolding set_acond_def by (intro pass_rules) auto


section \<open>The stages\<close>

text \<open>The pass ended without error and wrote a status with Ready=True over \<open>a\<close>.\<close>

definition delivered :: "'w env \<Rightarrow> BucketyAccess \<Rightarrow> outcome \<Rightarrow> event list \<Rightarrow> bool" where
  "delivered E a r l \<longleftrightarrow> snd r = None \<and>
     (\<exists>b. AccessStatusPatched a b None \<in> set l \<and> IsStatusConditionTrue (eKube E) (aconds b) ''Ready'')"

lemma delivered_later: "delivered E a r l \<Longrightarrow> set l \<subseteq> set l' \<Longrightarrow> delivered E a r l'"
  by (auto simp: delivered_def)

lemma pass_delivered:
  assumes "pass m p (\<lambda>r l _. delivered E a r l)" and "\<And>l. set l \<subseteq> set (f l)"
  shows "pass m p (\<lambda>r l _. delivered E a r (f l))"
  by (rule pass_mono [OF assms(1)]) (erule delivered_later [OF _ assms(2)])

lemma pass_report_ready:
  assumes K: "kube_api (eKube E)" and "access_patch_accepted E" and "\<not> IsStatusConditionTrue (eKube E) (aconds a) ''Ready''"
    and "IsStatusConditionTrue (eKube E) (aconds b) ''Ready''"
  shows "pass m (do { err \<leftarrow> patchStatus_access E b a;
      case err of Some e \<Rightarrow> ret (0, Some e) | None \<Rightarrow> do { d \<leftarrow> cadence_Recheck E; ret (d, None) } }) (\<lambda>r l _. delivered E a r l)"
  by (rule pass_bind, rule pass_patchStatus_ready [OF assms], simp only: option.case, intro pass_bind pass_cadence_Recheck pass_ret)
     (use assms(4) is_true_keep [OF K] in \<open>auto simp: delivered_def akept_def\<close>)

lemma pass_access_finish:
  assumes K: "kube_api (eKube E)" and "access_patch_accepted E" and "\<not> IsStatusConditionTrue (eKube E) (aconds a) ''Ready''"
    and rev: "\<forall>p w. fst (dRevokeAccess (beDriver be) p w) = None"
  shows "pass m (access_finish E a bky be res) (\<lambda>r l _. delivered E a r l)"
  unfolding access_finish_def Let_def
  by (intro pass_bind [of _ "if _ then _ else _"] pass_bind [of _ "status_Event _ _ _ _ _ _ _ _ _"] pass_bind [of _ "set_acond _ _ _ _ _ _"]
        pass_if pass_call pass_ret pass_case_option pass_record_Event pass_set_acond pass_status_Event
        pass_delivered [OF pass_report_ready [OF K assms(2,3)]])
     (use rev in \<open>auto simp: kube_api.is_true_status_Set [OF K]\<close>)

lemma pass_writeSecret:
  assumes "secret_writes_accepted E"
    and "SetControllerReference (eKube E) (aMeta a) (sMeta (case existing of None \<Rightarrow> new_secret a | Some s \<Rightarrow> s)) = Inr om"
    and "\<And>l. Q None l m"
  shows "pass m (writeSecret E a existing data) Q"
proof -
  have "fst (clCreateSecret (eClient E) x w) \<noteq> Inl e" "fst (clUpdateSecret (eClient E) x w) \<noteq> Inl e" for x w e
    using assms(1) unfolding secret_writes_accepted_def by (metis sum.distinct(1))+
  then show ?thesis
    unfolding writeSecret_def Let_def assms(2) sum.case
    by (intro pass_rules) (use assms(3) in \<open>auto simp: err_of_def split: sum.splits\<close>)
qed

text \<open>The Secret the gate reads, and that this access may own it.\<close>

definition gate_open :: "'w env \<Rightarrow> BucketyAccess \<Rightarrow> secret option \<Rightarrow> bool" where
  "gate_open E a existing \<longleftrightarrow>
     (\<forall>w. case existing of
        None \<Rightarrow> \<exists>e. fst (rdGetSecret (liveReader E) (secret_key a) w) = Inl e \<and> IsNotFound e
      | Some sec \<Rightarrow> fst (rdGetSecret (liveReader E) (secret_key a) w) = Inr sec \<and> IsControlledBy (eKube E) (sMeta sec) (aMeta a)) \<and>
     (\<exists>om. SetControllerReference (eKube E) (aMeta a) (sMeta (case existing of None \<Rightarrow> new_secret a | Some s \<Rightarrow> s)) = Inr om)"

lemma pass_grant_stage:
  assumes "kube_api (eKube E)" and "access_patch_accepted E" and unready: "\<not> IsStatusConditionTrue (eKube E) (aconds a) ''Ready''"
    and "\<forall>p w. fst (dRevokeAccess (beDriver be) p w) = None"
    and "secret_writes_accepted E" and "gate_open E a existing"
    and grants: "\<forall>gr w. \<exists>res. fst (dGrantAccess (beDriver be) gr w) = Inr res"
  shows "pass m (grant_stage E req a bky be ps existing) (\<lambda>r l _. delivered E a r l)"
proof -
  have ok: "fst (dGrantAccess (beDriver be) gr w) \<noteq> Inl e" for gr w e using grants by (metis sum.distinct(1))
  from assms(6) obtain om where om: "SetControllerReference (eKube E) (aMeta a) (sMeta (case existing of None \<Rightarrow> new_secret a | Some s \<Rightarrow> s)) = Inr om"
    unfolding gate_open_def by blast
  have st: "access_settled E a existing = False" using unready by (simp add: access_settled_def)
  have wr: "pass m' (access_write E a bky be existing res) (\<lambda>r l _. delivered E a r l)" for m' res
    unfolding access_write_def
    by (rule pass_bind, rule pass_writeSecret [OF assms(5) om], simp only: option.case)
       (rule pass_delivered [OF pass_access_finish [OF assms(1-4)]], auto)
  show ?thesis
    unfolding grant_stage_def st Let_def
    by (intro pass_bind pass_startup_Defer_unsettled pass_if pass_call pass_case_sum pass_delivered [OF wr]) (use ok in auto)
qed

lemma pass_access_grant:
  assumes "kube_api (eKube E)" and "access_patch_accepted E" and "\<not> IsStatusConditionTrue (eKube E) (aconds a) ''Ready''"
    and "\<forall>p w. fst (dRevokeAccess (beDriver be) p w) = None"
    and "secret_writes_accepted E" and gate: "gate_open E a existing"
    and "\<forall>gr w. \<exists>res. fst (dGrantAccess (beDriver be) gr w) = Inr res"
  shows "pass m (access_grant E req a bky be ps) (\<lambda>r l _. delivered E a r l)"
proof -
  have answer: "case g of Inl e \<Rightarrow> IsNotFound e \<and> existing = None | Inr sec \<Rightarrow> IsControlledBy (eKube E) (sMeta sec) (aMeta a) \<and> existing = Some sec"
    if "\<exists>w. fst (rdGetSecret (liveReader E) (secret_key a) w) = g" for g
    using that gate unfolding gate_open_def by (auto split: option.splits sum.splits) (metis sum.inject sum.distinct(1) option.exhaust)+
  have stage: "existing = y \<Longrightarrow> pass m (grant_stage E req a bky be ps y) (\<lambda>r l _. delivered E a r (x # l))" for x y
    using pass_delivered [OF pass_grant_stage [OF assms], where f = "(#) x"] by auto
  show ?thesis
    unfolding access_grant_def
    by (rule pass_bind, rule pass_call, drule answer) (auto split: sum.splits intro: stage)
qed


section \<open>Properties\<close>

text \<open>
  C22. A credential is delivered. For a live access with its finalizer that is not Ready yet and whose
  Buckety is read Ready with its resource stamped on a configured backend: if the parameters are
  valid, the Secret is absent or owned by this access, \<open>GrantAccess\<close> answers a grant,
  \<open>RevokeAccess\<close> succeeds and the API server accepts the writes, then one pass ends without error
  and has written a status with Ready=True and the observed generation; the principal recorded
  there is that of a grant made in the pass, its data is in the Secret, and a principal it
  replaced was revoked.
\<close>

theorem access_pass_delivers:
  assumes K: "kube_api (eKube E)" and reads: "reads_access E req s a"
    and "\<not> being_deleted (aMeta a)" and "ContainsFinalizer (eKube E) (aMeta a) FinalizerCleanup"
    and "\<not> IsStatusConditionTrue (eKube E) (atConditions (aStatus a)) ''Ready''"
    and bky: "\<forall>w. fst (rdGetBuckety (reader.truncate (eClient E)) (buckety_key a) w) = Inr bky"
    and "isReady (eKube E) bky" and "stBackendResourceName (bStatus bky) \<noteq> []"
    and "Lookup (eConfig E) (stBackend (bStatus bky)) = Some be"
    and "dValidateAccessParameters (beDriver be) (asParameters (aSpec a)) = None"
    and "ResolvedParameters be (Name (bMeta bky)) (Namespace (bMeta bky)) (bsParameters (bSpec bky)) = Inr ps"
    and "gate_open E a existing" and "\<forall>gr w. \<exists>res. fst (dGrantAccess (beDriver be) gr w) = Inr res"
    and "\<forall>p w. fst (dRevokeAccess (beDriver be) p w) = None"
    and "secret_writes_accepted E" and "access_patch_accepted E"
  shows "let l = pass_log (access_Reconcile E req) s in
    snd (pass_out (access_Reconcile E req) s) = None \<and>
    (\<exists>b bn gr res. AccessStatusPatched a b None \<in> set l \<and> IsStatusConditionTrue (eKube E) (atConditions (aStatus b)) ''Ready'' \<and>
       atObservedGeneration (aStatus b) = Generation (aMeta b) \<and>
       Granted bn gr (Inr res) \<in> set l \<and> secret_holds l res \<and>
       atPrincipal (aStatus b) = gtPrincipal res \<and> atPrincipalRevocable (aStatus b) = gtRevocable res \<and>
       (atPrincipal (aStatus a) \<noteq> [] \<and> atPrincipal (aStatus a) \<noteq> gtPrincipal res \<longrightarrow> Revoked bn (atPrincipal (aStatus a)) None \<in> set l))"
proof -
  let ?l = "pass_log (access_Reconcile E req) s"
  have stage: "pass m (access_grant E req a bky be ps) (\<lambda>r l _. delivered E a r l)" for m
    by (rule pass_access_grant) (use assms in auto)
  have body: "access_body E req a (Inr bky) = access_grant E req a bky be ps"
    using assms by (simp add: access_body_def)
  have answer: "g = Inr bky" if "\<exists>w. fst (rdGetBuckety (reader.truncate (eClient E)) (buckety_key a) w) = g" for g
    using that bky by auto
  have "pass (memory s) (do { b \<leftarrow> call (rdGetBuckety (reader.truncate (eClient E)) (buckety_key a)) (BucketyRead (buckety_key a)); access_body E req a b })
      (\<lambda>r l _. delivered E a r l)"
    by (rule pass_bind, rule pass_call, drule answer, simp only: body) (rule pass_delivered [OF stage], auto)
  then have "delivered E a (pass_out (access_Reconcile E req) s) ?l"
    unfolding access_Reconcile_def using reads
    by (intro passD_ext [where a = "Inr a" and Q = "\<lambda>r l _. delivered E a r l"]) simp_all
  then obtain b pre post where out: "snd (pass_out (access_Reconcile E req) s) = None" and ready: "IsStatusConditionTrue (eKube E) (aconds b) ''Ready''"
    and l: "?l = pre @ AccessStatusPatched a b None # post"
    unfolding delivered_def by (metis split_list)
  from access_event [OF K reads l] have "status_ok E a pre b" by simp
  with ready have p: "principal_recorded a pre b" "atObservedGeneration (aStatus b) = Generation (aMeta b)" unfolding status_ok_def by auto
  from p(1) obtain bn gr res where g: "Granted bn gr (Inr res) \<in> set pre" "secret_holds pre res"
    "atPrincipal (aStatus b) = gtPrincipal res" "atPrincipalRevocable (aStatus b) = gtRevocable res"
    "atPrincipal (aStatus a) \<noteq> [] \<and> atPrincipal (aStatus a) \<noteq> gtPrincipal res \<longrightarrow> Revoked bn (atPrincipal (aStatus a)) None \<in> set pre"
    unfolding principal_recorded_def granted_def by blast
  have "secret_holds ?l res" using g(2) l unfolding secret_holds_def by auto
  with out ready p(2) g l show ?thesis
    unfolding Let_def by (intro conjI exI [of _ b] exI [of _ bn] exI [of _ gr] exI [of _ res]) auto
qed

theorem access_pass_delivers_witness:
  "let a = demo_access None ''p1''; E = demo_env (demo_client (Some demo_ready) (Some a) [] None) minting_driver;
       l = pass_log (access_Reconcile E demo_key) demo_sys
   in snd (pass_out (access_Reconcile E demo_key) demo_sys) = None \<and>
      (\<exists>b. AccessStatusPatched a b None \<in> set l \<and> IsStatusConditionTrue (eKube E) (atConditions (aStatus b)) ''Ready'')"
proof -
  let ?a = "demo_access None ''p1''"
  let ?E = "demo_env (demo_client (Some demo_ready) (Some ?a) [] None) minting_driver"
  have gate: "gate_open ?E ?a None"
    unfolding gate_open_def by (simp add: demo_defs documented_kube_def liveReader_def reader.defs new_secret_def IsNotFound_def)
  have "let l = pass_log (access_Reconcile ?E demo_key) demo_sys in snd (pass_out (access_Reconcile ?E demo_key) demo_sys) = None \<and>
    (\<exists>b bn gr res. AccessStatusPatched ?a b None \<in> set l \<and> IsStatusConditionTrue (eKube ?E) (atConditions (aStatus b)) ''Ready'' \<and>
       atObservedGeneration (aStatus b) = Generation (aMeta b) \<and> Granted bn gr (Inr res) \<in> set l \<and> secret_holds l res \<and>
       atPrincipal (aStatus b) = gtPrincipal res \<and> atPrincipalRevocable (aStatus b) = gtRevocable res \<and>
       (atPrincipal (aStatus ?a) \<noteq> [] \<and> atPrincipal (aStatus ?a) \<noteq> gtPrincipal res \<longrightarrow> Revoked bn (atPrincipal (aStatus ?a)) None \<in> set l))"
    by (rule access_pass_delivers [where bky = demo_ready and be = "demo_backend minting_driver" and ps = "[]", OF _ _ _ _ _ _ _ _ _ _ _ gate])
       (simp_all add: documented.kube_api_axioms, simp_all add: demo_defs documented_kube_def being_deleted_def isReady_def Let_def
          Lookup_def ResolvedParameters_def EffectiveParameters_def TemplatedParameters_def secret_writes_accepted_def
          access_patch_accepted_def reader.defs enum_defs)
  then show ?thesis unfolding Let_def by blast
qed

end
