(* ===== verification/Admission_Webhook.thy ===== *)
theory Admission_Webhook
  imports Backend_Config Api_Types "HOL-Library.List_Lexorder" "HOL-Library.Char_ord"
begin

text \<open>
  \<open>pkg/webhook/webhook.go\<close>: the validating admission handler. A request carries the decoded
  objects: \<open>Inl\<close> is the error of \<open>json.Unmarshal\<close>, and an absent old object is the Go code's
  empty \<open>OldObject.Raw\<close>. Log lines are not modelled, so \<open>DryRun\<close>, which only gates one, is not.

  The claims are about agreement with the reconciler: what admission lets through, the
  reconciler's own parameter and name checks accept, and admission never wedges an object
  that is already provisioned.
\<close>

section \<open>Requests and responses\<close>

datatype operation = Create | Update | Delete | Connect

record request =
  rqKind :: string
  rqOperation :: operation
  rqBuckety :: "goerr + Buckety"
  rqOldBuckety :: "(goerr + Buckety) option"
  rqAccess :: "goerr + BucketyAccess"

datatype response =
    Allowed string "text list"
  | Denied "text"
  | Errored int goerr

abbreviation StatusBadRequest :: int where "StatusBadRequest \<equiv> 400"

definition is_allowed :: "response \<Rightarrow> bool" where
  "is_allowed r = (case r of Allowed _ _ \<Rightarrow> True | _ \<Rightarrow> False)"

lemma is_allowed_simps [simp]: "is_allowed (Allowed m ws)" "\<not> is_allowed (Denied t)" "\<not> is_allowed (Errored c e)"
  by (simp_all add: is_allowed_def)


section \<open>Handlers\<close>

definition removedConfigKeys :: "smap \<Rightarrow> smap \<Rightarrow> string list" where
  "removedConfigKeys oldParams newParams =
     sort (map fst (filter (\<lambda>(k, _). map_of newParams k = None \<and> HasPrefix k ''config.'') oldParams))"

text \<open>The last check, common to both operations.\<close>

definition check_default_access :: "Buckety \<Rightarrow> text list \<Rightarrow> response" where
  "check_default_access bky warnings =
     (case bsDefaultAccess (bSpec bky) of
        Some da \<Rightarrow> if daCredentialsSecretName da = []
          then Denied (Lit ''spec.defaultAccess.credentialsSecretName is required when defaultAccess is set'')
          else Allowed [] warnings
      | None \<Rightarrow> Allowed [] warnings)"

definition old_view :: "'w Backend \<Rightarrow> Buckety \<Rightarrow> smap" where
  "old_view backend old =
     (case ResolvedParameters backend (Name (bMeta old)) (Namespace (bMeta old)) (bsParameters (bSpec old)) of
        Inr p \<Rightarrow> p
      | Inl _ \<Rightarrow> EffectiveParameters backend (bsParameters (bSpec old)))"

definition check_parameters :: "request \<Rightarrow> Buckety \<Rightarrow> 'w Backend \<Rightarrow> smap \<Rightarrow> response" where
  "check_parameters req bky backend params =
     (case (rqOperation req, rqOldBuckety req) of
        (Update, Some (Inl e)) \<Rightarrow> Errored StatusBadRequest e
      | (Update, Some (Inr old)) \<Rightarrow>
          (let oldParams = old_view backend old in
           case dValidateUpdateParameters (beDriver backend) oldParams params of
             Some e \<Rightarrow> Denied (Sprintf ''spec.parameters: %v'' [AErr e])
           | None \<Rightarrow>
               (let removed = removedConfigKeys oldParams params in
                check_default_access bky
                  (if removed \<noteq> [] then [Sprintf ''spec.parameters: %s removed; the backend keeps the value last applied, which buckety no longer manages (pass-through config.* keys are not reverted)'' [AStr (Join removed '', '')]]
                   else [])))
      | _ \<Rightarrow>
          (case dValidateParameters (beDriver backend) params of
             Some e \<Rightarrow> Denied (Sprintf ''spec.parameters: %v'' [AErr e])
           | None \<Rightarrow> check_default_access bky []))"

definition check_name :: "Buckety \<Rightarrow> 'w Backend \<Rightarrow> response option" where
  "check_name bky backend =
     (if stBackendResourceName (bStatus bky) \<noteq> [] then None
      else (case ResolveName backend (bsName (bSpec bky)) (Name (bMeta bky)) (Namespace (bMeta bky)) (Labels (bMeta bky)) of
         Inl e \<Rightarrow> Some (Denied (Sprintf ''spec.name: %v'' [AErr e]))
       | Inr resolved \<Rightarrow>
           (case dValidateResourceName (beDriver backend) resolved of
              Some e \<Rightarrow> Some (Denied (Sprintf ''spec.name: resolves to %q: %v'' [AStr resolved, AErr e]))
            | None \<Rightarrow> None)))"

definition validateBuckety :: "'w Loaded \<Rightarrow> request \<Rightarrow> response" where
  "validateBuckety cfg req =
     (if rqOperation req = Delete then Allowed [] []
      else (case rqBuckety req of
        Inl e \<Rightarrow> Errored StatusBadRequest e
      | Inr bky \<Rightarrow>
     (case Lookup cfg (bsBackend (bSpec bky)) of
        None \<Rightarrow>
          if rqOperation req = Create
          then Denied (Sprintf ''spec.backend %q is not registered in buckety-controller.yaml'' [AStr (bsBackend (bSpec bky))])
          else Allowed ''backend missing but resource pre-exists; reconciler will surface BackendUnavailable'' []
      | Some backend \<Rightarrow>
     (case check_name bky backend of
        Some r \<Rightarrow> r
      | None \<Rightarrow>
     (case ResolvedParameters backend (Name (bMeta bky)) (Namespace (bMeta bky)) (bsParameters (bSpec bky)) of
        Inl e \<Rightarrow> Denied (Sprintf ''spec.parameters: %v'' [AErr e])
      | Inr params \<Rightarrow> check_parameters req bky backend params)))))"

definition validateAccess :: "request \<Rightarrow> response" where
  "validateAccess req =
     (if rqOperation req = Delete then Allowed [] []
      else (case rqAccess req of
        Inl e \<Rightarrow> Errored StatusBadRequest e
      | Inr access \<Rightarrow>
          if asBucketyRef (aSpec access) = [] then Denied (Lit ''spec.bucketyRef.name is required'')
          else if asCredentialsSecretName (aSpec access) = [] then Denied (Lit ''spec.credentialsSecretName is required'')
          else Allowed [] []))"

definition Handle :: "'w Loaded \<Rightarrow> request \<Rightarrow> response" where
  "Handle cfg req =
     (if rqKind req = ''Buckety'' then validateBuckety cfg req
      else if rqKind req = ''BucketyAccess'' then validateAccess req
      else Errored StatusBadRequest (Errorf (Sprintf ''unsupported kind %q'' [AStr (rqKind req)])))"


section \<open>What an admitted object satisfies\<close>

lemma allowed_check_parameters:
  assumes "driver_ok (beDriver backend)" and "is_allowed (check_parameters req bky backend params)"
  shows "dValidateParameters (beDriver backend) params = None"
  using assms driver_validation.update_validates [OF assms(1)]
  by (auto simp: check_parameters_def Let_def split: operation.splits option.splits sum.splits)

lemma allowed_default_access:
  "is_allowed (check_default_access bky ws) \<longleftrightarrow>
     (\<forall>da. bsDefaultAccess (bSpec bky) = Some da \<longrightarrow> daCredentialsSecretName da \<noteq> [])"
  by (auto simp: check_default_access_def split: option.splits)

lemma allowed_parameters_default_access:
  "is_allowed (check_parameters req bky backend params) \<Longrightarrow> is_allowed (check_default_access bky [])"
  by (auto simp: check_parameters_def Let_def allowed_default_access
      split: operation.splits option.splits sum.splits)

lemma sorted_removedConfigKeys: "sorted (removedConfigKeys old new)"
  by (simp add: removedConfigKeys_def)


section \<open>Agreement with the reconciler\<close>

text \<open>
  What is admitted, the reconciler accepts. When \<open>Handle\<close> allows a Buckety to be created or
  updated and its backend is configured with a driver that keeps the validation contract, the
  merged and resolved parameter view the reconciler will use exists and passes the driver's
  own validation; on an object that is not stamped yet the name template resolves to a name
  the driver accepts; and a defaultAccess names its Secret. A create is allowed only when the
  backend is configured.
\<close>

lemma allowed_reconcilable:
  assumes "rqKind req = ''Buckety''" and "rqOperation req = Create \<or> rqOperation req = Update"
    and "rqBuckety req = Inr bky" and "is_allowed (Handle cfg req)"
    and "\<forall>be. Lookup cfg (bsBackend (bSpec bky)) = Some be \<longrightarrow> driver_ok (beDriver be)"
  shows "(rqOperation req = Create \<longrightarrow> Lookup cfg (bsBackend (bSpec bky)) \<noteq> None) \<and>
    (\<forall>be. Lookup cfg (bsBackend (bSpec bky)) = Some be \<longrightarrow>
       (\<exists>ps. ResolvedParameters be (Name (bMeta bky)) (Namespace (bMeta bky)) (bsParameters (bSpec bky)) = Inr ps \<and>
          dValidateParameters (beDriver be) ps = None) \<and>
       (stBackendResourceName (bStatus bky) = [] \<longrightarrow>
          (\<exists>n. ResolveName be (bsName (bSpec bky)) (Name (bMeta bky)) (Namespace (bMeta bky)) (Labels (bMeta bky)) = Inr n \<and>
             dValidateResourceName (beDriver be) n = None)) \<and>
       (\<forall>da. bsDefaultAccess (bSpec bky) = Some da \<longrightarrow> daCredentialsSecretName da \<noteq> []))"
proof (cases "Lookup cfg (bsBackend (bSpec bky))")
  case None
  with assms show ?thesis by (auto simp: Handle_def validateBuckety_def)
next
  case (Some be)
  from assms Some have name: "check_name bky be = None \<or> (\<exists>r. check_name bky be = Some r \<and> is_allowed r)"
    by (auto simp: Handle_def validateBuckety_def split: option.splits)
  then have named: "check_name bky be = None"
    by (auto simp: check_name_def split: if_splits sum.splits option.splits)
  with assms Some obtain ps where
    ps: "ResolvedParameters be (Name (bMeta bky)) (Namespace (bMeta bky)) (bsParameters (bSpec bky)) = Inr ps"
    and ok: "is_allowed (check_parameters req bky be ps)"
    by (auto simp: Handle_def validateBuckety_def split: sum.splits)
  from assms(5) Some have "driver_ok (beDriver be)" by blast
  from allowed_check_parameters [OF this ok] allowed_parameters_default_access [OF ok] named ps Some
  show ?thesis
    by (auto simp: allowed_default_access check_name_def split: if_splits sum.splits option.splits)
qed

text \<open>
  Admission never wedges a provisioned object. An update of a stamped Buckety that leaves
  its name, namespace and spec alone is allowed whatever happened to its labels and other
  metadata and to its status, with no warning, as long as its stored parameters still resolve
  and validate and a defaultAccess names its Secret; when the backend has left the
  configuration, every update is allowed.
\<close>

lemma metadata_update_allowed:
  assumes "rqKind req = ''Buckety''" and "rqOperation req = Update"
    and "rqBuckety req = Inr new" and "rqOldBuckety req = Some (Inr old)"
    and "stBackendResourceName (bStatus new) \<noteq> []"
    and "bSpec new = bSpec old" and "Name (bMeta new) = Name (bMeta old)" and "Namespace (bMeta new) = Namespace (bMeta old)"
    and "\<forall>be. Lookup cfg (bsBackend (bSpec new)) = Some be \<longrightarrow> driver_ok (beDriver be) \<and>
       (\<exists>ps. ResolvedParameters be (Name (bMeta new)) (Namespace (bMeta new)) (bsParameters (bSpec new)) = Inr ps \<and>
          dValidateParameters (beDriver be) ps = None)"
    and "\<forall>da. bsDefaultAccess (bSpec new) = Some da \<longrightarrow> daCredentialsSecretName da \<noteq> []"
  shows "\<exists>msg. Handle cfg req = Allowed msg []"
proof (cases "Lookup cfg (bsBackend (bSpec new))")
  case None
  with assms show ?thesis by (simp add: Handle_def validateBuckety_def)
next
  case (Some be)
  with assms(9) obtain ps where d: "driver_ok (beDriver be)" and
    ps: "ResolvedParameters be (Name (bMeta new)) (Namespace (bMeta new)) (bsParameters (bSpec new)) = Inr ps"
    and v: "dValidateParameters (beDriver be) ps = None" by blast
  have "old_view be old = ps"
    using ps assms(6-8) by (simp add: old_view_def)
  moreover have "removedConfigKeys ps ps = []"
  proof -
    have "filter (\<lambda>(k, _). map_of ps k = None \<and> HasPrefix k ''config.'') ps = []"
      by (auto simp: filter_empty_conv map_of_eq_None_iff rev_image_eqI)
    then show ?thesis by (simp only: removedConfigKeys_def list.map sort_key_simps)
  qed
  moreover have "dValidateUpdateParameters (beDriver be) ps ps = None"
    using driver_validation.update_same [OF d v] by simp
  ultimately have "check_parameters req new be ps = check_default_access new []"
    using assms(2,4) by (simp add: check_parameters_def)
  with assms Some ps show ?thesis
    by (auto simp: Handle_def validateBuckety_def check_name_def check_default_access_def split: option.splits)
qed

end
