(* ===== verification/Mysql_Grants.thy ===== *)
theory Mysql_Grants
  imports Mysql_Safety
begin

text \<open>
  What an account holds on a database, read off the driver's exchange with the server: an
  abstract view of privileges as a set, changed by the statements the server accepted and set
  by the logins it answered. The claim is that a grant ends with the role's privileges.
\<close>

section \<open>Reading statements\<close>

definition strip :: "string \<Rightarrow> string \<Rightarrow> string \<Rightarrow> string option" where
  "strip pre suf q =
     (if HasPrefix q pre \<and> HasPrefix (rev (drop (length pre) q)) (rev suf)
      then Some (take (length q - length pre - length suf) (drop (length pre) q)) else None)"

definition comma_list :: "string \<Rightarrow> string list" where
  "comma_list s = map (\<lambda>w. TrimPrefix w '' '') (Split s (CHR '',''))"

lemma strip_append [simp]: "strip pre suf (pre @ b @ suf) = Some b"
  by (simp add: strip_def)

lemma strip_other: "\<lbrakk>HasPrefix q p; pre \<noteq> []; p \<noteq> []; hd p \<noteq> hd pre\<rbrakk> \<Longrightarrow> strip pre suf q = None"
  by (cases pre; cases p) (auto simp: strip_def HasPrefix_iff)

lemma Split_Join:
  "\<lbrakk>ps \<noteq> []; \<forall>p \<in> set ps. CHR '','' \<notin> set p\<rbrakk> \<Longrightarrow> Split (Join ps '', '') (CHR '','') = hd ps # map (Cons (CHR '' '')) (tl ps)"
proof (induction ps "'', ''" rule: Join.induct)
  case (3 p q ps)
  then have "Split (Join (q # ps) '', '') (CHR '','') = q # map (Cons (CHR '' '')) ps" by simp
  with 3 show ?case by (simp add: Split_word)
qed (simp_all add: Split_word [where s = "[]", simplified])

lemma Split_separators: "w \<in> set (Split s sep) \<Longrightarrow> sep \<notin> set w"
  by (induction s sep arbitrary: w rule: Split.induct) (auto split: list.splits if_splits)

lemma set_Split: "c \<in> set s \<Longrightarrow> c \<noteq> sep \<Longrightarrow> \<exists>w \<in> set (Split s sep). c \<in> set w"
  by (induction s sep rule: Split.induct) (auto split: list.splits)

lemma privilegeRE_chars:
  assumes "privilegeRE p"
  shows "CHR '','' \<notin> set p" "\<not> HasPrefix p '' ''"
proof -
  have no: "\<not> is_upper (CHR '','')" by code_simp
  show "CHR '','' \<notin> set p"
    using assms no set_Split [of "CHR '',''" p "CHR '' ''"] by (auto simp: privilegeRE_def list_all_iff)
  show "\<not> HasPrefix p '' ''" using assms by (auto simp: privilegeRE_def HasPrefix_iff)
qed

lemma comma_list_Join: "\<lbrakk>ps \<noteq> []; list_all privilegeRE ps\<rbrakk> \<Longrightarrow> comma_list (Join ps '', '') = ps"
proof -
  assume "ps \<noteq> []" "list_all privilegeRE ps"
  then have p: "\<forall>p \<in> set ps. CHR '','' \<notin> set p" "\<forall>p \<in> set ps. TrimPrefix p '' '' = p"
    using privilegeRE_chars by (auto simp: list_all_iff TrimPrefix_def)
  have "TrimPrefix (CHR '' '' # p) '' '' = p" for p by (simp add: TrimPrefix_def HasPrefix_def)
  with \<open>ps \<noteq> []\<close> p show ?thesis by (cases ps) (auto simp: comma_list_def Split_Join map_idI)
qed


section \<open>Privileges held\<close>

text \<open>
  \<open>held_after a pattern e H\<close>: what account \<open>a\<close> holds on the pattern after event \<open>e\<close> when it held \<open>H\<close>
  before. A new user holds nothing, a dropped one neither; an accepted grant adds and an
  accepted revoke removes its list; a revoke answered with ``no such grant'' says that the
  privilege is not held; a login reports what is held. Grant option counts as a privilege.
\<close>

definition not_held :: "goerr option \<Rightarrow> bool" where
  "not_held r = (case r of None \<Rightarrow> True | Some e \<Rightarrow> isMySQLError e erNoSuchGrant)"

fun held_after :: "account \<Rightarrow> string \<Rightarrow> myevent \<Rightarrow> string set \<Rightarrow> string set" where
  "held_after a pattern (Executed q args r) H =
     (if q = createUserSQL \<or> q = dropUserSQL then
        if take 2 args = [acctUser a, acctHost a] \<and> r = None then {} else H
      else if args \<noteq> [acctUser a, acctHost a] then H
      else case strip ''GRANT '' ('' ON '' @ quoteIdent pattern @ ''.* TO ?@?'') q of
          Some b \<Rightarrow> if r = None then H \<union> set (comma_list b) else H
        | None \<Rightarrow>
            (case strip ''REVOKE '' ('' ON '' @ quoteIdent pattern @ ''.* FROM ?@?'') q of
               Some b \<Rightarrow> if not_held r then H - set (comma_list b) else H
             | None \<Rightarrow> H))"
| "held_after a pattern (LoggedIn a' p r) H =
     (case r of
        Inr g \<Rightarrow> if a' = a then set (gsPrivileges g) \<union> (if gsGrantOption g then {''GRANT OPTION''} else {}) else H
      | Inl _ \<Rightarrow> H)"
| "held_after a pattern e H = H"

abbreviation held :: "account \<Rightarrow> string \<Rightarrow> string set \<Rightarrow> myevent list \<Rightarrow> string set" where
  "held a pattern H l \<equiv> fold (held_after a pattern) l H"

text \<open>Whether the exchange determines the starting point: the user was created or logged in.\<close>

definition determined :: "account \<Rightarrow> myevent list \<Rightarrow> bool" where
  "determined a l \<longleftrightarrow> user_made a l \<or> (\<exists>p g. LoggedIn a p (Inr g) \<in> set l)"

lemma sql_heads: "hd createUserSQL = CHR ''C''" "hd dropUserSQL = CHR ''D''" "alterUserSQL \<noteq> createUserSQL" "alterUserSQL \<noteq> dropUserSQL"
  by code_simp+

lemma held_grant:
  assumes "grantSQL ps pattern = Inr q"
  shows "held_after a pattern (Executed q [acctUser a, acctHost a] r) H = (if r = None then H \<union> set ps else H)"
proof -
  from assms obtain l where l: "privilegeList ps = Inr l" and q: "q = ''GRANT '' @ l @ '' ON '' @ quoteIdent pattern @ ''.* TO ?@?''"
    by (auto simp: grantSQL_def split: sum.splits)
  have "hd q = CHR ''G''" by (simp add: q)
  then have "q \<noteq> createUserSQL" "q \<noteq> dropUserSQL" using sql_heads by auto
  moreover have "strip ''GRANT '' ('' ON '' @ quoteIdent pattern @ ''.* TO ?@?'') q = Some l" unfolding q by (rule strip_append)
  ultimately show ?thesis using privilegeList_Inr [OF l] by (simp add: comma_list_Join)
qed

lemma held_revoke_body:
  assumes "q = ''REVOKE '' @ l @ '' ON '' @ quoteIdent pattern @ ''.* FROM ?@?''"
  shows "held_after a pattern (Executed q [acctUser a, acctHost a] r) H =
    (if not_held r then H - set (comma_list l) else H)"
proof -
  have "hd q = CHR ''R''" by (simp add: assms)
  then have "q \<noteq> createUserSQL" "q \<noteq> dropUserSQL" using sql_heads by auto
  moreover have "strip ''GRANT '' ('' ON '' @ quoteIdent pattern @ ''.* TO ?@?'') q = None"
    by (rule strip_other [where p = "''REVOKE ''"]) (simp_all add: assms HasPrefix_def)
  moreover have "strip ''REVOKE '' ('' ON '' @ quoteIdent pattern @ ''.* FROM ?@?'') q = Some l" unfolding assms by (rule strip_append)
  ultimately show ?thesis by simp
qed

declare held_after.simps(1) [simp del]

lemma held_revoke:
  assumes "revokeSQL ps pattern = Inr q"
  shows "held_after a pattern (Executed q [acctUser a, acctHost a] r) H =
    (if not_held r then H - set ps else H)"
proof -
  from assms obtain l where l: "privilegeList ps = Inr l" and q: "q = ''REVOKE '' @ l @ '' ON '' @ quoteIdent pattern @ ''.* FROM ?@?''"
    by (auto simp: revokeSQL_def split: sum.splits)
  show ?thesis using privilegeList_Inr [OF l] held_revoke_body [OF q] by (simp add: comma_list_Join)
qed

lemma held_revoke_option:
  "held_after a pattern (Executed (revokeGrantOptionSQL pattern) [acctUser a, acctHost a] r) H =
    (if not_held r then H - {''GRANT OPTION''} else H)"
proof -
  have "revokeGrantOptionSQL pattern = ''REVOKE '' @ ''GRANT OPTION'' @ '' ON '' @ quoteIdent pattern @ ''.* FROM ?@?''"
    by (simp add: revokeGrantOptionSQL_def)
  from held_revoke_body [OF this] show ?thesis
    by (simp add: comma_list_def TrimPrefix_def HasPrefix_def)
qed


section \<open>Aligning\<close>

lemma aligning_determined: "determined a (h @ [Executed q [x, y] r]) = determined a h"
  by (auto simp: determined_def user_made_def)

lemma breaker_refusal: "breaker_admit t b = (Some e, b') \<Longrightarrow> \<not> isMySQLError e n"
  by (auto simp: breaker_admit_def isMySQLError_def mysql_number_def errBackendUnreachable_def split: if_splits)

text \<open>A refusal by the breaker is not an error of the server.\<close>

lemma keeps_exec_refused:
  assumes "\<And>r. C h (Executed q args r)" "\<And>r. R r (h @ [Executed q args r])" "\<And>e. (\<And>n. \<not> isMySQLError e n) \<Longrightarrow> R (Some e) h"
  shows "keeps C h (conn_exec E q args) R"
proof -
  have a: "keeps C h (admit E) (\<lambda>r h'. h' = h \<and> (\<forall>e n. r = Some e \<longrightarrow> \<not> isMySQLError e n))"
    unfolding admit_def by (intro keeps_rules) (auto dest: breaker_refusal)
  show ?thesis unfolding conn_exec_def sql_exec_def
    by (rule keeps_bind, rule keeps_mono [OF a], clarify, intro keeps_rules keeps_report_outcome)
       (use assms in auto)
qed

abbreviation allows :: "myevent list \<Rightarrow> ('w, 'a) myprog \<Rightarrow> ('a \<Rightarrow> myevent list \<Rightarrow> bool) \<Rightarrow> bool" where
  "allows \<equiv> keeps (\<lambda>_ _. True)"

lemma grant_held:
  "allows h (mysql_grant E a pattern ps)
     (\<lambda>r h'. (r = None \<longrightarrow> held a pattern H h' = held a pattern H h \<union> set ps) \<and> determined a h' = determined a h)"
  unfolding mysql_grant_def by (intro keeps_rules) (auto simp: held_grant aligning_determined)

lemma revoke_extra_held:
  "allows h (revoke_extra E a pattern ps)
     (\<lambda>r h'. (r = None \<longrightarrow> held a pattern H h' = held a pattern H h - set ps))"
  unfolding revoke_extra_def by (intro keeps_rules) (auto simp: held_revoke not_held_def)

lemma revokeIfHeld_held:
  "allows h (revokeIfHeld E a pattern ps)
     (\<lambda>r h'. (r = None \<longrightarrow> held a pattern H h' = held a pattern H h - set ps) \<and> determined a h' = determined a h)"
proof (induction ps arbitrary: h)
  case (Cons p ps)
  show ?case
    unfolding revokeIfHeld.simps
    by (intro keeps_rules(1,2) keeps_if keeps_case_sum keeps_case_option keeps_bind keeps_exec_refused keeps_mono [OF Cons.IH])
       (auto simp: held_revoke aligning_determined not_held_def intro: keeps_ret)
qed (simp add: keeps_ret)

text \<open>The role's privileges, which never include the grant option.\<close>

definition role_set :: "string list \<Rightarrow> bool" where
  "role_set want \<longleftrightarrow> set want \<subseteq> set readWritePrivileges \<and> ''GRANT OPTION'' \<notin> set want"

lemma rolePrivileges_set: "rolePrivileges role = Inr want \<Longrightarrow> role_set want"
  by (auto simp: rolePrivileges_def role_set_def readerPrivileges_def readWritePrivileges_def split: if_splits)

definition reported_privileges :: "grants \<Rightarrow> string set" where
  "reported_privileges g = set (gsPrivileges g) \<union> (if gsGrantOption g then {''GRANT OPTION''} else {})"

lemma align_known:
  assumes "role_set want" and "held a pattern H h = reported_privileges g"
  shows "allows h (alignGrants E a pattern want (Some g)) (\<lambda>r h'. r = None \<longrightarrow> held a pattern H h' = set want)"
proof -
  let ?p = "set (gsPrivileges g)"
  have "(reported_privileges g \<union> set (without want (gsPrivileges g))) - set (without (gsPrivileges g) want) - {''GRANT OPTION''} = set want"
    "\<not> gsGrantOption g \<Longrightarrow> (reported_privileges g \<union> set (without want (gsPrivileges g))) - set (without (gsPrivileges g) want) = set want"
    using assms(1) by (auto simp: reported_privileges_def without_def role_set_def)
  note want = this
  show ?thesis
    unfolding alignGrants_def option.case
    by (intro keeps_rules keeps_bind [OF keeps_mono [OF grant_held [where H = H]]] keeps_bind [OF keeps_mono [OF revoke_extra_held [where H = H]]])
       (auto simp: held_revoke_option not_held_def assms(2) want)
qed

lemma align_unknown:
  assumes "role_set want"
  shows "allows h (alignGrants E a pattern want None)
    (\<lambda>r h'. (r = None \<longrightarrow> held a pattern H h' \<inter> set readWritePrivileges = set want) \<and> determined a h' = determined a h)"
proof -
  have "(S \<union> set want - set (without readWritePrivileges want)) \<inter> set readWritePrivileges = set want" for S
    using assms by (auto simp: without_def role_set_def)
  note want = this
  show ?thesis
    unfolding alignGrants_def option.case
    by (intro keeps_rules keeps_bind [OF keeps_mono [OF grant_held [where H = H]]] keeps_mono [OF revokeIfHeld_held [where H = H]])
       (auto simp: want)
qed


section \<open>A grant ends with the role's privileges\<close>

definition role_settled :: "account \<Rightarrow> string \<Rightarrow> string list \<Rightarrow> string set \<Rightarrow> myevent list \<Rightarrow> bool" where
  "role_settled a pattern want H h \<longleftrightarrow> held a pattern H h \<inter> set readWritePrivileges = set want \<and>
     (determined a h \<longrightarrow> held a pattern H h = set want)"

lemma role_settled_exact: "\<lbrakk>role_set want; held a pattern H h = set want\<rbrakk> \<Longrightarrow> role_settled a pattern want H h"
  by (auto simp: role_settled_def role_set_def)

lemma failed_login:
  "determined a (h @ [LoggedIn a' p (Inl e)]) = determined a h" "held a pattern H (h @ [LoggedIn a' p (Inl e)]) = held a pattern H h"
  by (auto simp: determined_def user_made_def)

lemma setPassword_held:
  "allows h (setPassword E a password) (\<lambda>(created, err) h'. err = None \<longrightarrow>
     (if created then held a pattern H h' = {} else determined a h' = determined a h))"
proof -
  have c: "held_after a pattern (created_user a password) H = {}" for H by (simp add: held_after.simps)
  have d: "determined a (h @ Executed createUserSQL x (Some e) # l) = determined a (h @ l)"
    "determined a (h @ [Executed alterUserSQL x r]) = determined a h" for h e x r l
    using sql_heads(3) by (auto simp: determined_def user_made_def)
  show ?thesis unfolding setPassword_def by (intro keeps_rules) (auto simp: c d)
qed

lemma align_after_login:
  assumes "role_set want"
  shows "allows (h @ [LoggedIn a password (Inr g)]) (alignGrants E a pattern want (Some g)) (\<lambda>r h'. r = None \<longrightarrow> role_settled a pattern want H h')"
  by (rule keeps_mono [OF align_known [where H = H]]) (use assms in \<open>auto simp: reported_privileges_def intro: role_settled_exact\<close>)

lemma verify_loop_held:
  assumes "role_set want" and "role_settled a pattern want H h"
  shows "allows h (verify_loop cfg E a password pattern want created k) (\<lambda>(_, _, err) h'. err = None \<longrightarrow> role_settled a pattern want H h')"
  using assms(2)
proof (induction k arbitrary: h)
  case (Suc k)
  have "role_settled a pattern want H (h @ [LoggedIn a password (Inl e)])" for e
    using Suc.prems by (simp add: role_settled_def failed_login)
  with Suc show ?case
    unfolding verify_loop.simps [of _ _ _ _ _ _ _ "Suc k"] nat.case
    by (intro keeps_rules) (auto intro: keeps_ret keeps_mono [OF align_after_login [OF assms(1)]])
next
  case 0
  then have "role_settled a pattern want H (h @ [LoggedIn a password (Inl e)])" for e
    by (simp add: role_settled_def failed_login)
  with 0 show ?case
    unfolding verify_loop.simps [of _ _ _ _ _ _ _ 0] nat.case
    by (intro keeps_rules) (auto intro: keeps_ret keeps_mono [OF align_after_login [OF assms(1)]])
qed

lemma repair_account_held:
  assumes "role_set want" and "\<not> determined a h"
  shows "allows h (repair_account cfg E a password fromSecret pattern want) (\<lambda>(_, _, err) h'. err = None \<longrightarrow> role_settled a pattern want H h')"
proof -
  let ?new = "\<lparr>gsPrivileges = [], gsGrantOption = False\<rparr>"
  have "allows h' (alignGrants E a pattern want (if created then Some ?new else None)) (\<lambda>r h''. r = None \<longrightarrow> role_settled a pattern want H h'')"
    if "if created then held a pattern H h' = {} else determined a h' = determined a h" for created h'
  proof (cases created)
    case True
    have "allows h' (alignGrants E a pattern want (Some ?new)) (\<lambda>r h''. r = None \<longrightarrow> role_settled a pattern want H h'')"
      by (rule keeps_mono [OF align_known [where H = H, OF assms(1)]])
         (use that True assms(1) in \<open>auto simp: reported_privileges_def intro: role_settled_exact\<close>)
    with True show ?thesis by simp
  next
    case False
    then show ?thesis
      by (auto intro!: keeps_mono [OF align_unknown [OF assms(1), where H = H]]) (use that assms(2) False in \<open>auto simp: role_settled_def\<close>)
  qed
  note align = this
  have tail: "allows h' (State_Monad.bind (alignGrants E a pattern want hv) (\<lambda>x. case x of
        Some e \<Rightarrow> ret (c, False, Some e)
      | None \<Rightarrow> if \<not> fromSecret then ret (c, False, None) else verify_loop cfg E a password pattern want c (verifyAttempts - 1)))
      (\<lambda>(_, _, err) h'. err = None \<longrightarrow> role_settled a pattern want H h')"
    if "allows h' (alignGrants E a pattern want hv) (\<lambda>r h''. r = None \<longrightarrow> role_settled a pattern want H h'')" for h' hv c
    by (rule keeps_bind [OF keeps_mono [OF that]], intro keeps_case_option keeps_if keeps_ret verify_loop_held assms(1)) simp_all
  show ?thesis
    unfolding repair_account_def
    by (rule keeps_bind [OF keeps_mono [OF setPassword_held [where H = H and pattern = pattern]]],
        intro keeps_case_prod keeps_case_option keeps_ret tail align) auto
qed

lemma ensureAccount_held:
  assumes "role_set want"
  shows "allows [] (ensureAccount cfg E a password fromSecret pattern want) (\<lambda>(_, _, err) h'. err = None \<longrightarrow> role_settled a pattern want H h')"
proof -
  have "\<not> determined a []" "\<not> determined a [LoggedIn a password (Inl e)]" for e by (auto simp: determined_def user_made_def)
  then show ?thesis
    unfolding ensureAccount_def
    by (intro keeps_rules)
       (auto intro!: keeps_ret repair_account_held [OF assms] keeps_mono [OF align_after_login [OF assms, of "[]", simplified]])
qed

lemma converge_access_held:
  assumes "role_set want"
  shows "allows [] (converge_access cfg E db a want password fromSecret)
    (\<lambda>r h'. \<forall>res. r = Inr res \<longrightarrow> h' \<noteq> [] \<longrightarrow> role_settled a (grantPattern db) want H h')"
  unfolding converge_access_def Let_def
  by (intro keeps_rules keeps_bind [OF keeps_mono [OF ensureAccount_held [OF assms, where H = H]]])
     (auto intro: keeps_rules)

text \<open>
  C11. An access holds its role. When \<open>GrantAccess\<close> succeeds and consulted the server, the account
  of the access holds, of the privileges the driver manages, exactly those of its role, whatever
  it held before and whatever the server answered on the way (a refused login, an existing
  user, a revoke of something not held); and when the call created the user or logged in as it,
  the account holds nothing else, the grant option included.
\<close>

theorem granted_access_holds_role:
  assumes "pass_out (mysql_GrantAccess cfg E req) s = Inr res" and "pass_log (mysql_GrantAccess cfg E req) s \<noteq> []"
  shows "\<exists>u want. userName cfg (grAccessNamespace req) (grAccessName req) = Inr u \<and> rolePrivileges (grRole req) = Inr want \<and>
    (let a = \<lparr>acctUser = u, acctHost = myUserHost cfg\<rparr>; l = pass_log (mysql_GrantAccess cfg E req) s;
         H' = held a (grantPattern (grBucketyName req)) H l
     in H' \<inter> set readWritePrivileges = set want \<and> (determined a l \<longrightarrow> H' = set want))"
proof -
  have "allows [] (mysql_GrantAccess cfg E req) (\<lambda>r h'. \<forall>res. r = Inr res \<longrightarrow> h' \<noteq> [] \<longrightarrow>
    (\<exists>u want. userName cfg (grAccessNamespace req) (grAccessName req) = Inr u \<and> rolePrivileges (grRole req) = Inr want \<and>
       role_settled \<lparr>acctUser = u, acctHost = myUserHost cfg\<rparr> (grantPattern (grBucketyName req)) want H h'))"
    unfolding mysql_GrantAccess_def access_password_def Let_def
    by (intro keeps_rules keeps_generatePassword keeps_mono [OF converge_access_held [OF rolePrivileges_set, where H = H]]) auto
  from keepsD [OF this, of s] assms show ?thesis by (auto simp: role_settled_def Let_def)
qed

theorem granted_access_holds_role_witness:
  "let a = \<lparr>acctUser = ''b_web_app'', acctHost = ''%''\<rparr>; s = demo_at [None, None] [] Map.empty;
       p = mysql_GrantAccess demo_decoded (demo_sql (account_String a)) demo_mygrant
   in pass_out p s = Inr (granted_result demo_decoded ''b_shop'' a ''abcDEF0123-_.~xyz'' False) \<and>
      held a (grantPattern ''b_shop'') {''SHOW VIEW''} (pass_log p s) = {''SELECT''}"
proof -
  let ?a = "\<lparr>acctUser = ''b_web_app'', acctHost = ''%''\<rparr>" and ?s = "demo_at [None, None] [] Map.empty"
  let ?p = "mysql_GrantAccess demo_decoded (demo_sql (account_String ?a)) demo_mygrant"
  obtain q where q: "revokeSQL [''DROP''] (grantPattern ''b_shop'') = Inr q" by (auto simp: revokeSQL_def privilegeList_def bad_privilege_def privilegeRE_def char_class_defs)
  have l: "LoggedIn ?a ''abcDEF0123-_.~xyz'' (Inr \<lparr>gsPrivileges = [''SELECT'', ''DROP''], gsGrantOption = False\<rparr>) \<in> set (pass_log ?p ?s)"
    and o: "pass_out ?p ?s = Inr (granted_result demo_decoded ''b_shop'' ?a ''abcDEF0123-_.~xyz'' False)"
    by (simp_all add: demo_program demo_facts demo_mygrant_def without_def q)
  then have "pass_log ?p ?s \<noteq> []" by auto
  from granted_access_holds_role [OF o this, of "{''SHOW VIEW''}"] l o show ?thesis
    by (auto simp: Let_def demo_mygrant_def demo_user demo_checks determined_def)
qed

end
