(* ===== verification/Schema_Generator.thy ===== *)
theory Schema_Generator
  imports Json_Documents
begin

text \<open>
  \<open>scripts/gen-cr-schemas\<close>: the program that composes the editor schemas of the custom resources from
  the CRD manifests and the drivers' parameter schemas. A run is a program over the file system, with
  each file operation an event; every \<open>panic\<close> (\<open>must\<close>, a failed type assertion, an index out of
  range) ends it with a value of \<open>gen_panic\<close>, and the files written before stay. \<open>yamlToJSON\<close>, the
  library's conversion, is a parameter: \<open>yaml.Unmarshal\<close> decodes its result as JSON. The stripping
  mutates maps that nothing else refers to (they come from one decoding), so it is a function.
\<close>

section \<open>Panics\<close>

datatype gen_panic = MustFailed goerr | BadAssertion string | IndexOutOfRange

datatype gen_event =
    FileRead string "goerr + string"
  | DirMade string "goerr option"
  | FileWritten string string "goerr option"
  | Printed string

record 'w gen_os =
  osReadFile :: "string \<Rightarrow> 'w \<Rightarrow> (goerr + string) \<times> 'w"
  osMkdirAll :: "string \<Rightarrow> 'w \<Rightarrow> goerr option \<times> 'w"
  osWriteFile :: "string \<Rightarrow> string \<Rightarrow> 'w \<Rightarrow> goerr option \<times> 'w"

type_synonym ('w, 'a) gen = "('w, gen_event, unit, gen_panic + 'a) prog"

definition or_panic :: "('w, 'a) gen \<Rightarrow> ('a \<Rightarrow> ('w, 'b) gen) \<Rightarrow> ('w, 'b) gen" where
  "or_panic p f = do { r \<leftarrow> p; case r of Inl e \<Rightarrow> ret (Inl e) | Inr a \<Rightarrow> f a }"

definition sum_bind :: "'e + 'a \<Rightarrow> ('a \<Rightarrow> 'e + 'b) \<Rightarrow> 'e + 'b" where
  "sum_bind x f = (case x of Inl e \<Rightarrow> Inl e | Inr a \<Rightarrow> f a)"

definition must :: "goerr option \<Rightarrow> gen_panic + unit" where
  "must e = (case e of Some e \<Rightarrow> Inl (MustFailed e) | None \<Rightarrow> Inr ())"

definition must_decode :: "json option \<Rightarrow> gen_panic + json" where
  "must_decode v = (case v of None \<Rightarrow> Inl (MustFailed json_error) | Some x \<Rightarrow> Inr x)"

text \<open>\<open>m[k].(doc)\<close>: a missing key and a value of another type panic alike.\<close>

definition doc_at :: "doc \<Rightarrow> string \<Rightarrow> gen_panic + doc" where
  "doc_at m k = (case map_of m k of Some (JObj x) \<Rightarrow> Inr x | _ \<Rightarrow> Inl (BadAssertion k))"

definition list_at :: "doc \<Rightarrow> string \<Rightarrow> gen_panic + json list" where
  "list_at m k = (case map_of m k of Some (JArr x) \<Rightarrow> Inr x | _ \<Rightarrow> Inl (BadAssertion k))"

text \<open>The entries of a map that may be nil.\<close>

definition entries :: "json \<Rightarrow> doc" where
  "entries v = (case v of JObj m \<Rightarrow> m | _ \<Rightarrow> [])"


section \<open>Reading and writing\<close>

definition read_file :: "'w gen_os \<Rightarrow> string \<Rightarrow> ('w, string) gen" where
  "read_file os path = do { r \<leftarrow> call (osReadFile os path) (FileRead path); ret (map_sum MustFailed id r) }"

definition loadJSON :: "(string \<Rightarrow> string option) \<Rightarrow> 'w gen_os \<Rightarrow> string \<Rightarrow> ('w, json) gen" where
  "loadJSON ff os path = or_panic (read_file os path) (\<lambda>raw. ret (must_decode (Option.bind (json_Unmarshal raw) (decode_doc ff))))"

definition deepCopy :: "(string \<Rightarrow> string option) \<Rightarrow> doc \<Rightarrow> gen_panic + doc" where
  "deepCopy ff m = map_sum id entries (must_decode (Option.bind (json_Unmarshal (json_Marshal (JObj m))) (decode_doc ff)))"

definition write_doc :: "'w gen_os \<Rightarrow> string \<Rightarrow> doc \<Rightarrow> ('w, unit) gen" where
  "write_doc os path m =
     (case json_MarshalIndent (JObj m) of
        None \<Rightarrow> ret (Inl (MustFailed json_error))
      | Some raw \<Rightarrow>
          or_panic (do { e \<leftarrow> call (osWriteFile os path (raw @ [CHR 0x0A])) (FileWritten path (raw @ [CHR 0x0A])); ret (must e) })
            (\<lambda>_. do { emit (Printed (''wrote '' @ path @ [CHR 0x0A])); ret (Inr ()) }))"


section \<open>The CRD's schemas\<close>

fun strip_members :: "doc \<Rightarrow> doc" and strip_value :: "json \<Rightarrow> json" and strip_elems :: "json list \<Rightarrow> json list" where
  "strip_members [] = []"
| "strip_members ((k, v) # m) =
     (if HasPrefix k ''x-kubernetes-'' then strip_members m else (k, strip_value v) # strip_members m)"
| "strip_value (JObj m) = JObj (strip_members m)"
| "strip_value (JArr es) = JArr (strip_elems es)"
| "strip_value v = v"
| "strip_elems [] = []"
| "strip_elems (JObj m # es) = JObj (strip_members m) # strip_elems es"
| "strip_elems (e # es) = e # strip_elems es"

definition crd_parts :: "json \<Rightarrow> gen_panic + doc \<times> doc" where
  "crd_parts crd =
     sum_bind (doc_at (entries crd) ''spec'') (\<lambda>spec.
     sum_bind (list_at spec ''versions'') (\<lambda>versions.
     sum_bind (case versions of [] \<Rightarrow> Inl IndexOutOfRange | JObj v # _ \<Rightarrow> Inr v | _ \<Rightarrow> Inl (BadAssertion ''versions[0]'')) (\<lambda>version.
     sum_bind (doc_at version ''schema'') (\<lambda>schema.
     sum_bind (doc_at schema ''openAPIV3Schema'') (\<lambda>root.
     sum_bind (doc_at (strip_members root) ''properties'') (\<lambda>props.
     sum_bind (doc_at props ''spec'') (\<lambda>spec.
     map_sum id (Pair spec) (doc_at props ''status''))))))))"

definition crdSchema ::
  "(string \<Rightarrow> string option) \<Rightarrow> (string \<Rightarrow> goerr + json) \<Rightarrow> 'w gen_os \<Rightarrow> string \<Rightarrow> ('w, doc \<times> doc) gen" where
  "crdSchema ff yamlToJSON os path = or_panic (read_file os path) (\<lambda>raw.
     ret (sum_bind (map_sum MustFailed id (yamlToJSON raw)) (\<lambda>v. sum_bind (must_decode (decode_doc ff v)) crd_parts)))"


section \<open>Composition\<close>

definition rawBase :: string where
  "rawBase = ''https://raw.githubusercontent.com/Yolean/buckety-controller/main/schema/''"

abbreviation JStrs :: "string list \<Rightarrow> json" where
  "JStrs ss \<equiv> JArr (map JStr ss)"

abbreviation JMap :: "doc \<Rightarrow> json" where
  "JMap kvs \<equiv> JObj (go_map kvs)"

definition wrap :: "string \<Rightarrow> string \<Rightarrow> string \<Rightarrow> string \<Rightarrow> doc \<Rightarrow> doc \<Rightarrow> doc" where
  "wrap name title description kind spec status = go_map
     [(''$schema'', JStr ''http://json-schema.org/draft-07/schema#''),
      (''$id'', JStr (rawBase @ name @ ''.schema.json'')),
      (''title'', JStr title),
      (''description'', JStr description),
      (''type'', JStr ''object''),
      (''required'', JStrs [''apiVersion'', ''kind'', ''metadata'', ''spec'']),
      (''properties'', JMap
        [(''apiVersion'', JMap [(''type'', JStr ''string''), (''enum'', JStrs [''buckety.yolean.se/v1alpha1''])]),
         (''kind'', JMap [(''type'', JStr ''string''), (''enum'', JStrs [kind])]),
         (''metadata'', JMap
           [(''type'', JStr ''object''),
            (''required'', JStrs [''name'']),
            (''properties'', JMap
              [(''name'', JMap [(''type'', JStr ''string'')]),
               (''namespace'', JMap [(''type'', JStr ''string'')]),
               (''labels'', JMap [(''type'', JStr ''object''), (''additionalProperties'', JMap [(''type'', JStr ''string'')])]),
               (''annotations'', JMap [(''type'', JStr ''object''), (''additionalProperties'', JMap [(''type'', JStr ''string'')])])])]),
         (''spec'', JObj spec),
         (''status'', JObj status)])]"

record variant =
  vSuffix :: string
  vParamsFile :: string
  vDesc :: string

definition variants :: "variant list" where
  "variants =
     [\<lparr>vSuffix = '''', vParamsFile = '''', vDesc =
        ''Standalone editor schema for a Buckety against any backend. spec.parameters is unconstrained at this level; SPECIALIZE by switching the $schema URL suffix: buckety-blobstore (portable across bucket backends), buckety-gcs, buckety-s3, buckety-kadm, buckety-mysql.''\<rparr>,
      \<lparr>vSuffix = ''blobstore'', vParamsFile = ''pkg/drivers/objectstore/schema/v0.1/parameters.schema.json'', vDesc =
        ''Standalone editor schema for a Buckety carrying only object-store family-common parameters, provisionable on any bucket backend (gcs, s3) - see SPEC.md \"Driver families\". SPECIALIZE to buckety-gcs or buckety-s3 for driver-specific parameters; GENERALIZE to buckety for no parameter constraints.''\<rparr>,
      \<lparr>vSuffix = ''gcs'', vParamsFile = ''pkg/drivers/gcs/schema/v0.2/parameters.schema.json'', vDesc =
        ''Standalone editor schema for a Buckety whose backend resolves to the gcs driver. GENERALIZE to buckety-blobstore to keep the resource portable across bucket backends, or to buckety for no parameter constraints.''\<rparr>,
      \<lparr>vSuffix = ''s3'', vParamsFile = ''pkg/drivers/s3/schema/v0.1/parameters.schema.json'', vDesc =
        ''Standalone editor schema for a Buckety whose backend resolves to the s3 driver. GENERALIZE to buckety-blobstore to keep the resource portable across bucket backends, or to buckety for no parameter constraints.''\<rparr>,
      \<lparr>vSuffix = ''kadm'', vParamsFile = ''pkg/drivers/kadm/schema/v0.1/parameters.schema.json'', vDesc =
        ''Standalone editor schema for a Buckety whose backend resolves to the kadm driver. kadm is deliberately not in a driver family (families are per service kind); GENERALIZE to buckety for no parameter constraints.''\<rparr>,
      \<lparr>vSuffix = ''mysql'', vParamsFile = ''pkg/drivers/mysql/schema/v0.1/parameters.schema.json'', vDesc =
        ''Standalone editor schema for a Buckety whose backend resolves to the mysql driver (a MariaDB/MySQL database). mysql is not in a driver family; GENERALIZE to buckety for no parameter constraints. spec.name must resolve to a name starting with the backend's namePrefix, e.g. b_${namespace}_${name}; admission enforces it.''\<rparr>]"

definition variant_name :: "variant \<Rightarrow> string" where
  "variant_name v = ''buckety'' @ (if vSuffix v \<noteq> [] then ''-'' @ vSuffix v else [])"

definition variant_title :: "variant \<Rightarrow> string" where
  "variant_title v = (if vSuffix v \<noteq> [] then ''Buckety ('' @ vSuffix v @ '')'' else ''Buckety (any driver)'')"

text \<open>\<open>delete(params, "$schema")\<close>, then \<open>spec["properties"].(doc)["parameters"] = params\<close>.\<close>

definition with_parameters :: "doc \<Rightarrow> json \<Rightarrow> gen_panic + doc" where
  "with_parameters spec params =
     (let params = (case params of JObj p \<Rightarrow> JObj (map_delete ''$schema'' p) | v \<Rightarrow> v) in
      map_sum id (\<lambda>props. map_set ''properties'' (JObj (map_set ''parameters'' params props)) spec) (doc_at spec ''properties''))"

definition write_variant :: "(string \<Rightarrow> string option) \<Rightarrow> 'w gen_os \<Rightarrow> doc \<Rightarrow> doc \<Rightarrow> variant \<Rightarrow> ('w, unit) gen" where
  "write_variant ff os bucketySpec bucketyStatus v =
     or_panic (ret (deepCopy ff bucketySpec)) (\<lambda>spec.
     or_panic (if vParamsFile v \<noteq> [] then or_panic (loadJSON ff os (vParamsFile v)) (\<lambda>params. ret (with_parameters spec params)) else ret (Inr spec)) (\<lambda>spec.
     or_panic (ret (deepCopy ff bucketyStatus)) (\<lambda>status.
     write_doc os (''schema/'' @ variant_name v @ ''.schema.json'') (wrap (variant_name v) (variant_title v) (vDesc v) ''Buckety'' spec status))))"

fun write_variants :: "(string \<Rightarrow> string option) \<Rightarrow> 'w gen_os \<Rightarrow> doc \<Rightarrow> doc \<Rightarrow> variant list \<Rightarrow> ('w, unit) gen" where
  "write_variants ff os spec status [] = ret (Inr ())"
| "write_variants ff os spec status (v # vs) = or_panic (write_variant ff os spec status v) (\<lambda>_. write_variants ff os spec status vs)"

definition access_desc :: string where
  "access_desc = ''Standalone editor schema for a BucketyAccess. Driver-specific spec.parameters validation happens at admission; this schema leaves it unconstrained.''"

definition gen_main :: "(string \<Rightarrow> string option) \<Rightarrow> (string \<Rightarrow> goerr + json) \<Rightarrow> 'w gen_os \<Rightarrow> ('w, unit) gen" where
  "gen_main ff yamlToJSON os =
     or_panic (crdSchema ff yamlToJSON os ''deploy/kustomize/crd/buckety.yaml'') (\<lambda>(bucketySpec, bucketyStatus).
     or_panic (crdSchema ff yamlToJSON os ''deploy/kustomize/crd/bucketyaccess.yaml'') (\<lambda>(accessSpec, accessStatus).
     or_panic (do { e \<leftarrow> call (osMkdirAll os ''schema'') (DirMade ''schema''); ret (must e) }) (\<lambda>_.
     or_panic (write_variants ff os bucketySpec bucketyStatus variants) (\<lambda>_.
     or_panic (ret (deepCopy ff accessSpec)) (\<lambda>spec.
     or_panic (ret (deepCopy ff accessStatus)) (\<lambda>status.
     write_doc os ''schema/bucketyaccess.schema.json'' (wrap ''bucketyaccess'' ''BucketyAccess'' access_desc ''BucketyAccess'' spec status)))))))"



section \<open>Stripping\<close>

text \<open>No \<open>x-kubernetes-\<close> key in the objects reached through objects and lists of objects.\<close>

fun clean :: "json \<Rightarrow> bool" where
  "clean (JObj m) \<longleftrightarrow> list_all (\<lambda>p. \<not> HasPrefix (fst p) ''x-kubernetes-'' \<and> clean (snd p)) m"
| "clean (JArr es) \<longleftrightarrow> list_all (\<lambda>e. case e of JObj _ \<Rightarrow> clean e | _ \<Rightarrow> True) es"
| "clean _ \<longleftrightarrow> True"

lemma strip_clean:
  "clean (JObj (strip_members m))" "clean (strip_value v)" "clean (JArr (strip_elems es))"
  by (induction m and v and es rule: strip_members_strip_value_strip_elems.induct) auto

lemma strip_of_clean:
  "clean (JObj m) \<Longrightarrow> strip_members m = m" "clean v \<Longrightarrow> strip_value v = v" "clean (JArr es) \<Longrightarrow> strip_elems es = es"
  by (induction m and v and es rule: strip_members_strip_value_strip_elems.induct) auto

lemma strip_lookup:
  "map_of (strip_members m) k = (if HasPrefix k ''x-kubernetes-'' then None else map_option strip_value (map_of m k))"
  by (induction m) auto

lemma strip_keys: "map fst (strip_members m) = filter (\<lambda>k. \<not> HasPrefix k ''x-kubernetes-'') (map fst m)"
  by (induction m) auto

lemma crd_partsE:
  assumes "crd_parts (JObj c) = Inr (spec, status)"
  obtains s v vs sc root props where "doc_at c ''spec'' = Inr s" "list_at s ''versions'' = Inr (JObj v # vs)"
    "doc_at v ''schema'' = Inr sc" "doc_at sc ''openAPIV3Schema'' = Inr root" "doc_at (strip_members root) ''properties'' = Inr props"
    "doc_at props ''spec'' = Inr spec" "doc_at props ''status'' = Inr status"
  using assms
  by (auto simp: crd_parts_def sum_bind_def entries_def map_sum_def split: sum.splits list.splits json.splits)

lemma doc_at_clean: "\<lbrakk>doc_at m k = Inr x; clean (JObj m)\<rbrakk> \<Longrightarrow> clean (JObj x)"
  by (fastforce simp: doc_at_def list_all_iff split: option.splits json.splits dest!: map_of_SomeD)

lemma crd_parts_clean: "crd_parts (JObj c) = Inr (spec, status) \<Longrightarrow> clean (JObj spec) \<and> clean (JObj status)"
  by (erule crd_partsE) (meson doc_at_clean strip_clean(1))

text \<open>A predicate of documents that holds of their parts and survives the stripping.\<close>

locale hereditary =
  fixes P :: "json \<Rightarrow> bool"
  assumes member: "\<lbrakk>P (JObj m); (k, v) \<in> set m\<rbrakk> \<Longrightarrow> P v"
    and element: "\<lbrakk>P (JArr es); e \<in> set es\<rbrakk> \<Longrightarrow> P e"
    and stripped: "P (JObj m) \<Longrightarrow> P (JObj (strip_members m))"
begin

lemma at: "\<lbrakk>doc_at m k = Inr x; P (JObj m)\<rbrakk> \<Longrightarrow> P (JObj x)" "\<lbrakk>list_at m k = Inr es; P (JObj m)\<rbrakk> \<Longrightarrow> P (JArr es)"
  by (auto simp: doc_at_def list_at_def split: option.splits json.splits dest!: map_of_SomeD intro: member)

lemma head: "P (JArr (JObj v # vs)) \<Longrightarrow> P (JObj v)"
  by (erule element) simp

lemma crd_parts:
  assumes "crd_parts (JObj c) = Inr (spec, status)" and "P (JObj c)"
  shows "P (JObj spec) \<and> P (JObj status)"
proof -
  from assms(1) obtain s v vs sc root props where c: "doc_at c ''spec'' = Inr s" "list_at s ''versions'' = Inr (JObj v # vs)"
    "doc_at v ''schema'' = Inr sc" "doc_at sc ''openAPIV3Schema'' = Inr root" "doc_at (strip_members root) ''properties'' = Inr props"
    "doc_at props ''spec'' = Inr spec" "doc_at props ''status'' = Inr status"
    by (rule crd_partsE)
  have "P (JObj props)"
    using at(1) [OF c(5) stripped [OF at(1) [OF c(4) at(1) [OF c(3) head [OF at(2) [OF c(2) at(1) [OF c(1) assms(2)]]]]]]] .
  with at(1) [OF c(6)] at(1) [OF c(7)] show ?thesis by blast
qed

end

interpretation decoded: hereditary "go_value ff" for ff
proof
  show "go_value ff (JObj (strip_members m))" if "go_value ff (JObj m)" for m
  proof -
    have "go_value ff (JObj m) \<Longrightarrow> list_all (\<lambda>p. go_value ff (snd p)) (strip_members m)" "go_value ff v \<Longrightarrow> go_value ff (strip_value v)"
      "go_value ff (JArr es) \<Longrightarrow> go_value ff (JArr (strip_elems es))" for m v es
      by (induction m and v and es rule: strip_members_strip_value_strip_elems.induct)
         (auto simp: in_order_def strip_keys sorted_wrt_filter)
    with that show ?thesis by (simp add: in_order_def strip_keys sorted_wrt_filter)
  qed
qed (auto simp: list_all_iff)

text \<open>A document that prints and reads back, with at most \<open>d\<close> levels of nesting.\<close>

fun fits :: "nat \<Rightarrow> json \<Rightarrow> bool" where
  "fits d (JNum s) \<longleftrightarrow> num_text s"
| "fits d (JStr s) \<longleftrightarrow> ascii s"
| "fits (Suc d) (JArr es) \<longleftrightarrow> list_all (fits d) es"
| "fits (Suc d) (JObj ms) \<longleftrightarrow> list_all (\<lambda>p. ascii (fst p) \<and> fits d (snd p)) ms"
| "fits 0 (JArr es) \<longleftrightarrow> False"
| "fits 0 (JObj ms) \<longleftrightarrow> False"
| "fits d _ \<longleftrightarrow> True"

lemma fitsD: "fits d v \<Longrightarrow> printable v \<and> nesting v \<le> d"
  by (induction d v rule: fits.induct) (auto simp: list_all_iff Max.set_eq_fold [symmetric])

lemma fits_mono: "\<lbrakk>fits d v; d \<le> d'\<rbrakk> \<Longrightarrow> fits d' v"
proof (induction d v arbitrary: d' rule: fits.induct)
  case (3 d es)
  then show ?case by (cases d') (auto simp: list_all_iff)
next
  case (4 d ms)
  then show ?case by (cases d') (auto simp: list_all_iff)
qed auto

lemma strip_fits_parts:
  "list_all (\<lambda>p. ascii (fst p) \<and> fits d (snd p)) m \<Longrightarrow> list_all (\<lambda>p. ascii (fst p) \<and> fits d (snd p)) (strip_members m)"
  "fits d v \<Longrightarrow> fits d (strip_value v)"
  "list_all (fits d) es \<Longrightarrow> list_all (fits d) (strip_elems es)"
proof (induction m and v and es arbitrary: d and d and d rule: strip_members_strip_value_strip_elems.induct)
  case (3 m)
  then show ?case by (cases d) auto
next
  case (4 es)
  then show ?case by (cases d) auto
next
  case (7 m es)
  then show ?case by (cases d) auto
qed auto

lemma strip_fits: "fits d (JObj m) \<Longrightarrow> fits d (JObj (strip_members m))"
  using strip_fits_parts(2) [of d "JObj m"] by simp

interpretation fitting: hereditary "fits d" for d
proof
  show "fits d v" if "fits d (JObj m)" "(k, v) \<in> set m" for m k v
    using that by (cases d) (fastforce simp: list_all_iff intro: fits_mono [OF _ le_SucI [OF order_refl]])+
  show "fits d e" if "fits d (JArr es)" "e \<in> set es" for es e
    using that by (cases d) (auto simp: list_all_iff intro: fits_mono [OF _ le_SucI [OF order_refl]])
qed (rule strip_fits)



section \<open>Runs that succeed\<close>

text \<open>The files written, with their contents.\<close>

fun writes :: "gen_event list \<Rightarrow> (string \<times> string) list" where
  "writes [] = []"
| "writes (FileWritten p t None # l) = (p, t) # writes l"
| "writes (_ # l) = writes l"

lemma writes_append [simp]: "writes (l @ l') = writes l @ writes l'"
  by (induction l rule: writes.induct) auto

definition succeeds :: "('w, 'a) gen \<Rightarrow> 'a \<Rightarrow> (string \<times> string) list \<Rightarrow> bool" where
  "succeeds p a W \<longleftrightarrow> pass () p (\<lambda>r l _. r = Inr a \<and> writes l = W)"

lemma succeeds_ret: "x = Inr a \<Longrightarrow> succeeds (ret x) a []"
  by (auto simp: succeeds_def intro: pass_rules)

lemma succeeds_then:
  fixes p :: "('w, 'b) gen"
  assumes "succeeds p a W" and "succeeds (f a) b W'"
  shows "succeeds (or_panic p f) b (W @ W')"
  unfolding succeeds_def or_panic_def
proof (rule pass_bind, rule pass_mono [OF assms(1) [unfolded succeeds_def]])
  fix r :: "gen_panic + 'b" and l and m' :: unit assume "r = Inr a \<and> writes l = W"
  moreover have "pass m' (f a) (\<lambda>r l _. r = Inr b \<and> writes l = W')" using assms(2) by (simp add: succeeds_def)
  ultimately show "pass m' (case r of Inl e \<Rightarrow> ret (Inl e) | Inr a \<Rightarrow> f a) (\<lambda>r' l' _. r' = Inr b \<and> writes (l @ l') = W @ W')"
    by (auto elim: pass_mono)
qed

text \<open>The file system of a checkout: every file reads as \<open>content\<close> says, and every write is accepted.\<close>

definition serves :: "'w gen_os \<Rightarrow> (string \<Rightarrow> string) \<Rightarrow> bool" where
  "serves os content \<longleftrightarrow>
     (\<forall>p w. fst (osReadFile os p w) = Inr (content p)) \<and> (\<forall>p w. fst (osMkdirAll os p w) = None) \<and> (\<forall>p t w. fst (osWriteFile os p t w) = None)"

lemma succeeds_read_file: "serves os content \<Longrightarrow> succeeds (read_file os p) (content p) []"
  unfolding succeeds_def read_file_def by (intro pass_rules) (auto simp: serves_def)

lemma succeeds_loadJSON:
  assumes "serves os content" and "Option.bind (json_Unmarshal (content p)) (decode_doc ff) = Some v"
  shows "succeeds (loadJSON ff os p) v []"
  using succeeds_then [OF succeeds_read_file [OF assms(1), of p] succeeds_ret, of "\<lambda>raw. must_decode (Option.bind (json_Unmarshal raw) (decode_doc ff))" v]
    assms(2) unfolding loadJSON_def by (simp add: must_decode_def)

lemma deepCopy_id:
  assumes "go_value ff (JObj m)" and "fits maxNestingDepth (JObj m)"
  shows "deepCopy ff m = Inr m"
  using fitsD [OF assms(2)] interface_of_id [OF assms(1)] Unmarshal_Marshal [of "JObj m"]
  by (simp add: deepCopy_def decode_doc_def must_decode_def entries_def)

definition printed :: "doc \<Rightarrow> string" where
  "printed m = encode indent '': '' 0 (JObj m) @ [CHR 0x0A]"

lemma printed_reads_back: "fits maxNestingDepth (JObj m) \<Longrightarrow> json_Unmarshal (printed m) = Some (JObj m)"
  using fitsD [of maxNestingDepth "JObj m"] Unmarshal_MarshalIndent [of "JObj m" _ "[CHR 0x0A]"]
  by (simp add: printed_def json_MarshalIndent_def json_space_def byte_def)

lemma succeeds_write_doc:
  assumes "serves os content" and "fits maxNestingDepth (JObj m)"
  shows "succeeds (write_doc os p m) () [(p, printed m)]"
proof -
  have "json_MarshalIndent (JObj m) = Some (encode indent '': '' 0 (JObj m))"
    using fitsD [OF assms(2)] by (simp add: json_MarshalIndent_def)
  then have "write_doc os p m = or_panic (do { e \<leftarrow> call (osWriteFile os p (printed m)) (FileWritten p (printed m)); ret (must e) })
      (\<lambda>_. do { emit (Printed (''wrote '' @ p @ [CHR 0x0A])); ret (Inr ()) })"
    by (simp add: write_doc_def printed_def)
  moreover have "succeeds (do { e \<leftarrow> call (osWriteFile os p t) (FileWritten p t); ret (must e) }) () [(p, t)]" for t
    unfolding succeeds_def by (intro pass_rules) (use assms(1) in \<open>auto simp: serves_def must_def\<close>)
  moreover have "succeeds (do { emit (Printed x); ret (Inr ()) }) () []" for x
    unfolding succeeds_def by (intro pass_rules) simp_all
  ultimately show ?thesis using succeeds_then by fastforce
qed

lemma fits_map_set: "\<lbrakk>fits (Suc d) (JObj m); ascii k; fits d v\<rbrakk> \<Longrightarrow> fits (Suc d) (JObj (map_set k v m))"
  using set_map_set [of k v m] by (auto simp: list_all_iff)

lemma fits_go_map: "\<forall>(k, v) \<in> set kvs. ascii k \<and> fits d v \<Longrightarrow> fits (Suc d) (JObj (go_map kvs))"
  by (rule go_map_induct) (simp, rule fits_map_set, auto)

lemma ascii_simps: "ascii []" "ascii (c # s) \<longleftrightarrow> byte c < 0x80 \<and> ascii s" "ascii (s @ t) \<longleftrightarrow> ascii s \<and> ascii t"
  by (simp_all add: ascii_def)

lemma wrap_fits:
  assumes "fits (Suc (Suc (Suc (Suc d)))) (JObj spec)" "fits (Suc (Suc (Suc (Suc d)))) (JObj status)"
    and "ascii name" "ascii title" "ascii description" "ascii kind"
  shows "fits (Suc (Suc (Suc (Suc (Suc (Suc d)))))) (JObj (wrap name title description kind spec status))"
  using assms unfolding wrap_def rawBase_def
  by (auto intro!: fits_go_map simp: ascii_simps byte_def simp del: fits.simps(4))

lemma variants_ascii:
  "list_all (\<lambda>v. ascii (variant_name v) \<and> ascii (variant_title v) \<and> ascii (vDesc v)) variants" "ascii access_desc"
  by (simp_all add: variants_def variant_name_def variant_title_def access_desc_def ascii_simps byte_def)

lemma variant_doc_at: "\<lbrakk>doc_at spec k = Inr x; fits (Suc d) (JObj spec)\<rbrakk> \<Longrightarrow> fits d (JObj x)"
  by (fastforce simp: doc_at_def list_all_iff split: option.splits json.splits dest!: map_of_SomeD)



section \<open>The composition, without copies and text\<close>

definition spec_for :: "doc \<Rightarrow> (string \<Rightarrow> json) \<Rightarrow> variant \<Rightarrow> doc" where
  "spec_for spec params v =
     (if vParamsFile v = [] then spec
      else let p = (case params (vParamsFile v) of JObj m \<Rightarrow> JObj (map_delete ''$schema'' m) | x \<Rightarrow> x);
               props = (case map_of spec ''properties'' of Some (JObj m) \<Rightarrow> m | _ \<Rightarrow> [])
           in map_set ''properties'' (JObj (map_set ''parameters'' p props)) spec)"

definition variant_file :: "doc \<Rightarrow> doc \<Rightarrow> (string \<Rightarrow> json) \<Rightarrow> variant \<Rightarrow> string \<times> doc" where
  "variant_file spec status params v =
     (''schema/'' @ variant_name v @ ''.schema.json'',
      wrap (variant_name v) (variant_title v) (vDesc v) ''Buckety'' (spec_for spec params v) status)"

definition access_file :: "doc \<Rightarrow> doc \<Rightarrow> string \<times> doc" where
  "access_file spec status =
     (''schema/bucketyaccess.schema.json'', wrap ''bucketyaccess'' ''BucketyAccess'' access_desc ''BucketyAccess'' spec status)"

lemma with_parameters_spec:
  "\<lbrakk>doc_at spec ''properties'' = Inr props; vParamsFile v \<noteq> []\<rbrakk> \<Longrightarrow>
   with_parameters spec (params (vParamsFile v)) = Inr (spec_for spec params v)"
  by (auto simp: with_parameters_def spec_for_def doc_at_def Let_def split: option.splits json.splits)

lemma fits_delete: "fits d (JObj m) \<Longrightarrow> fits d (JObj (map_delete k m))"
  by (cases d) (auto simp: map_delete_def list_all_iff)

lemma spec_for_fits:
  assumes "fits (Suc (Suc d)) (JObj spec)" and "vParamsFile v \<noteq> [] \<longrightarrow> fits d (params (vParamsFile v))"
  shows "fits (Suc (Suc d)) (JObj (spec_for spec params v))"
proof (cases "vParamsFile v = []")
  case False
  let ?p = "case params (vParamsFile v) of JObj m \<Rightarrow> JObj (map_delete ''$schema'' m) | x \<Rightarrow> x"
  let ?props = "case map_of spec ''properties'' of Some (JObj m) \<Rightarrow> m | _ \<Rightarrow> []"
  have "fits d ?p"
    using assms(2) False fits_delete [of d] by (auto split: json.splits)
  moreover have "fits (Suc d) (JObj ?props)"
  proof (cases "doc_at spec ''properties''")
    case (Inr m)
    with variant_doc_at [OF Inr assms(1)] show ?thesis by (auto simp: doc_at_def split: option.splits json.splits)
  qed (auto simp: doc_at_def split: option.splits json.splits)
  ultimately have "fits (Suc d) (JObj (map_set ''parameters'' ?p ?props))"
    by (intro fits_map_set) (simp_all add: ascii_simps byte_def)
  from fits_map_set [OF assms(1) _ this, of "''properties''"] show ?thesis
    unfolding spec_for_def Let_def if_not_P [OF False] by (simp add: ascii_simps byte_def)
qed (use assms in \<open>simp add: spec_for_def\<close>)

lemma succeeds_write_variant:
  assumes "serves os content"
    and spec: "go_value ff (JObj spec)" "fits 9000 (JObj spec)" and status: "go_value ff (JObj status)" "fits 9000 (JObj status)"
    and props: "doc_at spec ''properties'' = Inr props" and v: "v \<in> set variants"
    and params: "vParamsFile v \<noteq> [] \<longrightarrow>
      Option.bind (json_Unmarshal (content (vParamsFile v))) (decode_doc ff) = Some (params (vParamsFile v)) \<and> fits 9000 (params (vParamsFile v))"
  shows "succeeds (write_variant ff os spec status v) ()
      [(fst (variant_file spec status params v), printed (snd (variant_file spec status params v)))]
    \<and> fits maxNestingDepth (JObj (snd (variant_file spec status params v)))"
proof -
  have n: "maxNestingDepth = Suc (Suc (Suc (Suc (Suc (Suc 9994)))))" by (simp add: maxNestingDepth_def)
  have copy: "deepCopy ff spec = Inr spec" "deepCopy ff status = Inr status"
    by (rule deepCopy_id; use spec status in \<open>auto simp: maxNestingDepth_def elim: fits_mono\<close>)+
  have "ascii (variant_name v)" "ascii (variant_title v)" "ascii (vDesc v)" using v variants_ascii(1) by (auto simp: list_all_iff)
  moreover have "fits (Suc (Suc 9000)) (JObj (spec_for spec params v))"
    by (rule spec_for_fits [OF fits_mono [OF spec(2)]]) (use params in simp_all)
  then have "fits (Suc (Suc (Suc (Suc 9994)))) (JObj (spec_for spec params v))" by (rule fits_mono) simp
  moreover have "fits (Suc (Suc (Suc (Suc 9994)))) (JObj status)" using status(2) by (rule fits_mono) simp
  ultimately have w: "fits maxNestingDepth (JObj (snd (variant_file spec status params v)))"
    unfolding n variant_file_def snd_conv by (intro wrap_fits) (simp_all add: ascii_simps byte_def)
  have "succeeds (if vParamsFile v \<noteq> [] then or_panic (loadJSON ff os (vParamsFile v)) (\<lambda>params. ret (with_parameters spec params)) else ret (Inr spec))
      (spec_for spec params v) ([] @ [])"
  proof (cases "vParamsFile v = []")
    case False
    have "succeeds (or_panic (loadJSON ff os (vParamsFile v)) (\<lambda>params. ret (with_parameters spec params))) (spec_for spec params v) ([] @ [])"
      by (rule succeeds_then [OF succeeds_loadJSON [OF assms(1)] succeeds_ret [OF with_parameters_spec [OF props False]]])
         (use params False in simp)
    with False show ?thesis by simp
  qed (simp add: succeeds_ret spec_for_def)
  note load = this
  have "succeeds (write_variant ff os spec status v) ()
      ([] @ ([] @ []) @ [] @ [(fst (variant_file spec status params v), printed (snd (variant_file spec status params v)))])"
    unfolding write_variant_def
    by (rule succeeds_then [OF succeeds_ret [OF copy(1)]], rule succeeds_then [OF load], rule succeeds_then [OF succeeds_ret [OF copy(2)]])
       (use succeeds_write_doc [OF assms(1) w] in \<open>simp add: variant_file_def\<close>)
  with w show ?thesis by simp
qed

lemma succeeds_write_variants:
  assumes "\<And>v. v \<in> set vs \<Longrightarrow> succeeds (write_variant ff os spec status v) () [f v]"
  shows "succeeds (write_variants ff os spec status vs) () (map f vs)"
  using assms
proof (induction vs)
  case (Cons v vs)
  then have "succeeds (write_variants ff os spec status (v # vs)) () ([f v] @ map f vs)"
    unfolding write_variants.simps by (intro succeeds_then) auto
  then show ?case by simp
qed (simp add: succeeds_ret)

lemma succeeds_crdSchema:
  assumes "serves os content" and "yamlToJSON (content p) = Inr y" and "decode_doc ff y = Some c" and "crd_parts c = Inr x"
  shows "succeeds (crdSchema ff yamlToJSON os p) x []"
  using succeeds_then [OF succeeds_read_file [OF assms(1), of p] succeeds_ret, of
      "\<lambda>raw. sum_bind (map_sum MustFailed id (yamlToJSON raw)) (\<lambda>v. sum_bind (must_decode (decode_doc ff v)) crd_parts)" x] assms(2-4)
  unfolding crdSchema_def by (simp add: sum_bind_def must_decode_def)

lemma decode_doc_go_value: "\<lbrakk>decode_doc ff y = Some c; float_text ff\<rbrakk> \<Longrightarrow> go_value ff c"
  using interface_of_go_value(1) [of ff y c]
  by (auto simp: decode_doc_def simp del: interface_of.simps(6) go_value.simps(3) split: json.splits)

text \<open>
  What the generator needs of a manifest: it is YAML with the parts it looks up, in ASCII, and far
  from \<open>encoding/json\<close>'s limit of 10000 levels of nesting.
\<close>

definition manifest :: "(string \<Rightarrow> string option) \<Rightarrow> (string \<Rightarrow> goerr + json) \<Rightarrow> string \<Rightarrow> doc \<times> doc \<Rightarrow> bool" where
  "manifest ff yamlToJSON raw parts \<longleftrightarrow>
     (\<exists>y c. yamlToJSON raw = Inr y \<and> decode_doc ff y = Some (JObj c) \<and> crd_parts (JObj c) = Inr parts \<and> fits 9000 (JObj c))"

lemma manifest_parts:
  assumes "manifest ff yamlToJSON raw (spec, status)" and "float_text ff"
  shows "go_value ff (JObj spec) \<and> fits 9000 (JObj spec)" "go_value ff (JObj status) \<and> fits 9000 (JObj status)"
    "clean (JObj spec) \<and> clean (JObj status)"
  using assms decoded.crd_parts [of _ spec status ff] fitting.crd_parts [of _ spec status 9000] decode_doc_go_value crd_parts_clean
  unfolding manifest_def by metis+

lemma manifest_succeeds:
  "\<lbrakk>serves os content; manifest ff yamlToJSON (content p) x\<rbrakk> \<Longrightarrow> succeeds (crdSchema ff yamlToJSON os p) x []"
  unfolding manifest_def by (auto intro: succeeds_crdSchema)



section \<open>Properties\<close>

text \<open>
  C35. The generated schemas are the composition. In a checkout whose two CRD manifests have the parts
  the generator looks up and whose parameter schemas decode (all in ASCII and not nested beyond
  9000 levels), a run ends without a panic and writes seven files, in order: one per variant and the
  one of BucketyAccess. Each file, read back by a JSON decoder, is the document made of the CRD's
  spec and status, with the variant's own parameter schema, less its \<open>$schema\<close> key, in place of
  \<open>spec.parameters\<close>: no variant sees another's parameters, and no text is changed by the printing
  and the deep copies in between. No key \<open>x-kubernetes-*\<close> is left of the CRDs.
\<close>

theorem generated_schemas:
  assumes "float_text ff" and "serves os content"
    and "manifest ff yamlToJSON (content ''deploy/kustomize/crd/buckety.yaml'') (spec, status)"
    and "manifest ff yamlToJSON (content ''deploy/kustomize/crd/bucketyaccess.yaml'') (aspec, astatus)"
    and "doc_at spec ''properties'' = Inr props"
    and "\<forall>v \<in> set variants. vParamsFile v \<noteq> [] \<longrightarrow>
      Option.bind (json_Unmarshal (content (vParamsFile v))) (decode_doc ff) = Some (params (vParamsFile v)) \<and> fits 9000 (params (vParamsFile v))"
  shows "pass_out (gen_main ff yamlToJSON os) s = Inr () \<and>
    map (\<lambda>(p, t). (p, json_Unmarshal t)) (writes (pass_log (gen_main ff yamlToJSON os) s)) =
      map (\<lambda>(p, d). (p, Some (JObj d))) (map (variant_file spec status params) variants @ [access_file aspec astatus]) \<and>
    list_all (\<lambda>d. clean (JObj d)) [spec, status, aspec, astatus]"
proof -
  let ?p = "\<lambda>f. (fst f, printed (snd f))"
  note m = manifest_parts [OF assms(3,1)] manifest_parts [OF assms(4,1)]
  have vs: "succeeds (write_variant ff os spec status v) () [?p (variant_file spec status params v)] \<and>
      fits maxNestingDepth (JObj (snd (variant_file spec status params v)))" if "v \<in> set variants" for v
    by (rule succeeds_write_variant [OF assms(2) _ _ _ _ assms(5) that]) (use m assms(6) that in auto)
  have mk: "succeeds (do { e \<leftarrow> call (osMkdirAll os d) (DirMade d); ret (must e) }) () []" for d
    unfolding succeeds_def by (intro pass_rules) (use assms(2) in \<open>auto simp: serves_def must_def\<close>)
  have n: "maxNestingDepth = Suc (Suc (Suc (Suc (Suc (Suc 9994)))))" by (simp add: maxNestingDepth_def)
  have "fits (Suc (Suc (Suc (Suc 9994)))) (JObj aspec)" "fits (Suc (Suc (Suc (Suc 9994)))) (JObj astatus)"
    using m(4,5) by (auto elim!: fits_mono [of 9000])
  then have a: "fits maxNestingDepth (JObj (snd (access_file aspec astatus)))"
    unfolding n access_file_def snd_conv by (rule wrap_fits) (use variants_ascii(2) in \<open>simp_all add: ascii_simps byte_def\<close>)
  have copy: "deepCopy ff aspec = Inr aspec" "deepCopy ff astatus = Inr astatus"
    by (rule deepCopy_id; use m(4,5) in \<open>auto simp: maxNestingDepth_def elim: fits_mono\<close>)+
  have "succeeds (gen_main ff yamlToJSON os) ()
      ([] @ [] @ [] @ map (\<lambda>v. ?p (variant_file spec status params v)) variants @ [] @ [] @ [?p (access_file aspec astatus)])"
    unfolding gen_main_def
    by (rule succeeds_then [OF manifest_succeeds [OF assms(2,3)]], simp only: prod.case,
        rule succeeds_then [OF manifest_succeeds [OF assms(2,4)]], simp only: prod.case, rule succeeds_then [OF mk],
        rule succeeds_then [OF succeeds_write_variants], rule vs [THEN conjunct1], assumption,
        rule succeeds_then [OF succeeds_ret [OF copy(1)]], rule succeeds_then [OF succeeds_ret [OF copy(2)]])
       (use succeeds_write_doc [OF assms(2) a] in \<open>simp add: access_file_def\<close>)
  then have "pass (memory s) (gen_main ff yamlToJSON os) (\<lambda>r l _. r = Inr () \<and>
      writes l = map ?p (map (variant_file spec status params) variants @ [access_file aspec astatus]))"
    by (simp add: succeeds_def comp_def)
  from passD [OF this] a vs [THEN conjunct2] m(3,6) show ?thesis
    by (auto simp: printed_reads_back case_prod_unfold)
qed

text \<open>A checkout with one small CRD for both kinds and one parameter schema; JSON text is YAML.\<close>

definition small_float :: "string \<Rightarrow> string option" where
  "small_float s = (if num_text s \<and> list_all is_digit s \<and> length s \<le> 15 then Some s else None)"

definition demo_crd :: json where
  "demo_crd = JMap [(''spec'', JMap [(''versions'', JArr [JMap [(''schema'', JMap [(''openAPIV3Schema'', JMap [(''properties'', JMap
     [(''spec'', JMap [(''properties'', JMap [(''name'', JMap [(''maxLength'', JNum ''63'')])]), (''x-kubernetes-validations'', JArr [])]),
      (''status'', JMap [(''type'', JStr ''object'')])])])])]])])]"

definition demo_params :: json where
  "demo_params = JMap [(''$schema'', JStr ''draft-07''), (''type'', JStr ''object'')]"

definition demo_content :: "string \<Rightarrow> string" where
  "demo_content p = json_Marshal (if HasPrefix p ''deploy/'' then demo_crd else demo_params)"

definition demo_yaml :: "string \<Rightarrow> goerr + json" where
  "demo_yaml raw = (case json_Unmarshal raw of Some v \<Rightarrow> Inr v | None \<Rightarrow> Inl json_error)"

definition demo_os :: "unit gen_os" where
  "demo_os = \<lparr>osReadFile = (\<lambda>p w. (Inr (demo_content p), w)), osMkdirAll = (\<lambda>p w. (None, w)), osWriteFile = (\<lambda>p t w. (None, w))\<rparr>"

definition demo_spec :: doc where
  "demo_spec = [(''properties'', JObj [(''name'', JObj [(''maxLength'', JNum ''63'')])])]"

definition demo_status :: doc where
  "demo_status = [(''type'', JStr ''object'')]"

lemma demo_documents:
  "fits 20 demo_crd" "go_value small_float demo_crd" "fits 20 demo_params" "go_value small_float demo_params"
  "crd_parts demo_crd = Inr (demo_spec, demo_status)"
  by code_simp+

lemma demo_texts: "json_Unmarshal (json_Marshal demo_crd) = Some demo_crd" "json_Unmarshal (json_Marshal demo_params) = Some demo_params"
  using fitsD [OF demo_documents(1)] fitsD [OF demo_documents(3)] by (auto intro!: Unmarshal_Marshal simp: maxNestingDepth_def)

lemma small_floats: "float_text small_float"
  by (auto simp: float_text_def small_float_def split: if_splits)

lemma demo_parameters:
  "v \<in> set variants \<Longrightarrow> Option.bind (json_Unmarshal (demo_content (vParamsFile v))) (decode_doc small_float) = Some demo_params \<and> fits 9000 demo_params"
proof -
  assume v: "v \<in> set variants"
  have "list_all (\<lambda>v. \<not> HasPrefix (vParamsFile v) ''deploy/'') variants" by code_simp
  with v have "demo_content (vParamsFile v) = json_Marshal demo_params" by (auto simp: demo_content_def list_all_iff)
  moreover have "decode_doc small_float demo_params = Some demo_params"
    using interface_of_id [OF demo_documents(4)] by (simp add: decode_doc_def split: json.split) (simp add: demo_params_def)
  ultimately show ?thesis using demo_texts(2) fits_mono [OF demo_documents(3), of 9000] by simp
qed

lemma variant_paths:
  "map (\<lambda>v. ''schema/'' @ variant_name v @ ''.schema.json'') variants = map (\<lambda>n. ''schema/'' @ n @ ''.schema.json'')
     [''buckety'', ''buckety-blobstore'', ''buckety-gcs'', ''buckety-s3'', ''buckety-kadm'', ''buckety-mysql'']"
  by (simp add: variants_def variant_name_def)

lemma demo_manifest: "HasPrefix p ''deploy/'' \<Longrightarrow> manifest small_float demo_yaml (demo_content p) (demo_spec, demo_status)"
  using demo_documents interface_of_id [OF demo_documents(2)] fits_mono [OF demo_documents(1), of 9000] demo_texts(1)
  unfolding manifest_def demo_content_def demo_yaml_def
  by (intro exI [of _ demo_crd] exI [of _ "entries demo_crd"]) (simp add: decode_doc_def entries_def split: json.split, simp add: demo_crd_def)

theorem generated_schemas_witness:
  "let p = gen_main small_float demo_yaml demo_os; s = \<lparr>world = (), trace = [], memory = ()\<rparr> in
   pass_out p s = Inr () \<and>
   map fst (writes (pass_log p s)) = map (\<lambda>n. ''schema/'' @ n @ ''.schema.json'')
     [''buckety'', ''buckety-blobstore'', ''buckety-gcs'', ''buckety-s3'', ''buckety-kadm'', ''buckety-mysql'', ''bucketyaccess'']"
proof -
  let ?p = "gen_main small_float demo_yaml demo_os" and ?s = "\<lparr>world = (), trace = [], memory = ()\<rparr>"
  have props: "doc_at demo_spec ''properties'' = Inr [(''name'', JObj [(''maxLength'', JNum ''63'')])]" by (simp add: doc_at_def demo_spec_def)
  have g: "pass_out ?p ?s = Inr () \<and>
    map (\<lambda>(p, t). (p, json_Unmarshal t)) (writes (pass_log ?p ?s)) =
      map (\<lambda>(p, d). (p, Some (JObj d))) (map (variant_file demo_spec demo_status (\<lambda>_. demo_params)) variants @ [access_file demo_spec demo_status]) \<and>
    list_all (\<lambda>d. clean (JObj d)) [demo_spec, demo_status, demo_spec, demo_status]"
    by (rule generated_schemas [OF small_floats _ demo_manifest demo_manifest props])
       (use demo_parameters in \<open>auto simp: serves_def demo_os_def HasPrefix_def\<close>)
  from arg_cong [OF g [THEN conjunct2, THEN conjunct1], of "map fst"]
  have "map fst (writes (pass_log ?p ?s)) =
      map (\<lambda>v. ''schema/'' @ variant_name v @ ''.schema.json'') variants @ [''schema/bucketyaccess.schema.json'']"
    by (simp add: comp_def case_prod_unfold variant_file_def access_file_def)
  with g variant_paths show ?thesis by (simp add: Let_def)
qed

end
