(* ===== verification/Spec2Isabelle.thy ===== *)
theory Spec2Isabelle
  imports Controller_Runs Teardown_Progress Access_Progress Admission_Webhook Mysql_Grants Schema_Generator
begin

text \<open>
  \<^bold>\<open>The program.\<close> The buckety controller is a Kubernetes operator written in Go. Its users declare
  \<open>Buckety\<close> resources (a bucket, a topic or a database on a configured backend) and
  \<open>BucketyAccess\<close> resources (a credential to a Buckety, delivered as a Secret). The program has
  these parts, by directory under \<open>src/\<close>:

  \<^item> \<open>pkg/controller/buckety\<close>: the reconciler of Buckety. One pass reads the object, resolves the
    backend, stamps the sticky status fields after the adoption gate, calls the driver's
    \<open>EnsureBuckety\<close>, keeps the implicit access of \<open>spec.defaultAccess\<close>, and on deletion waits for
    accesses, calls \<open>DeleteBuckety\<close> where the retention policy asks for it and releases the finalizer.
  \<^item> \<open>pkg/controller/bucketyaccess\<close>: the reconciler of BucketyAccess. One pass reads the access and
    its Buckety, passes the Secret gate, calls \<open>GrantAccess\<close>, writes the Secret, revokes a replaced
    principal and records the new one; on deletion it revokes and releases the finalizer.
  \<^item> \<open>pkg/controller/status\<close>, \<open>pkg/controller/cadence\<close>: condition bookkeeping and requeue delays both
    reconcilers share.
  \<^item> \<open>pkg/config\<close>, \<open>pkg/template\<close>, \<open>pkg/drivers/registry\<close>: the backend configuration, the template
    language of names and parameters, and the \<open>Driver\<close> interface with the registry of factories.
  \<^item> \<open>pkg/webhook\<close>: admission, which applies the same resolution and the drivers' validation before
    an object is stored.
  \<^item> \<open>pkg/drivers/kadm\<close>, \<open>mysql\<close>, \<open>s3\<close>, \<open>gcs\<close>, \<open>objectstore\<close>: the drivers.
  \<^item> \<open>cmd/buckety\<close>: flags, wiring and start-up.
  \<^item> \<open>scripts/gen-cr-schemas\<close>: a build-time program that composes the editor schemas of the resources.

  \<^bold>\<open>The model.\<close> A pass, a driver call or a handler is a function. What reaches outside (API server,
  clock, random source, backend clients) is a function of an arbitrary outside world, a type
  parameter, which may answer anything and change at every call: theorems about all runs
  therefore cover every interleaving with other actors and every failure. The pass monad
  (\<open>Go_Prelude\<close>) threads the world, the component's memory and the trace of the calls made, each
  with its answer. Errors are values (\<open>goerr\<close>) with their \<open>%w\<close> chain. Two calculi carry the proofs:
  \<open>pass\<close> (all runs from a memory satisfy a postcondition) and \<open>keeps\<close> (every call of the trace
  is one the contract allows after the calls before it).

  \<^item> \<open>Go_Prelude\<close>: Go's strings, maps, integers and errors; the monad and the calculi.
  \<^item> \<open>Api_Types\<close>: \<open>types.go\<close> as records; the API machinery's helpers (finalizers, conditions, owner
    references, semantic equality) as the record \<open>kube\<close> with its documented laws in the locale
    \<open>kube_api\<close>, interpreted on a concrete implementation.
  \<^item> \<open>Condition_Status\<close>, \<open>Cadence\<close>: \<open>status.go\<close>; \<open>cadence.go\<close>, \<open>startup.go\<close>, \<open>deletebackoff.go\<close>.
    Theorems: a condition flipped and flipped back is no change; the delays of re-checks,
    start-up spread and teardown backoff.
  \<^item> \<open>Naming_Template\<close>, \<open>Driver_Registry\<close>, \<open>Backend_Config\<close>: \<open>template.go\<close>, \<open>registry.go\<close>, \<open>config.go\<close>.
    Theorems: the template walk against a denotation of segments, the escape round trip, the
    parameter view, what a successful start guarantees. The locale \<open>driver_validation\<close> is the
    contract of a driver's validation methods; each driver theory interprets it.
  \<^item> \<open>Controller_Env\<close>: what both reconcilers reach (client, live reader, configuration, recorder,
    clock) and the events of their traces.
  \<^item> \<open>Buckety_Controller\<close>: \<open>buckety/reconciler.go\<close> and \<open>metrics.go\<close>, one definition per stage of the
    pass. \<open>Buckety_Safety\<close>: one contract (\<open>bky_rule\<close>) kept by every run, from which the guards of
    deletion, finalizer release, adoption, ensuring, sticky fields and Ready follow.
    \<open>Buckety_Progress\<close>: with a cooperating outside world a first pass ends Ready with the default
    access dealt with, and a pass over a settled object writes nothing, Events included.
  \<^item> \<open>Access_Controller\<close>, \<open>Access_Safety\<close>, \<open>Access_Progress\<close>: the same for \<open>bucketyaccess/reconciler.go\<close>: no
    minted credential is lost, the grant and Secret gates, the handover of principals, the
    finalizer; and with a cooperating outside world a pass delivers the Secret and reports Ready.
  \<^item> \<open>Admission_Webhook\<close>: \<open>webhook.go\<close>.
  \<^item> \<open>Kadm_Effective\<close>, \<open>Kadm_Driver\<close>, \<open>Kadm_Safety\<close>: \<open>effective.go\<close> and \<open>metrics.go\<close>; \<open>driver.go\<close> and
    \<open>config.go\<close> over a record of the broker's calls; what the driver promises for every broker.
  \<^item> \<open>Go_Crypto\<close>, \<open>Go_Net\<close>, \<open>Go_Time\<close>, \<open>Go_Json\<close>: what the drivers use of Go's library: SHA-256, base32,
    base64 and hex; IP addresses, host and port, URLs; \<open>time.ParseDuration\<close> and RFC 3339 times; the
    JSON syntax with decoding into Go values and encoding of strings.
  \<^item> \<open>Mysql_Names\<close>, \<open>Mysql_Server\<close>, \<open>Mysql_Config\<close>, \<open>Mysql_Driver\<close>: \<open>names.go\<close>; \<open>password.go\<close>,
    \<open>statements.go\<close>, \<open>verified.go\<close>, \<open>breaker.go\<close>, \<open>conn.go\<close>; \<open>config.go\<close>; \<open>driver.go\<close>, over a record of
    what \<open>database/sql\<close> answers. Theorems: account names do not collide short of a hash
    collision, quoting is exact, error texts never carry the password, the breaker spaces
    attempts. \<open>Mysql_Safety\<close>: the prefix boundary over any sequence of calls, the user of a failed
    grant, the origin of remembered checks (the locale \<open>conn_invariant\<close>, interpreted for the
    memory and for the breaker), password generation. \<open>Mysql_Grants\<close>: an abstract view of the
    privileges an account holds, and that a grant ends with the role's.
  \<^item> \<open>Object_Lifecycle\<close>, \<open>S3_Driver\<close>, \<open>S3_Safety\<close>: \<open>objectstore/lifecycle.go\<close> and \<open>s3/driver.go\<close> over a
    record of the S3 client's calls. Theorems: inspection on evidence, writes only on an
    observed difference, teardown ends, lifecycle comparison is multiset equality; and two
    departures of the code from its comments.
  \<^item> \<open>Gcs_Params\<close>, \<open>Gcs_Driver\<close>, \<open>Gcs_Safety\<close>: \<open>gcs/driver.go\<close> and \<open>serviceaccount.go\<close> over records of the
    storage and IAM clients' calls. Theorems: the ownership boundary of service accounts and the
    marker it rests on, keys replaced on evidence only, when drift is repaired and when it cannot
    be (the service is a parameter with its documented behaviour), teardown in order and to an
    end, the Secret entry by entry; and an update that never settles.
  \<^item> \<open>Shipped_Drivers\<close>: the four drivers in one registry, each on its part of the world; every
    driver it builds keeps the validation contract.
  \<^item> \<open>Program_Entry\<close>: \<open>cmd/buckety/main.go\<close>: flags, manager options, the start-up sequence with its exit
    codes. Theorem: every run is a stop at its first failing step with its code, or a fully wired manager.
  \<^item> \<open>Backend_Watch\<close>, \<open>Driver_Journals\<close>, \<open>Running_System\<close>: the reconcilers on the shipped drivers. A driver's
    trace is its journal of what it did to the service. The locale \<open>tracked_outside\<close> says what calls
    of the API server leave alone, \<open>watched_journal\<close> adds what a driver promises of its journal, and
    is interpreted for each of the four drivers in a controller wired to any backends (\<open>wired\<close>;
    every loaded configuration is one of these): whatever a pass destroys on a backend was
    licensed by the object it read. \<open>Controller_Runs\<close>: the process as a step relation (passes of both
    reconcilers, changes by others, restarts with another configuration). Theorem, by rule induction:
    whatever is destroyed in any run was licensed by a pass of that run; the memory that paces
    teardowns keeps its bounds.
  \<^item> \<open>Teardown_Progress\<close>: the reconciler's passes on the gcs and s3 drivers over a bucket nobody else
    writes to, and with an IAM service that lets the account go, until the finalizer is released.
  \<^item> \<open>Json_Documents\<close>: \<open>encoding/json\<close> on untyped documents: decoding, \<open>Marshal\<close>, \<open>MarshalIndent\<close>, and that what
    was printed reads back (the service account marker rests on it). \<open>Schema_Generator\<close>: \<open>gen-cr-schemas/main.go\<close>, over a record of the file
    operations. Theorem: every file it writes reads back as the composition of the stripped CRD
    schemas and the variant's own parameter schema. The locale \<open>hereditary\<close> carries a property of a
    document to its parts; it is interpreted for well-formedness and for the printable documents.
  \<^item> \<open>Demo_World\<close>: a closed world on which the hypotheses of the theorems are shown to hold together.
  \<^item> This theory: what spans components. What admission allows, the reconciler accepts, for every
    configuration loaded with drivers that keep the contract; and a difference between the two
    reconcilers, on the shipped drivers, on a backend that was re-pointed at another driver.

  \<^bold>\<open>Bounds.\<close> All functions are total; the template walk recurses on the rest of the string with
  a length measure, the parser of durations likewise. Fuel appears twice: the endless loop of
  password generation takes a number of rounds (\<open>mRounds\<close>) and answers \<open>None\<close> while it has not
  returned; a theorem says exactly when it returns and that more rounds change nothing. The JSON
  parser takes twice the length of its input, and \<open>parse_fuel\<close> shows that more changes nothing.
  \<open>int32\<close> and \<open>int16\<close> values are integers with the conversion written out (\<open>to_int\<close>), \<open>uint64\<close>
  sums of durations are reduced modulo \<open>2 ^ 64\<close>; durations are integers of nanoseconds.

  \<^bold>\<open>Not modelled.\<close> Log lines, context cancellation and timeouts other than as failing calls,
  watch registration (\<open>SetupWithManager\<close>), YAML decoding (a third-party package, a parameter of the
  model), rendering of messages (kept as format and arguments), and the generated deep copies with
  the scheme registration (\<open>zz_generated_deepcopy.go\<close>, \<open>groupversion.go\<close>): values of the model are not
  shared, so a copy is the value. In \<open>shipped_world\<close> all backends of one driver kind share that kind's
  part, one memory and one journal, where the program has one of each per backend: what is said of a
  journal is said of all of them together. One pass at a time is modelled: controller-runtime never runs two
  passes for one key concurrently, and what other actors do in between, the other reconciler among
  them, is the arbitrary outside world. The API server answers arbitrarily; that it stores what it
  accepted is not assumed, so nothing is claimed of an object across several passes beyond what
  each pass read.
\<close>

section \<open>Loaded configurations\<close>

lemma load_backends_origin:
  assumes "load_backends reg unmarshal i bs out = Inr l" and "Lookup l n = Some be"
  shows "Lookup out n = Some be \<or> (\<exists>b j. load_backend reg unmarshal j b = Inr be)"
  using assms
proof (induction reg unmarshal i bs out rule: load_backends.induct)
  case (2 reg unmarshal i b bs out)
  then show ?case by (auto simp: Lookup_def update_conv' split: sum.splits if_splits)
qed simp

lemma loaded_driver_ok:
  assumes "contract_registry reg" and "Load reg unmarshal src = Inr cfg" and "Lookup cfg n = Some be"
  shows "driver_ok (beDriver be)"
proof -
  from assms(2) obtain bs where "load_backends reg unmarshal 0 bs [] = Inr cfg"
    by (auto simp: Load_def split: sum.splits option.splits)
  from load_backends_origin [OF this assms(3)] obtain b j where "load_backend reg unmarshal j b = Inr be"
    by (auto simp: Lookup_def)
  then show ?thesis
    by (rule load_backend_Inr) (use assms(1) in \<open>auto simp: contract_registry_def\<close>)
qed


section \<open>Admission and reconciliation\<close>

text \<open>
  C25. What is admitted, the reconciler accepts. In a controller whose configuration was loaded
  with drivers that keep the validation contract, when \<open>Handle\<close> allows a Buckety to be created
  or updated and its backend is configured, the merged and resolved parameter view the
  reconciler will use exists and passes the driver's own validation; on an object that is
  not stamped yet the name template resolves to a name the driver accepts; and a
  defaultAccess names its Secret. A create is allowed only when the backend is configured.
\<close>

theorem admitted_is_reconcilable:
  assumes "contract_registry reg" and "Load reg unmarshal src = Inr cfg"
    and "rqKind req = ''Buckety''" and "rqOperation req = Create \<or> rqOperation req = Update"
    and "rqBuckety req = Inr bky" and "is_allowed (Handle cfg req)"
  shows "(rqOperation req = Create \<longrightarrow> Lookup cfg (bsBackend (bSpec bky)) \<noteq> None) \<and>
    (\<forall>be. Lookup cfg (bsBackend (bSpec bky)) = Some be \<longrightarrow>
       (\<exists>ps. ResolvedParameters be (Name (bMeta bky)) (Namespace (bMeta bky)) (bsParameters (bSpec bky)) = Inr ps \<and>
          dValidateParameters (beDriver be) ps = None) \<and>
       (stBackendResourceName (bStatus bky) = [] \<longrightarrow>
          (\<exists>n. ResolveName be (bsName (bSpec bky)) (Name (bMeta bky)) (Namespace (bMeta bky)) (Labels (bMeta bky)) = Inr n \<and>
             dValidateResourceName (beDriver be) n = None)) \<and>
       (\<forall>da. bsDefaultAccess (bSpec bky) = Some da \<longrightarrow> daCredentialsSecretName da \<noteq> []))"
  by (rule allowed_reconcilable [OF assms(3-6)]) (blast intro: loaded_driver_ok [OF assms(1,2)])

text \<open>A controller with the kadm driver alone and one backend, \<open>objs\<close>.\<close>

definition demo_factory :: "(unit, int) kworld Factory" where
  "demo_factory = kadm_factory (\<lambda>_. Inr \<lparr>kcSeedBrokers = [''k:9092''], kcClientID = []\<rparr>) Inr
     (\<lambda>_ _. Inr demo_broker) (\<lambda>_. None)"

definition demo_registry :: "(unit, int) kworld registry" where
  "demo_registry = \<lparr>factories = [(''kadm'', demo_factory)], versions = [(''kadm'', ''0.1.0'')]\<rparr>"

definition demo_loaded :: "(unit, int) kworld Loaded" where
  "demo_loaded = (case Load demo_registry (\<lambda>_. Inr []) (Inr [\<lparr>rbName = ''objs'', rbDriver = ''kadm'', rbConfig = [], rbDefaults = [], rbParameters = []\<rparr>])
     of Inr l \<Rightarrow> l | Inl _ \<Rightarrow> [])"

definition demo_admission :: "operation \<Rightarrow> Buckety \<Rightarrow> request" where
  "demo_admission oper bky =
     \<lparr>rqKind = ''Buckety'', rqOperation = oper, rqBuckety = Inr bky,
      rqOldBuckety = (if oper = Update then Some (Inr bky) else None), rqAccess = Inl not_found\<rparr>"

lemma demo_registry_contract: "contract_registry demo_registry"
proof -
  have "factory_ok demo_factory" unfolding demo_factory_def by (rule shipped_factories_ok)
  then show ?thesis
    by (auto simp: contract_registry_def factory_ok_def Lookup_factory_def demo_registry_def split: if_splits)
qed

lemma demo_loads:
  "Load demo_registry (\<lambda>_. Inr []) (Inr [\<lparr>rbName = ''objs'', rbDriver = ''kadm'', rbConfig = [], rbDefaults = [], rbParameters = []\<rparr>]) = Inr demo_loaded"
  "\<exists>d. demo_loaded = [(''objs'', \<lparr>beName = ''objs'', beDriver = d, beDefaults = [], beParameters = []\<rparr>)] \<and>
     dValidateParameters d = kadm_ValidateParameters \<and> dValidateUpdateParameters d = kadm_ValidateUpdateParameters \<and>
     dValidateResourceName d = kadm_ValidateResourceName \<and> dTemplatedParameters d = None"
  by (simp_all add: demo_loaded_def Load_def validateOuter_def load_backend_def Lookup_factory_def demo_registry_def
      demo_factory_def kadm_factory_def kadm_decodeConfig_def TemplatedParameters_def kadm_driver_def kadm_ValidateParameters_def)

theorem admitted_is_reconcilable_witness:
  "\<exists>be n. Lookup demo_loaded ''objs'' = Some be \<and>
     ResolveName be [] ''b'' ''ns'' [] = Inr n \<and> dValidateResourceName (beDriver be) n = None"
proof -
  let ?b = "demo_buckety None RetentionDelete [] []"
  have name: "kadm_ValidateResourceName ''b'' = None" by code_simp
  from demo_loads(2) obtain d where
    d: "demo_loaded = [(''objs'', \<lparr>beName = ''objs'', beDriver = d, beDefaults = [], beParameters = []\<rparr>)]"
      "dValidateParameters d = kadm_ValidateParameters" "dTemplatedParameters d = None"
      "dValidateResourceName d = kadm_ValidateResourceName" by blast
  have ok: "is_allowed (Handle demo_loaded (demo_admission Create ?b))"
    by (simp add: d name Handle_def demo_admission_def validateBuckety_def check_name_def check_parameters_def check_default_access_def
        Lookup_def demo_buckety_def demo_meta_def ResolveName_def ResolvedParameters_def EffectiveParameters_def
        TemplatedParameters_def kadm_ValidateParameters_def)
  have "rqKind (demo_admission Create ?b) = ''Buckety''" "rqOperation (demo_admission Create ?b) = Create \<or> rqOperation (demo_admission Create ?b) = Update"
    "rqBuckety (demo_admission Create ?b) = Inr ?b"
    by (simp_all add: demo_admission_def)
  from admitted_is_reconcilable [OF demo_registry_contract demo_loads(1) this ok]
  show ?thesis by (auto simp: demo_admission_def demo_buckety_def demo_meta_def)
qed

text \<open>
  Admission never wedges a provisioned object. An update of a stamped Buckety that leaves
  its name, namespace and spec alone is allowed whatever happened to its labels and other
  metadata and to its status, with no warning, as long as its stored parameters still resolve
  and validate and a defaultAccess names its Secret; when the backend has left the
  configuration, every update is allowed.
\<close>

theorem stamped_metadata_update_allowed:
  assumes "contract_registry reg" and "Load reg unmarshal src = Inr cfg"
    and "rqKind req = ''Buckety''" and "rqOperation req = Update"
    and "rqBuckety req = Inr new" and "rqOldBuckety req = Some (Inr old)"
    and "stBackendResourceName (bStatus new) \<noteq> []"
    and "bSpec new = bSpec old" and "Name (bMeta new) = Name (bMeta old)" and "Namespace (bMeta new) = Namespace (bMeta old)"
    and "\<forall>be. Lookup cfg (bsBackend (bSpec new)) = Some be \<longrightarrow>
       (\<exists>ps. ResolvedParameters be (Name (bMeta new)) (Namespace (bMeta new)) (bsParameters (bSpec new)) = Inr ps \<and>
          dValidateParameters (beDriver be) ps = None)"
    and "\<forall>da. bsDefaultAccess (bSpec new) = Some da \<longrightarrow> daCredentialsSecretName da \<noteq> []"
  shows "\<exists>msg. Handle cfg req = Allowed msg []"
proof -
  have "\<forall>be. Lookup cfg (bsBackend (bSpec new)) = Some be \<longrightarrow> driver_ok (beDriver be) \<and>
       (\<exists>ps. ResolvedParameters be (Name (bMeta new)) (Namespace (bMeta new)) (bsParameters (bSpec new)) = Inr ps \<and>
          dValidateParameters (beDriver be) ps = None)"
    using assms(11) loaded_driver_ok [OF assms(1,2)] by blast
  from metadata_update_allowed [OF assms(3-10) this assms(12)] show ?thesis .
qed

theorem stamped_metadata_update_allowed_witness:
  "\<exists>msg. Handle demo_loaded (demo_admission Update (demo_buckety None RetentionDelete ''r'' ProvenanceCreated)) = Allowed msg []"
proof (rule stamped_metadata_update_allowed [OF demo_registry_contract demo_loads(1)])
  let ?b = "demo_buckety None RetentionDelete ''r'' ProvenanceCreated"
  show "rqBuckety (demo_admission Update ?b) = Inr ?b" "rqOldBuckety (demo_admission Update ?b) = Some (Inr ?b)"
    by (simp_all add: demo_admission_def)
  from demo_loads(2) obtain d where
    d: "demo_loaded = [(''objs'', \<lparr>beName = ''objs'', beDriver = d, beDefaults = [], beParameters = []\<rparr>)]"
      "dValidateParameters d = kadm_ValidateParameters" "dTemplatedParameters d = None" by blast
  show "\<forall>be. Lookup demo_loaded (bsBackend (bSpec ?b)) = Some be \<longrightarrow>
       (\<exists>ps. ResolvedParameters be (Name (bMeta ?b)) (Namespace (bMeta ?b)) (bsParameters (bSpec ?b)) = Inr ps \<and>
          dValidateParameters (beDriver be) ps = None)"
    by (simp add: d Lookup_def demo_buckety_def ResolvedParameters_def EffectiveParameters_def TemplatedParameters_def
        kadm_ValidateParameters_def)
qed (simp_all add: demo_admission_def demo_buckety_def)


section \<open>The two controllers on a re-pointed backend\<close>

text \<open>
  Drivers without anything to revoke for a principal: kadm and s3 never have, gcs has not when the
  principal is not the name of a key. What the backends keep, apart from the API server.
\<close>

fun revokes_nothing :: "('k, 'f, 'm, 's, 'g, 'p) built \<Rightarrow> string \<Rightarrow> bool" where
  "revokes_nothing (BuiltKadm _ _ _) p = True"
| "revokes_nothing (BuiltMysql _ _) p = False"
| "revokes_nothing (BuiltS3 _ _) p = True"
| "revokes_nothing (BuiltGcs _) p = (\<not> Contains p ''/keys/'')"

definition backend_worlds where
  "backend_worlds w = (swKadm w, swMysql w, swS3 w, swGcs w)"

lemma revokes_nothing_kept: "revokes_nothing x p \<Longrightarrow> dRevokeAccess (driver_of x) p w = (None, w)"
  by (cases x) (simp_all add: lift_driver_def on_part_def kadm_driver_def kadm_RevokeAccess_def s3_driver_def s3_RevokeAccess_def
      gcs_driver_def gcs_RevokeAccess_def)

lemma wired_worlds_apart: "outside_apart backend_worlds (wired A bs)"
  by (rule wired_apart) (simp add: backend_worlds_def)

text \<open>
  C39. The Buckety reconciler treats a backend that was re-pointed at another driver as
  unavailable, and releases nothing on it. The access reconciler's deletion path looks the
  backend up by name only. In a controller on any backends of the four drivers, take an access that
  is being deleted, of a Buckety stamped by another driver than the one its backend runs now, where
  that one is kadm or s3, or gcs while the recorded principal is not the name of a key, and an API
  server that serves the Buckety and accepts the update. Then the pass calls \<open>RevokeAccess\<close> of the
  driver configured now with the principal the other driver minted, gets success without a
  call to any backend service, and releases the access's finalizer, even when a revocable
  credential is recorded: the credential stays.
\<close>

theorem release_ignores_driver_change:
  fixes A :: "'a env" and bs :: "('k, 'f, 'm, 's, 'g, 'p) built_backend list"
  assumes "reads_access (wired A bs) req s a" and "being_deleted (aMeta a)" and "ContainsFinalizer (eKube (wired A bs)) (aMeta a) FinalizerCleanup"
    and "\<forall>w. fst (rdGetBuckety (reader.truncate (eClient (wired A bs))) (buckety_key a) w) = Inr bky"
    and "Lookup (eConfig (wired A bs)) (bsBackend (bSpec bky)) = Some be" and b: "be = backend_of b"
    and "stDriver (bStatus bky) \<noteq> []" and "stDriver (bStatus bky) \<noteq> dName (beDriver be)"
    and "revokes_nothing (bbDriver b) (atPrincipal (aStatus a))"
    and "\<forall>x w. \<exists>x'. fst (clUpdateAccess (eClient (wired A bs)) x w) = Inr x'"
  shows "(\<exists>msg. resolve_backend (wired A bs) bky = Inl (''DriverChanged'', msg)) \<and>
    pass_out (access_Reconcile (wired A bs) req) s = (0, None) \<and>
    pass_log (access_Reconcile (wired A bs) req) s =
      [BucketyRead (buckety_key a) (Inr bky), Revoked (bbName b) (atPrincipal (aStatus a)) None,
       AccessUpdated (a\<lparr>aMeta := RemoveFinalizer (eKube (wired A bs)) (aMeta a) FinalizerCleanup\<rparr>) None] \<and>
    backend_worlds (world (snd (run_state (access_Reconcile (wired A bs) req) s))) = backend_worlds (world s)"
proof -
  let ?a = "a\<lparr>aMeta := RemoveFinalizer (eKube (wired A bs)) (aMeta a) FinalizerCleanup\<rparr>"
  have be: "beName be = bbName b" "beDriver be = driver_of (bbDriver b)" by (simp_all add: b backend_of_def)
  have apart: "outside_apart backend_worlds (wired A bs)" by (rule wired_worlds_apart)
  obtain w1 where w1: "rdGetAccess (reader.truncate (eClient (wired A bs))) req (world s) = (Inr a, w1)"
    using assms(1) by (metis prod.collapse)
  obtain w2 where w2: "rdGetBuckety (reader.truncate (eClient (wired A bs))) (buckety_key a) w1 = (Inr bky, w2)"
    using assms(4) by (metis prod.collapse)
  obtain x w3 where w3: "clUpdateAccess (eClient (wired A bs)) ?a w2 = (Inr x, w3)"
    using assms(10) by (metis prod.collapse)
  have r: "dRevokeAccess (driver_of (bbDriver b)) (atPrincipal (aStatus a)) w2 = (None, w2)" by (rule revokes_nothing_kept [OF assms(9)])
  have "backend_worlds w1 = backend_worlds (world s)" "backend_worlds w2 = backend_worlds w1" "backend_worlds w3 = backend_worlds w2"
    using apart w1 w2 w3 unfolding outside_apart_def reads_apart_def writes_apart_def apart_def by (metis snd_conv)+
  moreover have "run_state (access_Reconcile (wired A bs) req) s = ((0, None), s\<lparr>world := w3, trace := trace s @
      [BucketyRead (buckety_key a) (Inr bky), Revoked (bbName b) (atPrincipal (aStatus a)) None, AccessUpdated ?a None]\<rparr>)"
    using w1 w2 w3 assms(2,3,5) r
    by (simp add: access_Reconcile_def access_body_def access_deletion_def release_access_def be call_def ext_def emit_def err_of_def Let_def)
  moreover have "\<exists>msg. resolve_backend (wired A bs) bky = Inl (''DriverChanged'', msg)"
    using assms(5,7,8) by (simp add: resolve_backend_def)
  ultimately show ?thesis by (simp add: pass_out_def pass_log_def)
qed

text \<open>A database user's account, on a backend that now runs the gcs driver.\<close>

theorem release_ignores_driver_change_witness:
  "let bky = demo_ready\<lparr>bStatus := (bStatus demo_ready)\<lparr>stDriver := ''mysql''\<rparr>\<rparr>; a = demo_access (Some 1) ''b_ns_app'';
       E = wired (demo_env (demo_client (Some bky) (Some a) [] None) inert_driver) [demo_gcs_backend]
   in atPrincipalRevocable (aStatus a) \<and> (\<exists>msg. resolve_backend E bky = Inl (''DriverChanged'', msg)) \<and>
      AccessUpdated (a\<lparr>aMeta := RemoveFinalizer (eKube E) (aMeta a) FinalizerCleanup\<rparr>) None \<in> set (pass_log (access_Reconcile E demo_key) demo_gcs_sys) \<and>
      backend_worlds (world (snd (run_state (access_Reconcile E demo_key) demo_gcs_sys))) = backend_worlds (world demo_gcs_sys)"
proof -
  let ?bky = "demo_ready\<lparr>bStatus := (bStatus demo_ready)\<lparr>stDriver := ''mysql''\<rparr>\<rparr>" and ?a = "demo_access (Some 1) ''b_ns_app''"
  let ?A = "demo_env (demo_client (Some ?bky) (Some ?a) [] None) inert_driver"
  let ?E = "wired ?A [demo_gcs_backend]"
  note d = wired_def api_client_def api_reader_def on_part_def reader.defs demo_defs
  have "revokes_nothing (bbDriver demo_gcs_backend) (atPrincipal (aStatus ?a))"
    by (simp add: demo_gcs_backend_def demo_access_def) code_simp
  moreover have "reads_access ?E demo_key demo_gcs_sys ?a" by (simp add: d)
  moreover have "being_deleted (aMeta ?a)" "ContainsFinalizer (eKube ?E) (aMeta ?a) FinalizerCleanup"
    by (simp_all add: d being_deleted_def documented_kube_def)
  moreover have "\<forall>w. fst (rdGetBuckety (reader.truncate (eClient ?E)) (buckety_key ?a) w) = Inr ?bky" by (simp add: d)
  moreover have "Lookup (eConfig ?E) (bsBackend (bSpec ?bky)) = Some (backend_of demo_gcs_backend)"
    by (simp add: d Lookup_def demo_gcs_backend_def)
  moreover have "stDriver (bStatus ?bky) \<noteq> []" "stDriver (bStatus ?bky) \<noteq> dName (beDriver (backend_of demo_gcs_backend :: (unit, unit, int, unit, unit, ObjectAttrs list, string list) shipped_world Backend))"
    by (simp_all add: demo_gcs_backend_def backend_of_def driver_names)
  moreover have "\<forall>x w. \<exists>x'. fst (clUpdateAccess (eClient ?E) x w) = Inr x'" by (simp add: d)
  ultimately have "(\<exists>msg. resolve_backend ?E ?bky = Inl (''DriverChanged'', msg)) \<and>
      pass_out (access_Reconcile ?E demo_key) demo_gcs_sys = (0, None) \<and>
      pass_log (access_Reconcile ?E demo_key) demo_gcs_sys =
        [BucketyRead (buckety_key ?a) (Inr ?bky), Revoked (bbName demo_gcs_backend) (atPrincipal (aStatus ?a)) None,
         AccessUpdated (?a\<lparr>aMeta := RemoveFinalizer (eKube ?E) (aMeta ?a) FinalizerCleanup\<rparr>) None] \<and>
      backend_worlds (world (snd (run_state (access_Reconcile ?E demo_key) demo_gcs_sys))) = backend_worlds (world demo_gcs_sys)"
    by (intro release_ignores_driver_change [where be = "backend_of demo_gcs_backend"] refl)
  moreover have "atPrincipalRevocable (aStatus ?a)" by (simp add: demo_access_def)
  ultimately show ?thesis unfolding Let_def by simp
qed

end
